(* ===== verification/Prelude.thy ===== *)
theory Prelude
  imports Complex_Main
begin

text \<open>
  Vocabulary shared by every component of the development: results that are
  either an error or a value, the sequencing of fallible steps, the fold that a
  \<open>for ... of\<close> loop with awaits becomes, and the list lemmas that table
  operations rest on.  Facts that component proofs pass to the simplifier are
  collected in \<open>res_simps\<close> (results) and \<open>tbl_simps\<close> (tables).
\<close>

named_theorems res_simps \<open>equations for results and their sequencing\<close>
named_theorems tbl_simps \<open>equations for table operations\<close>

section \<open>Results\<close>

type_synonym ('e, 'a) res = "'e + 'a"

text \<open>An operation that throws stops the rest of the handler.\<close>

fun bindR :: "('e, 'a) res \<Rightarrow> ('a \<Rightarrow> ('e, 'b) res) \<Rightarrow> ('e, 'b) res" where
  "bindR (Inl e) f = Inl e"
| "bindR (Inr x) f = f x"

definition guardR :: "bool \<Rightarrow> 'e \<Rightarrow> ('e, unit) res" where
  "guardR b e = (if b then Inr () else Inl e)"

fun okR :: "('e, 'a) res \<Rightarrow> bool" where
  "okR (Inl e) = False"
| "okR (Inr x) = True"

lemma bindR_Inr_iff [res_simps]: "bindR m f = Inr y \<longleftrightarrow> (\<exists>x. m = Inr x \<and> f x = Inr y)"
  by (cases m) auto

lemma bindR_Inl_iff [res_simps]:
  "bindR m f = Inl e \<longleftrightarrow> m = Inl e \<or> (\<exists>x. m = Inr x \<and> f x = Inl e)"
  by (cases m) auto

lemma bindR_split:
  "P (bindR m f) \<longleftrightarrow> (\<forall>e. m = Inl e \<longrightarrow> P (Inl e)) \<and> (\<forall>x. m = Inr x \<longrightarrow> P (f x))"
  by (cases m) auto

lemma bindR_assoc: "bindR (bindR m f) g = bindR m (\<lambda>x. bindR (f x) g)"
  by (cases m) auto

lemma guardR_Inr [res_simps]: "guardR b e = Inr u \<longleftrightarrow> b"
  by (simp add: guardR_def)

lemma guardR_Inl [res_simps]: "guardR b e = Inl e' \<longleftrightarrow> \<not> b \<and> e' = e"
  by (auto simp: guardR_def)

lemma okR_iff: "okR m \<longleftrightarrow> (\<exists>x. m = Inr x)"
  by (cases m) auto

text \<open>
  \<open>if (!x) throw e\<close> on an optional value, and \<open>try { m } catch { throw e }\<close>.
\<close>

definition requireR :: "'e \<Rightarrow> 'a option \<Rightarrow> ('e, 'a) res" where
  "requireR e x = (case x of None \<Rightarrow> Inl e | Some a \<Rightarrow> Inr a)"

definition rethrowR :: "'e \<Rightarrow> ('f, 'a) res \<Rightarrow> ('e, 'a) res" where
  "rethrowR e m = (case m of Inl x \<Rightarrow> Inl e | Inr a \<Rightarrow> Inr a)"

lemma requireR_Inr [res_simps]: "requireR e x = Inr a \<longleftrightarrow> x = Some a"
  by (simp add: requireR_def split: option.split)

lemma requireR_Inl [res_simps]: "requireR e x = Inl e' \<longleftrightarrow> x = None \<and> e' = e"
  by (auto simp: requireR_def split: option.split)

lemma rethrowR_Inr [res_simps]: "rethrowR e m = Inr a \<longleftrightarrow> m = Inr a"
  by (simp add: rethrowR_def split: sum.split)

lemma rethrowR_Inl [res_simps]: "rethrowR e m = Inl e' \<longleftrightarrow> e' = e \<and> \<not> okR m"
  by (cases m) (auto simp: rethrowR_def)

text \<open>\<open>try { s = m } catch { log }\<close>: a throw is logged and leaves the state as it was.\<close>

definition attemptR :: "'s \<Rightarrow> ('e, 's) res \<Rightarrow> 's" where
  "attemptR s m = (case m of Inl e \<Rightarrow> s | Inr s' \<Rightarrow> s')"

lemma attemptR_simps [simp]: "attemptR s (Inl e) = s" "attemptR s (Inr s') = s'"
  by (simp_all add: attemptR_def)

lemma attemptR_cases:
  obtains (failed) "attemptR s m = s" | (done_) "m = Inr (attemptR s m)"
  by (cases m) auto

section \<open>Loops over a list\<close>

text \<open>
  \<open>for (const x of xs) { await step(x) }\<close>: the state is threaded through the
  iterations and the first throw ends the loop.
\<close>

fun forEach :: "('x \<Rightarrow> 's \<Rightarrow> ('e, 's) res) \<Rightarrow> 'x list \<Rightarrow> 's \<Rightarrow> ('e, 's) res" where
  "forEach step [] s = Inr s"
| "forEach step (x # xs) s = bindR (step x s) (forEach step xs)"

lemma forEach_append:
  "forEach step (xs @ ys) s = bindR (forEach step xs s) (forEach step ys)"
proof (induction xs arbitrary: s)
  case (Cons x xs)
  then show ?case by (cases "step x s") auto
qed simp

lemma forEach_invariant:
  assumes "forEach step xs s = Inr s'" and "I s"
    and "\<And>x s s'. x \<in> set xs \<Longrightarrow> I s \<Longrightarrow> step x s = Inr s' \<Longrightarrow> I s'"
  shows "I s'"
  using assms
proof (induction xs arbitrary: s)
  case Nil
  then show ?case by simp
next
  case (Cons x xs)
  then obtain s1 where "step x s = Inr s1" "forEach step xs s1 = Inr s'"
    by (auto simp: res_simps)
  with Cons show ?case by (metis list.set_intros)
qed

lemma forEach_preserves:
  assumes "forEach step xs s = Inr s'"
    and "\<And>x s s'. step x s = Inr s' \<Longrightarrow> f s' = f s"
  shows "f s' = f s"
  using forEach_invariant [of step xs s s' "\<lambda>t. f t = f s"] assms by auto

lemma forEach_total:
  assumes "\<And>x s. x \<in> set xs \<Longrightarrow> okR (step x s)"
  shows "okR (forEach step xs s)"
  using assms
proof (induction xs arbitrary: s)
  case Nil
  then show ?case by simp
next
  case (Cons x xs)
  then obtain s1 where "step x s = Inr s1" by (metis list.set_intros(1) okR_iff)
  with Cons show ?case by simp
qed

lemma forEach_pure:
  "forEach (\<lambda>x s. Inr (g x s)) xs s = Inr (fold g xs s)"
  by (induction xs arbitrary: s) auto

section \<open>Lists of rows\<close>

definition upd_where :: "('r \<Rightarrow> bool) \<Rightarrow> ('r \<Rightarrow> 'r) \<Rightarrow> 'r list \<Rightarrow> 'r list" where
  "upd_where p f rs = map (\<lambda>r. if p r then f r else r) rs"

lemma length_upd_where [simp]: "length (upd_where p f rs) = length rs"
  by (simp add: upd_where_def)

lemma upd_where_none: "(\<And>r. r \<in> set rs \<Longrightarrow> \<not> p r) \<Longrightarrow> upd_where p f rs = rs"
  by (auto simp: upd_where_def intro: map_idI)

lemma map_upd_where:
  "(\<And>r. p r \<Longrightarrow> k (f r) = k r) \<Longrightarrow> map k (upd_where p f rs) = map k rs"
  by (auto simp: upd_where_def)

lemma set_upd_where:
  "set (upd_where p f rs) = {r \<in> set rs. \<not> p r} \<union> f ` {r \<in> set rs. p r}"
  by (auto simp: upd_where_def)

lemma find_upd_where:
  assumes "\<And>r. p r \<Longrightarrow> q (f r) = q r"
  shows "find q (upd_where p f rs) =
         map_option (\<lambda>r. if p r then f r else r) (find q rs)"
  using assms by (induction rs) (auto simp: upd_where_def)

lemma find_append: "find p (xs @ ys) = (case find p xs of None \<Rightarrow> find p ys | Some x \<Rightarrow> Some x)"
  by (induction xs) auto

lemma find_SomeD: "find p xs = Some x \<Longrightarrow> x \<in> set xs \<and> p x"
  by (induction xs) (auto split: if_splits)

lemma find_distinct_key:
  assumes "distinct (map k xs)" and "x \<in> set xs" and "p x"
    and "\<And>y. y \<in> set xs \<Longrightarrow> p y \<Longrightarrow> k y = k x"
  shows "find p xs = Some x"
  using assms
proof (induction xs)
  case (Cons y ys)
  show ?case
  proof (cases "p y")
    case True
    then have k: "k y = k x" using Cons.prems(4) by simp
    have "x \<notin> set ys"
    proof
      assume "x \<in> set ys"
      then have "k x \<in> k ` set ys" by (rule imageI)
      with k Cons.prems(1) show False by simp
    qed
    with Cons.prems(2) have "x = y" by simp
    with True show ?thesis by simp
  next
    case False
    with Cons.prems(3) have "x \<noteq> y" by auto
    with Cons.prems(2) have "x \<in> set ys" by simp
    moreover have "distinct (map k ys)" using Cons.prems(1) by simp
    moreover have "\<And>z. z \<in> set ys \<Longrightarrow> p z \<Longrightarrow> k z = k x" using Cons.prems(4) by simp
    ultimately have "find p ys = Some x" using Cons.IH Cons.prems(3) by blast
    with False show ?thesis by simp
  qed
qed simp

lemma sum_list_filter_split:
  fixes g :: "'a \<Rightarrow> 'b::comm_monoid_add"
  shows "sum_list (map g xs) =
         sum_list (map g (filter p xs)) + sum_list (map g (filter (\<lambda>x. \<not> p x) xs))"
  by (induction xs) (auto simp: algebra_simps)

lemma sum_list_nonneg_int: "(\<And>x. x \<in> set xs \<Longrightarrow> 0 \<le> x) \<Longrightarrow> (0::int) \<le> sum_list xs"
  by (induction xs) auto

end
