(* ===== verification/Types_Config.thy ===== *)
theory Types_Config
  imports Prelude
begin

text \<open>
  The enumerations of \<open>config/types.ts\<close> and of the model files, with the numbers
  the database stores, and the exceptions a handler can throw
  (\<open>lib/exceptions/exceptions.ts\<close>) with the answer the exception filter turns
  them into.
\<close>

section \<open>Stored enumerations\<close>

datatype SqlModelStatus = DRAFT | ACTIVE | DELETED

fun sqlModelStatusNo :: "SqlModelStatus \<Rightarrow> int" where
  "sqlModelStatusNo DRAFT = 1"
| "sqlModelStatusNo ACTIVE = 5"
| "sqlModelStatusNo DELETED = 9"

datatype DefaultUserRole = ROLE_ADMIN | ROLE_USER

fun defaultUserRoleNo :: "DefaultUserRole \<Rightarrow> nat" where
  "defaultUserRoleNo ROLE_ADMIN = 1"
| "defaultUserRoleNo ROLE_USER = 2"

datatype PredictionSetStatus =
  PS_INITIALIZED | PS_PENDING | PS_FUNDING | PS_ACTIVE | PS_VOTING | PS_FINALIZED | PS_ERROR

fun predictionSetStatusNo :: "PredictionSetStatus \<Rightarrow> int" where
  "predictionSetStatusNo PS_INITIALIZED = 1"
| "predictionSetStatusNo PS_PENDING = 2"
| "predictionSetStatusNo PS_FUNDING = 3"
| "predictionSetStatusNo PS_ACTIVE = 4"
| "predictionSetStatusNo PS_VOTING = 5"
| "predictionSetStatusNo PS_FINALIZED = 6"
| "predictionSetStatusNo PS_ERROR = 7"

datatype ResolutionType = RT_AUTOMATIC | RT_MANUAL

fun resolutionTypeNo :: "ResolutionType \<Rightarrow> int" where
  "resolutionTypeNo RT_AUTOMATIC = 1"
| "resolutionTypeNo RT_MANUAL = 2"

text \<open>Status the oracle contract keeps for a question.\<close>

datatype PredictionSetBcStatus = BC_INVALID | BC_ACTIVE | BC_VOTING | BC_FINALIZED

fun predictionSetBcStatusNo :: "PredictionSetBcStatus \<Rightarrow> int" where
  "predictionSetBcStatusNo BC_INVALID = 0"
| "predictionSetBcStatusNo BC_ACTIVE = 1"
| "predictionSetBcStatusNo BC_VOTING = 2"
| "predictionSetBcStatusNo BC_FINALIZED = 3"

datatype ProposalRoundStatus = ROUND_INITIALIZED | ROUND_ACTIVE | ROUND_FINISHED

datatype ProposalVoteType = UPVOTE | DOWNVOTE | NEUTRALIZED

fun proposalVoteTypeNo :: "ProposalVoteType \<Rightarrow> int" where
  "proposalVoteTypeNo UPVOTE = 1"
| "proposalVoteTypeNo DOWNVOTE = - 1"
| "proposalVoteTypeNo NEUTRALIZED = 0"

datatype ShareTransactionType = ST_BUY | ST_SELL | ST_FUND

datatype FundingTransactionType = FT_ADDED | FT_REMOVED

datatype CommentEntityTypes = CE_PREDICTION_SET | CE_PROPOSAL

datatype JobStatus = JOB_INCOMPLETE | JOB_ACTIVE | JOB_LOCKED | JOB_DEACTIVATED

datatype UserEmailStatus = EMAIL_PENDING | EMAIL_VERIFIED

section \<open>Error codes\<close>

datatype (plugins only: code size) ValidatorErrorCode =
  DEFAULT_VALIDATION_ERROR | TOKEN_NOT_PRESENT | USER_ID_NOT_PRESENT | STATUS_NOT_PRESENT
  | TYPE_NOT_PRESENT | WALLET_LOGIN_DTO_ADDRESS_NOT_PRESENT
  | WALLET_LOGIN_DTO_SIGNATURE_NOT_PRESENT | WALLET_LOGIN_DTO_TIMESTAMP_NOT_PRESENT
  | PREDICTION_SET_QUESTION_NOT_PRESENT | PREDICTION_SET_DESCRIPTION_NOT_PRESENT
  | PREDICTION_SET_GENERAL_RESOLUTION_NOT_PRESENT
  | PREDICTION_SET_OUTCOME_RESOLUTION_NOT_PRESENT | PREDICTION_SET_OUTCOME_PRICE_NOT_PRESENT
  | PREDICTION_SET_START_TIME_NOT_PRESENT | PREDICTION_SET_END_TIME_NOT_PRESENT
  | PREDICTION_SET_RESOLUTION_TIME_NOT_PRESENT
  | PREDICTION_SET_DTO_DATA_SOURCE_IDS_NOT_PRESENT
  | PREDICTION_SET_DTO_PREDICTION_OUTCOMES_NOT_PRESENT
  | PREDICTION_SET_DTO_PREDICTION_OUTCOMES_NOT_VALID | OUTCOME_NAME_NOT_PRESENT
  | COMMENT_ENTITY_ID_NOT_PRESENT | COMMENT_ENTITY_TYPE_NOT_PRESENT
  | COMMENT_CONTENT_NOT_PRESENT | USER_PROFILE_DTO_USERNAME_NOT_PRESENT
  | USER_EMAIL_NOT_VALID | USER_EMAIL_NOT_PRESENT | USER_EMAIL_ALREADY_TAKEN
  | PREDICTION_SET_CONSENSUS_THRESHOLD_NOT_PRESENT_OR_VALID
  | PREDICTION_SET_CHANCE_HISTORY_RANGE_NOT_VALID | PROPOSAL_QUESTION_NOT_PRESENT
  | PROPOSAL_GENERAL_RESOLUTION_NOT_PRESENT | PROPOSAL_OUTCOME_RESOLUTION_NOT_PRESENT
  | PROPOSAL_VOTE_TYPE_NOT_VALID | COMMENT_ENTITY_TYPE_NOT_VALID
  | TOP_USERS_QUERY_FILTER_COLLATERAL_TOKEN_ID_NOT_PRESENT
  | DATA_SOURCE_ENDPOINT_NOT_PRESENT | DATA_SOURCE_JQ_QUERY_NOT_PRESENT
  | DATA_SOURCE_ABI_NOT_PRESENT | PREDICTION_SET_ATTESTATION_TIME_NOT_PRESENT
  | GENERATE_SUGGESTIONS_PROMPT_NOT_PRESENT | FILE_NAME_NOT_PRESENT
  | AIRDROP_USER_WALLET_ADDRESS_NOT_PRESENT | AIRDROP_USER_WALLET_ADDRESS_NOT_UNIQUE
  | AIRDROP_USER_EMAIL_NOT_PRESENT | AIRDROP_USER_EMAIL_NOT_UNIQUE
  | AIRDROP_USER_EMAIL_NOT_VALID | PREDICTION_SET_HIDE_STATE_NOT_PRESENT
  | CREATE_SOCIAL_POST_SOCIAL_MEDIAS_NOT_PRESENT | CREATE_SOCIAL_POST_SOCIAL_MEDIAS_INVALID
  | CREATE_SOCIAL_POST_MESSAGE_NOT_PRESENT

primrec validatorErrorCodeNo :: "ValidatorErrorCode \<Rightarrow> int" where
  "validatorErrorCodeNo DEFAULT_VALIDATION_ERROR = 42200000"
| "validatorErrorCodeNo TOKEN_NOT_PRESENT = 42200001"
| "validatorErrorCodeNo USER_ID_NOT_PRESENT = 42200002"
| "validatorErrorCodeNo STATUS_NOT_PRESENT = 42200003"
| "validatorErrorCodeNo TYPE_NOT_PRESENT = 42200004"
| "validatorErrorCodeNo WALLET_LOGIN_DTO_ADDRESS_NOT_PRESENT = 42200005"
| "validatorErrorCodeNo WALLET_LOGIN_DTO_SIGNATURE_NOT_PRESENT = 42200006"
| "validatorErrorCodeNo WALLET_LOGIN_DTO_TIMESTAMP_NOT_PRESENT = 42200007"
| "validatorErrorCodeNo PREDICTION_SET_QUESTION_NOT_PRESENT = 42200008"
| "validatorErrorCodeNo PREDICTION_SET_DESCRIPTION_NOT_PRESENT = 42200009"
| "validatorErrorCodeNo PREDICTION_SET_GENERAL_RESOLUTION_NOT_PRESENT = 42200010"
| "validatorErrorCodeNo PREDICTION_SET_OUTCOME_RESOLUTION_NOT_PRESENT = 42200011"
| "validatorErrorCodeNo PREDICTION_SET_OUTCOME_PRICE_NOT_PRESENT = 42200012"
| "validatorErrorCodeNo PREDICTION_SET_START_TIME_NOT_PRESENT = 42200013"
| "validatorErrorCodeNo PREDICTION_SET_END_TIME_NOT_PRESENT = 42200014"
| "validatorErrorCodeNo PREDICTION_SET_RESOLUTION_TIME_NOT_PRESENT = 42200015"
| "validatorErrorCodeNo PREDICTION_SET_DTO_DATA_SOURCE_IDS_NOT_PRESENT = 42200016"
| "validatorErrorCodeNo PREDICTION_SET_DTO_PREDICTION_OUTCOMES_NOT_PRESENT = 42200017"
| "validatorErrorCodeNo PREDICTION_SET_DTO_PREDICTION_OUTCOMES_NOT_VALID = 42200018"
| "validatorErrorCodeNo OUTCOME_NAME_NOT_PRESENT = 42200019"
| "validatorErrorCodeNo COMMENT_ENTITY_ID_NOT_PRESENT = 42200020"
| "validatorErrorCodeNo COMMENT_ENTITY_TYPE_NOT_PRESENT = 42200021"
| "validatorErrorCodeNo COMMENT_CONTENT_NOT_PRESENT = 42200022"
| "validatorErrorCodeNo USER_PROFILE_DTO_USERNAME_NOT_PRESENT = 42200023"
| "validatorErrorCodeNo USER_EMAIL_NOT_VALID = 42200024"
| "validatorErrorCodeNo USER_EMAIL_NOT_PRESENT = 42200025"
| "validatorErrorCodeNo USER_EMAIL_ALREADY_TAKEN = 42200026"
| "validatorErrorCodeNo PREDICTION_SET_CONSENSUS_THRESHOLD_NOT_PRESENT_OR_VALID = 42200027"
| "validatorErrorCodeNo PREDICTION_SET_CHANCE_HISTORY_RANGE_NOT_VALID = 42200028"
| "validatorErrorCodeNo PROPOSAL_QUESTION_NOT_PRESENT = 42200029"
| "validatorErrorCodeNo PROPOSAL_GENERAL_RESOLUTION_NOT_PRESENT = 42200030"
| "validatorErrorCodeNo PROPOSAL_OUTCOME_RESOLUTION_NOT_PRESENT = 42200031"
| "validatorErrorCodeNo PROPOSAL_VOTE_TYPE_NOT_VALID = 42200032"
| "validatorErrorCodeNo COMMENT_ENTITY_TYPE_NOT_VALID = 42200033"
| "validatorErrorCodeNo TOP_USERS_QUERY_FILTER_COLLATERAL_TOKEN_ID_NOT_PRESENT = 42200034"
| "validatorErrorCodeNo DATA_SOURCE_ENDPOINT_NOT_PRESENT = 42200035"
| "validatorErrorCodeNo DATA_SOURCE_JQ_QUERY_NOT_PRESENT = 42200036"
| "validatorErrorCodeNo DATA_SOURCE_ABI_NOT_PRESENT = 42200037"
| "validatorErrorCodeNo PREDICTION_SET_ATTESTATION_TIME_NOT_PRESENT = 42200038"
| "validatorErrorCodeNo GENERATE_SUGGESTIONS_PROMPT_NOT_PRESENT = 42200039"
| "validatorErrorCodeNo FILE_NAME_NOT_PRESENT = 42200040"
| "validatorErrorCodeNo AIRDROP_USER_WALLET_ADDRESS_NOT_PRESENT = 42200041"
| "validatorErrorCodeNo AIRDROP_USER_WALLET_ADDRESS_NOT_UNIQUE = 42200042"
| "validatorErrorCodeNo AIRDROP_USER_EMAIL_NOT_PRESENT = 42200043"
| "validatorErrorCodeNo AIRDROP_USER_EMAIL_NOT_UNIQUE = 42200044"
| "validatorErrorCodeNo AIRDROP_USER_EMAIL_NOT_VALID = 42200045"
| "validatorErrorCodeNo PREDICTION_SET_HIDE_STATE_NOT_PRESENT = 42200046"
| "validatorErrorCodeNo CREATE_SOCIAL_POST_SOCIAL_MEDIAS_NOT_PRESENT = 42200047"
| "validatorErrorCodeNo CREATE_SOCIAL_POST_SOCIAL_MEDIAS_INVALID = 42200048"
| "validatorErrorCodeNo CREATE_SOCIAL_POST_MESSAGE_NOT_PRESENT = 42200049"

text \<open>
  The remaining code enumerations are one datatype here, each with its number:
  authorization, resource not found, conflict, bad request, system and
  unauthorized errors.
\<close>

datatype (plugins only: code size) ApiErrorCode =
  DEFAULT_AUTHORIZATION_ERROR | NOT_AUTHORIZED_TO_AUTHENTICATE | INSUFFICIENT_ROLES
  | NOT_AUTHORIZED_TO_READ_USER | OWNERSHIP_MISMATCH
  | DEFAULT_RESOURCE_NOT_FOUND_ERROR | USER_DOES_NOT_EXISTS | DATA_SOURCE_DOES_NOT_EXISTS
  | PREDICTION_SET_DOES_NOT_EXISTS | COMMENT_DOES_NOT_EXISTS
  | PREDICTION_SET_PROPOSAL_DOES_NOT_EXISTS | PREDICTION_SET_PROPOSAL_ROUND_DOES_NOT_EXISTS
  | PREDICTION_SET_PROPOSAL_ACTIVE_ROUND_DOES_NOT_EXISTS | REWARD_POINTS_DOES_NOT_EXISTS
  | COLLATERAL_TOKEN_DOES_NOT_EXISTS | TEMPLATE_NOT_FOUND | BANNER_DOES_NOT_EXISTS
  | DEFAULT_CONFLICT_ERROR
  | DEFAULT_BAD_REQUEST_ERROR | INVALID_PREDICTION_SET_STATUS
  | INVALID_NUMBER_OF_PREDICTION_SET_DATA_SOURCES | PROPOSAL_ROUND_NOT_ACTIVE
  | PROPOSAL_AUTHOR_CANNOT_VOTE | DAILY_REWARD_ALREADY_CLAIMED | PROPOSAL_CANNOT_BE_UPDATED
  | TEXT_CONTENT_NOT_SAFE
  | DEFAULT_SYSTEM_ERROR | UNHANDLED_SYSTEM_ERROR | SQL_SYSTEM_ERROR | AWS_SYSTEM_ERROR
  | MICROSERVICE_SYSTEM_ERROR | BLOCKCHAIN_SYSTEM_ERROR | ERROR_SENDING_EMAIL
  | UNAUTHORIZED | INVALID_TOKEN | INVALID_SIGNATURE

primrec apiErrorCodeNo :: "ApiErrorCode \<Rightarrow> int" where
  "apiErrorCodeNo DEFAULT_AUTHORIZATION_ERROR = 40300000"
| "apiErrorCodeNo NOT_AUTHORIZED_TO_AUTHENTICATE = 40300001"
| "apiErrorCodeNo INSUFFICIENT_ROLES = 40300002"
| "apiErrorCodeNo NOT_AUTHORIZED_TO_READ_USER = 40300003"
| "apiErrorCodeNo OWNERSHIP_MISMATCH = 40300004"
| "apiErrorCodeNo DEFAULT_RESOURCE_NOT_FOUND_ERROR = 40400000"
| "apiErrorCodeNo USER_DOES_NOT_EXISTS = 40400001"
| "apiErrorCodeNo DATA_SOURCE_DOES_NOT_EXISTS = 40400002"
| "apiErrorCodeNo PREDICTION_SET_DOES_NOT_EXISTS = 40400003"
| "apiErrorCodeNo COMMENT_DOES_NOT_EXISTS = 40400004"
| "apiErrorCodeNo PREDICTION_SET_PROPOSAL_DOES_NOT_EXISTS = 40400005"
| "apiErrorCodeNo PREDICTION_SET_PROPOSAL_ROUND_DOES_NOT_EXISTS = 40400006"
| "apiErrorCodeNo PREDICTION_SET_PROPOSAL_ACTIVE_ROUND_DOES_NOT_EXISTS = 40400007"
| "apiErrorCodeNo REWARD_POINTS_DOES_NOT_EXISTS = 40400008"
| "apiErrorCodeNo COLLATERAL_TOKEN_DOES_NOT_EXISTS = 40400009"
| "apiErrorCodeNo TEMPLATE_NOT_FOUND = 404010"
| "apiErrorCodeNo BANNER_DOES_NOT_EXISTS = 404011"
| "apiErrorCodeNo DEFAULT_CONFLICT_ERROR = 40900000"
| "apiErrorCodeNo DEFAULT_BAD_REQUEST_ERROR = 40000000"
| "apiErrorCodeNo INVALID_PREDICTION_SET_STATUS = 40000001"
| "apiErrorCodeNo INVALID_NUMBER_OF_PREDICTION_SET_DATA_SOURCES = 40000002"
| "apiErrorCodeNo PROPOSAL_ROUND_NOT_ACTIVE = 40000003"
| "apiErrorCodeNo PROPOSAL_AUTHOR_CANNOT_VOTE = 40000004"
| "apiErrorCodeNo DAILY_REWARD_ALREADY_CLAIMED = 40000005"
| "apiErrorCodeNo PROPOSAL_CANNOT_BE_UPDATED = 40000006"
| "apiErrorCodeNo TEXT_CONTENT_NOT_SAFE = 40000007"
| "apiErrorCodeNo DEFAULT_SYSTEM_ERROR = 50000000"
| "apiErrorCodeNo UNHANDLED_SYSTEM_ERROR = 50000001"
| "apiErrorCodeNo SQL_SYSTEM_ERROR = 50000002"
| "apiErrorCodeNo AWS_SYSTEM_ERROR = 50000003"
| "apiErrorCodeNo MICROSERVICE_SYSTEM_ERROR = 50000004"
| "apiErrorCodeNo BLOCKCHAIN_SYSTEM_ERROR = 50000005"
| "apiErrorCodeNo ERROR_SENDING_EMAIL = 500006"
| "apiErrorCodeNo UNAUTHORIZED = 40100000"
| "apiErrorCodeNo INVALID_TOKEN = 40100001"
| "apiErrorCodeNo INVALID_SIGNATURE = 40100002"

section \<open>Exceptions\<close>

text \<open>
  A handler ends in one of these; a \<open>CodeException\<close> may carry a validator's code,
  which is a constructor of its own here.  \<open>JsError\<close> is a plain JavaScript error, such
  as the one the SQL layer rethrows.
\<close>

datatype exn =
  CodeException (exn_status: int) (exn_code: ApiErrorCode)
  | ValidatorCodeException int ValidatorErrorCode
  | ValidationException "ValidatorErrorCode list"
  | ModelValidationException "ValidatorErrorCode list"
  | JsError string

text \<open>
  \<open>filters/exception.filter.ts\<close>: the HTTP status and the code in the answer.
  A \<open>ModelValidationException\<close> answers with the list of errors and no code of
  its own; a plain \<open>ValidationException\<close> takes the branch of status 422, where
  the instance has no \<open>code\<close> field and the microservice code is reported.
\<close>

definition exceptionsFilter :: "exn \<Rightarrow> int \<times> int option" where
  "exceptionsFilter e = (case e of
      CodeException st c \<Rightarrow> (st, Some (apiErrorCodeNo c))
    | ValidatorCodeException st c \<Rightarrow> (st, Some (validatorErrorCodeNo c))
    | ModelValidationException errs \<Rightarrow> (422, None)
    | ValidationException v \<Rightarrow> (422, Some (apiErrorCodeNo MICROSERVICE_SYSTEM_ERROR))
    | JsError m \<Rightarrow> (500, Some (apiErrorCodeNo UNHANDLED_SYSTEM_ERROR)))"

end
