(* ===== verification/Sql_Model.thy ===== *)
theory Sql_Model
  imports Types_Config
begin

text \<open>
  The persistence layer: \<open>lib/base-models/advanced-sql.model.ts\<close> and
  \<open>base-sql.model.ts\<close> over one table, and the transactions of
  \<open>lib/database/mysql.ts\<close>.  A table is the list of its rows in insertion order
  with the counter of the next generated id; the columns every model inherits
  are the fields of \<open>row\<close>, which the record of each model extends.  The id 0
  stands for a model without an id (\<open>exists()\<close> is the truth of the id).  MySQL
  runs the statements: what they do to a table is the documented meaning of the
  SQL text, one statement at a time.
\<close>

section \<open>Rows and the request context\<close>

record row =
  rowId :: nat
  status :: SqlModelStatus
  createTime :: int
  updateTime :: int
  createUser :: "nat option"
  updateUser :: "nat option"

record 'r tbl =
  auto_increment :: nat
  rows :: "'r list"

text \<open>The part of the request context the models read: the user, its roles and the clock.\<close>

record ctx =
  ctx_user :: "nat option"
  ctx_roles :: "nat list"
  ctx_now :: int

definition emptyTbl :: "'r tbl" where
  "emptyTbl = \<lparr>auto_increment = 1, rows = []\<rparr>"

definition exists :: "'r row_scheme \<Rightarrow> bool" where
  "exists r \<longleftrightarrow> rowId r \<noteq> 0"

definition isEnabled :: "'r row_scheme \<Rightarrow> bool" where
  "isEnabled r \<longleftrightarrow> status r \<noteq> DELETED"

section \<open>Reads\<close>

text \<open>
  A read answers \<open>None\<close> where the code resets the model, and throws on a missing id.
\<close>

definition byId :: "nat \<Rightarrow> 'r row_scheme tbl \<Rightarrow> 'r row_scheme option" where
  "byId i t = find (\<lambda>r. rowId r = i) (rows t)"

definition populateByIdAllowDeleted ::
  "nat \<Rightarrow> 'r row_scheme tbl \<Rightarrow> (exn, 'r row_scheme option) res" where
  "populateByIdAllowDeleted i t =
    (if i = 0 then Inl (JsError ''ID should not be null'') else Inr (byId i t))"

definition populateById :: "nat \<Rightarrow> 'r row_scheme tbl \<Rightarrow> (exn, 'r row_scheme option) res" where
  "populateById i t =
    (if i = 0 then Inl (JsError ''ID should not be null'')
     else Inr (find (\<lambda>r. rowId r = i \<and> status r \<noteq> DELETED) (rows t)))"

definition populateByName ::
  "('r \<Rightarrow> string) \<Rightarrow> string \<Rightarrow> 'r tbl \<Rightarrow> 'r option" where
  "populateByName nameOf name t =
    (if name = [] then None else find (\<lambda>r. nameOf r = name) (rows t))"

definition populateByUUID ::
  "('r row_scheme \<Rightarrow> string) \<Rightarrow> string \<Rightarrow> 'r row_scheme tbl \<Rightarrow> (exn, 'r row_scheme option) res" where
  "populateByUUID uuidOf uuid t =
    (if uuid = [] then Inl (JsError ''uuid should not be null'')
     else Inr (find (\<lambda>r. uuidOf r = uuid \<and> status r \<noteq> DELETED) (rows t)))"

text \<open>\<open>reload\<close> reads the row of the model again, by the id it holds.\<close>

definition reload :: "'r row_scheme \<Rightarrow> 'r row_scheme tbl \<Rightarrow> (exn, 'r row_scheme option) res" where
  "reload m t = populateById (rowId m) t"

section \<open>Writes\<close>

text \<open>
  \<open>clash r s\<close> says that a unique key of the table (other than the id) has the
  same value in both rows.  A clash makes the INSERT throw.
\<close>

definition insertRow ::
  "ctx \<Rightarrow> ('r row_scheme \<Rightarrow> 'r row_scheme \<Rightarrow> bool) \<Rightarrow> 'r row_scheme \<Rightarrow> 'r row_scheme tbl
    \<Rightarrow> (exn, nat \<times> 'r row_scheme tbl) res" where
  "insertRow c clash r t =
    (let i = (if rowId r = 0 then auto_increment t else rowId r);
         r' = r\<lparr>rowId := i, createUser := ctx_user c, updateUser := ctx_user c,
                createTime := ctx_now c, updateTime := ctx_now c\<rparr>
     in if list_ex (\<lambda>s. rowId s = i \<or> clash r' s) (rows t)
        then Inl (JsError ''Duplicate entry'')
        else Inr (i, \<lparr>auto_increment = max (auto_increment t) (i + 1), rows = rows t @ [r']\<rparr>))"

definition noClash :: "'r \<Rightarrow> 'r \<Rightarrow> bool" where
  "noClash r s = False"

text \<open>\<open>update\<close> writes the model's columns and the updating user into the row of its id.\<close>

definition updateRow ::
  "ctx \<Rightarrow> nat \<Rightarrow> ('r row_scheme \<Rightarrow> 'r row_scheme) \<Rightarrow> 'r row_scheme tbl \<Rightarrow> 'r row_scheme tbl" where
  "updateRow c i f t = t\<lparr>rows := upd_where (\<lambda>r. rowId r = i)
     (\<lambda>r. (f r)\<lparr>rowId := i, updateUser := ctx_user c, updateTime := ctx_now c\<rparr>) (rows t)\<rparr>"

text \<open>An UPDATE statement of the code's own, by id: MySQL stamps \<open>updateTime\<close>.\<close>

definition rawUpdate ::
  "int \<Rightarrow> nat \<Rightarrow> ('r row_scheme \<Rightarrow> 'r row_scheme) \<Rightarrow> 'r row_scheme tbl \<Rightarrow> 'r row_scheme tbl" where
  "rawUpdate now i f t = t\<lparr>rows := upd_where (\<lambda>r. rowId r = i)
     (\<lambda>r. (f r)\<lparr>rowId := i, updateTime := now\<rparr>) (rows t)\<rparr>"

text \<open>\<open>update\<close> on a table with a further unique key, which the new row may clash with.\<close>

definition updateUnique ::
  "ctx \<Rightarrow> ('r row_scheme \<Rightarrow> 'r row_scheme \<Rightarrow> bool) \<Rightarrow> nat \<Rightarrow> ('r row_scheme \<Rightarrow> 'r row_scheme)
    \<Rightarrow> 'r row_scheme tbl \<Rightarrow> (exn, 'r row_scheme tbl) res" where
  "updateUnique c clash i f t = (case byId i t of
      None \<Rightarrow> Inr t
    | Some r \<Rightarrow> if list_ex (\<lambda>s. rowId s \<noteq> i \<and> clash (f r) s) (rows t)
                then Inl (JsError ''Duplicate entry'') else Inr (updateRow c i f t))"

definition markDeleted :: "ctx \<Rightarrow> nat \<Rightarrow> 'r row_scheme tbl \<Rightarrow> 'r row_scheme tbl" where
  "markDeleted c i t = updateRow c i (\<lambda>r. r\<lparr>status := DELETED\<rparr>) t"

definition deleteRow :: "nat \<Rightarrow> 'r row_scheme tbl \<Rightarrow> 'r row_scheme tbl" where
  "deleteRow i t = t\<lparr>rows := filter (\<lambda>r. rowId r \<noteq> i) (rows t)\<rparr>"

text \<open>
  \<open>deleteByFields\<close>: the rows equal to the model in every listed column.
\<close>

definition deleteByFields :: "('r \<Rightarrow> 'r \<Rightarrow> bool) list \<Rightarrow> 'r \<Rightarrow> 'r tbl \<Rightarrow> 'r tbl" where
  "deleteByFields keys m t = t\<lparr>rows := filter (\<lambda>r. \<not> list_all (\<lambda>k. k m r) keys) (rows t)\<rparr>"

text \<open>
  \<open>upsert\<close>: a model without an id is inserted; when that throws (or \<open>forceUpsert\<close>
  is set) the statement is INSERT ... ON DUPLICATE KEY UPDATE, which updates the
  first row that holds the same id or unique key.
\<close>

definition upsertStmt ::
  "ctx \<Rightarrow> ('r row_scheme \<Rightarrow> 'r row_scheme \<Rightarrow> bool) \<Rightarrow> ('r row_scheme \<Rightarrow> 'r row_scheme)
    \<Rightarrow> 'r row_scheme \<Rightarrow> 'r row_scheme tbl \<Rightarrow> (exn, nat \<times> 'r row_scheme tbl) res" where
  "upsertStmt c clash upd r t =
    (case find (\<lambda>s. rowId s = rowId r \<or> clash r s) (rows t) of
       Some s \<Rightarrow> Inr (rowId s, updateRow c (rowId s) upd t)
     | None \<Rightarrow> insertRow c clash r t)"

definition upsertRow ::
  "ctx \<Rightarrow> ('r row_scheme \<Rightarrow> 'r row_scheme \<Rightarrow> bool) \<Rightarrow> ('r row_scheme \<Rightarrow> 'r row_scheme)
    \<Rightarrow> bool \<Rightarrow> 'r row_scheme \<Rightarrow> 'r row_scheme tbl \<Rightarrow> (exn, nat \<times> 'r row_scheme tbl) res" where
  "upsertRow c clash upd forceUpsert r t =
    (if rowId r = 0 \<and> \<not> forceUpsert
     then (case insertRow c clash r t of
             Inr x \<Rightarrow> Inr x
           | Inl e \<Rightarrow> upsertStmt c clash upd r t)
     else upsertStmt c clash upd r t)"

section \<open>The laws of a table\<close>

definition tblInv :: "'r row_scheme tbl \<Rightarrow> bool" where
  "tblInv t \<longleftrightarrow> distinct (map rowId (rows t)) \<and> 0 < auto_increment t
     \<and> (\<forall>r \<in> set (rows t). 0 < rowId r \<and> rowId r < auto_increment t)"

lemma tblInv_empty [simp]: "tblInv emptyTbl"
  by (simp add: tblInv_def emptyTbl_def)

lemma insertRow_Inr:
  assumes "insertRow c clash r t = Inr (i, t')"
  shows "rows t' = rows t @ [r\<lparr>rowId := i, createUser := ctx_user c, updateUser := ctx_user c,
           createTime := ctx_now c, updateTime := ctx_now c\<rparr>]"
    and "i = (if rowId r = 0 then auto_increment t else rowId r)"
    and "auto_increment t' = max (auto_increment t) (i + 1)"
    and "\<forall>s \<in> set (rows t). rowId s \<noteq> i"
  using assms by (auto simp: insertRow_def Let_def list_ex_iff split: if_splits)

lemma tblInv_insertRow:
  assumes "tblInv t" and "insertRow c clash r t = Inr (i, t')"
  shows "tblInv t'"
proof -
  note I = insertRow_Inr [OF assms(2)]
  have "0 < i" using I(2) assms(1) by (auto simp: tblInv_def)
  moreover have "\<forall>s \<in> set (rows t). rowId s < auto_increment t'"
    using assms(1) I(3) by (auto simp: tblInv_def)
  moreover have "distinct (map rowId (rows t'))"
    using assms(1) I(1,4) by (auto simp: tblInv_def)
  ultimately show ?thesis using assms(1) I(1,3) by (auto simp: tblInv_def)
qed

lemma map_rowId_updateRow [simp]: "map rowId (rows (updateRow c i f t)) = map rowId (rows t)"
  by (auto simp: updateRow_def upd_where_def)

lemma auto_increment_updateRow [simp]: "auto_increment (updateRow c i f t) = auto_increment t"
  by (simp add: updateRow_def)

lemma map_rowId_rawUpdate [simp]: "map rowId (rows (rawUpdate n i f t)) = map rowId (rows t)"
  by (auto simp: rawUpdate_def upd_where_def)

lemma auto_increment_rawUpdate [simp]: "auto_increment (rawUpdate n i f t) = auto_increment t"
  by (simp add: rawUpdate_def)

lemma tblInv_cong_ids:
  assumes "map rowId (rows t') = map rowId (rows t)" and "auto_increment t' = auto_increment t"
  shows "tblInv t' = tblInv t"
proof -
  have "rowId ` set (rows t') = rowId ` set (rows t)" using assms(1) by (metis set_map)
  then show ?thesis unfolding tblInv_def assms by (metis (no_types, lifting) image_iff)
qed

lemma tblInv_updateRow [simp]: "tblInv (updateRow c i f t) = tblInv t"
  by (rule tblInv_cong_ids) simp_all

lemma tblInv_rawUpdate [simp]: "tblInv (rawUpdate n i f t) = tblInv t"
  by (rule tblInv_cong_ids) simp_all

lemma tblInv_markDeleted [simp]: "tblInv (markDeleted c i t) = tblInv t"
  by (simp add: markDeleted_def)

lemma tblInv_deleteRow: "tblInv t \<Longrightarrow> tblInv (deleteRow i t)"
  by (auto simp: tblInv_def deleteRow_def distinct_map_filter)

lemma byId_SomeD: "byId i t = Some r \<Longrightarrow> r \<in> set (rows t) \<and> rowId r = i"
  by (auto simp: byId_def dest: find_SomeD)

lemma byId_insertRow:
  assumes "insertRow c clash r t = Inr (i, t')"
  shows "byId j t' = (if j = i then Some (r\<lparr>rowId := i, createUser := ctx_user c,
           updateUser := ctx_user c, createTime := ctx_now c, updateTime := ctx_now c\<rparr>)
           else byId j t)"
proof -
  note I = insertRow_Inr [OF assms]
  have "find (\<lambda>s. rowId s = i) (rows t) = None" using I(4) by (simp add: find_None_iff)
  then show ?thesis by (auto simp: byId_def I(1) find_append split: option.split)
qed

text \<open>What an UPDATE by id does to the read by id, whatever columns it writes.\<close>

lemma find_update_by_id:
  fixes rs :: "'r row_scheme list"
  assumes "\<And>r. rowId (f r) = i"
  shows "find (\<lambda>r. rowId r = j) (upd_where (\<lambda>r. rowId r = i) f rs) =
         (if j = i then map_option f (find (\<lambda>r. rowId r = i) rs)
          else find (\<lambda>r. rowId r = j) rs)"
  using assms by (induction rs) (auto simp: upd_where_def)

lemma byId_updateRow [tbl_simps]:
  "byId j (updateRow c i f t) = (if j = i
     then map_option (\<lambda>r. (f r)\<lparr>rowId := i, updateUser := ctx_user c, updateTime := ctx_now c\<rparr>) (byId i t)
     else byId j t)"
  by (simp add: byId_def updateRow_def find_update_by_id)

lemma byId_rawUpdate [tbl_simps]:
  "byId j (rawUpdate now i f t) =
    (if j = i then map_option (\<lambda>r. (f r)\<lparr>rowId := i, updateTime := now\<rparr>) (byId i t)
     else byId j t)"
  by (simp add: byId_def rawUpdate_def find_update_by_id)

lemma byId_deleteRow [tbl_simps]:
  "byId j (deleteRow i t) = (if j = i then None else byId j t)"
proof -
  have "find (\<lambda>r. rowId r = j) (filter (\<lambda>r. rowId r \<noteq> i) rs) =
        (if j = i then None else find (\<lambda>r. rowId r = j) rs)" for rs :: "'a row_scheme list"
    by (induction rs) auto
  then show ?thesis by (simp add: byId_def deleteRow_def)
qed

lemma byId_distinct:
  assumes "tblInv t" and "r \<in> set (rows t)"
  shows "byId (rowId r) t = Some r"
  unfolding byId_def using assms
  by (intro find_distinct_key [where k = rowId]) (auto simp: tblInv_def)

text \<open>With distinct ids the filtered read is the read by id, filtered.\<close>

lemma populateById_byId [tbl_simps]:
  assumes "tblInv t"
  shows "populateById i t = (if i = 0 then Inl (JsError ''ID should not be null'')
     else Inr (case byId i t of None \<Rightarrow> None
               | Some r \<Rightarrow> if status r = DELETED then None else Some r))"
proof -
  have "find (\<lambda>r. rowId r = i \<and> status r \<noteq> DELETED) rs =
        (case find (\<lambda>r. rowId r = i) rs of None \<Rightarrow> None
         | Some r \<Rightarrow> if status r = DELETED then None else Some r)"
    if "distinct (map rowId rs)" for rs :: "'a row_scheme list"
    using that
  proof (induction rs)
    case (Cons a rs)
    show ?case
    proof (cases "rowId a = i")
      case True
      then have "\<forall>s \<in> set rs. rowId s \<noteq> i" using Cons.prems by (auto simp: image_iff)
      then have "find (\<lambda>r. rowId r = i \<and> status r \<noteq> DELETED) rs = None"
        by (auto simp: find_None_iff)
      with True show ?thesis by simp
    qed (use Cons in auto)
  qed simp
  with assms show ?thesis by (simp add: populateById_def byId_def tblInv_def)
qed

lemma populateById_SomeD:
  "populateById i t = Inr (Some r) \<Longrightarrow>
   i \<noteq> 0 \<and> r \<in> set (rows t) \<and> rowId r = i \<and> status r \<noteq> DELETED"
  by (auto simp: populateById_def dest: find_SomeD split: if_splits)
section \<open>The interface of a row store\<close>

text \<open>
  What the services rely on when they use a model: the laws of reading a row
  after each write.  Everything a handler proves about its reads follows from
  these, and the table operations above provide them.
\<close>

locale row_store =
  fixes lookup :: "nat \<Rightarrow> 't \<Rightarrow> 'r option"
    and put :: "'r \<Rightarrow> 't \<Rightarrow> ('e, nat \<times> 't) res"
    and modify :: "nat \<Rightarrow> ('r \<Rightarrow> 'r) \<Rightarrow> 't \<Rightarrow> 't"
    and remove :: "nat \<Rightarrow> 't \<Rightarrow> 't"
    and good :: "'t \<Rightarrow> bool"
    and stored :: "nat \<Rightarrow> 'r \<Rightarrow> 'r"
    and stamped :: "nat \<Rightarrow> 'r \<Rightarrow> 'r"
  assumes good_put: "good t \<Longrightarrow> put r t = Inr (i, t') \<Longrightarrow> good t'"
    and good_modify: "good t \<Longrightarrow> good (modify i f t)"
    and good_remove: "good t \<Longrightarrow> good (remove i t)"
    and fresh_put: "put r t = Inr (i, t') \<Longrightarrow> lookup i t = None"
    and lookup_put: "put r t = Inr (i, t') \<Longrightarrow>
          lookup j t' = (if j = i then Some (stored i r) else lookup j t)"
    and lookup_modify: "lookup j (modify i f t) =
          (if j = i then map_option (\<lambda>r. stamped i (f r)) (lookup i t) else lookup j t)"
    and lookup_remove: "lookup j (remove i t) = (if j = i then None else lookup j t)"
begin

lemma put_frame: "put r t = Inr (i, t') \<Longrightarrow> lookup j t = Some s \<Longrightarrow> lookup j t' = Some s"
  using fresh_put [of r t i t'] lookup_put [of r t i t' j] by auto

lemma put_distinct:
  assumes "put r t = Inr (i, t1)" and "put s t1 = Inr (j, t2)"
  shows "i \<noteq> j" and "lookup i t2 = Some (stored i r)" and "lookup j t2 = Some (stored j s)"
proof -
  have "lookup i t1 = Some (stored i r)" using lookup_put [OF assms(1)] by simp
  moreover have "lookup j t1 = None" using fresh_put [OF assms(2)] .
  ultimately show ij: "i \<noteq> j" by auto
  show "lookup i t2 = Some (stored i r)"
    using put_frame [OF assms(2) \<open>lookup i t1 = Some (stored i r)\<close>] .
  show "lookup j t2 = Some (stored j s)" using lookup_put [OF assms(2)] by simp
qed

lemma modify_twice:
  "lookup j (modify i g (modify i f t)) = lookup j (modify i (\<lambda>r. g (stamped i (f r))) t)"
  by (simp add: lookup_modify option.map_comp comp_def)

lemma modify_commute:
  "i \<noteq> k \<Longrightarrow> lookup j (modify i f (modify k g t)) = lookup j (modify k g (modify i f t))"
  by (simp add: lookup_modify)

lemma remove_modify: "lookup j (remove i (modify i f t)) = lookup j (remove i t)"
  by (simp add: lookup_modify lookup_remove)

lemma good_forEach:
  assumes "forEach (\<lambda>r s. bindR (put r s) (\<lambda>x. Inr (snd x))) rs t = Inr t'" and "good t"
  shows "good t'"
  using assms(1,2) by (rule forEach_invariant [where I = good]) (auto simp: res_simps intro: good_put)

end

interpretation sql: row_store byId "insertRow c clash" "updateRow c" deleteRow tblInv
  "\<lambda>i r. r\<lparr>rowId := i, createUser := ctx_user c, updateUser := ctx_user c,
          createTime := ctx_now c, updateTime := ctx_now c\<rparr>"
  "\<lambda>i r. r\<lparr>rowId := i, updateUser := ctx_user c, updateTime := ctx_now c\<rparr>"
  for c :: ctx and clash :: "'r row_scheme \<Rightarrow> 'r row_scheme \<Rightarrow> bool"
proof unfold_locales
  fix r :: "'r row_scheme" and t t' i
  assume "insertRow c clash r t = Inr (i, t')"
  then show "byId i t = None" by (auto simp: byId_def find_None_iff dest: insertRow_Inr(4))
qed (auto simp: tblInv_deleteRow tbl_simps byId_insertRow intro: tblInv_insertRow)

section \<open>Transactions\<close>

text \<open>
  A connection pool over one database value: \<open>start\<close> takes a connection out and
  opens a transaction that works on a copy, \<open>commit\<close> publishes the copy and
  \<open>rollback\<close> drops it; both give the connection back.  \<open>openTx\<close> counts the
  connections taken out and not given back.
\<close>

record 'd mysql =
  committed :: 'd
  openTx :: nat

definition start :: "'d mysql \<Rightarrow> 'd \<times> 'd mysql" where
  "start m = (committed m, m\<lparr>openTx := openTx m + 1\<rparr>)"

definition commit :: "'d \<Rightarrow> 'd mysql \<Rightarrow> 'd mysql" where
  "commit w m = m\<lparr>committed := w, openTx := openTx m - 1\<rparr>"

definition rollback :: "'d mysql \<Rightarrow> 'd mysql" where
  "rollback m = m\<lparr>openTx := openTx m - 1\<rparr>"

text \<open>\<open>const conn = start(); try { body; commit } catch (e) { rollback; throw e }\<close>\<close>

definition withTx :: "('d \<Rightarrow> (exn, 'd \<times> 'a) res) \<Rightarrow> 'd mysql \<Rightarrow> (exn, 'a) res \<times> 'd mysql" where
  "withTx body m = (let (w, m1) = start m in
     case body w of
       Inl e \<Rightarrow> (Inl e, rollback m1)
     | Inr (w', a) \<Rightarrow> (Inr a, commit w' m1))"

text \<open>\<open>insert\<close> without a connection runs in a transaction of its own.\<close>

definition insertSingle ::
  "ctx \<Rightarrow> ('r row_scheme \<Rightarrow> 'r row_scheme \<Rightarrow> bool) \<Rightarrow> 'r row_scheme
    \<Rightarrow> 'r row_scheme tbl mysql \<Rightarrow> (exn, nat) res \<times> 'r row_scheme tbl mysql" where
  "insertSingle c clash r = withTx (\<lambda>t. bindR (insertRow c clash r t) (\<lambda>(i, t'). Inr (t', i)))"

text \<open>\<open>callSingle\<close>: one stored procedure in a transaction of its own.\<close>

definition callSingle :: "('d \<Rightarrow> (exn, 'd \<times> 'a) res) \<Rightarrow> 'd mysql \<Rightarrow> (exn, 'a) res \<times> 'd mysql" where
  "callSingle proc = withTx proc"

lemma withTx_Inl [res_simps]:
  "body (committed m) = Inl e \<Longrightarrow> withTx body m = (Inl e, m)"
  by (simp add: withTx_def start_def rollback_def)

lemma withTx_Inr [res_simps]:
  "body (committed m) = Inr (w, a) \<Longrightarrow> withTx body m = (Inr a, m\<lparr>committed := w\<rparr>)"
  by (simp add: withTx_def start_def commit_def)

lemma withTx_cases:
  obtains (failed) e where "body (committed m) = Inl e" "withTx body m = (Inl e, m)"
  | (published) w a where "body (committed m) = Inr (w, a)" "withTx body m = (Inr a, m\<lparr>committed := w\<rparr>)"
  by (metis old.prod.exhaust sumE withTx_Inl withTx_Inr)

lemma openTx_withTx [simp]: "openTx (snd (withTx body m)) = openTx m"
  by (cases rule: withTx_cases [of body m]) auto

text \<open>
  A handler that opens a transaction by hand can throw where no \<open>catch\<close> rolls it
  back.  Its body says which of the two an error is; an escaped error leaves the
  connection out of the pool.
\<close>

datatype abort = Aborted exn | Escaped exn

fun abortExn :: "abort \<Rightarrow> exn" where
  "abortExn (Aborted e) = e"
| "abortExn (Escaped e) = e"

definition withTxA :: "('d \<Rightarrow> (abort, 'd \<times> 'a) res) \<Rightarrow> 'd mysql \<Rightarrow> (exn, 'a) res \<times> 'd mysql" where
  "withTxA body m = (let (w, m1) = start m in
     case body w of
       Inl (Aborted e) \<Rightarrow> (Inl e, rollback m1)
     | Inl (Escaped e) \<Rightarrow> (Inl e, m1)
     | Inr (w', a) \<Rightarrow> (Inr a, commit w' m1))"

fun aborting :: "(exn, 'a) res \<Rightarrow> (abort, 'a) res" where
  "aborting (Inl e) = Inl (Aborted e)"
| "aborting (Inr x) = Inr x"

fun escaping :: "(exn, 'a) res \<Rightarrow> (abort, 'a) res" where
  "escaping (Inl e) = Inl (Escaped e)"
| "escaping (Inr x) = Inr x"

lemma aborting_Inr [res_simps]: "aborting r = Inr x \<longleftrightarrow> r = Inr x"
  by (cases r) auto

lemma escaping_Inr [res_simps]: "escaping r = Inr x \<longleftrightarrow> r = Inr x"
  by (cases r) auto

lemma withTxA_cases:
  obtains (aborted) e where "body (committed m) = Inl (Aborted e)" "withTxA body m = (Inl e, m)"
  | (escaped) e where "body (committed m) = Inl (Escaped e)"
      "withTxA body m = (Inl e, m\<lparr>openTx := openTx m + 1\<rparr>)"
  | (published) w a where "body (committed m) = Inr (w, a)"
      "withTxA body m = (Inr a, m\<lparr>committed := w\<rparr>)"
proof (cases "body (committed m)")
  case (Inl a)
  then show ?thesis
    by (cases a) (auto simp: withTxA_def start_def rollback_def intro: that)
next
  case (Inr x)
  then show ?thesis
    by (cases x) (auto simp: withTxA_def start_def commit_def intro: that)
qed

text \<open>One statement outside any transaction of the handler commits at once.\<close>

definition single :: "('d \<Rightarrow> 'd) \<Rightarrow> 'd mysql \<Rightarrow> 'd mysql" where
  "single f m = snd (withTx (\<lambda>d. Inr (f d, ())) m)"

lemma single_simps [simp]: "committed (single f m) = f (committed m)" "openTx (single f m) = openTx m"
  by (simp_all add: single_def withTx_def start_def commit_def)

section \<open>Handlers\<close>

text \<open>
  A handler answers an error or a value and leaves a database.  The contract a
  caller relies on: a handler that answers an error has changed nothing, one
  that succeeds keeps the invariant of the database, and no connection is lost.
\<close>

locale tx_handler =
  fixes handle :: "'q \<Rightarrow> 'd mysql \<Rightarrow> (exn, 'a) res \<times> 'd mysql"
    and good :: "'d \<Rightarrow> bool"
  assumes error_unchanged: "handle q m = (Inl e, m') \<Longrightarrow> committed m' = committed m"
    and keeps_good: "good (committed m) \<Longrightarrow> handle q m = (r, m') \<Longrightarrow> good (committed m')"
    and gives_back: "handle q m = (r, m') \<Longrightarrow> openTx m' = openTx m"
begin

text \<open>A sequence of requests, each answered or refused.\<close>

primrec serve :: "'q list \<Rightarrow> 'd mysql \<Rightarrow> 'd mysql" where
  "serve [] m = m"
| "serve (q # qs) m = serve qs (snd (handle q m))"

lemma serve_good: "good (committed m) \<Longrightarrow> good (committed (serve qs m))"
proof (induction qs arbitrary: m)
  case (Cons q qs)
  have "good (committed (snd (handle q m)))"
    using keeps_good [OF Cons.prems, of q] by (metis prod.collapse)
  then show ?case using Cons.IH by simp
qed simp

lemma serve_gives_back: "openTx (serve qs m) = openTx m"
proof (induction qs arbitrary: m)
  case (Cons q qs)
  have "openTx (snd (handle q m)) = openTx m" using gives_back [of q m] by (metis prod.collapse)
  then show ?case using Cons.IH by simp
qed simp

lemma serve_refused:
  assumes "\<And>q m'. q \<in> set qs \<Longrightarrow> committed m' = committed m \<Longrightarrow> \<exists>e m2. handle q m' = (Inl e, m2)"
  shows "committed (serve qs m) = committed m"
  using assms
proof (induction qs arbitrary: m)
  case (Cons q qs)
  obtain e m2 where h: "handle q m = (Inl e, m2)" using Cons.prems [of q m] by auto
  have c: "committed m2 = committed m" using error_unchanged [OF h] .
  have "committed (serve qs m2) = committed m2" using Cons.prems c by (intro Cons.IH) auto
  then show ?case using h c by simp
qed simp

end

text \<open>Every handler of the form \<open>withTx\<close> whose body keeps the invariant meets the contract.\<close>

lemma tx_handler_withTx:
  assumes "\<And>q d d' a. good d \<Longrightarrow> body q d = Inr (d', a) \<Longrightarrow> good d'"
  shows "tx_handler (\<lambda>q. withTx (body q)) good"
proof
  fix q m e m'
  show "withTx (body q) m = (Inl e, m') \<Longrightarrow> committed m' = committed m"
    by (cases rule: withTx_cases [of "body q" m]) auto
next
  fix q m r m'
  show "good (committed m) \<Longrightarrow> withTx (body q) m = (r, m') \<Longrightarrow> good (committed m')"
    by (cases rule: withTx_cases [of "body q" m]) (auto dest: assms)
next
  fix q m r m'
  show "withTx (body q) m = (r, m') \<Longrightarrow> openTx m' = openTx m"
    by (cases rule: withTx_cases [of "body q" m]) auto
qed

end
