(* ===== verification/Schema.thy ===== *)
theory Schema
  imports Sql_Model
begin

text \<open>
  The rows of the database, one record per model class with the model's
  properties as fields (each extends \<open>row\<close>, as the classes extend
  \<open>AdvancedSQLModel\<close>), and the database itself.  Columns a row may leave NULL are
  options.  Token amounts are the integers of the DECIMAL columns, dates are
  milliseconds, USD prices are rationals.  Properties that no column backs
  (\<open>outcomes\<close>, \<open>chainData\<close>, \<open>isWatched\<close>, volumes, positions) are computed by the
  operations that fill them.
\<close>

section \<open>Markets\<close>

record prediction_set = row +
  ps_winner_outcome_id :: "nat option"
  ps_collateral_token_id :: nat
  ps_question :: string
  ps_outcomeResolutionDef :: string
  ps_startTime :: int
  ps_endTime :: int
  ps_attestationTime :: "int option"
  ps_resolutionTime :: int
  ps_resolutionType :: int
  ps_consensusThreshold :: "int option"
  ps_setStatus :: PredictionSetStatus
  ps_imgUrl :: string
  ps_hide :: bool
  ps_marketCapPercent :: int

record outcome = row +
  oc_name :: string
  oc_prediction_set_id :: nat
  oc_outcomeIndex :: nat
  oc_positionId :: "string option"
  oc_imgUrl :: string

record data_source = row +
  ds_endpoint :: string
  ds_jqQuery :: string
  ds_abi :: string
  ds_httpMethod :: string
  ds_body :: string
  ds_headers :: string
  ds_queryParams :: string

text \<open>The join table \<open>prediction_set_data_source\<close>, whose key is the pair.\<close>

type_synonym ps_data_source = "nat \<times> nat"

text \<open>The table \<open>prediction_set_category\<close>.\<close>

type_synonym ps_category = "nat \<times> string"

record chain_data = row +
  cd_prediction_set_id :: nat
  cd_questionId :: string
  cd_conditionId :: string
  cd_txHash :: string
  cd_contractAddress :: "string option"
  cd_oracleContract :: string
  cd_lastProcessedBlock :: int
  cd_parseBlockSize :: int

record outcome_chance = row +
  ch_outcome_id :: nat
  ch_prediction_set_id :: nat
  ch_chance :: "rat option"
  ch_supply :: int
  ch_totalSupply :: int

record attestation_proof =
  ap_response_hex :: string
  ap_attestation_type :: string
  ap_proof :: "string list"

record attestation = row +
  at_prediction_set_id :: nat
  at_data_source_id :: nat
  at_roundId :: int
  at_abiEncodedRequest :: string
  at_proof :: "attestation_proof option"

record user_watchlist = row +
  uw_user_id :: nat
  uw_prediction_set_id :: nat

record collateral_token = row +
  co_name :: string
  co_symbol :: string
  co_address :: string
  co_decimals :: nat
  co_fundingThreshold :: int
  co_usdPriceId :: string
  co_usdPrice :: rat
  co_imgUrl :: string
  co_requiredVotingAmount :: int

section \<open>Transactions read from the chain\<close>

record share_transaction = row +
  st_prediction_set_id :: nat
  st_user_id :: "nat option"
  st_outcome_id :: nat
  st_txHash :: string
  st_wallet :: string
  st_amount :: int
  st_feeAmount :: int
  st_outcomeIndex :: nat
  st_outcomeTokens :: int
  st_type :: ShareTransactionType

record funding_transaction = row +
  ft_prediction_set_id :: nat
  ft_user_id :: "nat option"
  ft_txHash :: string
  ft_wallet :: string
  ft_amounts :: string
  ft_shares :: int
  ft_collateralAmount :: "int option"
  ft_collateralRemovedFromFeePool :: "int option"
  ft_type :: FundingTransactionType

record voting_transaction = row +
  vt_prediction_set_id :: nat
  vt_user_id :: "nat option"
  vt_outcome_id :: "nat option"
  vt_txHash :: string
  vt_wallet :: string
  vt_questionId :: string
  vt_outcomeIndex :: int

record claim_transaction = row +
  ct_prediction_set_id :: nat
  ct_user_id :: nat
  ct_outcome_id :: nat
  ct_txHash :: string
  ct_wallet :: string
  ct_amount :: int

record contract = row +
  con_name :: string
  con_contractAddress :: string
  con_lastProcessedBlock :: int
  con_parseBlockSize :: int

section \<open>Users, rewards, proposals and comments\<close>

record user = row +
  us_username :: "string option"
  us_email :: "string option"
  us_emailStatus :: UserEmailStatus
  us_walletAddress :: string
  us_referralId :: string

text \<open>The join table \<open>user_role\<close>: user and role id.\<close>

type_synonym user_role = "nat \<times> nat"

datatype RewardType =
  MARKET_FUNDING | BUYING_SHARES | SELLING_SHARES | MARKET_WINNER | PROPOSAL_WINNER
  | PROPOSAL_VOTE | USER_REFERRAL | DAILY_LOGIN

record reward_points = row +
  rp_name :: string
  rp_description :: string
  rp_reason :: string
  rp_type :: RewardType
  rp_value :: int

record reward_transaction = row +
  rt_user_id :: nat
  rt_reward_points_id :: nat
  rt_value :: int
  rt_type :: RewardType

record proposal_round = row +
  rd_rewardPoints :: int
  rd_startTime :: int
  rd_endTime :: int
  rd_roundStatus :: ProposalRoundStatus
  rd_winner_id :: "nat option"

record proposal = row +
  pr_round_id :: nat
  pr_user_id :: nat
  pr_question :: string
  pr_generalResolutionDef :: string
  pr_outcomes :: "string option"
  pr_tags :: "string option"

record proposal_vote = row +
  pv_proposal_id :: nat
  pv_user_id :: nat
  pv_voteType :: ProposalVoteType

record comment = row +
  cm_entity_id :: nat
  cm_entityType :: CommentEntityTypes
  cm_user_id :: nat
  cm_parent_comment_id :: "nat option"
  cm_reply_user_id :: "nat option"
  cm_content :: string

record banner = row +
  bn_prediction_set_id :: "nat option"
  bn_title :: string
  bn_description :: string
  bn_button :: string
  bn_imageUrl :: string
  bn_isActive :: bool

record airdrop_user = row +
  ad_walletAddress :: string
  ad_email :: string
  ad_twitter :: string
  ad_discord :: string

section \<open>Background jobs\<close>

text \<open>
  \<open>modules/job/job.model.ts\<close>.  The job table has its own status column and id.
\<close>

record job =
  jb_id :: nat
  jb_status :: JobStatus
  jb_name :: string
  jb_channel :: nat
  jb_interval :: string
  jb_lastRun :: "int option"
  jb_nextRun :: "int option"
  jb_timeout :: int
  jb_input :: "string option"
  jb_retries :: int
  jb_lastDuration :: int
  jb_lastError :: "string option"
  jb_lastCompleted :: "int option"
  jb_lastFailed :: "int option"
  jb_parameters :: "(string \<times> string) list"
  jb_autoRemove :: bool
  jb_executorCount :: int

section \<open>The database\<close>

record db =
  prediction_sets :: "prediction_set tbl"
  outcomes :: "outcome tbl"
  data_sources :: "data_source tbl"
  ps_data_sources :: "ps_data_source list"
  ps_categories :: "ps_category list"
  chain_datas :: "chain_data tbl"
  outcome_chances :: "outcome_chance tbl"
  attestations :: "attestation tbl"
  watchlists :: "user_watchlist tbl"
  collateral_tokens :: "collateral_token tbl"
  share_transactions :: "share_transaction tbl"
  funding_transactions :: "funding_transaction tbl"
  voting_transactions :: "voting_transaction tbl"
  claim_transactions :: "claim_transaction tbl"
  contracts :: "contract tbl"
  users :: "user tbl"
  user_roles :: "user_role list"
  reward_pointss :: "reward_points tbl"
  reward_transactions :: "reward_transaction tbl"
  proposal_rounds :: "proposal_round tbl"
  proposals :: "proposal tbl"
  proposal_votes :: "proposal_vote tbl"
  comments :: "comment tbl"
  banners :: "banner tbl"
  airdrop_users :: "airdrop_user tbl"

text \<open>Every table of the database has distinct generated ids.\<close>

definition dbInv :: "db \<Rightarrow> bool" where
  "dbInv d \<longleftrightarrow> tblInv (prediction_sets d) \<and> tblInv (outcomes d) \<and> tblInv (data_sources d)
     \<and> tblInv (chain_datas d) \<and> tblInv (outcome_chances d) \<and> tblInv (attestations d)
     \<and> tblInv (watchlists d) \<and> tblInv (collateral_tokens d) \<and> tblInv (share_transactions d)
     \<and> tblInv (funding_transactions d) \<and> tblInv (voting_transactions d)
     \<and> tblInv (claim_transactions d) \<and> tblInv (contracts d) \<and> tblInv (users d)
     \<and> tblInv (reward_pointss d) \<and> tblInv (reward_transactions d)
     \<and> tblInv (proposal_rounds d) \<and> tblInv (proposals d) \<and> tblInv (proposal_votes d)
     \<and> tblInv (comments d) \<and> tblInv (banners d) \<and> tblInv (airdrop_users d)"

definition emptyDb :: db where
  "emptyDb = \<lparr>prediction_sets = emptyTbl, outcomes = emptyTbl, data_sources = emptyTbl,
     ps_data_sources = [], ps_categories = [], chain_datas = emptyTbl,
     outcome_chances = emptyTbl, attestations = emptyTbl, watchlists = emptyTbl,
     collateral_tokens = emptyTbl, share_transactions = emptyTbl,
     funding_transactions = emptyTbl, voting_transactions = emptyTbl,
     claim_transactions = emptyTbl, contracts = emptyTbl, users = emptyTbl,
     user_roles = [], reward_pointss = emptyTbl, reward_transactions = emptyTbl,
     proposal_rounds = emptyTbl, proposals = emptyTbl, proposal_votes = emptyTbl,
     comments = emptyTbl, banners = emptyTbl, airdrop_users = emptyTbl\<rparr>"

lemma dbInv_empty [simp]: "dbInv emptyDb"
  by (simp add: dbInv_def emptyDb_def)

section \<open>Unique keys\<close>

definition outcomeClash :: "outcome \<Rightarrow> outcome \<Rightarrow> bool" where
  "outcomeClash r s \<longleftrightarrow>
     oc_outcomeIndex r = oc_outcomeIndex s \<and> oc_prediction_set_id r = oc_prediction_set_id s"

definition chainDataClash :: "chain_data \<Rightarrow> chain_data \<Rightarrow> bool" where
  "chainDataClash r s \<longleftrightarrow> cd_questionId r = cd_questionId s \<or> cd_conditionId r = cd_conditionId s
     \<or> (cd_contractAddress r \<noteq> None \<and> cd_contractAddress r = cd_contractAddress s)"

definition watchlistClash :: "user_watchlist \<Rightarrow> user_watchlist \<Rightarrow> bool" where
  "watchlistClash r s \<longleftrightarrow>
     uw_prediction_set_id r = uw_prediction_set_id s \<and> uw_user_id r = uw_user_id s"

definition userClash :: "user \<Rightarrow> user \<Rightarrow> bool" where
  "userClash r s \<longleftrightarrow> (us_username r \<noteq> None \<and> us_username r = us_username s)
     \<or> (us_email r \<noteq> None \<and> us_email r = us_email s)"

definition proposalVoteClash :: "proposal_vote \<Rightarrow> proposal_vote \<Rightarrow> bool" where
  "proposalVoteClash r s \<longleftrightarrow>
     pv_user_id r = pv_user_id s \<and> pv_proposal_id r = pv_proposal_id s"

definition airdropClash :: "airdrop_user \<Rightarrow> airdrop_user \<Rightarrow> bool" where
  "airdropClash r s \<longleftrightarrow> ad_walletAddress r = ad_walletAddress s \<or> ad_email r = ad_email s"

end
