(* ===== verification/Indexer_Planner.thy ===== *)
theory Indexer_Planner
  imports Schema
begin

text \<open>
  The planner of the indexer (\<open>indexer/process-scripts/prediction-set-parser-planner.ts\<close>):
  the map of running parsers, the child processes behind it, and the events that
  change them.  A killed child goes on until its exit event arrives, which deletes
  the map entry of its market, whatever child the entry then belongs to.
\<close>

section \<open>The planner's state\<close>

record planner =
  running :: "(nat \<times> nat) list"
  children :: "(nat \<times> nat) list"
  stopping :: "nat list"
  next_pid :: nat

definition noParsers :: planner where
  "noParsers = \<lparr>running = [], children = [], stopping = [], next_pid = 1\<rparr>"

definition startParser :: "nat \<Rightarrow> planner \<Rightarrow> bool \<times> planner" where
  "startParser i s = (if i \<in> fst ` set (running s) then (False, s)
     else (True, s\<lparr>running := running s @ [(i, next_pid s)], children := children s @ [(next_pid s, i)],
                   next_pid := next_pid s + 1\<rparr>))"

definition stopParser :: "nat \<Rightarrow> planner \<Rightarrow> planner" where
  "stopParser i s = (case map_of (running s) i of
      None \<Rightarrow> s
    | Some pid \<Rightarrow> s\<lparr>stopping := stopping s @ [pid],
                    running := filter (\<lambda>x. fst x \<noteq> i) (running s)\<rparr>)"

text \<open>The exit event of the child \<open>pid\<close> that was started for the market \<open>i\<close>.\<close>

definition onExit :: "nat \<Rightarrow> nat \<Rightarrow> int \<Rightarrow> planner \<Rightarrow> planner" where
  "onExit pid i code s =
    (let s1 = s\<lparr>children := filter (\<lambda>x. fst x \<noteq> pid) (children s),
                running := filter (\<lambda>x. fst x \<noteq> i) (running s)\<rparr>
     in if code \<noteq> 0 then snd (startParser i s1) else s1)"

text \<open>The markets that are open on chain.\<close>

definition plannedMarkets :: "db \<Rightarrow> nat list" where
  "plannedMarkets d = concat (map (\<lambda>p. map (\<lambda>x. rowId p)
      (filter (\<lambda>x. cd_prediction_set_id x = rowId p \<and> status x = ACTIVE \<and> cd_contractAddress x \<noteq> None)
         (rows (chain_datas d))))
    (filter (\<lambda>p. ps_setStatus p \<in> {PS_ACTIVE, PS_FUNDING} \<and> status p = ACTIVE) (rows (prediction_sets d))))"

definition executePlanner :: "nat list \<Rightarrow> planner \<Rightarrow> planner" where
  "executePlanner ids s =
    (let s1 = fold (\<lambda>i s. snd (startParser i s)) ids s
     in fold (\<lambda>i s. if i \<in> set ids then s else stopParser i s) (map fst (running s1)) s1)"

section \<open>Steps\<close>

inductive planner_step :: "planner \<Rightarrow> planner \<Rightarrow> bool" where
  plan: "planner_step s (executePlanner ids s)"
| exit: "(pid, i) \<in> set (children s) \<Longrightarrow> planner_step s (onExit pid i code s)"

inductive planner_reach :: "planner \<Rightarrow> bool" where
  init: "planner_reach noParsers"
| step: "planner_reach s \<Longrightarrow> planner_step s s' \<Longrightarrow> planner_reach s'"

inductive_cases planner_stepE: "planner_step s s'"

section \<open>The invariant\<close>

definition plannerInv :: "planner \<Rightarrow> bool" where
  "plannerInv s \<longleftrightarrow> distinct (map fst (running s)) \<and> distinct (map fst (children s))
     \<and> (\<forall>(i, pid) \<in> set (running s). (pid, i) \<in> set (children s))
     \<and> (\<forall>(pid, i) \<in> set (children s). pid < next_pid s)"

lemma inv_startParser: "plannerInv s \<Longrightarrow> plannerInv (snd (startParser i s))"
  by (auto simp: plannerInv_def startParser_def image_iff)

lemma inv_stopParser: "plannerInv s \<Longrightarrow> plannerInv (stopParser i s)"
  by (auto simp: plannerInv_def stopParser_def distinct_map_filter split: option.split)

lemma inv_onExit:
  assumes "plannerInv s" and "(pid, i) \<in> set (children s)"
  shows "plannerInv (onExit pid i code s)"
proof -
  have uniq: "j = i" if "(pid, j) \<in> set (children s)" for j
    using assms that by (auto simp: plannerInv_def dest: eq_key_imp_eq_value)
  have "plannerInv (s\<lparr>children := filter (\<lambda>x. fst x \<noteq> pid) (children s),
                running := filter (\<lambda>x. fst x \<noteq> i) (running s)\<rparr>)"
    using assms(1) uniq by (auto simp: plannerInv_def distinct_map_filter)
  then show ?thesis by (auto simp: onExit_def Let_def intro: inv_startParser)
qed

lemma inv_fold: "(\<And>i s. plannerInv s \<Longrightarrow> plannerInv (f i s)) \<Longrightarrow> plannerInv s \<Longrightarrow> plannerInv (fold f xs s)"
  by (induction xs arbitrary: s) auto

lemma inv_executePlanner: "plannerInv s \<Longrightarrow> plannerInv (executePlanner ids s)"
  unfolding executePlanner_def Let_def
  by (intro inv_fold) (auto intro: inv_startParser inv_stopParser)

lemma inv_reach: "planner_reach s \<Longrightarrow> plannerInv s"
proof (induction rule: planner_reach.induct)
  case init
  then show ?case by (simp add: plannerInv_def noParsers_def)
next
  case (step s s')
  then show ?case by (auto elim!: planner_stepE intro: inv_executePlanner inv_onExit)
qed

section \<open>Properties\<close>

lemma keys_start: "fst ` set (running (snd (startParser i s))) = insert i (fst ` set (running s))"
  by (auto simp: startParser_def)

lemma keys_starts: "fst ` set (running (fold (\<lambda>i s. snd (startParser i s)) ids s)) = set ids \<union> fst ` set (running s)"
  by (induction ids arbitrary: s) (auto simp: keys_start)

lemma keys_stop: "fst ` set (running (stopParser i s)) = fst ` set (running s) - {i}"
  by (auto simp: stopParser_def map_of_eq_None_iff split: option.split)

lemma keys_stops:
  "fst ` set (running (fold (\<lambda>i s. if i \<in> A then s else stopParser i s) ks s))
     = fst ` set (running s) - (set ks - A)"
  by (induction ks arbitrary: s) (auto simp: keys_stop)

text \<open>
  C39: Every market that is open on chain has a live parser: after the planner has
  run, in any state its events can reach, the registered markets are exactly the
  planned ones, each once, and the child registered for a market is a running
  process that was started for that market.
\<close>

theorem planner_runs_open_markets:
  assumes "planner_reach s" and "s' = executePlanner ids s"
  shows "distinct (map fst (running s')) \<and> fst ` set (running s') = set ids
    \<and> (\<forall>(i, pid) \<in> set (running s'). (pid, i) \<in> set (children s'))"
proof -
  have "plannerInv s'" using assms inv_reach inv_executePlanner by blast
  moreover have "fst ` set (running s') = set ids"
    unfolding assms(2) executePlanner_def Let_def keys_stops set_map keys_starts by blast
  ultimately show ?thesis by (simp add: plannerInv_def)
qed

text \<open>
  The converse fails: the planner can lose track of a live parser.  When a market
  is closed and opened again before the killed child has exited, its exit event
  deletes the entry of the new child, and the next planning starts a second parser
  for the market beside it, neither of them being stopped.
\<close>

theorem planner_double_parser:
  "planner_reach (executePlanner [7] (onExit 1 7 0 (executePlanner [7] (executePlanner []
       (executePlanner [7] noParsers)))))
   \<and> (let s = executePlanner [7] (onExit 1 7 0 (executePlanner [7] (executePlanner []
       (executePlanner [7] noParsers)))) in
      children s = [(2, 7), (3, 7)] \<and> 2 \<notin> set (stopping s) \<and> 3 \<notin> set (stopping s))"
proof -
  note D = executePlanner_def startParser_def stopParser_def onExit_def Let_def
  have s1: "executePlanner [7] noParsers =
      \<lparr>running = [(7, 1)], children = [(1, 7)], stopping = [], next_pid = 2\<rparr>"
    by (simp add: D noParsers_def)
  have s2: "executePlanner [] (executePlanner [7] noParsers) =
      \<lparr>running = [], children = [(1, 7)], stopping = [1], next_pid = 2\<rparr>"
    unfolding s1 by (simp add: D)
  have s3: "executePlanner [7] (executePlanner [] (executePlanner [7] noParsers)) =
      \<lparr>running = [(7, 2)], children = [(1, 7), (2, 7)], stopping = [1], next_pid = 3\<rparr>"
    unfolding s2 by (simp add: D)
  have s4: "onExit 1 7 0 (executePlanner [7] (executePlanner [] (executePlanner [7] noParsers))) =
      \<lparr>running = [], children = [(2, 7)], stopping = [1], next_pid = 3\<rparr>"
    unfolding s3 by (simp add: D)
  have s5: "executePlanner [7] (onExit 1 7 0 (executePlanner [7] (executePlanner [] (executePlanner [7] noParsers)))) =
      \<lparr>running = [(7, 3)], children = [(2, 7), (3, 7)], stopping = [1], next_pid = 4\<rparr>"
    unfolding s4 by (simp add: D)
  have plan: "planner_reach (executePlanner ids s)" if "planner_reach s" for ids s
    using that planner_step.plan by (rule planner_reach.step)
  have "planner_reach (executePlanner [7] (executePlanner [] (executePlanner [7] noParsers)))"
    by (intro plan planner_reach.init)
  then have "planner_reach (onExit 1 7 0 (executePlanner [7] (executePlanner [] (executePlanner [7] noParsers))))"
    by (rule planner_reach.step) (rule planner_step.exit, simp add: s3)
  then have "planner_reach (executePlanner [7] (onExit 1 7 0 (executePlanner [7] (executePlanner []
       (executePlanner [7] noParsers)))))" by (rule plan)
  then show ?thesis unfolding s5 by simp
qed

end
