(* ===== verification/Market_Model.thy ===== *)
theory Market_Model
  imports Schema
begin

text \<open>
  The prediction set model (\<open>modules/prediction-set/models/\<close>): its validators, the
  reads that fill its derived properties, and the join tables it writes.  A read
  is a function of the database the statement runs on.
\<close>

section \<open>Validators\<close>

text \<open>
  \<open>enumInclusionValidator\<close> compares with every value of the enumerator, which is
  the list of its numbers.
\<close>

definition enumInclusionValidator :: "int list \<Rightarrow> bool \<Rightarrow> int option \<Rightarrow> bool" where
  "enumInclusionValidator enumerator allowNull v = (case v of
      None \<Rightarrow> allowNull
    | Some x \<Rightarrow> x \<in> set enumerator)"

definition consensusThresholdValidator :: "int \<Rightarrow> int option \<Rightarrow> bool" where
  "consensusThresholdValidator resolutionType v =
    (if resolutionType = resolutionTypeNo RT_MANUAL then True
     else (case v of None \<Rightarrow> False | Some x \<Rightarrow> 51 \<le> x \<and> x \<le> 100))"

definition conditionalPresenceValidator :: "bool \<Rightarrow> 'v option \<Rightarrow> bool" where
  "conditionalPresenceValidator cond v = (if cond then v \<noteq> None else True)"

definition predictionSetStatusNos :: "int list" where
  "predictionSetStatusNos = map predictionSetStatusNo
     [PS_INITIALIZED, PS_PENDING, PS_FUNDING, PS_ACTIVE, PS_VOTING, PS_FINALIZED, PS_ERROR]"

text \<open>
  What \<open>validate()\<close> checks of a prediction set.  \<open>resolutionType\<close> carries the
  validator of \<open>PredictionSetStatus\<close>, as in the source.
\<close>

definition validatePredictionSet :: "prediction_set \<Rightarrow> ValidatorErrorCode list" where
  "validatePredictionSet m =
    (if ps_question m = [] then [PREDICTION_SET_QUESTION_NOT_PRESENT] else []) @
    (if ps_outcomeResolutionDef m = [] then [PREDICTION_SET_OUTCOME_RESOLUTION_NOT_PRESENT] else []) @
    (if conditionalPresenceValidator
          (ps_resolutionType m = resolutionTypeNo RT_AUTOMATIC) (ps_attestationTime m)
     then [] else [PREDICTION_SET_ATTESTATION_TIME_NOT_PRESENT]) @
    (if enumInclusionValidator predictionSetStatusNos False (Some (ps_resolutionType m))
     then [] else [STATUS_NOT_PRESENT]) @
    (if consensusThresholdValidator (ps_resolutionType m) (ps_consensusThreshold m)
     then [] else [PREDICTION_SET_CONSENSUS_THRESHOLD_NOT_PRESENT_OR_VALID])"

section \<open>Related rows\<close>

definition populateByIndexAndPredictionSetId :: "int \<Rightarrow> nat \<Rightarrow> db \<Rightarrow> outcome option" where
  "populateByIndexAndPredictionSetId idx psId d =
    find (\<lambda>r. int (oc_outcomeIndex r) = idx \<and> oc_prediction_set_id r = psId \<and> status r \<noteq> DELETED)
         (rows (outcomes d))"

definition populateByConditionId :: "string \<Rightarrow> db \<Rightarrow> chain_data option" where
  "populateByConditionId cid d = (if cid = [] then None
     else find (\<lambda>r. cd_conditionId r = cid \<and> status r \<noteq> DELETED) (rows (chain_datas d)))"

definition populateByQuestionId :: "string \<Rightarrow> db \<Rightarrow> chain_data option" where
  "populateByQuestionId qid d = (if qid = [] then None
     else find (\<lambda>r. cd_questionId r = qid \<and> status r \<noteq> DELETED) (rows (chain_datas d)))"

definition populateByPredictionSetId :: "nat \<Rightarrow> db \<Rightarrow> chain_data option" where
  "populateByPredictionSetId psId d = (if psId = 0 then None
     else find (\<lambda>r. cd_prediction_set_id r = psId \<and> status r \<noteq> DELETED) (rows (chain_datas d)))"

text \<open>The cursor update of a market's chain data and of a contract.\<close>

definition updateLastProcessedBlock :: "int \<Rightarrow> nat \<Rightarrow> int \<Rightarrow> db \<Rightarrow> db" where
  "updateLastProcessedBlock now cdId blk d = d\<lparr>chain_datas :=
     rawUpdate now cdId (\<lambda>r. r\<lparr>cd_lastProcessedBlock := blk\<rparr>) (chain_datas d)\<rparr>"

definition updateContractBlock :: "int \<Rightarrow> nat \<Rightarrow> int \<Rightarrow> db \<Rightarrow> db" where
  "updateContractBlock now conId blk d = d\<lparr>contracts :=
     rawUpdate now conId (\<lambda>r. r\<lparr>con_lastProcessedBlock := blk\<rparr>) (contracts d)\<rparr>"

definition populateByUserAndPredictionSetId :: "nat \<Rightarrow> nat \<Rightarrow> db \<Rightarrow> user_watchlist option" where
  "populateByUserAndPredictionSetId uId psId d = (if psId = 0 \<or> uId = 0 then None
     else find (\<lambda>w. uw_prediction_set_id w = psId \<and> uw_user_id w = uId \<and> status w \<noteq> DELETED)
            (rows (watchlists d)))"

definition getIsWatched :: "ctx \<Rightarrow> nat \<Rightarrow> db \<Rightarrow> bool" where
  "getIsWatched c psId d = (case ctx_user c of
      None \<Rightarrow> False
    | Some u \<Rightarrow> populateByUserAndPredictionSetId u psId d \<noteq> None)"

definition getDataSources :: "nat \<Rightarrow> db \<Rightarrow> data_source list" where
  "getDataSources psId d = sort_key rowId
     (filter (\<lambda>s. (psId, rowId s) \<in> set (ps_data_sources d) \<and> status s \<noteq> DELETED)
        (rows (data_sources d)))"

definition getAttestations :: "nat \<Rightarrow> db \<Rightarrow> attestation list" where
  "getAttestations psId d = sort_key rowId
     (filter (\<lambda>a. at_prediction_set_id a = psId \<and> status a \<noteq> DELETED) (rows (attestations d)))"

definition addDataSource :: "nat \<Rightarrow> nat \<Rightarrow> db \<Rightarrow> db" where
  "addDataSource psId dsId d =
    (if (psId, dsId) \<in> set (ps_data_sources d) then d
     else d\<lparr>ps_data_sources := ps_data_sources d @ [(psId, dsId)]\<rparr>)"

definition deleteDataSources :: "nat \<Rightarrow> db \<Rightarrow> db" where
  "deleteDataSources psId d =
     d\<lparr>ps_data_sources := filter (\<lambda>p. fst p \<noteq> psId) (ps_data_sources d)\<rparr>"

definition deleteOutcomes :: "nat \<Rightarrow> db \<Rightarrow> db" where
  "deleteOutcomes psId d = d\<lparr>outcomes := (outcomes d)\<lparr>rows :=
     filter (\<lambda>r. oc_prediction_set_id r \<noteq> psId) (rows (outcomes d))\<rparr>\<rparr>"

section \<open>Volumes\<close>

definition shareVolume :: "share_transaction list \<Rightarrow> int" where
  "shareVolume txs =
     (\<Sum>t\<leftarrow>txs. if st_type t = ST_BUY then st_amount t - st_feeAmount t else 0)
   - (\<Sum>t\<leftarrow>txs. if st_type t = ST_SELL then st_amount t else 0)"

text \<open>\<open>IFNULL(SUM(x), 0)\<close>: NULLs do not count.\<close>

definition sqlSum :: "int option list \<Rightarrow> int" where
  "sqlSum xs = (\<Sum>x\<leftarrow>xs. case x of None \<Rightarrow> 0 | Some v \<Rightarrow> v)"

text \<open>Transactions volume and funding volume of a market.\<close>

definition getVolume :: "nat \<Rightarrow> db \<Rightarrow> int \<times> int" where
  "getVolume psId d =
    (shareVolume (filter (\<lambda>t. st_prediction_set_id t = psId) (rows (share_transactions d))),
     sqlSum (map ft_collateralAmount
       (filter (\<lambda>f. ft_prediction_set_id f = psId) (rows (funding_transactions d)))))"

text \<open>
  The chance shown with an outcome: of the rows with the outcome's latest
  creation time the one with the largest id.
\<close>

definition laterChance :: "outcome_chance \<Rightarrow> outcome_chance \<Rightarrow> bool" where
  "laterChance a b \<longleftrightarrow> createTime a > createTime b
     \<or> (createTime a = createTime b \<and> rowId a > rowId b)"

fun latestOf :: "outcome_chance list \<Rightarrow> outcome_chance option" where
  "latestOf [] = None"
| "latestOf (x # xs) = (case latestOf xs of
      None \<Rightarrow> Some x
    | Some y \<Rightarrow> if laterChance y x then Some y else Some x)"

definition latestChance :: "nat \<Rightarrow> db \<Rightarrow> rat option" where
  "latestChance ocId d = Option.bind
     (latestOf (filter (\<lambda>x. ch_outcome_id x = ocId) (rows (outcome_chances d)))) ch_chance"

definition outcomeVolume :: "nat \<Rightarrow> db \<Rightarrow> int" where
  "outcomeVolume ocId d =
    (let v = shareVolume (filter (\<lambda>t. st_outcome_id t = ocId) (rows (share_transactions d)))
     in if v > 0 then v else 0)"

definition getOutcomes :: "nat \<Rightarrow> db \<Rightarrow> (outcome \<times> rat option \<times> int) list" where
  "getOutcomes psId d = map (\<lambda>r. (r, latestChance (rowId r) d, outcomeVolume (rowId r) d))
     (sort_key rowId
       (filter (\<lambda>r. oc_prediction_set_id r = psId \<and> status r \<noteq> DELETED) (rows (outcomes d))))"

section \<open>Positions\<close>

text \<open>
  \<open>getOpenFundingPositions\<close>: the collateral of every funding row of the user;
  rows of removed funding carry none.
\<close>

definition getOpenFundingPositions :: "ctx \<Rightarrow> nat \<Rightarrow> db \<Rightarrow> int" where
  "getOpenFundingPositions c psId d = (case ctx_user c of
      None \<Rightarrow> 0
    | Some u \<Rightarrow> sqlSum (map ft_collateralAmount
          (filter (\<lambda>f. ft_prediction_set_id f = psId \<and> ft_user_id f = Some u)
             (rows (funding_transactions d)))))"

text \<open>
  \<open>getOpenPositions\<close>.  The first pass over the transactions of one outcome gives
  the shares left, the collateral spent and the list of acquisitions with their
  price; the second pass walks the acquisitions from the newest.
\<close>

record buy =
  buy_shares :: int
  buy_amount :: int
  buy_pricePerShare :: rat

definition signedBy :: "ShareTransactionType \<Rightarrow> int \<Rightarrow> int" where
  "signedBy ty x = (if ty = ST_SELL then - x else x)"

definition remainingShares :: "share_transaction list \<Rightarrow> int" where
  "remainingShares txs = (\<Sum>t\<leftarrow>txs. signedBy (st_type t) (st_outcomeTokens t))"

definition positionCollateral :: "share_transaction list \<Rightarrow> int" where
  "positionCollateral txs = (\<Sum>t\<leftarrow>txs. signedBy (st_type t) (st_amount t))"

definition buysOf :: "share_transaction list \<Rightarrow> buy list" where
  "buysOf txs = map (\<lambda>t. \<lparr>buy_shares = st_outcomeTokens t, buy_amount = st_amount t,
       buy_pricePerShare = of_int (st_amount t) / of_int (st_outcomeTokens t)\<rparr>)
     (filter (\<lambda>t. st_type t = ST_BUY \<or> st_type t = ST_FUND) txs)"

fun accountBuys :: "buy list \<Rightarrow> int \<Rightarrow> rat \<Rightarrow> int \<Rightarrow> rat \<times> int" where
  "accountBuys [] sharesToAccount weightedAmount totalShares = (weightedAmount, totalShares)"
| "accountBuys (b # bs) sharesToAccount weightedAmount totalShares =
    (if sharesToAccount > 0
     then (let n = min (buy_shares b) sharesToAccount
           in accountBuys bs (sharesToAccount - n)
                (weightedAmount + of_int n * buy_pricePerShare b) (totalShares + n))
     else (weightedAmount, totalShares))"

record position =
  po_outcome :: "outcome option"
  po_avgBuyPrice :: rat
  po_collateralAmount :: int
  po_sharesAmount :: int

definition positionOf :: "outcome option \<Rightarrow> share_transaction list \<Rightarrow> position" where
  "positionOf oc txs =
    (let left = remainingShares txs;
         (w, total) = accountBuys (rev (buysOf txs)) left 0 0
     in \<lparr>po_outcome = oc,
         po_avgBuyPrice = (if total > 0 then w / of_int total else 0),
         po_collateralAmount = positionCollateral txs, po_sharesAmount = left\<rparr>)"

text \<open>
  The transactions are joined with their outcome and grouped under its id; the
  integer keys of the accumulator object are listed in ascending order, and
  rows whose outcome is missing share the key \<open>null\<close>, which comes last.
\<close>

definition joinedOutcome :: "db \<Rightarrow> share_transaction \<Rightarrow> outcome option" where
  "joinedOutcome d t = byId (st_outcome_id t) (outcomes d)"

definition groupKeys :: "db \<Rightarrow> share_transaction list \<Rightarrow> outcome option list" where
  "groupKeys d txs =
    (let found = remdups (map rowId (List.map_filter (joinedOutcome d) txs))
     in map (\<lambda>i. byId i (outcomes d)) (sort found) @
        (if list_ex (\<lambda>t. joinedOutcome d t = None) txs then [None] else []))"

definition getOpenPositions :: "ctx \<Rightarrow> nat \<Rightarrow> db \<Rightarrow> position list" where
  "getOpenPositions c psId d = (case ctx_user c of
      None \<Rightarrow> []
    | Some u \<Rightarrow>
        (let txs = sort_key createTime
               (filter (\<lambda>t. st_prediction_set_id t = psId \<and> st_user_id t = Some u)
                  (rows (share_transactions d)))
         in filter (\<lambda>p. po_sharesAmount p > 0)
              (map (\<lambda>oc. positionOf oc (filter (\<lambda>t. joinedOutcome d t = oc) txs))
                (groupKeys d txs))))"

section \<open>Facts about positions\<close>

lemma accountBuys_total:
  assumes "\<And>b. b \<in> set bs \<Longrightarrow> 0 \<le> buy_shares b" and "0 \<le> left"
  shows "snd (accountBuys bs left w n) = n + min left (\<Sum>b\<leftarrow>bs. buy_shares b)"
  using assms
proof (induction bs arbitrary: left w n)
  case (Cons b bs)
  have rest: "0 \<le> (\<Sum>x\<leftarrow>bs. buy_shares x)"
    using Cons.prems(1) by (intro sum_list_nonneg_int) auto
  show ?case
  proof (cases "left > 0")
    case True
    have "snd (accountBuys bs (left - min (buy_shares b) left)
            (w + of_int (min (buy_shares b) left) * buy_pricePerShare b) (n + min (buy_shares b) left))
          = n + min (buy_shares b) left + min (left - min (buy_shares b) left) (\<Sum>x\<leftarrow>bs. buy_shares x)"
      using Cons.prems by (intro Cons.IH) auto
    then show ?thesis using True rest Cons.prems(1)[of b] by (auto simp: Let_def min_def)
  next
    case False
    then have "left = 0" using Cons.prems(2) by simp
    then show ?thesis using rest Cons.prems(1)[of b] by simp
  qed
qed simp

text \<open>What is accounted for is worth between the lowest and the highest price paid.\<close>

lemma accountBuys_bounds:
  assumes "\<And>b. b \<in> set bs \<Longrightarrow>
      0 \<le> buy_shares b \<and> lo \<le> buy_pricePerShare b \<and> buy_pricePerShare b \<le> hi"
    and "accountBuys bs left w n = (w', n')"
    and "of_int n * lo \<le> w" and "w \<le> of_int n * hi"
  shows "of_int n' * lo \<le> w' \<and> w' \<le> of_int n' * hi"
  using assms
proof (induction bs arbitrary: left w n)
  case (Cons b bs)
  show ?case
  proof (cases "left > 0")
    case True
    let ?k = "min (buy_shares b) left"
    have k: "0 \<le> ?k" using True Cons.prems(1)[of b] by auto
    have p: "lo \<le> buy_pricePerShare b" "buy_pricePerShare b \<le> hi"
      using Cons.prems(1)[of b] by auto
    have "of_int ?k * lo \<le> of_int ?k * buy_pricePerShare b"
         "of_int ?k * buy_pricePerShare b \<le> of_int ?k * hi"
      using k p by (auto intro!: mult_left_mono)
    then have "of_int (n + ?k) * lo \<le> w + of_int ?k * buy_pricePerShare b"
      and "w + of_int ?k * buy_pricePerShare b \<le> of_int (n + ?k) * hi"
      using Cons.prems(3,4) unfolding of_int_add distrib_right by linarith+
    moreover have "accountBuys bs (left - ?k) (w + of_int ?k * buy_pricePerShare b) (n + ?k) = (w', n')"
      using Cons.prems(2) True by (simp add: Let_def)
    ultimately show ?thesis using Cons.IH Cons.prems(1) by (meson list.set_intros(2))
  qed (use Cons.prems in simp)
qed simp

lemma remainingShares_le_buys:
  assumes "\<And>t. t \<in> set txs \<Longrightarrow> 0 \<le> st_outcomeTokens t"
  shows "remainingShares txs \<le> (\<Sum>b\<leftarrow>buysOf txs. buy_shares b)"
  using assms
proof (induction txs)
  case Nil
  then show ?case by (simp add: remainingShares_def buysOf_def)
next
  case (Cons t txs)
  have "remainingShares txs \<le> (\<Sum>b\<leftarrow>buysOf txs. buy_shares b)" using Cons by simp
  then show ?case using Cons.prems [of t]
    by (cases "st_type t") (auto simp: remainingShares_def buysOf_def signedBy_def)
qed

end
