(* ===== verification/Js_String.thy ===== *)
theory Js_String
  imports Prelude
begin

text \<open>
  What the code uses of JavaScript's strings: \<open>join\<close>, the text of an integer,
  \<open>toLowerCase\<close>, \<open>split(/\s+/)\<close>, \<open>startsWith\<close>, \<open>slice\<close> and \<open>parseInt\<close>.  Strings are lists of characters below 256;
  the two letter cases of the ASCII range are the only ones that differ.
\<close>

section \<open>Joining\<close>

fun joinWith :: "string \<Rightarrow> string list \<Rightarrow> string" where
  "joinWith sep [] = []"
| "joinWith sep [s] = s"
| "joinWith sep (s # t # ss) = s @ sep @ joinWith sep (t # ss)"

lemma joinWith_Cons: "joinWith sep (x # xs) = x @ concat (map (\<lambda>y. sep @ y) xs)"
  by (induction xs arbitrary: x) auto

section \<open>Numbers as text\<close>

fun decimal :: "nat \<Rightarrow> string" where
  "decimal n = (if n < 10 then [char_of (48 + n)] else decimal (n div 10) @ [char_of (48 + n mod 10)])"

declare decimal.simps [simp del]

definition jsInt :: "int \<Rightarrow> string" where
  "jsInt n = (if n < 0 then ''-'' @ decimal (nat (- n)) else decimal (nat n))"

text \<open>Reading the digits back: the text of a number determines it.\<close>

definition digitValue :: "char \<Rightarrow> nat" where
  "digitValue ch = of_char ch - 48"

definition fromDecimal :: "string \<Rightarrow> nat" where
  "fromDecimal = foldl (\<lambda>n ch. 10 * n + digitValue ch) 0"

lemma digitValue_char [simp]: "n < 10 \<Longrightarrow> digitValue (char_of (48 + n)) = n"
  by (simp add: digitValue_def of_char_of)

lemma fromDecimal_decimal [simp]: "fromDecimal (decimal n) = n"
proof (induction n rule: decimal.induct)
  case (1 n)
  show ?case
  proof (cases "n < 10")
    case True
    then show ?thesis by (subst decimal.simps) (simp add: fromDecimal_def)
  next
    case False
    then have "fromDecimal (decimal (n div 10)) = n div 10" using 1 by simp
    then show ?thesis using False by (subst decimal.simps) (simp add: fromDecimal_def)
  qed
qed

lemma decimal_inj [simp]: "decimal m = decimal n \<longleftrightarrow> m = n"
  by (metis fromDecimal_decimal)

lemma decimal_digits: "ch \<in> set (decimal n) \<Longrightarrow> 48 \<le> (of_char ch :: nat) \<and> (of_char ch :: nat) \<le> 57"
proof (induction n rule: decimal.induct)
  case (1 n)
  then show ?case using decimal.simps [of n] by (auto simp: of_char_of split: if_splits)
qed

lemma decimal_no_minus: "decimal m \<noteq> CHR ''-'' # s"
  using decimal_digits [of "CHR ''-''" m] by auto

lemma jsInt_inj [simp]: "jsInt m = jsInt n \<longleftrightarrow> m = n"
proof
  assume eq: "jsInt m = jsInt n"
  show "m = n"
  proof (cases "m < 0 \<longleftrightarrow> n < 0")
    case True
    then show ?thesis using eq by (cases "n < 0") (simp_all add: jsInt_def eq_nat_nat_iff)
  next
    case False
    then show ?thesis using eq decimal_no_minus [of "nat m"] decimal_no_minus [of "nat n"]
      by (cases "m < 0") (auto simp: jsInt_def dest: sym)
  qed
qed simp

section \<open>Letters\<close>

definition lowerChar :: "char \<Rightarrow> char" where
  "lowerChar ch = (let n = of_char ch :: nat in if 65 \<le> n \<and> n \<le> 90 then char_of (n + 32) else ch)"

definition toLowerCase :: "string \<Rightarrow> string" where
  "toLowerCase s = map lowerChar s"

section \<open>White space\<close>

definition isSpace :: "char \<Rightarrow> bool" where
  "isSpace ch \<longleftrightarrow> ch \<in> {CHR '' '', CHR 0x09, CHR 0x0A, CHR 0x0B, CHR 0x0C, CHR 0x0D}"

text \<open>A run of white space separates, and a leading one leaves an empty word.\<close>

function splitSpaces :: "string \<Rightarrow> string list" where
  "splitSpaces s = (case dropWhile (\<lambda>ch. \<not> isSpace ch) s of
      [] \<Rightarrow> [s]
    | ch # rest \<Rightarrow> takeWhile (\<lambda>ch. \<not> isSpace ch) s # splitSpaces (dropWhile isSpace rest))"
  by pat_completeness auto
termination
proof (relation "measure length")
  fix s :: string and ch rest
  assume "dropWhile (\<lambda>ch. \<not> isSpace ch) s = ch # rest"
  then have "length (ch # rest) \<le> length s" by (metis length_dropWhile_le)
  then show "(dropWhile isSpace rest, s) \<in> measure length"
    using length_dropWhile_le [of isSpace rest] by simp
qed simp

declare splitSpaces.simps [simp del]

lemma splitSpaces_words: "w \<in> set (splitSpaces s) \<Longrightarrow> \<forall>ch \<in> set w. \<not> isSpace ch"
proof (induction s rule: splitSpaces.induct)
  case (1 s)
  show ?case
  proof (cases "dropWhile (\<lambda>ch. \<not> isSpace ch) s")
    case Nil
    then have "w = s" using 1(2) by (subst (asm) splitSpaces.simps) (simp only: list.case list.set singleton_iff)
    with Nil show ?thesis by (simp add: dropWhile_eq_Nil_conv)
  next
    case (Cons ch rest)
    then have "w = takeWhile (\<lambda>ch. \<not> isSpace ch) s \<or> w \<in> set (splitSpaces (dropWhile isSpace rest))"
      using 1(2) splitSpaces.simps [of s] by simp
    then show ?thesis using 1(1) [OF Cons] by (auto dest: set_takeWhileD)
  qed
qed

section \<open>Property names\<close>

text \<open>What every object inherits: \<open>object[name]\<close> finds these names, too.\<close>

definition inheritedNames :: "string list" where
  "inheritedNames = [''constructor'', ''toString'', ''toLocaleString'', ''valueOf'', ''hasOwnProperty'',
     ''isPrototypeOf'', ''propertyIsEnumerable'', ''__defineGetter__'', ''__defineSetter__'',
     ''__lookupGetter__'', ''__lookupSetter__'', ''__proto__'']"

section \<open>Parts\<close>

fun startsWith :: "string \<Rightarrow> string \<Rightarrow> bool" where
  "startsWith s [] = True"
| "startsWith [] (p # ps) = False"
| "startsWith (c # cs) (p # ps) = (c = p \<and> startsWith cs ps)"

lemma startsWith_iff: "startsWith s p \<longleftrightarrow> (\<exists>t. s = p @ t)"
  by (induction s p rule: startsWith.induct) auto

fun includesText :: "string \<Rightarrow> string \<Rightarrow> bool" where
  "includesText [] p = (p = [])"
| "includesText (c # cs) p = (startsWith (c # cs) p \<or> includesText cs p)"

text \<open>\<open>split\<close> at one character, and \<open>trim\<close>.\<close>

fun splitOn :: "char \<Rightarrow> string \<Rightarrow> string list" where
  "splitOn d [] = [[]]"
| "splitOn d (c # cs) = (if c = d then [] # splitOn d cs
     else (case splitOn d cs of [] \<Rightarrow> [[c]] | w # ws \<Rightarrow> (c # w) # ws))"

definition trim :: "string \<Rightarrow> string" where
  "trim s = rev (dropWhile isSpace (rev (dropWhile isSpace s)))"

lemma splitOn_clean: "w \<in> set (splitOn d s) \<Longrightarrow> d \<notin> set w"
proof (induction s arbitrary: w)
  case (Cons c cs)
  then show ?case by (cases "splitOn d cs") (auto split: if_splits)
qed simp

text \<open>\<open>slice(-n)\<close>: the last \<open>n\<close> characters.\<close>

definition sliceEnd :: "nat \<Rightarrow> string \<Rightarrow> string" where
  "sliceEnd n s = drop (length s - n) s"

text \<open>\<open>parseInt\<close>: an optional sign and the digits that follow, or \<open>NaN\<close>.\<close>

definition isDigit :: "char \<Rightarrow> bool" where
  "isDigit c \<longleftrightarrow> of_char c \<in> {48::nat..57}"

definition parseInt :: "string \<Rightarrow> int option" where
  "parseInt s = (let t = dropWhile isSpace s; neg = (take 1 t = ''-''); u = (if neg \<or> take 1 t = ''+'' then drop 1 t else t);
       ds = takeWhile isDigit u
     in if ds = [] then None else Some (if neg then - int (fromDecimal ds) else int (fromDecimal ds)))"

lemma decimal_isDigit: "list_all isDigit (decimal n)"
  using decimal_digits [of _ n] by (auto simp: list_all_iff isDigit_def)

lemma decimal_Nil [simp]: "decimal n \<noteq> []"
  by (subst decimal.simps) simp

lemma isDigit_not_space: "isDigit c \<Longrightarrow> \<not> isSpace c \<and> c \<noteq> CHR ''-'' \<and> c \<noteq> CHR ''+''"
  by (auto simp: isDigit_def isSpace_def)

text \<open>The text of an integer reads back as that integer.\<close>

lemma parseInt_jsInt [simp]: "parseInt (jsInt n) = Some n"
proof (cases "n < 0")
  have whole: "takeWhile isDigit (decimal m) = decimal m" for m
    using decimal_isDigit [of m] by (simp add: list_all_iff takeWhile_eq_all_conv)
  {
    case True
    have "\<not> isSpace CHR ''-''" by (simp add: isSpace_def)
    then show ?thesis using True by (simp add: parseInt_def jsInt_def whole)
  next
    case False
    obtain c cs where d: "decimal (nat n) = c # cs" by (cases "decimal (nat n)") auto
    then have "\<not> isSpace c \<and> c \<noteq> CHR ''-'' \<and> c \<noteq> CHR ''+''"
      using decimal_isDigit [of "nat n"] by (auto dest: isDigit_not_space)
    moreover have "fromDecimal (c # cs) = nat n" using fromDecimal_decimal [of "nat n"] d by simp
    moreover have "takeWhile isDigit (c # cs) = c # cs" unfolding d [symmetric] by (rule whole)
    ultimately show ?thesis using False by (simp add: parseInt_def jsInt_def d Let_def split del: if_split)
  }
qed

lemma jsInt_Nil [simp]: "jsInt n \<noteq> []"
  by (simp add: jsInt_def)

end
