(* ===== verification/Prediction_Service.thy ===== *)
theory Prediction_Service
  imports Market_Model Js_String
begin

text \<open>
  \<open>modules/prediction-set/prediction-set.service.ts\<close>: every operation the
  controller calls, with its guards in the order of the code, on the connection
  pool.  Messages sent to the worker queues are part of the answer.
\<close>

section \<open>Exceptions of the service\<close>

definition predictionSetMissing :: exn where
  "predictionSetMissing = CodeException 404 PREDICTION_SET_DOES_NOT_EXISTS"

definition predictionSetBadStatus :: exn where
  "predictionSetBadStatus = CodeException 400 INVALID_PREDICTION_SET_STATUS"

definition sqlSystemError :: exn where
  "sqlSystemError = CodeException 500 SQL_SYSTEM_ERROR"

text \<open>The statuses in which a market has not been handed to the chain.\<close>

definition editable :: "PredictionSetStatus \<Rightarrow> bool" where
  "editable s \<longleftrightarrow> s \<in> {PS_INITIALIZED, PS_ERROR}"

text \<open>The repeated head of the operations: read the market, 404 where it is missing.\<close>

definition requirePredictionSet :: "nat \<Rightarrow> db \<Rightarrow> (exn, prediction_set) res" where
  "requirePredictionSet i d =
    bindR (populateById i (prediction_sets d)) (\<lambda>r. case r of
      None \<Rightarrow> Inl predictionSetMissing
    | Some p \<Rightarrow> Inr p)"

definition setPredictionSet ::
  "ctx \<Rightarrow> nat \<Rightarrow> (prediction_set \<Rightarrow> prediction_set) \<Rightarrow> db \<Rightarrow> db" where
  "setPredictionSet c i f d = d\<lparr>prediction_sets := updateRow c i f (prediction_sets d)\<rparr>"

section \<open>Processing\<close>

text \<open>
  \<open>send\<close> is the queue: it takes the message or throws.  The status is already
  committed when it is called.
\<close>

definition processPredictionSet ::
  "ctx \<Rightarrow> (nat \<Rightarrow> (exn, unit) res) \<Rightarrow> nat \<Rightarrow> db mysql \<Rightarrow> (exn, prediction_set) res \<times> db mysql \<times> nat list" where
  "processPredictionSet c send i m =
    (case requirePredictionSet i (committed m) of
       Inl e \<Rightarrow> (Inl e, m, [])
     | Inr p \<Rightarrow>
        if \<not> editable (ps_setStatus p) then (Inl predictionSetBadStatus, m, [])
        else let m' = single (setPredictionSet c i (\<lambda>r. r\<lparr>ps_setStatus := PS_PENDING\<rparr>)) m
             in (case send i of
                   Inl e \<Rightarrow> (Inl e, m', [])
                 | Inr u \<Rightarrow> (Inr (p\<lparr>ps_setStatus := PS_PENDING\<rparr>), m', [i])))"

section \<open>Creation\<close>

definition addPredictionCategory :: "nat \<Rightarrow> string \<Rightarrow> db \<Rightarrow> (exn, db) res" where
  "addPredictionCategory psId category d =
    bindR (requirePredictionSet psId d) (\<lambda>p.
      Inr (d\<lparr>ps_categories := ps_categories d @ [(rowId p, category)]\<rparr>))"

text \<open>
  One data source of the request: the read is outside any \<open>try\<close>, a missing
  source rolls back before it throws.
\<close>

definition attachDataSource :: "nat \<Rightarrow> nat \<Rightarrow> db \<Rightarrow> (abort, db) res" where
  "attachDataSource psId dsId d =
    bindR (escaping (populateById dsId (data_sources d))) (\<lambda>r. case r of
      None \<Rightarrow> Inl (Aborted (CodeException 404 DATA_SOURCE_DOES_NOT_EXISTS))
    | Some s \<Rightarrow> Inr (addDataSource psId (rowId s) d))"

definition insertOutcome :: "ctx \<Rightarrow> nat \<Rightarrow> nat \<times> outcome \<Rightarrow> db \<Rightarrow> (abort, db) res" where
  "insertOutcome c psId x d =
    (case insertRow c outcomeClash
            ((snd x)\<lparr>oc_outcomeIndex := fst x, oc_prediction_set_id := psId\<rparr>) (outcomes d) of
       Inl e \<Rightarrow> Inl (Aborted sqlSystemError)
     | Inr (i, t) \<Rightarrow> Inr (d\<lparr>outcomes := t\<rparr>))"

definition createPredictionSetTx ::
  "ctx \<Rightarrow> nat \<Rightarrow> db \<Rightarrow> prediction_set \<Rightarrow> outcome list \<Rightarrow> nat list \<Rightarrow> string list \<Rightarrow> db \<Rightarrow> (abort, db \<times> nat) res" where
  "createPredictionSetTx c minimalDataSources pool p ocs dsIds categories w =
    bindR (escaping (populateById (ps_collateral_token_id p) (collateral_tokens pool))) (\<lambda>tok.
    if tok = None then Inl (Escaped (CodeException 404 COLLATERAL_TOKEN_DOES_NOT_EXISTS)) else
    if validatePredictionSet p \<noteq> [] then Inl (Aborted (ValidationException (validatePredictionSet p))) else
    (case insertRow c noClash p (prediction_sets w) of
       Inl e \<Rightarrow> Inl (Aborted sqlSystemError)
     | Inr (psId, t) \<Rightarrow>
        bindR (if ps_resolutionType p = resolutionTypeNo RT_AUTOMATIC
               then (if length dsIds < minimalDataSources
                     then Inl (Aborted (CodeException 400 INVALID_NUMBER_OF_PREDICTION_SET_DATA_SOURCES))
                     else forEach (attachDataSource psId) dsIds (w\<lparr>prediction_sets := t\<rparr>))
               else Inr (w\<lparr>prediction_sets := t\<rparr>)) (\<lambda>w1.
        bindR (forEach (insertOutcome c psId) (zip [0..<length ocs] ocs) w1) (\<lambda>w2.
        bindR (forEach (\<lambda>cat d. escaping (addPredictionCategory psId cat d)) categories w2) (\<lambda>w3.
        Inr (w3, psId))))))"

definition createPredictionSet ::
  "ctx \<Rightarrow> nat \<Rightarrow> prediction_set \<Rightarrow> outcome list \<Rightarrow> nat list \<Rightarrow> string list \<Rightarrow> db mysql
    \<Rightarrow> (exn, nat) res \<times> db mysql" where
  "createPredictionSet c minimalDataSources p ocs dsIds categories m =
     withTxA (createPredictionSetTx c minimalDataSources (committed m) p ocs dsIds categories) m"

section \<open>Update\<close>

text \<open>
  The request body, populated with the USER strategy, holds every field below;
  \<open>update\<close> writes those of the UPDATE_DB strategy, which leaves out the
  collateral token.
\<close>

definition populateUser :: "prediction_set \<Rightarrow> prediction_set \<Rightarrow> prediction_set" where
  "populateUser dto r = r\<lparr>
     ps_question := ps_question dto,
     ps_outcomeResolutionDef := ps_outcomeResolutionDef dto,
     ps_startTime := ps_startTime dto,
     ps_endTime := ps_endTime dto,
     ps_attestationTime := ps_attestationTime dto,
     ps_resolutionTime := ps_resolutionTime dto,
     ps_resolutionType := ps_resolutionType dto,
     ps_consensusThreshold := ps_consensusThreshold dto,
     ps_setStatus := ps_setStatus dto,
     ps_imgUrl := ps_imgUrl dto,
     ps_hide := ps_hide dto,
     ps_marketCapPercent := ps_marketCapPercent dto\<rparr>"

definition updatePredictionSetTx ::
  "ctx \<Rightarrow> nat \<Rightarrow> prediction_set \<Rightarrow> outcome list \<Rightarrow> nat list \<Rightarrow> db \<Rightarrow> (abort, db \<times> nat) res" where
  "updatePredictionSetTx c psId dto ocs dsIds w =
    bindR (escaping (requirePredictionSet psId w)) (\<lambda>p.
    if \<not> editable (ps_setStatus p) then Inl (Escaped predictionSetBadStatus) else
    bindR (forEach (attachDataSource psId) dsIds (deleteDataSources psId w)) (\<lambda>w1.
    bindR (forEach (insertOutcome c psId) (zip [0..<length ocs] ocs) (deleteOutcomes psId w1)) (\<lambda>w2.
    Inr (setPredictionSet c psId (populateUser dto) w2, psId))))"

definition updatePredictionSet ::
  "ctx \<Rightarrow> nat \<Rightarrow> prediction_set \<Rightarrow> outcome list \<Rightarrow> nat list \<Rightarrow> db mysql \<Rightarrow> (exn, nat) res \<times> db mysql" where
  "updatePredictionSet c psId dto ocs dsIds = withTxA (updatePredictionSetTx c psId dto ocs dsIds)"

definition updatePredictionHide ::
  "ctx \<Rightarrow> nat \<Rightarrow> bool \<Rightarrow> db mysql \<Rightarrow> (exn, prediction_set) res \<times> db mysql" where
  "updatePredictionHide c i hide m =
    (case requirePredictionSet i (committed m) of
       Inl e \<Rightarrow> (Inl e, m)
     | Inr p \<Rightarrow> (Inr (p\<lparr>ps_hide := hide\<rparr>),
                 single (setPredictionSet c i (\<lambda>r. r\<lparr>ps_hide := hide\<rparr>)) m))"

text \<open>
  \<open>deletePredictionSet\<close> has no existence check: a missing market is a reset model,
  whose status is the default INITIALIZED and whose id is null.
\<close>

definition deletePredictionSet :: "ctx \<Rightarrow> nat \<Rightarrow> db mysql \<Rightarrow> (exn, unit) res \<times> db mysql" where
  "deletePredictionSet c i m =
    (case populateById i (prediction_sets (committed m)) of
       Inl e \<Rightarrow> (Inl e, m)
     | Inr r \<Rightarrow>
        if \<not> editable (case r of None \<Rightarrow> PS_INITIALIZED | Some p \<Rightarrow> ps_setStatus p)
        then (Inl sqlSystemError, m)
        else (Inr (), single (setPredictionSet c (case r of None \<Rightarrow> 0 | Some p \<Rightarrow> rowId p)
                                (\<lambda>x. x\<lparr>status := DELETED\<rparr>)) m))"

section \<open>Reads of one market\<close>

record market_view =
  mv_set :: prediction_set
  mv_outcomes :: "(outcome \<times> rat option \<times> int) list"
  mv_chainData :: "chain_data option"
  mv_isWatched :: bool
  mv_transactionsVolume :: int
  mv_fundingVolume :: int
  mv_positions :: "position list"
  mv_fundingPositions :: int

definition hasRole :: "ctx \<Rightarrow> nat \<Rightarrow> bool" where
  "hasRole c role \<longleftrightarrow> role \<in> set (ctx_roles c)"

definition getPredictionById :: "ctx \<Rightarrow> nat \<Rightarrow> db \<Rightarrow> (exn, market_view) res" where
  "getPredictionById c i d =
    bindR (requirePredictionSet i d) (\<lambda>p.
      if ps_hide p \<and> \<not> hasRole c (defaultUserRoleNo ROLE_ADMIN) then Inl predictionSetMissing
      else Inr \<lparr>mv_set = p, mv_outcomes = getOutcomes i d, mv_chainData = populateByPredictionSetId i d,
                mv_isWatched = getIsWatched c i d, mv_transactionsVolume = fst (getVolume i d),
                mv_fundingVolume = snd (getVolume i d), mv_positions = getOpenPositions c i d,
                mv_fundingPositions = getOpenFundingPositions c i d\<rparr>)"

definition getPredictionSetPositions :: "ctx \<Rightarrow> nat \<Rightarrow> db \<Rightarrow> (exn, position list) res" where
  "getPredictionSetPositions c i d =
    bindR (requirePredictionSet i d) (\<lambda>p. Inr (getOpenPositions c i d))"

definition getPredictionSetFundingPositions :: "ctx \<Rightarrow> nat \<Rightarrow> db \<Rightarrow> (exn, int) res" where
  "getPredictionSetFundingPositions c i d =
    bindR (requirePredictionSet i d) (\<lambda>p. Inr (getOpenFundingPositions c i d))"

definition getPredictionSetDataSources :: "nat \<Rightarrow> db \<Rightarrow> (exn, data_source list) res" where
  "getPredictionSetDataSources i d = bindR (requirePredictionSet i d) (\<lambda>p. Inr (getDataSources i d))"

section \<open>Watchlist and finalized worker\<close>

text \<open>The INSERT is refused by the table's foreign key for a market that is not there.\<close>

definition addUserWatchlist :: "ctx \<Rightarrow> nat \<Rightarrow> nat \<Rightarrow> db mysql \<Rightarrow> (exn, bool) res \<times> db mysql" where
  "addUserWatchlist c uId psId m =
    (if populateByUserAndPredictionSetId uId psId (committed m) \<noteq> None then (Inr True, m)
     else withTx (\<lambda>d. bindR (guardR (byId psId (prediction_sets d) \<noteq> None) (JsError ''foreign key'')) (\<lambda>_.
            bindR (insertRow c watchlistClash
              \<lparr>rowId = 0, status = ACTIVE, createTime = 0, updateTime = 0, createUser = None,
               updateUser = None, uw_user_id = uId, uw_prediction_set_id = psId\<rparr> (watchlists d))
            (\<lambda>(i, t). Inr (d\<lparr>watchlists := t\<rparr>, True)))) m)"

definition removeUserWatchlist :: "nat \<Rightarrow> nat \<Rightarrow> db mysql \<Rightarrow> (exn, bool) res \<times> db mysql" where
  "removeUserWatchlist uId psId m =
    (case populateByUserAndPredictionSetId uId psId (committed m) of
       None \<Rightarrow> (Inr True, m)
     | Some w \<Rightarrow> (Inr True, single (\<lambda>d. d\<lparr>watchlists := deleteRow (rowId w) (watchlists d)\<rparr>) m))"

definition triggerFinalizedWorker ::
  "(nat \<Rightarrow> (exn, unit) res) \<Rightarrow> nat \<Rightarrow> db \<Rightarrow> (exn, unit) res" where
  "triggerFinalizedWorker trigger i d =
    bindR (requirePredictionSet i d) (\<lambda>p.
      if ps_setStatus p \<noteq> PS_FINALIZED then Inl predictionSetBadStatus else trigger i)"

lemma upt_front: "[k..<k + Suc n] = k # [Suc k..<Suc k + n]"
  by (subst upt_rec) simp

section \<open>What the steps of a request do\<close>

lemma requirePredictionSet_Inr:
  "requirePredictionSet i d = Inr p \<Longrightarrow>
   i \<noteq> 0 \<and> p \<in> set (rows (prediction_sets d)) \<and> rowId p = i \<and> status p \<noteq> DELETED"
  by (auto simp: requirePredictionSet_def res_simps split: option.splits dest: populateById_SomeD)

lemma requirePredictionSet_byId:
  assumes "tblInv (prediction_sets d)"
  shows "requirePredictionSet i d = Inr p \<longleftrightarrow>
         i \<noteq> 0 \<and> byId i (prediction_sets d) = Some p \<and> status p \<noteq> DELETED"
  using assms
  by (auto simp: requirePredictionSet_def populateById_byId res_simps predictionSetMissing_def
           split: option.splits if_splits)

lemma attachDataSource_Inr:
  assumes "attachDataSource psId i d = Inr d'"
  shows "d' = addDataSource psId i d"
    and "\<exists>s \<in> set (rows (data_sources d)). rowId s = i \<and> status s \<noteq> DELETED"
  using assms
  by (auto simp: attachDataSource_def res_simps split: option.splits dest: populateById_SomeD)

lemma set_addDataSource: "set (ps_data_sources (addDataSource psId i d)) =
    insert (psId, i) (set (ps_data_sources d))"
  by (auto simp: addDataSource_def)

lemma addDataSource_frame: "\<exists>l. addDataSource psId i d = d\<lparr>ps_data_sources := l\<rparr>"
proof (cases "(psId, i) \<in> set (ps_data_sources d)")
  case True
  then have "addDataSource psId i d = d\<lparr>ps_data_sources := ps_data_sources d\<rparr>"
    by (simp add: addDataSource_def)
  then show ?thesis ..
qed (auto simp: addDataSource_def)

lemma attachDataSources_Inr:
  assumes "forEach (attachDataSource psId) ids d = Inr d'"
  shows "\<exists>l. d' = d\<lparr>ps_data_sources := l\<rparr> \<and> set l = set (ps_data_sources d) \<union> Pair psId ` set ids"
    and "\<forall>i \<in> set ids. \<exists>s \<in> set (rows (data_sources d)). rowId s = i \<and> status s \<noteq> DELETED"
  using assms
proof (induction ids arbitrary: d)
  case Nil
  {
    case 1
    then show ?case by (intro exI [where x = "ps_data_sources d"]) simp
  next
    case 2
    show ?case by simp
  }
next
  case (Cons i ids)
  {
    case 1
    then obtain d1 where a: "attachDataSource psId i d = Inr d1"
      and r: "forEach (attachDataSource psId) ids d1 = Inr d'" by (auto simp: res_simps)
    from attachDataSource_Inr(1)[OF a] addDataSource_frame obtain l1
      where l1: "d1 = d\<lparr>ps_data_sources := l1\<rparr>" by metis
    moreover have "set l1 = insert (psId, i) (set (ps_data_sources d))"
      using attachDataSource_Inr(1)[OF a] l1 set_addDataSource [of psId i d] by (metis db.select_convs(4) db.surjective db.update_convs(4))
    ultimately show ?case using Cons.IH(1)[OF r] by auto
  next
    case 2
    then obtain d1 where a: "attachDataSource psId i d = Inr d1"
      and r: "forEach (attachDataSource psId) ids d1 = Inr d'" by (auto simp: res_simps)
    from attachDataSource_Inr(1)[OF a] addDataSource_frame obtain l1
      where "d1 = d\<lparr>ps_data_sources := l1\<rparr>" by metis
    then show ?case using Cons.IH(2)[OF r] attachDataSource_Inr(2)[OF a] by auto
  }
qed

text \<open>The rows that the outcomes of a request become.\<close>

definition outcomeRowsFor :: "nat \<Rightarrow> nat \<Rightarrow> outcome list \<Rightarrow> outcome list \<Rightarrow> bool" where
  "outcomeRowsFor psId k ocs new \<longleftrightarrow>
     map oc_outcomeIndex new = [k..<k + length ocs] \<and> map oc_name new = map oc_name ocs
     \<and> map oc_imgUrl new = map oc_imgUrl ocs \<and> (\<forall>r \<in> set new. oc_prediction_set_id r = psId)"

lemma insertOutcome_Inr:
  assumes "insertOutcome c psId (k, oc) d = Inr d'"
  obtains r where "d' = d\<lparr>outcomes := outcomes d'\<rparr>" "rows (outcomes d') = rows (outcomes d) @ [r]"
    "oc_outcomeIndex r = k" "oc_prediction_set_id r = psId" "oc_name r = oc_name oc"
    "oc_imgUrl r = oc_imgUrl oc" "tblInv (outcomes d) \<Longrightarrow> tblInv (outcomes d')"
proof -
  obtain i t where ins: "insertRow c outcomeClash
      (oc\<lparr>oc_outcomeIndex := k, oc_prediction_set_id := psId\<rparr>) (outcomes d) = Inr (i, t)"
    and d': "d' = d\<lparr>outcomes := t\<rparr>"
    using assms by (auto simp: insertOutcome_def split: sum.splits)
  show ?thesis
    by (rule that [where r = "oc\<lparr>oc_outcomeIndex := k, oc_prediction_set_id := psId, rowId := i,
          createUser := ctx_user c, updateUser := ctx_user c, createTime := ctx_now c,
          updateTime := ctx_now c\<rparr>"])
       (use insertRow_Inr(1)[OF ins] d' tblInv_insertRow[OF _ ins] in auto)
qed

lemma insertOutcomes_Inr:
  assumes "forEach (insertOutcome c psId) (zip [k..<k + length ocs] ocs) d = Inr d'"
  shows "d' = d\<lparr>outcomes := outcomes d'\<rparr>
     \<and> (\<exists>new. rows (outcomes d') = rows (outcomes d) @ new \<and> outcomeRowsFor psId k ocs new)
     \<and> (tblInv (outcomes d) \<longrightarrow> tblInv (outcomes d'))"
  using assms
proof (induction ocs arbitrary: d k)
  case Nil
  then show ?case by (auto simp: outcomeRowsFor_def)
next
  case (Cons oc ocs)
  have z: "zip [k..<k + length (oc # ocs)] (oc # ocs) = (k, oc) # zip [Suc k..<Suc k + length ocs] ocs"
    using upt_front [of k "length ocs"] by (simp del: upt_Suc)
  from Cons.prems obtain d1 where a: "insertOutcome c psId (k, oc) d = Inr d1"
    and r: "forEach (insertOutcome c psId) (zip [Suc k..<Suc k + length ocs] ocs) d1 = Inr d'"
    unfolding z by (auto simp: res_simps)
  from insertOutcome_Inr [OF a] obtain x where x: "d1 = d\<lparr>outcomes := outcomes d1\<rparr>"
    "rows (outcomes d1) = rows (outcomes d) @ [x]" "oc_outcomeIndex x = k"
    "oc_prediction_set_id x = psId" "oc_name x = oc_name oc" "oc_imgUrl x = oc_imgUrl oc"
    "tblInv (outcomes d) \<Longrightarrow> tblInv (outcomes d1)" by metis
  from Cons.IH [OF r] obtain new where new: "d' = d1\<lparr>outcomes := outcomes d'\<rparr>"
    "rows (outcomes d') = rows (outcomes d1) @ new" "outcomeRowsFor psId (Suc k) ocs new"
    "tblInv (outcomes d1) \<longrightarrow> tblInv (outcomes d')" by auto
  have "outcomeRowsFor psId k (oc # ocs) (x # new)"
    using new(3) x(3-6) upt_front [of k "length ocs"]
    by (simp add: outcomeRowsFor_def del: upt_Suc)
  moreover have "d' = d\<lparr>outcomes := outcomes d'\<rparr>"
    using new(1) x(1) by (metis db.update_convs(2) db.surjective)
  ultimately show ?case using new x by auto
qed

lemma addPredictionCategories_Inr:
  assumes "forEach (\<lambda>cat d. escaping (addPredictionCategory psId cat d)) cats d = Inr d'"
  shows "d' = d\<lparr>ps_categories := ps_categories d @ map (Pair psId) cats\<rparr>"
  using assms
proof (induction cats arbitrary: d)
  case (Cons a cats)
  then obtain p where "requirePredictionSet psId d = Inr p"
    and "forEach (\<lambda>cat d. escaping (addPredictionCategory psId cat d)) cats
           (d\<lparr>ps_categories := ps_categories d @ [(rowId p, a)]\<rparr>) = Inr d'"
    by (auto simp: res_simps addPredictionCategory_def)
  with Cons.IH show ?case by (fastforce dest: requirePredictionSet_Inr)
qed simp

section \<open>Properties of the service\<close>

lemma createPredictionSetTx_Inr:
  assumes "createPredictionSetTx c k pool p ocs dsIds cats w = Inr (w', psId)"
  obtains tok t w1 w2 where
    "populateById (ps_collateral_token_id p) (collateral_tokens pool) = Inr (Some tok)"
    "validatePredictionSet p = []"
    "insertRow c noClash p (prediction_sets w) = Inr (psId, t)"
    "ps_resolutionType p = resolutionTypeNo RT_AUTOMATIC \<Longrightarrow> k \<le> length dsIds"
    "ps_resolutionType p = resolutionTypeNo RT_AUTOMATIC \<Longrightarrow>
       forEach (attachDataSource psId) dsIds (w\<lparr>prediction_sets := t\<rparr>) = Inr w1"
    "ps_resolutionType p \<noteq> resolutionTypeNo RT_AUTOMATIC \<Longrightarrow> w1 = w\<lparr>prediction_sets := t\<rparr>"
    "forEach (insertOutcome c psId) (zip [0..<length ocs] ocs) w1 = Inr w2"
    "w' = w2\<lparr>ps_categories := ps_categories w2 @ map (Pair psId) cats\<rparr>"
  using assms unfolding createPredictionSetTx_def
  by (auto simp: res_simps split: if_splits sum.splits prod.splits
           dest!: addPredictionCategories_Inr)


text \<open>
  The admin operations leave a market alone that is not in an editable status.
\<close>

lemma single_missing_row:
  assumes "tblInv (prediction_sets (committed m))"
  shows "committed (single (setPredictionSet c 0 f) m) = committed m"
proof -
  have "rows (updateRow c 0 f (prediction_sets (committed m))) = rows (prediction_sets (committed m))"
    using assms by (auto simp: updateRow_def tblInv_def intro!: upd_where_none)
  then show ?thesis
    by (simp add: setPredictionSet_def updateRow_def)
qed


lemma updatePredictionSetTx_Inr:
  assumes "updatePredictionSetTx c i dto ocs dsIds w = Inr (w', j)"
  obtains p w1 w2 where "j = i" "requirePredictionSet i w = Inr p" "editable (ps_setStatus p)"
    "forEach (attachDataSource i) dsIds (deleteDataSources i w) = Inr w1"
    "forEach (insertOutcome c i) (zip [0..<length ocs] ocs) (deleteOutcomes i w1) = Inr w2"
    "w' = setPredictionSet c i (populateUser dto) w2"
  using assms unfolding updatePredictionSetTx_def by (auto simp: res_simps split: if_splits)

text \<open>
  C10: A successful update replaces the market's parts: the market was editable, its
  outcomes are exactly those of the request with indices 0 up to n-1 and the
  outcomes of every other market are kept, its data sources are exactly the
  requested ones, and the row takes the request's fields, the status included,
  while the collateral token and the winner stay as they were.
\<close>

theorem updatePredictionSet_replaces:
  assumes "tblInv (prediction_sets (committed m))"
    and "updatePredictionSet c i dto ocs dsIds m = (Inr j, m')"
  shows "\<exists>p p' new. byId i (prediction_sets (committed m)) = Some p \<and> editable (ps_setStatus p)
    \<and> byId i (prediction_sets (committed m')) = Some p'
    \<and> p' = (populateUser dto p)\<lparr>rowId := i, updateUser := ctx_user c, updateTime := ctx_now c\<rparr>
    \<and> ps_setStatus p' = ps_setStatus dto \<and> ps_collateral_token_id p' = ps_collateral_token_id p
    \<and> ps_winner_outcome_id p' = ps_winner_outcome_id p
    \<and> rows (outcomes (committed m')) =
        filter (\<lambda>r. oc_prediction_set_id r \<noteq> i) (rows (outcomes (committed m))) @ new
    \<and> outcomeRowsFor i 0 ocs new
    \<and> set (ps_data_sources (committed m')) =
        {x \<in> set (ps_data_sources (committed m)). fst x \<noteq> i} \<union> Pair i ` set dsIds"
proof -
  let ?d = "committed m"
  from assms(2) obtain w' where tx: "updatePredictionSetTx c i dto ocs dsIds ?d = Inr (w', j)"
    and m': "m' = m\<lparr>committed := w'\<rparr>" unfolding updatePredictionSet_def
    by (cases rule: withTxA_cases [of "updatePredictionSetTx c i dto ocs dsIds" m]) auto
  from updatePredictionSetTx_Inr [OF tx] obtain p w1 w2 where
    p: "requirePredictionSet i ?d = Inr p" "editable (ps_setStatus p)"
    and src: "forEach (attachDataSource i) dsIds (deleteDataSources i ?d) = Inr w1"
    and oc: "forEach (insertOutcome c i) (zip [0..<length ocs] ocs) (deleteOutcomes i w1) = Inr w2"
    and w': "w' = setPredictionSet c i (populateUser dto) w2" by metis
  from attachDataSources_Inr(1) [OF src] obtain l where
    l: "w1 = ?d\<lparr>ps_data_sources := l\<rparr>"
       "set l = {x \<in> set (ps_data_sources ?d). fst x \<noteq> i} \<union> Pair i ` set dsIds"
    by (auto simp: deleteDataSources_def)
  from insertOutcomes_Inr [of c i 0 ocs _ w2] oc obtain new where
    w2: "w2 = (deleteOutcomes i w1)\<lparr>outcomes := outcomes w2\<rparr>"
    and new: "rows (outcomes w2) = rows (outcomes (deleteOutcomes i w1)) @ new"
             "outcomeRowsFor i 0 ocs new" by auto
  have fields: "prediction_sets w2 = prediction_sets ?d" "ps_data_sources w2 = l"
    by (subst w2, simp add: deleteOutcomes_def l(1))+
  have "byId i (prediction_sets ?d) = Some p"
    using p(1) requirePredictionSet_byId [OF assms(1)] by simp
  moreover from this have "byId i (prediction_sets w') =
      Some ((populateUser dto p)\<lparr>rowId := i, updateUser := ctx_user c, updateTime := ctx_now c\<rparr>)"
    by (simp add: w' setPredictionSet_def fields tbl_simps)
  moreover have "rows (outcomes w') = filter (\<lambda>r. oc_prediction_set_id r \<noteq> i) (rows (outcomes ?d)) @ new"
    using new(1) by (simp add: w' setPredictionSet_def deleteOutcomes_def l(1))
  ultimately show ?thesis
    using p(2) new(2) fields l m' by (auto simp: w' setPredictionSet_def populateUser_def)
qed

text \<open>
  A request that fails changes no committed row; and a create whose collateral
  token does not exist answers 404 with the transaction's connection never
  given back to the pool.
\<close>

theorem createPredictionSet_fails:
  "(fst (createPredictionSet c k p ocs dsIds cats m) = Inl e \<longrightarrow>
      committed (snd (createPredictionSet c k p ocs dsIds cats m)) = committed m)
   \<and> (populateById (ps_collateral_token_id p) (collateral_tokens (committed m)) = Inr None \<longrightarrow>
      createPredictionSet c k p ocs dsIds cats m =
        (Inl (CodeException 404 COLLATERAL_TOKEN_DOES_NOT_EXISTS), m\<lparr>openTx := openTx m + 1\<rparr>))"
proof (intro conjI impI)
  assume "fst (createPredictionSet c k p ocs dsIds cats m) = Inl e"
  then show "committed (snd (createPredictionSet c k p ocs dsIds cats m)) = committed m"
    unfolding createPredictionSet_def
    by (cases rule: withTxA_cases [of "createPredictionSetTx c k (committed m) p ocs dsIds cats" m]) auto
next
  assume "populateById (ps_collateral_token_id p) (collateral_tokens (committed m)) = Inr None"
  then show "createPredictionSet c k p ocs dsIds cats m =
        (Inl (CodeException 404 COLLATERAL_TOKEN_DOES_NOT_EXISTS), m\<lparr>openTx := openTx m + 1\<rparr>)"
    by (simp add: createPredictionSet_def createPredictionSetTx_def withTxA_def start_def)
qed

text \<open>
  When the queue refuses the message the status change is already committed: the
  call throws, the market is PENDING with no message behind it, and every later
  processing call for it is refused.
\<close>

theorem process_queue_failure_blocks:
  assumes "tblInv (prediction_sets (committed m))"
    and "byId i (prediction_sets (committed m)) = Some p" and "i \<noteq> 0"
    and "status p \<noteq> DELETED" and "editable (ps_setStatus p)" and "send i = Inl e"
  shows "\<exists>m'. processPredictionSet c send i m = (Inl e, m', [])
    \<and> map_option ps_setStatus (byId i (prediction_sets (committed m'))) = Some PS_PENDING
    \<and> (\<forall>c2 send2. processPredictionSet c2 send2 i m' = (Inl predictionSetBadStatus, m', []))"
proof -
  let ?m' = "single (setPredictionSet c i (\<lambda>r. r\<lparr>ps_setStatus := PS_PENDING\<rparr>)) m"
  let ?p' = "p\<lparr>ps_setStatus := PS_PENDING, rowId := i, updateUser := ctx_user c, updateTime := ctx_now c\<rparr>"
  have req: "requirePredictionSet i (committed m) = Inr p"
    using assms by (simp add: requirePredictionSet_byId)
  then have first: "processPredictionSet c send i m = (Inl e, ?m', [])"
    using assms(5,6) by (simp add: processPredictionSet_def Let_def)
  have row: "byId i (prediction_sets (committed ?m')) = Some ?p'"
    using assms(2) by (simp add: setPredictionSet_def tbl_simps)
  have "tblInv (prediction_sets (committed ?m'))"
    using assms(1) by (simp add: setPredictionSet_def)
  then have "requirePredictionSet i (committed ?m') = Inr ?p'"
    using row assms(3,4) by (simp add: requirePredictionSet_byId)
  then have "processPredictionSet c2 send2 i ?m' = (Inl predictionSetBadStatus, ?m', [])" for c2 send2
    by (simp add: processPredictionSet_def editable_def)
  with first row show ?thesis by auto
qed

text \<open>
  A hidden market looks to everyone but an admin exactly like a market that does
  not exist: the answer is the same exception, and only an admin or a visible
  market gets a view, which then is of the stored row.
\<close>

theorem getPredictionById_visibility:
  assumes "tblInv (prediction_sets d)" and "i \<noteq> 0"
  shows "(getPredictionById c i d = Inl predictionSetMissing \<longleftrightarrow>
      (case byId i (prediction_sets d) of None \<Rightarrow> True
       | Some p \<Rightarrow> status p = DELETED \<or> (ps_hide p \<and> defaultUserRoleNo ROLE_ADMIN \<notin> set (ctx_roles c))))
    \<and> (\<forall>v. getPredictionById c i d = Inr v \<longrightarrow>
      byId i (prediction_sets d) = Some (mv_set v) \<and> status (mv_set v) \<noteq> DELETED
      \<and> (ps_hide (mv_set v) \<longrightarrow> defaultUserRoleNo ROLE_ADMIN \<in> set (ctx_roles c)))"
  using assms
  by (auto simp: getPredictionById_def requirePredictionSet_def populateById_byId hasRole_def
           split: option.splits if_splits)

end
