(* ===== verification/Chain_Window.thy ===== *)
theory Chain_Window
  imports Schema
begin

text \<open>
  The workers and the indexer read the chain in windows of blocks: from the block
  after the last one processed up to a bound, never beyond the confirmed head,
  and the cursor moves in the same transaction as the rows the events become.
  The interface \<open>block_parser\<close> states what a parser provides; its lemmas say that
  successive passes cover the chain without gap or overlap.
\<close>

section \<open>Windows\<close>

text \<open>
  The workers' window (\<open>fromBlock\<close>, \<open>toBlock\<close>), or none where they return early:
  \<open>head\<close> is the block number less the confirmations.
\<close>

definition nextWindow :: "int \<Rightarrow> int \<Rightarrow> int \<Rightarrow> (int \<times> int) option" where
  "nextWindow lastProcessedBlock parseBlockSize head =
    (let fromBlock = lastProcessedBlock + 1;
         toBlock = (if fromBlock + parseBlockSize > head then head else fromBlock + parseBlockSize)
     in if fromBlock \<ge> toBlock then None else Some (fromBlock, toBlock))"

text \<open>The indexer returns early only for an empty window.\<close>

definition nextWindowIndexer :: "int \<Rightarrow> int \<Rightarrow> int \<Rightarrow> (int \<times> int) option" where
  "nextWindowIndexer lastProcessedBlock parseBlockSize head =
    (let fromBlock = lastProcessedBlock + 1;
         toBlock = (if fromBlock + parseBlockSize > head then head else fromBlock + parseBlockSize)
     in if fromBlock > toBlock then None else Some (fromBlock, toBlock))"

definition windowOk :: "int \<Rightarrow> int \<Rightarrow> int \<Rightarrow> int \<times> int \<Rightarrow> bool" where
  "windowOk l n h w \<longleftrightarrow> fst w = l + 1 \<and> fst w \<le> snd w \<and> snd w \<le> h \<and> snd w \<le> fst w + n"

lemma nextWindow_ok: "nextWindow l n h = Some w \<Longrightarrow> windowOk l n h w"
  by (auto simp: nextWindow_def windowOk_def Let_def split: if_splits)

lemma nextWindowIndexer_ok: "nextWindowIndexer l n h = Some w \<Longrightarrow> windowOk l n h w"
  by (auto simp: nextWindowIndexer_def windowOk_def Let_def split: if_splits)

lemma nextWindow_None: "nextWindow l n h = None \<longleftrightarrow> n \<le> 0 \<or> h \<le> l + 1"
  by (auto simp: nextWindow_def Let_def split: if_splits)

lemma nextWindowIndexer_None: "nextWindowIndexer l n h = None \<longleftrightarrow> n < 0 \<or> h \<le> l"
  by (auto simp: nextWindowIndexer_def Let_def split: if_splits)

text \<open>
  The two readers treat a single fresh block differently: the indexer takes the
  window of one block, the workers skip it until the next block is confirmed, and
  on every longer window they agree.
\<close>

theorem single_block_window:
  assumes "0 < n"
  shows "nextWindowIndexer l n (l + 1) = Some (l + 1, l + 1) \<and> nextWindow l n (l + 1) = None
    \<and> (\<forall>h. h \<noteq> l + 1 \<longrightarrow> nextWindow l n h = nextWindowIndexer l n h)"
  using assms by (auto simp: nextWindow_def nextWindowIndexer_def Let_def)

section \<open>Series of windows\<close>

fun covers :: "int \<Rightarrow> (int \<times> int) list \<Rightarrow> int \<Rightarrow> bool" where
  "covers l [] l' \<longleftrightarrow> l' = l"
| "covers l (w # ws) l' \<longleftrightarrow> fst w = l + 1 \<and> fst w \<le> snd w \<and> covers (snd w) ws l'"

lemma covers_le: "covers l ws l' \<Longrightarrow> l \<le> l'"
  by (induction l ws l' rule: covers.induct) auto

text \<open>The blocks of the windows in order are exactly the blocks passed over.\<close>

lemma covers_blocks: "covers l ws l' \<Longrightarrow> concat (map (\<lambda>w. [fst w..snd w]) ws) = [l + 1..l']"
proof (induction l ws l' rule: covers.induct)
  case (2 l w ws l')
  then have "l + 1 \<le> snd w" "snd w \<le> l'" using covers_le by auto
  then have "[l + 1..l'] = [l + 1..snd w] @ [snd w + 1..l']"
    by (metis add.commute add_le_cancel_left le_add_same_cancel1 upto_split2 zero_le_one
        order_trans add_increasing2)
  with 2 show ?case by auto
qed simp

section \<open>The parser interface\<close>

locale block_parser =
  fixes cursor :: "'d \<Rightarrow> int"
    and blocks :: "'d \<Rightarrow> int"
    and advance :: "int \<Rightarrow> 'd \<Rightarrow> 'd"
    and window :: "int \<Rightarrow> int \<Rightarrow> int \<Rightarrow> (int \<times> int) option"
    and head :: "'c \<Rightarrow> int"
    and process :: "'c \<Rightarrow> int \<Rightarrow> int \<Rightarrow> 'd \<Rightarrow> ('e, 'd) res"
    and ready :: "'d \<Rightarrow> bool"
  assumes window_ok: "window l n h = Some w \<Longrightarrow> windowOk l n h w"
    and cursor_advance: "ready d \<Longrightarrow> cursor (advance b d) = b"
    and blocks_advance: "ready d \<Longrightarrow> blocks (advance b d) = blocks d"
    and ready_advance: "ready d \<Longrightarrow> ready (advance b d)"
    and process_keeps: "ready d \<Longrightarrow> process c f t d = Inr d' \<Longrightarrow>
          ready d' \<and> cursor d' = cursor d \<and> blocks d' = blocks d"
begin

text \<open>One run of the worker on the chain as it is seen then.\<close>

definition pass :: "'c \<Rightarrow> 'd \<Rightarrow> 'd" where
  "pass c d = (case window (cursor d) (blocks d) (head c) of
      None \<Rightarrow> d
    | Some (f, t) \<Rightarrow> (case process c f t d of Inl e \<Rightarrow> d | Inr d' \<Rightarrow> advance t d'))"

definition passWindow :: "'c \<Rightarrow> 'd \<Rightarrow> (int \<times> int) list" where
  "passWindow c d = (case window (cursor d) (blocks d) (head c) of
      None \<Rightarrow> []
    | Some (f, t) \<Rightarrow> (case process c f t d of Inl e \<Rightarrow> [] | Inr d' \<Rightarrow> [(f, t)]))"

primrec passes :: "'c list \<Rightarrow> 'd \<Rightarrow> 'd" where
  "passes [] d = d"
| "passes (c # cs) d = passes cs (pass c d)"

primrec windows :: "'c list \<Rightarrow> 'd \<Rightarrow> (int \<times> int) list" where
  "windows [] d = []"
| "windows (c # cs) d = passWindow c d @ windows cs (pass c d)"

lemma pass_cases:
  obtains (idle) "pass c d = d" "passWindow c d = []"
  | (moved) f t d' where "window (cursor d) (blocks d) (head c) = Some (f, t)"
      "process c f t d = Inr d'" "pass c d = advance t d'" "passWindow c d = [(f, t)]"
proof (cases "window (cursor d) (blocks d) (head c)")
  case None
  then show ?thesis by (intro idle) (simp_all add: pass_def passWindow_def)
next
  case (Some w)
  obtain f t where w: "w = (f, t)" by (cases w)
  show ?thesis
  proof (cases "process c f t d")
    case (Inl e)
    with Some w show ?thesis by (intro idle) (simp_all add: pass_def passWindow_def)
  next
    case (Inr d')
    with Some w show ?thesis by (intro moved) (simp_all add: pass_def passWindow_def)
  qed
qed

lemma ready_pass: "ready d \<Longrightarrow> ready (pass c d)"
  by (cases rule: pass_cases [of c d]) (auto intro: ready_advance dest: process_keeps)

lemma blocks_pass: "ready d \<Longrightarrow> blocks (pass c d) = blocks d"
  by (cases rule: pass_cases [of c d]) (auto simp: blocks_advance dest: process_keeps)

lemma cursor_pass:
  assumes "ready d"
  shows "covers (cursor d) (passWindow c d) (cursor (pass c d))"
    and "cursor (pass c d) \<le> max (cursor d) (head c)"
proof -
  have "covers (cursor d) (passWindow c d) (cursor (pass c d))
        \<and> cursor (pass c d) \<le> max (cursor d) (head c)"
  proof (cases rule: pass_cases [of c d])
    case idle
    then show ?thesis by simp
  next
    case (moved f t d')
    have "cursor (pass c d) = t"
      using moved process_keeps [OF assms moved(2)] cursor_advance by simp
    then show ?thesis using moved window_ok [OF moved(1)] by (auto simp: windowOk_def)
  qed
  then show "covers (cursor d) (passWindow c d) (cursor (pass c d))"
    and "cursor (pass c d) \<le> max (cursor d) (head c)" by auto
qed

lemma covers_append: "covers l ws m \<Longrightarrow> covers m vs n \<Longrightarrow> covers l (ws @ vs) n"
  by (induction l ws m rule: covers.induct) auto

lemma passes_cover: "ready d \<Longrightarrow> covers (cursor d) (windows cs d) (cursor (passes cs d))"
proof (induction cs arbitrary: d)
  case (Cons c cs)
  then show ?case
    using covers_append [OF cursor_pass(1) [OF Cons.prems]] ready_pass [OF Cons.prems] by simp
qed simp

lemma passes_blocks:
  "ready d \<Longrightarrow> concat (map (\<lambda>w. [fst w..snd w]) (windows cs d)) = [cursor d + 1..cursor (passes cs d)]"
  using covers_blocks [OF passes_cover] .

lemma passes_mono: "ready d \<Longrightarrow> cursor d \<le> cursor (passes cs d)"
  using covers_le [OF passes_cover] .

lemma pass_error:
  assumes "window (cursor d) (blocks d) (head c) = Some (f, t)" and "process c f t d = Inl e"
  shows "pass c d = d"
  using assms by (simp add: pass_def)

end

end
