(* ===== verification/Rewards.thy ===== *)
theory Rewards
  imports Schema
begin

text \<open>
  Reward points (\<open>modules/reward-points/\<close>): the award that services and workers
  make inside their transactions, the daily reward, and the sums a user's
  transactions add up to.  A ledger interface states what a caller may rely on.
\<close>

section \<open>Rows\<close>

definition populateByType :: "RewardType \<Rightarrow> db \<Rightarrow> reward_points option" where
  "populateByType ty d =
     find (\<lambda>r. rp_type r = ty \<and> status r \<noteq> DELETED) (rows (reward_pointss d))"

definition newRewardTransaction :: "nat \<Rightarrow> reward_points \<Rightarrow> int \<Rightarrow> reward_transaction" where
  "newRewardTransaction uId rp multiplier =
     \<lparr>rowId = 0, status = ACTIVE, createTime = 0, updateTime = 0, createUser = None, updateUser = None,
      rt_user_id = uId, rt_reward_points_id = rowId rp, rt_value = rp_value rp * multiplier,
      rt_type = rp_type rp\<rparr>"

section \<open>Awarding\<close>

definition awardPoints :: "ctx \<Rightarrow> nat \<Rightarrow> RewardType \<Rightarrow> int \<Rightarrow> db \<Rightarrow> (exn, db) res" where
  "awardPoints c uId ty multiplier d = (case populateByType ty d of
      None \<Rightarrow> Inl (CodeException 404 REWARD_POINTS_DOES_NOT_EXISTS)
    | Some rp \<Rightarrow>
        (case insertRow c noClash (newRewardTransaction uId rp multiplier) (reward_transactions d) of
           Inl e \<Rightarrow> Inl (CodeException 500 SQL_SYSTEM_ERROR)
         | Inr (i, t) \<Rightarrow> Inr (d\<lparr>reward_transactions := t\<rparr>)))"

section \<open>The daily reward\<close>

text \<open>\<open>DATE(t) = CURDATE()\<close>: the same day of the session's clock.\<close>

definition dayOf :: "int \<Rightarrow> int" where
  "dayOf t = t div 86400000"

definition canClaimDailyReward :: "int \<Rightarrow> nat \<Rightarrow> db \<Rightarrow> bool" where
  "canClaimDailyReward now uId d \<longleftrightarrow> \<not> list_ex (\<lambda>r. rt_user_id r = uId \<and> rt_type r = DAILY_LOGIN
      \<and> dayOf (createTime r) = dayOf now) (rows (reward_transactions d))"

definition claimUserDailyReward :: "ctx \<Rightarrow> nat \<Rightarrow> db mysql \<Rightarrow> (exn, unit) res \<times> db mysql" where
  "claimUserDailyReward c uId m =
    (if \<not> canClaimDailyReward (ctx_now c) uId (committed m)
     then (Inl (CodeException 400 DAILY_REWARD_ALREADY_CLAIMED), m)
     else withTx (\<lambda>d. bindR (awardPoints c uId DAILY_LOGIN 1 d) (\<lambda>d'. Inr (d', ()))) m)"

section \<open>Sums\<close>

record user_points =
  up_totalPoints :: int
  up_byType :: "RewardType \<Rightarrow> int"
  up_referralCount :: nat

definition userRows :: "nat \<Rightarrow> db \<Rightarrow> reward_transaction list" where
  "userRows uId d = filter (\<lambda>r. rt_user_id r = uId \<and> status r \<noteq> DELETED) (rows (reward_transactions d))"

definition getUserPoints :: "nat \<Rightarrow> db \<Rightarrow> user_points" where
  "getUserPoints uId d = \<lparr>
     up_totalPoints = (\<Sum>r\<leftarrow>userRows uId d. rt_value r),
     up_byType = (\<lambda>ty. \<Sum>r\<leftarrow>userRows uId d. if rt_type r = ty then rt_value r else 0),
     up_referralCount = length (filter (\<lambda>r. rt_type r = USER_REFERRAL) (userRows uId d))\<rparr>"

section \<open>What an award does\<close>

lemma awardPoints_Inr:
  assumes "awardPoints c uId ty k d = Inr d'"
  obtains rp i t where "populateByType ty d = Some rp" "d' = d\<lparr>reward_transactions := t\<rparr>"
    "rows t = rows (reward_transactions d) @
       [(newRewardTransaction uId rp k)\<lparr>rowId := i, createUser := ctx_user c,
          updateUser := ctx_user c, createTime := ctx_now c, updateTime := ctx_now c\<rparr>]"
    "tblInv (reward_transactions d) \<Longrightarrow> tblInv t"
  using assms unfolding awardPoints_def
  by (auto split: option.splits sum.splits prod.splits
           dest: insertRow_Inr(1) tblInv_insertRow intro!: that)

lemma populateByType_type: "populateByType ty d = Some rp \<Longrightarrow> rp_type rp = ty \<and> status rp \<noteq> DELETED"
  unfolding populateByType_def by (drule find_SomeD) simp

lemma awardPoints_dbInv: "dbInv d \<Longrightarrow> awardPoints c uId ty k d = Inr d' \<Longrightarrow> dbInv d'"
  by (erule awardPoints_Inr) (simp add: dbInv_def)

lemma awardPoints_frame:
  assumes "awardPoints c uId ty k d = Inr d'"
  shows "\<exists>t. d' = d\<lparr>reward_transactions := t\<rparr>"
  using assms by (elim awardPoints_Inr) auto

text \<open>
  An award succeeds exactly when its reward is configured: the new row has a
  fresh id as long as the table's ids are below its counter.
\<close>

lemma awardPoints_total:
  assumes "tblInv (reward_transactions d)" and "populateByType ty d = Some rp"
  shows "\<exists>d'. awardPoints c uId ty k d = Inr d'"
  using assms
  by (auto simp: awardPoints_def insertRow_def newRewardTransaction_def noClash_def Let_def
      list_ex_iff tblInv_def)

section \<open>The ledger interface\<close>

text \<open>
  The balance of an account after a credit, and the value of a credit: a caller
  that credits within its transaction needs no more.
\<close>

locale points_ledger =
  fixes credit :: "'u \<Rightarrow> 'k \<Rightarrow> int \<Rightarrow> 'd \<Rightarrow> ('e, 'd) res"
    and balance :: "'u \<Rightarrow> 'd \<Rightarrow> int"
    and worth :: "'k \<Rightarrow> 'd \<Rightarrow> int"
  assumes balance_credit: "credit u k n d = Inr d' \<Longrightarrow>
      balance v d' = balance v d + (if v = u then worth k d * n else 0)"
    and worth_credit: "credit u k n d = Inr d' \<Longrightarrow> worth j d' = worth j d"
begin

text \<open>A batch of credits raises each balance by the sum of what was credited to it.\<close>

lemma balance_credits:
  assumes "forEach (\<lambda>(u, k, n). credit u k n) xs d = Inr d'"
  shows "balance v d' = balance v d + (\<Sum>(u, k, n)\<leftarrow>xs. if u = v then worth k d * n else 0)"
proof -
  have "balance v d' = balance v d + (\<Sum>(u, k, n)\<leftarrow>xs. if u = v then worth k d * n else 0)
        \<and> (\<forall>j. worth j d' = worth j d)"
    using assms
  proof (induction xs arbitrary: d)
    case (Cons x xs)
    obtain u k n where x: "x = (u, k, n)" by (cases x) auto
    from Cons.prems obtain d1 where a: "credit u k n d = Inr d1"
      and r: "forEach (\<lambda>(u, k, n). credit u k n) xs d1 = Inr d'"
      by (auto simp: x res_simps)
    have w: "worth j d1 = worth j d" for j using worth_credit [OF a] .
    show ?case using Cons.IH [OF r] balance_credit [OF a, of v] w
      by (simp add: x case_prod_beta cong: if_cong)
  qed simp
  then show ?thesis by simp
qed

lemma credit_other: "credit u k n d = Inr d' \<Longrightarrow> v \<noteq> u \<Longrightarrow> balance v d' = balance v d"
  by (simp add: balance_credit)

end

definition pointsOf :: "nat \<Rightarrow> db \<Rightarrow> int" where
  "pointsOf uId d = up_totalPoints (getUserPoints uId d)"

definition rewardValue :: "RewardType \<Rightarrow> db \<Rightarrow> int" where
  "rewardValue ty d = (case populateByType ty d of None \<Rightarrow> 0 | Some rp \<Rightarrow> rp_value rp)"

lemma populateByType_cong: "reward_pointss d' = reward_pointss d \<Longrightarrow> populateByType ty d' = populateByType ty d"
  by (simp add: populateByType_def)

interpretation ledger: points_ledger "awardPoints c" pointsOf rewardValue for c :: ctx
proof
  fix u k n d d' v
  assume "awardPoints c u k n d = Inr d'"
  then obtain rp i t where rp: "populateByType k d = Some rp"
    and d': "d' = d\<lparr>reward_transactions := t\<rparr>"
    and t: "rows t = rows (reward_transactions d) @
       [(newRewardTransaction u rp n)\<lparr>rowId := i, createUser := ctx_user c,
          updateUser := ctx_user c, createTime := ctx_now c, updateTime := ctx_now c\<rparr>]"
    by (rule awardPoints_Inr)
  have "userRows v d' = userRows v d @ (if v = u then
       [(newRewardTransaction u rp n)\<lparr>rowId := i, createUser := ctx_user c,
          updateUser := ctx_user c, createTime := ctx_now c, updateTime := ctx_now c\<rparr>] else [])"
    by (simp add: userRows_def d' t newRewardTransaction_def)
  then show "pointsOf v d' = pointsOf v d + (if v = u then rewardValue k d * n else 0)"
    by (simp add: pointsOf_def getUserPoints_def rewardValue_def rp newRewardTransaction_def)
next
  fix u k n d d' j
  assume "awardPoints c u k n d = Inr d'"
  then obtain t where "d' = d\<lparr>reward_transactions := t\<rparr>" using awardPoints_frame by blast
  then have "reward_pointss d' = reward_pointss d" by simp
  then show "rewardValue j d' = rewardValue j d" by (simp add: rewardValue_def populateByType_cong [of d' d])
qed

section \<open>Properties\<close>


text \<open>
  The check and the insert of a daily claim are two steps without a lock: two
  requests that both pass the check before either inserts are both rewarded.
\<close>

theorem daily_reward_race:
  assumes "canClaimDailyReward (ctx_now c) u d" and "tblInv (reward_transactions d)"
    and "populateByType DAILY_LOGIN d = Some rp"
  shows "\<exists>d1 d2. awardPoints c u DAILY_LOGIN 1 d = Inr d1 \<and> awardPoints c u DAILY_LOGIN 1 d1 = Inr d2
    \<and> pointsOf u d2 = pointsOf u d + 2 * rp_value rp"
proof -
  obtain d1 where a1: "awardPoints c u DAILY_LOGIN 1 d = Inr d1"
    using awardPoints_total [OF assms(2,3)] by blast
  obtain t where t: "d1 = d\<lparr>reward_transactions := t\<rparr>" "tblInv t"
    using a1 assms(2) by (elim awardPoints_Inr) blast
  then have p1: "populateByType DAILY_LOGIN d1 = Some rp"
    using assms(3) populateByType_cong [of d1 d] by simp
  have "tblInv (reward_transactions d1)" using t by simp
  then obtain d2 where a2: "awardPoints c u DAILY_LOGIN 1 d1 = Inr d2"
    using awardPoints_total p1 by blast
  have "pointsOf u d2 = pointsOf u d + 2 * rp_value rp"
    using ledger.balance_credit [OF a1, of u] ledger.balance_credit [OF a2, of u] assms(3) p1
    by (simp add: rewardValue_def)
  with a1 a2 show ?thesis by blast
qed

lemma sum_over_types:
  fixes g :: "RewardType \<Rightarrow> int"
  shows "(\<Sum>ty\<leftarrow>[MARKET_FUNDING, BUYING_SHARES, SELLING_SHARES, MARKET_WINNER, PROPOSAL_WINNER,
           PROPOSAL_VOTE, USER_REFERRAL, DAILY_LOGIN]. if x = ty then v else 0) = (v::int)"
  by (cases x) auto

text \<open>
  The totals of a user are consistent: the sums per reward type add up to the
  total, and without referral transactions the referral sum is zero.
\<close>

theorem user_points_add_up:
  "(\<Sum>ty\<leftarrow>[MARKET_FUNDING, BUYING_SHARES, SELLING_SHARES, MARKET_WINNER, PROPOSAL_WINNER,
       PROPOSAL_VOTE, USER_REFERRAL, DAILY_LOGIN]. up_byType (getUserPoints u d) ty)
    = up_totalPoints (getUserPoints u d)
   \<and> (up_referralCount (getUserPoints u d) = 0 \<longrightarrow> up_byType (getUserPoints u d) USER_REFERRAL = 0)"
proof -
  have "(\<Sum>ty\<leftarrow>[MARKET_FUNDING, BUYING_SHARES, SELLING_SHARES, MARKET_WINNER, PROPOSAL_WINNER,
       PROPOSAL_VOTE, USER_REFERRAL, DAILY_LOGIN].
         \<Sum>r\<leftarrow>rs. if rt_type r = ty then rt_value r else 0) = (\<Sum>r\<leftarrow>rs. rt_value r)"
    for rs :: "reward_transaction list"
  proof (induction rs)
    case (Cons r rs)
    then show ?case using sum_over_types [of "rt_type r" "rt_value r"] by simp
  qed simp
  moreover have "(\<Sum>r\<leftarrow>rs. if rt_type r = USER_REFERRAL then rt_value r else 0) = 0"
    if "filter (\<lambda>r. rt_type r = USER_REFERRAL) rs = []" for rs :: "reward_transaction list"
    using that by (induction rs) (auto split: if_splits)
  ultimately show ?thesis by (auto simp: getUserPoints_def)
qed

end
