(* ===== verification/Users.thy ===== *)
theory Users
  imports Rewards
begin

text \<open>The user model (\<open>modules/user/models/user.model.ts\<close>) and its roles.\<close>

text \<open>No status filter: a deleted user is found as well.\<close>

definition populateByWalletAddress :: "string \<Rightarrow> db \<Rightarrow> user option" where
  "populateByWalletAddress addr d = find (\<lambda>u. us_walletAddress u = addr) (rows (users d))"

definition populateByEmail :: "string \<Rightarrow> db \<Rightarrow> (exn, user option) res" where
  "populateByEmail email d = (if email = [] then Inl (JsError ''Email should not be null'')
     else Inr (find (\<lambda>u. us_email u = Some email) (rows (users d))))"

definition addRole :: "nat \<Rightarrow> nat \<Rightarrow> db \<Rightarrow> db" where
  "addRole uId role d = (if (uId, role) \<in> set (user_roles d) then d
     else d\<lparr>user_roles := user_roles d @ [(uId, role)]\<rparr>)"

text \<open>
  \<open>populateRoles\<close>: the ids of the user's roles in order; \<open>live\<close> says which roles
  of the role table are not deleted.
\<close>

definition populateRoles :: "(nat \<Rightarrow> bool) \<Rightarrow> nat \<Rightarrow> db \<Rightarrow> nat list" where
  "populateRoles live uId d = (if uId = 0 then []
     else sort (map snd (filter (\<lambda>x. fst x = uId \<and> live (snd x)) (user_roles d))))"

definition userHasRole :: "(nat \<Rightarrow> bool) \<Rightarrow> nat \<Rightarrow> nat \<Rightarrow> db \<Rightarrow> bool" where
  "userHasRole live uId role d \<longleftrightarrow> list_ex (\<lambda>r. r = role) (populateRoles live uId d)"

lemma userHasRole_iff:
  "userHasRole live uId role d \<longleftrightarrow> uId \<noteq> 0 \<and> (uId, role) \<in> set (user_roles d) \<and> live role"
  by (force simp: userHasRole_def populateRoles_def list_ex_iff)

lemma userHasRole_addRole:
  "userHasRole live uId role (addRole uId role' d) \<longleftrightarrow>
     userHasRole live uId role d \<or> (uId \<noteq> 0 \<and> role = role' \<and> live role)"
  by (auto simp: userHasRole_iff addRole_def)

end
