(* ===== verification/Chain_Parsers.thy ===== *)
theory Chain_Parsers
  imports Chain_Window Market_Model Users
begin

text \<open>
  The workers that turn contract events into rows: votes
  (\<open>workers/voting-parser.worker.ts\<close>), claims (\<open>claims-parser.worker.ts\<close>), created
  markets (\<open>prediction-sets-factory-parser.worker.ts\<close>) and removed funding of
  finalized markets (\<open>prediction-set-finalized-parser.worker.ts\<close>).  The chain a run
  sees is a record of what its queries answer.  \<open>pool\<close> is the committed database,
  which lookups made without the transaction's connection read.
\<close>

section \<open>The pass of a contract parser\<close>

text \<open>\<open>ContractId\<close> of \<open>modules/contract/models/contract.model.ts\<close>.\<close>

datatype ContractId = FPMM_FACTORY | IGNITE_ORACLE | CONDITIONAL_TOKENS

fun contractIdNo :: "ContractId \<Rightarrow> nat" where
  "contractIdNo FPMM_FACTORY = 1"
| "contractIdNo IGNITE_ORACLE = 2"
| "contractIdNo CONDITIONAL_TOKENS = 3"

definition contractRow :: "ContractId \<Rightarrow> db \<Rightarrow> contract option" where
  "contractRow k d = (case populateById (contractIdNo k) (contracts d) of
      Inl e \<Rightarrow> None | Inr r \<Rightarrow> r)"

definition advanceContract :: "ctx \<Rightarrow> ContractId \<Rightarrow> int \<Rightarrow> db \<Rightarrow> db" where
  "advanceContract c k b d = updateContractBlock (ctx_now c) (contractIdNo k) b d"

text \<open>
  The common frame of the workers: start, read the contract, take the window,
  process its events, move the cursor, commit; an early return and any throw roll
  back.
\<close>

definition contractPassTx ::
  "ctx \<Rightarrow> ContractId \<Rightarrow> int \<Rightarrow> (db \<Rightarrow> int \<Rightarrow> int \<Rightarrow> db \<Rightarrow> (exn, db) res) \<Rightarrow> db \<Rightarrow> db \<Rightarrow> (exn, db \<times> unit) res" where
  "contractPassTx c k head process pool w = (case contractRow k pool of
      None \<Rightarrow> Inl (JsError ''no contract'')
    | Some con \<Rightarrow>
        (case nextWindow (con_lastProcessedBlock con) (con_parseBlockSize con) head of
           None \<Rightarrow> Inl (JsError ''no confirmed block'')
         | Some (fromBlock, toBlock) \<Rightarrow>
             bindR (process pool fromBlock toBlock w) (\<lambda>w'.
               Inr (advanceContract c k toBlock w', ()))))"

definition contractPass ::
  "ctx \<Rightarrow> ContractId \<Rightarrow> int \<Rightarrow> (db \<Rightarrow> int \<Rightarrow> int \<Rightarrow> db \<Rightarrow> (exn, db) res) \<Rightarrow> db mysql \<Rightarrow> db mysql" where
  "contractPass c k head process m = snd (withTx (contractPassTx c k head process (committed m)) m)"

section \<open>Votes\<close>

record vote_event =
  ve_voter :: string
  ve_questionId :: string
  ve_outcomeIndex :: int
  ve_txHash :: string

record forced_event =
  fe_admin :: string
  fe_questionId :: string
  fe_txHash :: string

record vote_chain =
  vc_head :: int
  vc_votes :: "int \<Rightarrow> int \<Rightarrow> (exn, vote_event list) res"
  vc_forced :: "int \<Rightarrow> int \<Rightarrow> (exn, forced_event list) res"
  vc_question :: "string \<Rightarrow> (exn, int \<times> int) res"

text \<open>The market of a chain-data row, or none where the code logs and continues.\<close>

definition setOfChainData :: "chain_data option \<Rightarrow> db \<Rightarrow> (exn, prediction_set option) res" where
  "setOfChainData cd d = (case cd of
      None \<Rightarrow> Inr None
    | Some r \<Rightarrow> populateById (cd_prediction_set_id r) (prediction_sets d))"

definition setStatusRow :: "ctx \<Rightarrow> nat \<Rightarrow> PredictionSetStatus \<Rightarrow> db \<Rightarrow> db" where
  "setStatusRow c i s d = d\<lparr>prediction_sets :=
     updateRow c i (\<lambda>r. r\<lparr>ps_setStatus := s\<rparr>) (prediction_sets d)\<rparr>"

definition finalizeRow :: "ctx \<Rightarrow> nat \<Rightarrow> nat \<Rightarrow> db \<Rightarrow> db" where
  "finalizeRow c i winner d = d\<lparr>prediction_sets :=
     updateRow c i (\<lambda>r. r\<lparr>ps_winner_outcome_id := Some winner, ps_setStatus := PS_FINALIZED\<rparr>)
       (prediction_sets d)\<rparr>"

definition insertVote :: "ctx \<Rightarrow> db \<Rightarrow> vote_event \<Rightarrow> nat \<Rightarrow> db \<Rightarrow> (exn, db) res" where
  "insertVote c pool e psId w =
    bindR (insertRow c noClash
      \<lparr>rowId = 0, status = ACTIVE, createTime = 0, updateTime = 0, createUser = None, updateUser = None,
       vt_prediction_set_id = psId,
       vt_user_id = map_option rowId (populateByWalletAddress (ve_voter e) pool),
       vt_outcome_id = map_option rowId (populateByIndexAndPredictionSetId (ve_outcomeIndex e) psId pool),
       vt_txHash = ve_txHash e, vt_wallet = ve_voter e, vt_questionId = ve_questionId e,
       vt_outcomeIndex = ve_outcomeIndex e\<rparr> (voting_transactions w))
     (\<lambda>(i, t). Inr (w\<lparr>voting_transactions := t\<rparr>))"

definition processVote :: "ctx \<Rightarrow> vote_chain \<Rightarrow> db \<Rightarrow> vote_event \<Rightarrow> db \<Rightarrow> (exn, db) res" where
  "processVote c chain pool e w =
    bindR (setOfChainData (populateByQuestionId (ve_questionId e) w) w) (\<lambda>r. case r of
      None \<Rightarrow> Inr w
    | Some ps \<Rightarrow>
        bindR (vc_question chain (ve_questionId e)) (\<lambda>(st, winnerIdx).
          if st = predictionSetBcStatusNo BC_FINALIZED
          then (case populateByIndexAndPredictionSetId winnerIdx (rowId ps) pool of
                  None \<Rightarrow> Inr w
                | Some oc \<Rightarrow> insertVote c pool e (rowId ps) (finalizeRow c (rowId ps) (rowId oc) w))
          else insertVote c pool e (rowId ps) w))"

definition processForced :: "ctx \<Rightarrow> forced_event \<Rightarrow> db \<Rightarrow> (exn, db) res" where
  "processForced c e w =
    bindR (setOfChainData (populateByQuestionId (fe_questionId e) w) w) (\<lambda>r. case r of
      None \<Rightarrow> Inr w
    | Some ps \<Rightarrow> Inr (setStatusRow c (rowId ps) PS_VOTING w))"

text \<open>All votes of the window first, then all forced votings.\<close>

definition processVoting :: "ctx \<Rightarrow> vote_chain \<Rightarrow> db \<Rightarrow> int \<Rightarrow> int \<Rightarrow> db \<Rightarrow> (exn, db) res" where
  "processVoting c chain pool fromBlock toBlock w =
    bindR (vc_votes chain fromBlock toBlock) (\<lambda>votes.
    bindR (forEach (processVote c chain pool) votes w) (\<lambda>w1.
    bindR (vc_forced chain fromBlock toBlock) (\<lambda>forced.
      forEach (processForced c) forced w1)))"

definition parseVotes :: "ctx \<Rightarrow> vote_chain \<Rightarrow> db mysql \<Rightarrow> db mysql" where
  "parseVotes c chain = contractPass c IGNITE_ORACLE (vc_head chain) (processVoting c chain)"

section \<open>Claims\<close>

record claim_event =
  ce_wallet :: string
  ce_conditionId :: string
  ce_indexSet :: nat
  ce_payout :: int
  ce_txHash :: string

record claim_chain =
  cc_head :: int
  cc_claims :: "int \<Rightarrow> int \<Rightarrow> (exn, claim_event list) res"

text \<open>
  \<open>Math.log2(indexSet)\<close>: an index for a power of two; for any other index set the
  logarithm is no integer and no outcome has it.
\<close>

definition log2Index :: "nat \<Rightarrow> int option" where
  "log2Index n = map_option int (find (\<lambda>k. 2 ^ k = n) [0..<n])"

definition processClaim :: "ctx \<Rightarrow> claim_event \<Rightarrow> db \<Rightarrow> (exn, db) res" where
  "processClaim c e w =
    bindR (setOfChainData (populateByConditionId (ce_conditionId e) w) w) (\<lambda>r. case r of
      None \<Rightarrow> Inr w
    | Some ps \<Rightarrow>
       (case populateByWalletAddress (ce_wallet e) w of
          None \<Rightarrow> Inl (JsError ''User does not exists'')
        | Some u \<Rightarrow>
           (case Option.bind (log2Index (ce_indexSet e))
                   (\<lambda>idx. populateByIndexAndPredictionSetId idx (rowId ps) w) of
              None \<Rightarrow> Inl (JsError ''Outcome does not exists'')
            | Some oc \<Rightarrow>
               bindR (insertRow c noClash
                 \<lparr>rowId = 0, status = ACTIVE, createTime = 0, updateTime = 0, createUser = None,
                  updateUser = None, ct_prediction_set_id = rowId ps, ct_user_id = rowId u,
                  ct_outcome_id = rowId oc, ct_txHash = ce_txHash e, ct_wallet = ce_wallet e,
                  ct_amount = ce_payout e\<rparr> (claim_transactions w))
               (\<lambda>(i, t). awardPoints c (rowId u) MARKET_WINNER 1 (w\<lparr>claim_transactions := t\<rparr>)))))"

definition processClaims :: "ctx \<Rightarrow> claim_chain \<Rightarrow> db \<Rightarrow> int \<Rightarrow> int \<Rightarrow> db \<Rightarrow> (exn, db) res" where
  "processClaims c chain pool fromBlock toBlock w =
    bindR (cc_claims chain fromBlock toBlock) (\<lambda>es. forEach (processClaim c) es w)"

definition parseClaims :: "ctx \<Rightarrow> claim_chain \<Rightarrow> db mysql \<Rightarrow> db mysql" where
  "parseClaims c chain = contractPass c CONDITIONAL_TOKENS (cc_head chain) (processClaims c chain)"

section \<open>Created markets\<close>

record factory_event =
  fa_contractAddress :: string
  fa_conditionId :: string
  fa_txHash :: string
  fa_blockNumber :: int

text \<open>
  \<open>finishSetup\<close> is the call that completes the contract's setup where it is not
  complete, \<open>positionId\<close> the token id of an outcome index.
\<close>

record factory_chain =
  fc_head :: int
  fc_created :: "int \<Rightarrow> int \<Rightarrow> (exn, factory_event list) res"
  fc_finishSetup :: "string \<Rightarrow> (exn, unit) res"
  fc_positionId :: "string \<Rightarrow> nat \<Rightarrow> (exn, string) res"

definition setPositionId ::
  "ctx \<Rightarrow> factory_chain \<Rightarrow> string \<Rightarrow> outcome \<Rightarrow> db \<Rightarrow> (exn, db) res" where
  "setPositionId c chain addr oc w =
    bindR (fc_positionId chain addr (oc_outcomeIndex oc)) (\<lambda>pos.
      Inr (w\<lparr>outcomes := updateRow c (rowId oc) (\<lambda>r. r\<lparr>oc_positionId := Some pos\<rparr>) (outcomes w)\<rparr>))"

definition processCreated :: "ctx \<Rightarrow> factory_chain \<Rightarrow> factory_event \<Rightarrow> db \<Rightarrow> (exn, db) res" where
  "processCreated c chain e w =
    (case populateByConditionId (fa_conditionId e) w of
       None \<Rightarrow> Inl (JsError ''Prediction set chain data does not exists'')
     | Some cd \<Rightarrow>
        bindR (populateById (cd_prediction_set_id cd) (prediction_sets w)) (\<lambda>r. case r of
          None \<Rightarrow> Inl (JsError ''Prediction set does not exists'')
        | Some ps \<Rightarrow>
           bindR (updateUnique c chainDataClash (rowId cd)
              (\<lambda>x. x\<lparr>cd_contractAddress := Some (fa_contractAddress e), cd_txHash := fa_txHash e,
                     cd_lastProcessedBlock := fa_blockNumber e\<rparr>) (chain_datas w)) (\<lambda>t.
           bindR (fc_finishSetup chain (fa_contractAddress e)) (\<lambda>u.
             forEach (setPositionId c chain (fa_contractAddress e))
               (map fst (getOutcomes (rowId ps) w))
               (setStatusRow c (rowId ps) PS_FUNDING (w\<lparr>chain_datas := t\<rparr>))))))"

definition processFactory :: "ctx \<Rightarrow> factory_chain \<Rightarrow> db \<Rightarrow> int \<Rightarrow> int \<Rightarrow> db \<Rightarrow> (exn, db) res" where
  "processFactory c chain pool fromBlock toBlock w =
    bindR (fc_created chain fromBlock toBlock) (\<lambda>es. forEach (processCreated c chain) es w)"

definition parsePredictionSets :: "ctx \<Rightarrow> factory_chain \<Rightarrow> db mysql \<Rightarrow> db mysql" where
  "parsePredictionSets c chain = contractPass c FPMM_FACTORY (fc_head chain) (processFactory c chain)"

section \<open>Finalized markets\<close>

record removed_event =
  re_txHash :: string
  re_wallet :: string
  re_amounts :: string
  re_fromFeePool :: int
  re_shares :: int

record market_chain =
  mc_head :: int
  mc_removed :: "int \<Rightarrow> int \<Rightarrow> (exn, removed_event list) res"

text \<open>The planner: finalized markets on chain with funding shares left.\<close>

definition fundingSharesLeft :: "nat \<Rightarrow> db \<Rightarrow> int" where
  "fundingSharesLeft psId d = (\<Sum>f\<leftarrow>filter (\<lambda>f. ft_prediction_set_id f = psId)
      (rows (funding_transactions d)). if ft_type f = FT_ADDED then ft_shares f else - ft_shares f)"

definition finalizedPlanner :: "db \<Rightarrow> nat list" where
  "finalizedPlanner d = map rowId (filter (\<lambda>p. ps_setStatus p = PS_FINALIZED \<and> status p = ACTIVE
      \<and> list_ex (\<lambda>x. cd_prediction_set_id x = rowId p \<and> status x = ACTIVE \<and> cd_contractAddress x \<noteq> None)
          (rows (chain_datas d))
      \<and> fundingSharesLeft (rowId p) d > 0) (rows (prediction_sets d)))"

definition insertRemoved :: "ctx \<Rightarrow> nat \<Rightarrow> removed_event \<Rightarrow> db \<Rightarrow> (exn, db) res" where
  "insertRemoved c psId e w =
    bindR (insertRow c noClash
      \<lparr>rowId = 0, status = ACTIVE, createTime = 0, updateTime = 0, createUser = None, updateUser = None,
       ft_prediction_set_id = psId,
       ft_user_id = map_option rowId (populateByWalletAddress (re_wallet e) w),
       ft_txHash = re_txHash e, ft_wallet = re_wallet e, ft_amounts = re_amounts e,
       ft_shares = re_shares e, ft_collateralAmount = None,
       ft_collateralRemovedFromFeePool = Some (re_fromFeePool e), ft_type = FT_REMOVED\<rparr>
      (funding_transactions w))
     (\<lambda>(i, t). Inr (w\<lparr>funding_transactions := t\<rparr>))"

definition finalizedExecutorTx ::
  "ctx \<Rightarrow> market_chain \<Rightarrow> nat \<Rightarrow> db \<Rightarrow> db \<Rightarrow> (exn, db \<times> unit) res" where
  "finalizedExecutorTx c chain psId pool w =
    bindR (populateById psId (prediction_sets pool)) (\<lambda>r. case r of
      None \<Rightarrow> Inl (JsError ''Prediction set does not exists'')
    | Some ps \<Rightarrow>
        if ps_setStatus ps \<noteq> PS_FINALIZED then Inl (JsError ''Prediction set is not finalized'')
        else (case populateByPredictionSetId psId pool of
          None \<Rightarrow> Inl (JsError ''no contract'')
        | Some cd \<Rightarrow>
            (case (cd_contractAddress cd,
                   nextWindow (cd_lastProcessedBlock cd) (cd_parseBlockSize cd) (mc_head chain)) of
               (Some addr, Some (fromBlock, toBlock)) \<Rightarrow>
                 bindR (mc_removed chain fromBlock toBlock) (\<lambda>es.
                 bindR (forEach (insertRemoved c psId) es w) (\<lambda>w1.
                   Inr (updateLastProcessedBlock (ctx_now c) (rowId cd) toBlock w1, ())))
             | _ \<Rightarrow> Inl (JsError ''no confirmed block''))))"

definition finalizedExecutor :: "ctx \<Rightarrow> market_chain \<Rightarrow> nat \<Rightarrow> db mysql \<Rightarrow> db mysql" where
  "finalizedExecutor c chain psId m = snd (withTx (finalizedExecutorTx c chain psId (committed m)) m)"

section \<open>The contract parsers meet the parser interface\<close>

definition contractCursor :: "ContractId \<Rightarrow> db \<Rightarrow> int" where
  "contractCursor k d = (case contractRow k d of None \<Rightarrow> 0 | Some con \<Rightarrow> con_lastProcessedBlock con)"

definition contractBlocks :: "ContractId \<Rightarrow> db \<Rightarrow> int" where
  "contractBlocks k d = (case contractRow k d of None \<Rightarrow> 0 | Some con \<Rightarrow> con_parseBlockSize con)"

definition contractReady :: "ContractId \<Rightarrow> db \<Rightarrow> bool" where
  "contractReady k d \<longleftrightarrow> tblInv (contracts d) \<and> contractRow k d \<noteq> None"

lemma contractRow_rowId: "contractRow k d = Some con \<Longrightarrow> rowId con = contractIdNo k"
  by (auto simp: contractRow_def split: sum.splits dest: populateById_SomeD)

lemma contractRow_updateContractBlock:
  assumes "tblInv (contracts d)"
  shows "contractRow k (updateContractBlock now (contractIdNo k) b d) =
    map_option (\<lambda>r. r\<lparr>con_lastProcessedBlock := b, rowId := contractIdNo k, updateTime := now\<rparr>)
      (contractRow k d)"
  using assms
  by (cases k) (auto simp: contractRow_def updateContractBlock_def populateById_byId tbl_simps
      split: option.splits)

lemma contractRow_cong: "contracts d' = contracts d \<Longrightarrow> contractRow k d' = contractRow k d"
  by (simp add: contractRow_def)

lemma tblInv_updateContractBlock [simp]:
  "tblInv (contracts (updateContractBlock now i b d)) = tblInv (contracts d)"
  by (simp add: updateContractBlock_def)

lemma block_parser_contract:
  assumes "\<And>ch f t d d'. process ch f t d = Inr d' \<Longrightarrow> contracts d' = contracts d"
  shows "block_parser (contractCursor k) (contractBlocks k)
    (advanceContract c k) nextWindow process (contractReady k)"
proof
  show "nextWindow l n h = Some w \<Longrightarrow> windowOk l n h w" for l n h w by (rule nextWindow_ok)
next
  fix d b
  assume "contractReady k d"
  then obtain con where "tblInv (contracts d)" "contractRow k d = Some con"
    by (auto simp: contractReady_def)
  then show "contractCursor k (advanceContract c k b d) = b"
    and "contractBlocks k (advanceContract c k b d) = contractBlocks k d"
    and "contractReady k (advanceContract c k b d)"
    by (simp_all add: advanceContract_def contractCursor_def contractBlocks_def contractReady_def
        contractRow_updateContractBlock)
next
  fix d ch f t d'
  assume "contractReady k d" and "process ch f t d = Inr d'"
  with assms have "contracts d' = contracts d" by blast
  then show "contractReady k d' \<and> contractCursor k d' = contractCursor k d
      \<and> contractBlocks k d' = contractBlocks k d"
    using \<open>contractReady k d\<close> contractRow_cong [of d' d k]
    by (simp add: contractReady_def contractCursor_def contractBlocks_def)
qed

lemma insertVote_frame: "insertVote c pool e i w = Inr w' \<Longrightarrow> \<exists>t. w' = w\<lparr>voting_transactions := t\<rparr>"
  by (auto simp: insertVote_def res_simps)

lemma processVote_cases:
  assumes "processVote c chain pool e w = Inr w'"
  obtains (skipped) "w' = w"
  | (finalized) ps winnerIdx oc where
      "setOfChainData (populateByQuestionId (ve_questionId e) w) w = Inr (Some ps)"
      "vc_question chain (ve_questionId e) = Inr (predictionSetBcStatusNo BC_FINALIZED, winnerIdx)"
      "populateByIndexAndPredictionSetId winnerIdx (rowId ps) pool = Some oc"
      "insertVote c pool e (rowId ps) (finalizeRow c (rowId ps) (rowId oc) w) = Inr w'"
  | (voted) ps where
      "setOfChainData (populateByQuestionId (ve_questionId e) w) w = Inr (Some ps)"
      "insertVote c pool e (rowId ps) w = Inr w'"
proof -
  from assms obtain r where r: "setOfChainData (populateByQuestionId (ve_questionId e) w) w = Inr r"
    and rest: "(case r of None \<Rightarrow> Inr w
      | Some ps \<Rightarrow> bindR (vc_question chain (ve_questionId e)) (\<lambda>(st, winnerIdx).
          if st = predictionSetBcStatusNo BC_FINALIZED
          then (case populateByIndexAndPredictionSetId winnerIdx (rowId ps) pool of
                  None \<Rightarrow> Inr w
                | Some oc \<Rightarrow> insertVote c pool e (rowId ps) (finalizeRow c (rowId ps) (rowId oc) w))
          else insertVote c pool e (rowId ps) w)) = Inr w'"
    unfolding processVote_def bindR_Inr_iff by blast
  show ?thesis
  proof (cases r)
    case None
    with rest skipped show ?thesis by simp
  next
    case (Some ps)
    with rest obtain st win where q: "vc_question chain (ve_questionId e) = Inr (st, win)"
      and k: "(if st = predictionSetBcStatusNo BC_FINALIZED
          then (case populateByIndexAndPredictionSetId win (rowId ps) pool of
                  None \<Rightarrow> Inr w
                | Some oc \<Rightarrow> insertVote c pool e (rowId ps) (finalizeRow c (rowId ps) (rowId oc) w))
          else insertVote c pool e (rowId ps) w) = Inr w'"
      by (auto simp: bindR_Inr_iff)
    show ?thesis
    proof (cases "st = predictionSetBcStatusNo BC_FINALIZED")
      case True
      show ?thesis
      proof (cases "populateByIndexAndPredictionSetId win (rowId ps) pool")
        case None
        with k True skipped show ?thesis by simp
      next
        case (Some oc)
        with k True q r \<open>r = Some ps\<close> finalized show ?thesis by simp
      qed
    next
      case False
      with k r Some voted show ?thesis by simp
    qed
  qed
qed

lemma processVote_keeps:
  assumes "processVote c chain pool e w = Inr w'"
  shows "contracts w' = contracts w \<and> chain_datas w' = chain_datas w
    \<and> outcomes w' = outcomes w \<and> users w' = users w"
  using assms
  by (cases rule: processVote_cases) (auto simp: finalizeRow_def dest!: insertVote_frame)

lemma processForced_keeps:
  assumes "processForced c e w = Inr w'"
  shows "contracts w' = contracts w \<and> chain_datas w' = chain_datas w"
  using assms unfolding processForced_def
  by (auto simp: res_simps setStatusRow_def split: option.splits)

lemma processVoting_contracts:
  assumes "processVoting c chain pool f t w = Inr w'"
  shows "contracts w' = contracts w"
proof -
  from assms obtain votes w1 forced where "forEach (processVote c chain pool) votes w = Inr w1"
    and "forEach (processForced c) forced w1 = Inr w'"
    by (auto simp: processVoting_def res_simps)
  then have "contracts w1 = contracts w" "contracts w' = contracts w1"
    using processVote_keeps processForced_keeps by (blast intro: forEach_preserves)+
  then show ?thesis by simp
qed

interpretation voting: block_parser "contractCursor IGNITE_ORACLE" "contractBlocks IGNITE_ORACLE"
  "advanceContract c IGNITE_ORACLE" nextWindow vc_head
  "\<lambda>chain f t d. processVoting c chain d f t d" "contractReady IGNITE_ORACLE" for c :: ctx
  by (rule block_parser_contract) (rule processVoting_contracts)

lemma processClaim_cases:
  assumes "processClaim c e w = Inr w'"
  obtains (skipped) "setOfChainData (populateByConditionId (ce_conditionId e) w) w = Inr None" "w' = w"
  | (claimed) ps u idx oc i t where
      "setOfChainData (populateByConditionId (ce_conditionId e) w) w = Inr (Some ps)"
      "populateByWalletAddress (ce_wallet e) w = Some u" "log2Index (ce_indexSet e) = Some idx"
      "populateByIndexAndPredictionSetId idx (rowId ps) w = Some oc"
      "insertRow c noClash
         \<lparr>rowId = 0, status = ACTIVE, createTime = 0, updateTime = 0, createUser = None,
          updateUser = None, ct_prediction_set_id = rowId ps, ct_user_id = rowId u,
          ct_outcome_id = rowId oc, ct_txHash = ce_txHash e, ct_wallet = ce_wallet e,
          ct_amount = ce_payout e\<rparr> (claim_transactions w) = Inr (i, t)"
      "awardPoints c (rowId u) MARKET_WINNER 1 (w\<lparr>claim_transactions := t\<rparr>) = Inr w'"
  using assms unfolding processClaim_def bindR_Inr_iff
  apply (elim exE conjE)
  apply (auto split: option.splits prod.splits bind_splits simp: bindR_Inr_iff)
  done

lemma processClaim_keeps:
  assumes "processClaim c e w = Inr w'"
  shows "contracts w' = contracts w \<and> chain_datas w' = chain_datas w
    \<and> prediction_sets w' = prediction_sets w \<and> users w' = users w \<and> outcomes w' = outcomes w
    \<and> reward_pointss w' = reward_pointss w"
  using assms by (cases rule: processClaim_cases) (auto dest!: awardPoints_frame)

lemma processClaims_contracts:
  "processClaims c chain pool f t w = Inr w' \<Longrightarrow> contracts w' = contracts w"
  using processClaim_keeps by (auto simp: processClaims_def res_simps intro: forEach_preserves)

interpretation claims: block_parser "contractCursor CONDITIONAL_TOKENS" "contractBlocks CONDITIONAL_TOKENS"
  "advanceContract c CONDITIONAL_TOKENS" nextWindow cc_head
  "\<lambda>chain f t d. processClaims c chain d f t d" "contractReady CONDITIONAL_TOKENS" for c :: ctx
  by (rule block_parser_contract) (rule processClaims_contracts)

lemma setPositionId_frame: "setPositionId c chain a oc w = Inr w' \<Longrightarrow> \<exists>t. w' = w\<lparr>outcomes := t\<rparr>"
  by (auto simp: setPositionId_def res_simps)

lemma processCreated_contracts:
  assumes "processCreated c chain e w = Inr w'"
  shows "contracts w' = contracts w"
proof -
  have "contracts w2 = contracts w1"
    if "forEach (setPositionId c chain a) ocs w1 = Inr w2" for a ocs w1 w2
    using that by (rule forEach_preserves) (auto dest!: setPositionId_frame)
  then show ?thesis
    using assms unfolding processCreated_def
    by (auto simp: res_simps setStatusRow_def split: option.splits)
qed

lemma processFactory_contracts:
  "processFactory c chain pool f t w = Inr w' \<Longrightarrow> contracts w' = contracts w"
  by (auto simp: processFactory_def res_simps intro: forEach_preserves processCreated_contracts)

interpretation factory: block_parser "contractCursor FPMM_FACTORY" "contractBlocks FPMM_FACTORY"
  "advanceContract c FPMM_FACTORY" nextWindow fc_head
  "\<lambda>chain f t d. processFactory c chain d f t d" "contractReady FPMM_FACTORY" for c :: ctx
  by (rule block_parser_contract) (rule processFactory_contracts)

section \<open>Properties of the parsers\<close>

lemma contractPass_cases:
  assumes "contractReady k (committed m)"
  obtains (idle) "nextWindow (contractCursor k (committed m)) (contractBlocks k (committed m)) h = None"
      "contractPass c k h proc m = m"
  | (failed) f t e where
      "nextWindow (contractCursor k (committed m)) (contractBlocks k (committed m)) h = Some (f, t)"
      "proc (committed m) f t (committed m) = Inl e" "contractPass c k h proc m = m"
  | (moved) f t d' where
      "nextWindow (contractCursor k (committed m)) (contractBlocks k (committed m)) h = Some (f, t)"
      "proc (committed m) f t (committed m) = Inr d'"
      "contractPass c k h proc m =
         m\<lparr>committed := advanceContract c k t d'\<rparr>"
proof -
  obtain con where con: "contractRow k (committed m) = Some con"
    using assms by (auto simp: contractReady_def)
  let ?W = "nextWindow (contractCursor k (committed m)) (contractBlocks k (committed m)) h"
  have W: "nextWindow (con_lastProcessedBlock con) (con_parseBlockSize con) h = ?W"
    by (simp add: contractCursor_def contractBlocks_def con)
  show ?thesis
  proof (cases ?W)
    case None
    then show ?thesis using W con
      by (intro idle) (simp_all add: contractPass_def contractPassTx_def withTx_def start_def rollback_def)
  next
    case (Some w)
    obtain f t where w: "w = (f, t)" by (cases w)
    show ?thesis
    proof (cases "proc (committed m) f t (committed m)")
      case (Inl e)
      then show ?thesis using W w Some con
        by (intro failed) (simp_all add: contractPass_def contractPassTx_def withTx_def start_def rollback_def)
    next
      case (Inr d')
      then show ?thesis using W w Some con contractRow_rowId [OF con]
        by (intro moved) (simp_all add: contractPass_def contractPassTx_def withTx_def start_def commit_def)
    qed
  qed
qed

lemma contractPass_openTx: "openTx (contractPass c k h proc m) = openTx m"
  by (simp add: contractPass_def)

lemma parseVotes_pass:
  "contractReady IGNITE_ORACLE (committed m) \<Longrightarrow>
   committed (parseVotes c chain m) = voting.pass c chain (committed m)"
  unfolding parseVotes_def voting.pass_def
  by (cases rule: contractPass_cases
      [of IGNITE_ORACLE m "vc_head chain" c "processVoting c chain"]) auto

lemma parseClaims_pass:
  "contractReady CONDITIONAL_TOKENS (committed m) \<Longrightarrow>
   committed (parseClaims c chain m) = claims.pass c chain (committed m)"
  unfolding parseClaims_def claims.pass_def
  by (cases rule: contractPass_cases
      [of CONDITIONAL_TOKENS m "cc_head chain" c "processClaims c chain"]) auto

lemma parsePredictionSets_pass:
  "contractReady FPMM_FACTORY (committed m) \<Longrightarrow>
   committed (parsePredictionSets c chain m) = factory.pass c chain (committed m)"
  unfolding parsePredictionSets_def factory.pass_def
  by (cases rule: contractPass_cases
      [of FPMM_FACTORY m "fc_head chain" c "processFactory c chain"]) auto

lemma runs_votes: "contractReady IGNITE_ORACLE (committed m) \<Longrightarrow>
    committed (fold (parseVotes c) views m) = voting.passes c views (committed m)"
  by (induction views arbitrary: m)
     (simp_all add: parseVotes_pass voting.ready_pass voting.passes.simps)

lemma runs_claims: "contractReady CONDITIONAL_TOKENS (committed m) \<Longrightarrow>
    committed (fold (parseClaims c) views m) = claims.passes c views (committed m)"
  by (induction views arbitrary: m)
     (simp_all add: parseClaims_pass claims.ready_pass claims.passes.simps)

text \<open>
  C8: Over any series of runs, each with the chain as it is then, the blocks of the
  windows whose votes were committed are exactly the blocks the cursor moved over,
  each once and in order, and no run moves the cursor beyond the confirmed head it
  saw.
\<close>

theorem voting_blocks_once:
  assumes "contractReady IGNITE_ORACLE (committed m)"
  shows "concat (map (\<lambda>w. [fst w..snd w]) (voting.windows c views (committed m)))
      = [contractCursor IGNITE_ORACLE (committed m) + 1..
         contractCursor IGNITE_ORACLE (committed (fold (parseVotes c) views m))]
    \<and> contractCursor IGNITE_ORACLE (committed (parseVotes c chain m))
        \<le> max (contractCursor IGNITE_ORACLE (committed m)) (vc_head chain)
    \<and> openTx (parseVotes c chain m) = openTx m"
  using assms voting.passes_blocks [of "committed m" c views] voting.cursor_pass(2) [of "committed m" c chain]
  by (simp add: runs_votes parseVotes_pass) (simp add: parseVotes_def contractPass_openTx)

text \<open>
  The claims parser is all or nothing: as long as a claim in its window comes
  from a wallet without an account, every run changes nothing, neither the claims
  before it in the window nor the cursor, so no later claim is ever read.
\<close>

theorem unknown_claimer_blocks_claims:
  assumes "contractReady CONDITIONAL_TOKENS (committed m)"
    and "nextWindow (contractCursor CONDITIONAL_TOKENS (committed m))
           (contractBlocks CONDITIONAL_TOKENS (committed m)) (cc_head chain) = Some (f, t)"
    and "cc_claims chain f t = Inr es" and "e \<in> set es"
    and "setOfChainData (populateByConditionId (ce_conditionId e) (committed m)) (committed m) = Inr (Some ps)"
    and "populateByWalletAddress (ce_wallet e) (committed m) = None"
  shows "parseClaims c chain m = m"
proof -
  obtain xs ys where es: "es = xs @ e # ys" using assms(4) by (meson split_list)
  have "\<exists>x. forEach (processClaim c) es (committed m) = Inl x"
  proof (cases "forEach (processClaim c) xs (committed m)")
    case (Inl x)
    then show ?thesis by (simp add: es forEach_append)
  next
    case (Inr d1)
    have keep: "chain_datas d1 = chain_datas (committed m) \<and> prediction_sets d1 = prediction_sets (committed m)
        \<and> users d1 = users (committed m)"
      using Inr by (rule forEach_preserves [where f = "\<lambda>d. (chain_datas d, prediction_sets d, users d)", simplified])
         (use processClaim_keeps in blast)
    then have "populateByConditionId (ce_conditionId e) d1 = populateByConditionId (ce_conditionId e) (committed m)"
      and "populateByWalletAddress (ce_wallet e) d1 = None"
      using assms(6) by (simp_all add: populateByConditionId_def populateByWalletAddress_def)
    moreover from this keep have
      "setOfChainData (populateByConditionId (ce_conditionId e) d1) d1 = Inr (Some ps)"
      using assms(5) by (simp add: setOfChainData_def split: option.splits)
    ultimately have "processClaim c e d1 = Inl (JsError ''User does not exists'')"
      by (simp add: processClaim_def)
    then show ?thesis using Inr by (simp add: es forEach_append)
  qed
  then obtain x where "processClaims c chain (committed m) f t (committed m) = Inl x"
    using assms(3) by (auto simp: processClaims_def)
  then show ?thesis unfolding parseClaims_def
    by (cases rule: contractPass_cases [OF assms(1), of "cc_head chain" c "processClaims c chain"])
       (use assms(2) in auto)
qed

lemma populateByQuestionId_cong:
  "chain_datas d' = chain_datas d \<Longrightarrow> populateByQuestionId q d' = populateByQuestionId q d"
  by (simp add: populateByQuestionId_def)

text \<open>What the market rows look like after a vote or a forced voting.\<close>

definition liveRow :: "nat \<Rightarrow> (prediction_set \<Rightarrow> bool) \<Rightarrow> db \<Rightarrow> bool" where
  "liveRow i P d \<longleftrightarrow> tblInv (prediction_sets d) \<and> i \<noteq> 0 \<and>
     (\<exists>p. byId i (prediction_sets d) = Some p \<and> status p \<noteq> DELETED \<and> P p)"

lemma liveRow_populate: "liveRow i P d \<Longrightarrow>
    \<exists>p. populateById i (prediction_sets d) = Inr (Some p) \<and> rowId p = i \<and> P p"
  by (auto simp: liveRow_def populateById_byId dest: byId_SomeD)

lemma liveRow_setStatusRow:
  assumes "liveRow i P d" and "\<And>p s u t. P p \<Longrightarrow>
     P (p\<lparr>ps_setStatus := st, rowId := i, updateUser := u, updateTime := t\<rparr>)"
  shows "liveRow i P (setStatusRow c j st d)"
  using assms by (fastforce simp: liveRow_def setStatusRow_def tbl_simps)

lemma liveRow_finalizeRow:
  assumes "liveRow i (\<lambda>p. True) d"
  shows "liveRow i (\<lambda>p. True) (finalizeRow c j w d)"
    and "liveRow i (\<lambda>p. ps_winner_outcome_id p = Some w \<and> ps_setStatus p = PS_FINALIZED) (finalizeRow c i w d)"
  using assms by (auto simp: liveRow_def finalizeRow_def tbl_simps)

lemma liveRow_cong: "prediction_sets d' = prediction_sets d \<Longrightarrow> liveRow i P d' = liveRow i P d"
  by (simp add: liveRow_def)

lemma insertVote_sets: "insertVote c pool e i w = Inr w' \<Longrightarrow> prediction_sets w' = prediction_sets w"
  by (drule insertVote_frame) auto

lemma processVote_live:
  assumes "processVote c chain pool e w = Inr w'" and "liveRow i (\<lambda>p. True) w"
  shows "liveRow i (\<lambda>p. True) w'"
  using assms(1)
proof (cases rule: processVote_cases)
  case (finalized ps winnerIdx oc)
  have "liveRow i (\<lambda>p. True) (finalizeRow c (rowId ps) (rowId oc) w)"
    using assms(2) by (rule liveRow_finalizeRow(1))
  then show ?thesis using insertVote_sets [OF finalized(4)] liveRow_cong by blast
next
  case (voted ps)
  then show ?thesis using assms(2) insertVote_sets liveRow_cong by blast
qed (use assms(2) in simp)

lemma processForced_live:
  assumes "processForced c e w = Inr w'" and "liveRow i P w"
    and "\<And>p u t. P p \<Longrightarrow> P (p\<lparr>ps_setStatus := PS_VOTING, rowId := i, updateUser := u, updateTime := t\<rparr>)"
  shows "liveRow i P w'"
  using assms liveRow_setStatusRow [OF assms(2)] unfolding processForced_def
  by (auto simp: res_simps split: option.splits)

text \<open>
  Forced votings are applied after all votes of the window, whatever the order on
  chain: when the last vote of a window finds its question FINALIZED on chain and
  the window also holds a forced voting of that question, the market is left with
  its winner stored and the status VOTING, not FINALIZED.
\<close>

theorem forced_voting_overwrites_final:
  assumes "processVoting c chain pool f t w = Inr w'"
    and "vc_votes chain f t = Inr (vs @ [v])" and "vc_forced chain f t = Inr fs"
    and "e \<in> set fs" and "fe_questionId e = ve_questionId v"
    and "populateByQuestionId (ve_questionId v) w = Some cd" and "cd_prediction_set_id cd = i"
    and "liveRow i (\<lambda>p. True) w"
    and "vc_question chain (ve_questionId v) = Inr (predictionSetBcStatusNo BC_FINALIZED, win)"
    and "populateByIndexAndPredictionSetId win i pool = Some oc"
  shows "liveRow i (\<lambda>p. ps_winner_outcome_id p = Some (rowId oc) \<and> ps_setStatus p = PS_VOTING) w'"
proof -
  let ?W = "\<lambda>p. ps_winner_outcome_id p = Some (rowId oc)"
  from assms(1-3) obtain w0 w1 where a: "forEach (processVote c chain pool) vs w = Inr w0"
    and b: "processVote c chain pool v w0 = Inr w1" and r: "forEach (processForced c) fs w1 = Inr w'"
    by (auto simp: processVoting_def res_simps forEach_append)
  have live0: "liveRow i (\<lambda>p. True) w0"
    using a assms(8) by (rule forEach_invariant) (rule processVote_live)
  have "chain_datas w0 = chain_datas w" using a
    by (rule forEach_preserves) (use processVote_keeps in blast)
  then have q0: "populateByQuestionId (ve_questionId v) w0 = Some cd"
    using assms(6) populateByQuestionId_cong [of w0 w] by simp
  obtain p0 where p0: "populateById i (prediction_sets w0) = Inr (Some p0)" "rowId p0 = i"
    using liveRow_populate [OF live0] by auto
  have "insertVote c pool v i (finalizeRow c i (rowId oc) w0) = Inr w1"
    using b q0 assms(7,9,10) p0 by (simp add: processVote_def setOfChainData_def)
  then have live1: "liveRow i ?W w1"
    using liveRow_finalizeRow(2) [OF live0, where c = c and w = "rowId oc"] insertVote_sets liveRow_cong
    by (fastforce simp: liveRow_def)
  obtain xs ys where fs: "fs = xs @ e # ys" using assms(4) by (meson split_list)
  from r obtain w2 w3 where x: "forEach (processForced c) xs w1 = Inr w2"
    and y: "processForced c e w2 = Inr w3" and z: "forEach (processForced c) ys w3 = Inr w'"
    by (auto simp: fs forEach_append res_simps)
  have live2: "liveRow i ?W w2"
    using x live1 by (rule forEach_invariant) (erule processForced_live, assumption, simp)
  have "chain_datas w2 = chain_datas w1" using x
    by (rule forEach_preserves) (use processForced_keeps in blast)
  then have "populateByQuestionId (fe_questionId e) w2 = Some cd"
    using q0 processVote_keeps [OF b] assms(5)
      populateByQuestionId_cong [of w2 w0 "ve_questionId v"] by simp
  moreover obtain p2 where "populateById i (prediction_sets w2) = Inr (Some p2)" "rowId p2 = i"
    using liveRow_populate [OF live2] by auto
  ultimately have "w3 = setStatusRow c i PS_VOTING w2"
    using y assms(7) by (simp add: processForced_def setOfChainData_def)
  then have live3: "liveRow i (\<lambda>p. ?W p \<and> ps_setStatus p = PS_VOTING) w3"
    using live2 by (auto simp: liveRow_def setStatusRow_def tbl_simps)
  show ?thesis
    using z live3 by (rule forEach_invariant) (erule processForced_live, assumption, simp)
qed

lemma setPositionIds:
  assumes "forEach (setPositionId c chain a) ocs w = Inr w'" and "distinct (map rowId ocs)"
    and "\<And>oc. oc \<in> set ocs \<Longrightarrow> byId (rowId oc) (outcomes w) \<noteq> None"
  shows "(\<exists>t. w' = w\<lparr>outcomes := t\<rparr>) \<and>
    (\<forall>oc \<in> set ocs. \<exists>r pos. byId (rowId oc) (outcomes w') = Some r \<and> oc_positionId r = Some pos
       \<and> fc_positionId chain a (oc_outcomeIndex oc) = Inr pos) \<and>
    (\<forall>j. j \<notin> rowId ` set ocs \<longrightarrow> byId j (outcomes w') = byId j (outcomes w))"
  using assms
proof (induction ocs arbitrary: w)
  case Nil
  then show ?case by (auto intro!: exI [where x = "outcomes w"])
next
  case (Cons oc ocs)
  from Cons.prems(1) obtain w1 where s: "setPositionId c chain a oc w = Inr w1"
    and r: "forEach (setPositionId c chain a) ocs w1 = Inr w'" by (auto simp: res_simps)
  from s obtain pos where pos: "fc_positionId chain a (oc_outcomeIndex oc) = Inr pos"
    and w1: "w1 = w\<lparr>outcomes := updateRow c (rowId oc) (\<lambda>r. r\<lparr>oc_positionId := Some pos\<rparr>) (outcomes w)\<rparr>"
    by (auto simp: setPositionId_def res_simps)
  have in1: "byId (rowId x) (outcomes w1) \<noteq> None" if "x \<in> set ocs" for x
    using Cons.prems(3) [of x] that by (auto simp: w1 tbl_simps)
  note IH = Cons.IH [OF r _ in1]
  have d: "distinct (map rowId ocs)" "rowId oc \<notin> rowId ` set ocs" using Cons.prems(2) by auto
  have "byId (rowId oc) (outcomes w') = byId (rowId oc) (outcomes w1)" using IH d by simp
  moreover obtain r0 where "byId (rowId oc) (outcomes w) = Some r0" using Cons.prems(3) [of oc] by auto
  ultimately have "\<exists>r p. byId (rowId oc) (outcomes w') = Some r \<and> oc_positionId r = Some p
       \<and> fc_positionId chain a (oc_outcomeIndex oc) = Inr p"
    using pos by (simp add: w1 tbl_simps)
  moreover have "byId j (outcomes w') = byId j (outcomes w)" if "j \<notin> rowId ` set (oc # ocs)" for j
    using IH d that by (simp add: w1 tbl_simps)
  moreover have "\<exists>t. w' = w\<lparr>outcomes := t\<rparr>" using IH d(1) by (auto simp: w1)
  ultimately show ?case using IH d(1) by auto
qed

lemma getOutcomes_ids:
  assumes "tblInv (outcomes d)"
  shows "distinct (map rowId (map fst (getOutcomes i d)))"
    and "oc \<in> set (map fst (getOutcomes i d)) \<Longrightarrow> byId (rowId oc) (outcomes d) = Some oc
          \<and> oc_prediction_set_id oc = i"
proof -
  let ?xs = "filter (\<lambda>r. oc_prediction_set_id r = i \<and> status r \<noteq> DELETED) (rows (outcomes d))"
  have fst: "map fst (getOutcomes i d) = sort_key rowId ?xs"
    by (simp add: getOutcomes_def comp_def)
  have "distinct (map rowId ?xs)" using assms by (simp add: tblInv_def distinct_map_filter)
  then have "distinct ?xs" and "inj_on rowId (set ?xs)" by (simp_all add: distinct_map)
  then show "distinct (map rowId (map fst (getOutcomes i d)))"
    unfolding fst distinct_map by simp
  show "oc \<in> set (map fst (getOutcomes i d)) \<Longrightarrow> byId (rowId oc) (outcomes d) = Some oc
          \<and> oc_prediction_set_id oc = i"
    unfolding fst using byId_distinct [OF assms] by auto
qed

text \<open>
  C18: A created market is wired up whole: when its creation event is processed the
  market is in FUNDING, its chain data carries the contract's address and restarts
  the event cursor at the creation block, and every outcome of the market has the
  position id the contract reports for its index.
\<close>

theorem created_market_is_funding:
  assumes "processCreated c chain e w = Inr w'"
    and "tblInv (prediction_sets w)" and "tblInv (chain_datas w)" and "tblInv (outcomes w)"
  shows "\<exists>cd ps. populateByConditionId (fa_conditionId e) w = Some cd
    \<and> populateById (cd_prediction_set_id cd) (prediction_sets w) = Inr (Some ps)
    \<and> liveRow (rowId ps) (\<lambda>p. ps_setStatus p = PS_FUNDING) w'
    \<and> (\<exists>x. byId (rowId cd) (chain_datas w') = Some x
          \<and> cd_contractAddress x = Some (fa_contractAddress e)
          \<and> cd_lastProcessedBlock x = fa_blockNumber e \<and> cd_questionId x = cd_questionId cd)
    \<and> (\<forall>oc \<in> set (map fst (getOutcomes (rowId ps) w)). \<exists>r pos.
          byId (rowId oc) (outcomes w') = Some r \<and> oc_positionId r = Some pos
          \<and> fc_positionId chain (fa_contractAddress e) (oc_outcomeIndex oc) = Inr pos)"
proof -
  from assms(1) obtain cd where cd: "populateByConditionId (fa_conditionId e) w = Some cd"
    by (auto simp: processCreated_def split: option.splits)
  from assms(1) cd obtain ps where ps: "populateById (cd_prediction_set_id cd) (prediction_sets w) = Inr (Some ps)"
    by (auto simp: processCreated_def res_simps split: option.splits)
  let ?f = "\<lambda>x. x\<lparr>cd_contractAddress := Some (fa_contractAddress e), cd_txHash := fa_txHash e,
                     cd_lastProcessedBlock := fa_blockNumber e\<rparr>"
  from assms(1) cd ps obtain t where t: "updateUnique c chainDataClash (rowId cd) ?f (chain_datas w) = Inr t"
    and r: "forEach (setPositionId c chain (fa_contractAddress e)) (map fst (getOutcomes (rowId ps) w))
               (setStatusRow c (rowId ps) PS_FUNDING (w\<lparr>chain_datas := t\<rparr>)) = Inr w'"
    by (auto simp: processCreated_def res_simps)
  have "cd \<in> set (rows (chain_datas w))"
    using cd by (auto simp: populateByConditionId_def split: if_splits dest: find_SomeD)
  then have cdrow: "byId (rowId cd) (chain_datas w) = Some cd" using byId_distinct assms(3) by blast
  then have t': "t = updateRow c (rowId cd) ?f (chain_datas w)"
    using t by (simp add: updateUnique_def split: if_splits)
  have psrow: "byId (rowId ps) (prediction_sets w) = Some ps" "status ps \<noteq> DELETED" "rowId ps \<noteq> 0"
    using populateById_SomeD [OF ps] byId_distinct [OF assms(2), of ps] by auto
  let ?w1 = "setStatusRow c (rowId ps) PS_FUNDING (w\<lparr>chain_datas := t\<rparr>)"
  have oc: "outcomes ?w1 = outcomes w" by (simp add: setStatusRow_def)
  have ex: "byId (rowId x) (outcomes ?w1) \<noteq> None" if "x \<in> set (map fst (getOutcomes (rowId ps) w))" for x
    using getOutcomes_ids(2) [OF assms(4) that] by (simp add: oc)
  have P: "(\<exists>t. w' = ?w1\<lparr>outcomes := t\<rparr>) \<and>
    (\<forall>oc \<in> set (map fst (getOutcomes (rowId ps) w)). \<exists>r pos. byId (rowId oc) (outcomes w') = Some r
       \<and> oc_positionId r = Some pos
       \<and> fc_positionId chain (fa_contractAddress e) (oc_outcomeIndex oc) = Inr pos)"
    using setPositionIds [OF r getOutcomes_ids(1) [OF assms(4)] ex] by blast
  then obtain u where w': "w' = ?w1\<lparr>outcomes := u\<rparr>" by blast
  have "liveRow (rowId ps) (\<lambda>p. ps_setStatus p = PS_FUNDING) w'"
    using psrow assms(2) by (simp add: w' liveRow_def setStatusRow_def tbl_simps)
  moreover have "\<exists>x. byId (rowId cd) (chain_datas w') = Some x
          \<and> cd_contractAddress x = Some (fa_contractAddress e)
          \<and> cd_lastProcessedBlock x = fa_blockNumber e \<and> cd_questionId x = cd_questionId cd"
    using cdrow by (simp add: w' setStatusRow_def t' tbl_simps)
  ultimately show ?thesis using cd ps P by blast
qed

text \<open>
  C19: Every recorded claim is rewarded: a window of claims appends as many reward
  rows as claim rows, and the balance of a user grows by the winner's value once
  for each claim row appended for that user.
\<close>

theorem claims_are_rewarded:
  assumes "forEach (processClaim c) es w = Inr w'"
  shows "\<exists>new. rows (claim_transactions w') = rows (claim_transactions w) @ new
    \<and> length (rows (reward_transactions w')) = length (rows (reward_transactions w)) + length new
    \<and> (\<forall>u. pointsOf u w' = pointsOf u w
          + rewardValue MARKET_WINNER w * int (length (filter (\<lambda>r. ct_user_id r = u) new)))"
  using assms
proof (induction es arbitrary: w)
  case (Cons e es)
  from Cons.prems obtain w1 where s: "processClaim c e w = Inr w1"
    and r: "forEach (processClaim c) es w1 = Inr w'" by (auto simp: res_simps)
  from Cons.IH [OF r] obtain new where new: "rows (claim_transactions w') = rows (claim_transactions w1) @ new"
    "length (rows (reward_transactions w')) = length (rows (reward_transactions w1)) + length new"
    "\<And>u. pointsOf u w' = pointsOf u w1
          + rewardValue MARKET_WINNER w1 * int (length (filter (\<lambda>r. ct_user_id r = u) new))" by blast
  show ?case using s
  proof (cases rule: processClaim_cases)
    case skipped
    with new show ?thesis by blast
  next
    case (claimed ps u idx oc i t)
    let ?w0 = "w\<lparr>claim_transactions := t\<rparr>"
    have "\<exists>y. w1 = ?w0\<lparr>reward_transactions := y\<rparr>
        \<and> length (rows y) = Suc (length (rows (reward_transactions w)))"
      using claimed(6) by (rule awardPoints_Inr) (intro exI conjI, assumption, simp)
    then obtain y where y: "w1 = ?w0\<lparr>reward_transactions := y\<rparr>"
      "length (rows y) = Suc (length (rows (reward_transactions w)))" by blast
    have pts: "pointsOf v w1 = pointsOf v w + (if v = rowId u then rewardValue MARKET_WINNER w else 0)" for v
      using ledger.balance_credit [OF claimed(6), of v]
      by (simp add: pointsOf_def getUserPoints_def userRows_def rewardValue_def populateByType_def)
    have rv: "rewardValue MARKET_WINNER w1 = rewardValue MARKET_WINNER w"
      using y(1) by (simp add: rewardValue_def populateByType_def)
    note ins = insertRow_Inr(1) [OF claimed(5)]
    show ?thesis
      using new pts rv y(2) ins by (intro exI [where x = "last (rows t) # new"]) (auto simp: y(1) algebra_simps)
  qed
qed simp

end
