(* ===== verification/Blockchain.thy ===== *)
theory Blockchain
  imports Prediction_Service
begin

text \<open>
  \<open>lib/blockchain.ts\<close>: the calls that put a market on chain, and the worker that
  makes them (\<open>workers/create-prediction-set.worker.ts\<close>).  The contracts are a
  record of what their calls answer.
\<close>

section \<open>Question ids\<close>

definition hexDigit :: "nat \<Rightarrow> char" where
  "hexDigit n = char_of (if n < 10 then 48 + n else 87 + n)"

fun toHexString :: "nat \<Rightarrow> string" where
  "toHexString n = (if n < 16 then [hexDigit n] else toHexString (n div 16) @ [hexDigit (n mod 16)])"

declare toHexString.simps [simp del]

definition padStart :: "nat \<Rightarrow> char \<Rightarrow> string \<Rightarrow> string" where
  "padStart n ch s = replicate (n - length s) ch @ s"

definition numberToBytes32 :: "nat \<Rightarrow> string" where
  "numberToBytes32 num = ''0x'' @ padStart 64 (CHR ''0'') (toHexString num)"

text \<open>Reading hexadecimal digits back.\<close>

definition hexValue :: "char \<Rightarrow> nat" where
  "hexValue ch = (let n = of_char ch :: nat in if n < 58 then n - 48 else n - 87)"

definition fromHexString :: "string \<Rightarrow> nat" where
  "fromHexString s = foldl (\<lambda>acc ch. 16 * acc + hexValue ch) 0 s"

lemma hexValue_hexDigit: "n < 16 \<Longrightarrow> hexValue (hexDigit n) = n"
  by (auto simp: hexValue_def hexDigit_def Let_def)

lemma fromHexString_snoc: "fromHexString (s @ [ch]) = 16 * fromHexString s + hexValue ch"
  by (simp add: fromHexString_def)

lemma fromHexString_toHexString: "fromHexString (toHexString n) = n"
proof (induction n rule: toHexString.induct)
  case (1 n)
  show ?case
  proof (cases "n < 16")
    case True
    then show ?thesis by (subst toHexString.simps) (simp add: fromHexString_def hexValue_hexDigit)
  next
    case False
    then have "fromHexString (toHexString n) = 16 * fromHexString (toHexString (n div 16)) + n mod 16"
      by (subst toHexString.simps) (simp add: fromHexString_snoc hexValue_hexDigit)
    then show ?thesis using 1 False by simp
  qed
qed

lemma fromHexString_zeros: "fromHexString (replicate k (CHR ''0'') @ s) = fromHexString s"
proof -
  have "foldl (\<lambda>acc ch. 16 * acc + hexValue ch) 0 (replicate k (CHR ''0'')) = 0"
    by (induction k) (simp_all add: hexValue_def)
  then show ?thesis by (simp add: fromHexString_def)
qed

lemma length_toHexString: "n < 16 ^ Suc k \<Longrightarrow> length (toHexString n) \<le> Suc k"
proof (induction k arbitrary: n)
  case 0
  then show ?case by (subst toHexString.simps) simp
next
  case (Suc k)
  show ?case
  proof (cases "n < 16")
    case True
    then show ?thesis by (subst toHexString.simps) simp
  next
    case False
    have "n div 16 < 16 ^ Suc k" using Suc.prems by (simp add: less_mult_imp_div_less)
    then show ?thesis using Suc.IH False by (subst toHexString.simps) simp
  qed
qed

text \<open>
  The question id of a market determines the market: the decoding of the digits
  gives the number back, so different market ids have different question ids, and
  every id below 16 to the 64th has the 66 characters of a bytes32 literal.
\<close>

theorem questionId_roundtrip:
  "fromHexString (drop 2 (numberToBytes32 n)) = n
   \<and> (numberToBytes32 n = numberToBytes32 k \<longleftrightarrow> n = k)
   \<and> (n < 16 ^ 64 \<longrightarrow> length (numberToBytes32 n) = 66)"
proof -
  have dec: "fromHexString (drop 2 (numberToBytes32 n)) = n" for n
    by (simp add: numberToBytes32_def padStart_def fromHexString_zeros fromHexString_toHexString)
  moreover have "length (numberToBytes32 n) = 66" if "n < 16 ^ 64"
    using length_toHexString [of n 63] that by (simp add: numberToBytes32_def padStart_def)
  ultimately show ?thesis by metis
qed

section \<open>Adding a market to the chain\<close>

record init_question =
  iq_questionId :: string
  iq_outcomes :: nat
  iq_urls :: "string list"
  iq_jqs :: "string list"
  iq_threshold :: "int option"
  iq_endTime :: int
  iq_resolutionTime :: int
  iq_automatic :: bool

record create_market =
  cr_collateral :: string
  cr_conditionId :: string
  cr_fundingThreshold :: int
  cr_endTime :: int
  cr_buySellCapPercent :: int

record market_factory =
  mf_initializeQuestion :: "init_question \<Rightarrow> (exn, unit) res"
  mf_getConditionId :: "string \<Rightarrow> nat \<Rightarrow> (exn, string) res"
  mf_createMarket :: "create_market \<Rightarrow> (exn, int) res"
  mf_oracleAddress :: string
  mf_parseBlockSize :: int
  mf_marketCapPercent :: int

text \<open>\<open>Math.ceil(ms / 1000)\<close>\<close>

definition ceilSeconds :: "int \<Rightarrow> int" where
  "ceilSeconds ms = - ((- ms) div 1000)"

definition blockchainError :: exn where
  "blockchainError = CodeException 500 BLOCKCHAIN_SYSTEM_ERROR"

definition newChainData :: "market_factory \<Rightarrow> nat \<Rightarrow> string \<Rightarrow> int \<Rightarrow> chain_data" where
  "newChainData mf psId conditionId blk =
     \<lparr>rowId = 0, status = ACTIVE, createTime = 0, updateTime = 0, createUser = None, updateUser = None,
      cd_prediction_set_id = psId, cd_questionId = numberToBytes32 psId, cd_conditionId = conditionId,
      cd_txHash = [], cd_contractAddress = None, cd_oracleContract = mf_oracleAddress mf,
      cd_lastProcessedBlock = blk, cd_parseBlockSize = mf_parseBlockSize mf\<rparr>"

text \<open>
  The function refers to \<open>this\<close> in the exception for a missing collateral token;
  it has none, so a \<open>TypeError\<close> is thrown there.
\<close>

definition addPredictionSet ::
  "ctx \<Rightarrow> market_factory \<Rightarrow> prediction_set \<Rightarrow> db \<Rightarrow> (exn, db) res" where
  "addPredictionSet c mf p d =
    bindR (populateById (ps_collateral_token_id p) (collateral_tokens d)) (\<lambda>r.
    bindR (requireR (JsError ''TypeError'') r) (\<lambda>tok.
      let questionId = numberToBytes32 (rowId p);
          sources = getDataSources (rowId p) d;
          n = length (getOutcomes (rowId p) d) in
      bindR (rethrowR blockchainError (mf_initializeQuestion mf
               \<lparr>iq_questionId = questionId, iq_outcomes = n, iq_urls = map ds_endpoint sources,
                iq_jqs = map ds_jqQuery sources, iq_threshold = ps_consensusThreshold p,
                iq_endTime = ceilSeconds (ps_endTime p),
                iq_resolutionTime = ceilSeconds (ps_resolutionTime p),
                iq_automatic = (ps_resolutionType p = resolutionTypeNo RT_AUTOMATIC)\<rparr>)) (\<lambda>u.
      bindR (mf_getConditionId mf questionId n) (\<lambda>conditionId.
      bindR (guardR (conditionId \<noteq> []) blockchainError) (\<lambda>u.
      bindR (rethrowR blockchainError (mf_createMarket mf
               \<lparr>cr_collateral = co_address tok, cr_conditionId = conditionId,
                cr_fundingThreshold = co_fundingThreshold tok,
                cr_endTime = ceilSeconds (ps_endTime p),
                cr_buySellCapPercent = (if ps_marketCapPercent p \<noteq> 0 then ps_marketCapPercent p
                                        else mf_marketCapPercent mf)\<rparr>)) (\<lambda>blk.
      bindR (insertRow c chainDataClash (newChainData mf (rowId p) conditionId blk) (chain_datas d))
        (\<lambda>(i, t). Inr (d\<lparr>chain_datas := t\<rparr>))))))))"

section \<open>The worker\<close>

definition handleCreatePredictionSet ::
  "ctx \<Rightarrow> market_factory \<Rightarrow> nat \<Rightarrow> db mysql \<Rightarrow> (exn, unit) res \<times> db mysql" where
  "handleCreatePredictionSet c mf i m =
    (case populateById i (prediction_sets (committed m)) of
       Inl e \<Rightarrow> (Inl e, m)
     | Inr None \<Rightarrow> (Inr (), m)
     | Inr (Some p) \<Rightarrow>
        if ps_setStatus p \<noteq> PS_PENDING \<and> ps_setStatus p \<noteq> PS_ERROR then (Inr (), m)
        else (case addPredictionSet c mf p (committed m) of
                Inl e \<Rightarrow> (Inr (), single (setPredictionSet c i (\<lambda>r. r\<lparr>ps_setStatus := PS_ERROR\<rparr>)) m)
              | Inr d' \<Rightarrow> (Inr (), single (\<lambda>d. d') m)))"

text \<open>
  The message of the queue: an object, or a string, which is parsed into a value
  the worker then does not use.
\<close>

datatype worker_message = ObjectMessage nat | StringMessage string

fun messageId :: "worker_message \<Rightarrow> nat" where
  "messageId (ObjectMessage i) = i"
| "messageId (StringMessage s) = 0"

definition runCreateExecutor ::
  "(string \<Rightarrow> (exn, nat) res) \<Rightarrow> ctx \<Rightarrow> market_factory \<Rightarrow> worker_message \<Rightarrow> db mysql
    \<Rightarrow> (exn, unit) res \<times> db mysql" where
  "runCreateExecutor parse c mf msg m = (case msg of
      StringMessage s \<Rightarrow> (case parse s of
          Inl e \<Rightarrow> (Inl e, m)
        | Inr parsedData \<Rightarrow> handleCreatePredictionSet c mf (messageId msg) m)
    | ObjectMessage i \<Rightarrow> handleCreatePredictionSet c mf i m)"

section \<open>Properties\<close>

lemma addPredictionSet_Inr:
  assumes "addPredictionSet c mf p d = Inr d'"
  obtains cond blk i t where
    "insertRow c chainDataClash (newChainData mf (rowId p) cond blk) (chain_datas d) = Inr (i, t)"
    "d' = d\<lparr>chain_datas := t\<rparr>" "cond \<noteq> []"
  using assms unfolding addPredictionSet_def Let_def
  by (simp only: res_simps split_paired_Ex case_prod_conv) (metis sum.inject(2))

text \<open>
  C12: The creation worker acts only on a PENDING or ERROR market and is all or
  nothing on the database: either the market gets exactly one chain-data row, with
  the question id that encodes its id, and keeps its status, or its status becomes
  ERROR and nothing else is written; any other market is left alone.
\<close>

theorem create_worker_outcome:
  assumes "tblInv (prediction_sets (committed m))"
    and "byId i (prediction_sets (committed m)) = Some p" and "i \<noteq> 0" and "status p \<noteq> DELETED"
    and "handleCreatePredictionSet c mf i m = (r, m')"
  shows "r = Inr () \<and> openTx m' = openTx m \<and>
    (if ps_setStatus p \<in> {PS_PENDING, PS_ERROR}
     then (\<exists>x. prediction_sets (committed m') = prediction_sets (committed m)
             \<and> rows (chain_datas (committed m')) = rows (chain_datas (committed m)) @ [x]
             \<and> cd_prediction_set_id x = i \<and> cd_questionId x = numberToBytes32 i
             \<and> cd_contractAddress x = None)
        \<or> committed m' = setPredictionSet c i (\<lambda>r. r\<lparr>ps_setStatus := PS_ERROR\<rparr>) (committed m)
     else m' = m)"
proof -
  have row: "populateById i (prediction_sets (committed m)) = Inr (Some p)"
    using assms by (simp add: populateById_byId)
  have id: "rowId p = i" using assms(2) byId_SomeD by blast
  show ?thesis
  proof (cases "addPredictionSet c mf p (committed m)")
    case (Inl e)
    then show ?thesis using assms(5) row
      by (auto simp: handleCreatePredictionSet_def split: if_splits)
  next
    case (Inr d')
    from addPredictionSet_Inr [OF Inr] obtain cond blk j t where
      ins: "insertRow c chainDataClash (newChainData mf (rowId p) cond blk) (chain_datas (committed m)) = Inr (j, t)"
      and d': "d' = (committed m)\<lparr>chain_datas := t\<rparr>" by metis
    then have "prediction_sets d' = prediction_sets (committed m) \<and>
       (\<exists>x. rows (chain_datas d') = rows (chain_datas (committed m)) @ [x]
             \<and> cd_prediction_set_id x = i \<and> cd_questionId x = numberToBytes32 i
             \<and> cd_contractAddress x = None)"
      using insertRow_Inr(1) [OF ins] id by (simp add: newChainData_def)
    then show ?thesis using assms(5) row Inr
      by (auto simp: handleCreatePredictionSet_def split: if_splits)
  qed
qed

text \<open>
  A message that arrives as a string is never processed: whatever it parses to,
  the executor throws the missing-id error and changes nothing.
\<close>

theorem string_message_is_lost:
  "runCreateExecutor parse c mf (StringMessage s) m =
    (case parse s of Inl e \<Rightarrow> (Inl e, m) | Inr i \<Rightarrow> (Inl (JsError ''ID should not be null''), m))"
  by (simp add: runCreateExecutor_def handleCreatePredictionSet_def populateById_def split: sum.split)

end
