(* ===== verification/Flare.thy ===== *)
theory Flare
  imports Blockchain
begin

text \<open>
  The attestation library (\<open>lib/flare/attestation.ts\<close>, \<open>lib/flare/utils.ts\<close>) and
  the two workers that collect attestations for ended automatic markets
  (\<open>workers/flare/request-attestation.worker.ts\<close>,
  \<open>request-attestation-proof.worker.ts\<close>).  The verifier, the contracts and the
  data availability server are the fields of a record of answers.
\<close>

section \<open>Encoding of names\<close>

definition padEnd :: "nat \<Rightarrow> char \<Rightarrow> string \<Rightarrow> string" where
  "padEnd n ch s = s @ replicate (n - length s) ch"

definition toHex :: "string \<Rightarrow> string" where
  "toHex s = padEnd 64 (CHR ''0'') (concat (map (\<lambda>ch. toHexString (of_char ch)) s))"

definition toUtf8HexString :: "string \<Rightarrow> string" where
  "toUtf8HexString s = ''0x'' @ toHex s"

text \<open>Reading it back: two digits a character, up to the padding.\<close>

fun hexPairs :: "string \<Rightarrow> string" where
  "hexPairs (a # b # s) = char_of (16 * hexValue a + hexValue b) # hexPairs s"
| "hexPairs s = []"

definition fromUtf8HexString :: "string \<Rightarrow> string" where
  "fromUtf8HexString s = takeWhile (\<lambda>ch. ch \<noteq> CHR 0x00) (hexPairs (drop 2 s))"

lemma toHexString_two:
  assumes "16 \<le> n" and "n < 256"
  shows "toHexString n = [hexDigit (n div 16), hexDigit (n mod 16)]"
proof -
  have "n div 16 < 16" using assms(2) by simp
  then show ?thesis using assms(1)
    by (subst toHexString.simps, subst toHexString.simps) simp
qed

lemma hexPairs_chars:
  assumes "list_all (\<lambda>ch. 16 \<le> (of_char ch :: nat)) s"
  shows "hexPairs (concat (map (\<lambda>ch. toHexString (of_char ch)) s) @ t) = s @ hexPairs t"
  using assms
proof (induction s)
  case (Cons ch s)
  have b: "(of_char ch :: nat) < 256" by simp
  have g: "16 \<le> (of_char ch :: nat)" using Cons.prems by simp
  have m: "16 * ((of_char ch :: nat) div 16) + of_char ch mod 16 = of_char ch" by simp
  have "hexValue (hexDigit (of_char ch div 16)) = of_char ch div 16"
    by (rule hexValue_hexDigit) (use b in \<open>simp add: less_mult_imp_div_less\<close>)
  moreover have "hexValue (hexDigit (of_char ch mod 16)) = of_char ch mod 16"
    by (rule hexValue_hexDigit) simp
  ultimately show ?case using Cons toHexString_two [OF g b] m by simp
qed simp

lemma hexPairs_zeros: "\<exists>k. hexPairs (replicate n (CHR ''0'')) = replicate k (CHR 0x00)"
proof (induction n rule: induct_nat_012)
  case (ge2 n)
  then obtain k where "hexPairs (replicate n (CHR ''0'')) = replicate k (CHR 0x00)" by blast
  then have "hexPairs (replicate (Suc (Suc n)) (CHR ''0'')) = replicate (Suc k) (CHR 0x00)"
    by (simp add: hexValue_def char_of_def)
  then show ?case by blast
qed (auto intro: exI [of _ 0])

lemma length_hexChars:
  assumes "list_all (\<lambda>ch. 16 \<le> (of_char ch :: nat)) s"
  shows "length (concat (map (\<lambda>ch. toHexString (of_char ch)) s)) = 2 * length s"
  using assms by (induction s) (simp_all add: toHexString_two)

text \<open>
  The encoding of attestation types and source names loses nothing: for a name
  of characters that have two hexadecimal digits, decoding gives the name back, and
  a name of at most 32 characters fills exactly a bytes32 literal.
\<close>

theorem toUtf8HexString_roundtrip:
  assumes "list_all (\<lambda>ch. 16 \<le> (of_char ch :: nat)) s"
  shows "fromUtf8HexString (toUtf8HexString s) = s
    \<and> (length s \<le> 32 \<longrightarrow> length (toUtf8HexString s) = 66)"
proof
  obtain k where z: "hexPairs (replicate (64 - 2 * length s) (CHR ''0'')) = replicate k (CHR 0x00)"
    using hexPairs_zeros by blast
  have "\<forall>ch \<in> set s. ch \<noteq> CHR 0x00" using assms by (auto simp: list_all_iff)
  then have "takeWhile (\<lambda>ch. ch \<noteq> CHR 0x00) (s @ replicate k (CHR 0x00)) = s"
    by (subst takeWhile_append2) auto
  then show "fromUtf8HexString (toUtf8HexString s) = s"
    using assms z by (simp add: fromUtf8HexString_def toUtf8HexString_def toHex_def padEnd_def
        hexPairs_chars length_hexChars)
  show "length s \<le> 32 \<longrightarrow> length (toUtf8HexString s) = 66"
    using assms by (simp add: toUtf8HexString_def toHex_def padEnd_def length_hexChars)
qed

section \<open>Attestation requests\<close>

datatype AttestationVerifierStatus = VALID | INVALID | INDETERMINATE

record encoded_request =
  er_status :: AttestationVerifierStatus
  er_abiEncodedRequest :: string

record attestation_request =
  rq_attestationType :: string
  rq_sourceId :: string
  rq_url :: string
  rq_postProcessJq :: string
  rq_abiSignature :: string
  rq_httpMethod :: string
  rq_body :: string
  rq_headers :: string
  rq_queryParams :: string

text \<open>The struct \<open>abiCoder.decode\<close> returns: named where the code copies it, positional where it reads it.\<close>

record response_data =
  rs_attestationType :: string
  rs_sourceId :: string
  rs_votingRound :: int
  rs_lowestUsedTimestamp :: int
  rs_requestBody :: "string list"
  rs_responseBody :: "string list"

record proof_data =
  pd_merkleProof :: "string list"
  pd_data :: response_data

record flare =
  fl_prod :: bool
  fl_prepareRequest :: "attestation_request \<Rightarrow> (exn, encoded_request) res"
  fl_requestAttestation :: "string \<Rightarrow> (exn, int) res"
  fl_votingOffset :: int
  fl_votingDuration :: int
  fl_isFinalized :: "nat \<Rightarrow> int \<Rightarrow> (exn, bool) res"
  fl_proofByRequest :: "int \<Rightarrow> string \<Rightarrow> (exn, attestation_proof option) res"
  fl_decode :: "string \<Rightarrow> (exn, response_data) res"
  fl_verifyWeb2Json :: "proof_data \<Rightarrow> (exn, bool) res"

definition prepareAttestationRequest :: "flare \<Rightarrow> data_source \<Rightarrow> (exn, encoded_request) res" where
  "prepareAttestationRequest fl ds = fl_prepareRequest fl
     \<lparr>rq_attestationType = toUtf8HexString ''Web2Json'',
      rq_sourceId = toUtf8HexString (if fl_prod fl then ''Ignite'' else ''testIgnite''),
      rq_url = ds_endpoint ds, rq_postProcessJq = ds_jqQuery ds, rq_abiSignature = ds_abi ds,
      rq_httpMethod = (if ds_httpMethod ds = [] then ''GET'' else ds_httpMethod ds),
      rq_body = ds_body ds, rq_headers = ds_headers ds, rq_queryParams = ds_queryParams ds\<rparr>"

text \<open>Division of BigInts truncates towards zero and throws on a zero divisor.\<close>

definition bigintDiv :: "int \<Rightarrow> int \<Rightarrow> (exn, int) res" where
  "bigintDiv a b = (if b = 0 then Inl (JsError ''RangeError'')
     else Inr (sgn a * sgn b * (\<bar>a\<bar> div \<bar>b\<bar>)))"

definition submitAttestationRequest :: "flare \<Rightarrow> encoded_request \<Rightarrow> (exn, int) res" where
  "submitAttestationRequest fl er =
    bindR (fl_requestAttestation fl (er_abiEncodedRequest er)) (\<lambda>blockTimestamp.
      bigintDiv (blockTimestamp - fl_votingOffset fl) (fl_votingDuration fl))"

definition isRoundFinalized :: "flare \<Rightarrow> int \<Rightarrow> (exn, bool) res" where
  "isRoundFinalized fl roundId = fl_isFinalized fl 200 roundId"

definition getAttestationProof :: "flare \<Rightarrow> int \<Rightarrow> string \<Rightarrow> (exn, attestation_proof option) res" where
  "getAttestationProof fl roundId request = fl_proofByRequest fl roundId request"

definition verifyProof :: "flare \<Rightarrow> attestation_proof \<Rightarrow> (exn, bool \<times> proof_data) res" where
  "verifyProof fl ap =
    bindR (fl_decode fl (ap_response_hex ap)) (\<lambda>decodedResponse.
      let proofData = \<lparr>pd_merkleProof = ap_proof ap, pd_data = decodedResponse\<rparr> in
      bindR (fl_verifyWeb2Json fl proofData) (\<lambda>verified. Inr (verified, proofData)))"

text \<open>\<open>convertProofsToNamedObjects\<close>: an index past the end of an array is undefined.\<close>

definition atIndex :: "'a list \<Rightarrow> nat \<Rightarrow> 'a option" where
  "atIndex xs k = (if k < length xs then Some (xs ! k) else None)"

record named_proof =
  np_merkleProof :: "string list"
  np_attestationType :: string
  np_sourceId :: string
  np_votingRound :: int
  np_lowestUsedTimestamp :: int
  np_url :: "string option"
  np_httpMethod :: "string option"
  np_headers :: "string option"
  np_queryParams :: "string option"
  np_body :: "string option"
  np_postProcessJq :: "string option"
  np_abiSignature :: "string option"
  np_abiEncodedData :: "string option"

definition convertProof :: "proof_data \<Rightarrow> named_proof" where
  "convertProof p = (let r = pd_data p; b = rs_requestBody r in
     \<lparr>np_merkleProof = pd_merkleProof p, np_attestationType = rs_attestationType r,
      np_sourceId = rs_sourceId r, np_votingRound = rs_votingRound r,
      np_lowestUsedTimestamp = rs_lowestUsedTimestamp r,
      np_url = atIndex b 0, np_httpMethod = atIndex b 1, np_headers = atIndex b 2,
      np_queryParams = atIndex b 3, np_body = atIndex b 4, np_postProcessJq = atIndex b 5,
      np_abiSignature = atIndex b 6, np_abiEncodedData = atIndex (rs_responseBody r) 0\<rparr>)"

definition convertProofsToNamedObjects :: "proof_data list \<Rightarrow> named_proof list" where
  "convertProofsToNamedObjects ps = map convertProof ps"

section \<open>Requesting attestations\<close>

definition liveAttestations :: "nat \<Rightarrow> db \<Rightarrow> attestation list" where
  "liveAttestations psId d =
     filter (\<lambda>a. at_prediction_set_id a = psId \<and> status a \<noteq> DELETED) (rows (attestations d))"

definition attestationDue :: "int \<Rightarrow> db \<Rightarrow> prediction_set list" where
  "attestationDue now d = filter (\<lambda>p. status p = ACTIVE \<and> ps_setStatus p = PS_ACTIVE
     \<and> ps_resolutionType p = resolutionTypeNo RT_AUTOMATIC \<and> ps_endTime p \<le> now
     \<and> (case ps_attestationTime p of None \<Rightarrow> False | Some t \<Rightarrow> t \<le> now)
     \<and> now \<le> ps_resolutionTime p
     \<and> length (liveAttestations (rowId p) d)
         < length (filter (\<lambda>x. fst x = rowId p) (ps_data_sources d)))
     (rows (prediction_sets d))"

definition newAttestation :: "nat \<Rightarrow> nat \<Rightarrow> int \<Rightarrow> string \<Rightarrow> attestation" where
  "newAttestation psId dsId roundId request =
     \<lparr>rowId = 0, status = ACTIVE, createTime = 0, updateTime = 0, createUser = None, updateUser = None,
      at_prediction_set_id = psId, at_data_source_id = dsId, at_roundId = roundId,
      at_abiEncodedRequest = request, at_proof = None\<rparr>"

text \<open>One data source: any throw is logged and leaves the source for the next run.\<close>

definition requestAttestation :: "ctx \<Rightarrow> flare \<Rightarrow> nat \<Rightarrow> data_source \<Rightarrow> db \<Rightarrow> db" where
  "requestAttestation c fl psId ds d = attemptR d
    (bindR (prepareAttestationRequest fl ds) (\<lambda>er.
     if er_status er \<noteq> VALID then Inr d else
     bindR (submitAttestationRequest fl er) (\<lambda>roundId.
     if roundId = 0 then Inr d else
     bindR (insertRow c noClash (newAttestation psId (rowId ds) roundId (er_abiEncodedRequest er))
              (attestations d)) (\<lambda>(i, t).
       Inr (d\<lparr>attestations := t\<rparr>)))))"

definition requestSetAttestations :: "ctx \<Rightarrow> flare \<Rightarrow> prediction_set \<Rightarrow> db \<Rightarrow> db" where
  "requestSetAttestations c fl p d =
    (let existing = map at_data_source_id (getAttestations (rowId p) d) in
     fold (requestAttestation c fl (rowId p))
       (filter (\<lambda>ds. rowId ds \<notin> set existing) (getDataSources (rowId p) d)) d)"

definition requestPredictionSetAttestations :: "ctx \<Rightarrow> flare \<Rightarrow> db \<Rightarrow> db" where
  "requestPredictionSetAttestations c fl d =
     fold (requestSetAttestations c fl) (attestationDue (ctx_now c) d) d"

section \<open>Requesting proofs\<close>

definition ATTESTATION_RESULTS_OFFSET :: int where
  "ATTESTATION_RESULTS_OFFSET = 5 * 60 * 1000"

definition proofDue :: "int \<Rightarrow> db \<Rightarrow> prediction_set list" where
  "proofDue now d = filter (\<lambda>p. list_ex (\<lambda>a. at_prediction_set_id a = rowId p \<and> at_proof a = None
        \<and> createTime a \<le> now - ATTESTATION_RESULTS_OFFSET) (rows (attestations d))
     \<and> status p = ACTIVE \<and> ps_setStatus p = PS_ACTIVE
     \<and> ps_resolutionType p = resolutionTypeNo RT_AUTOMATIC) (rows (prediction_sets d))"

definition requestProof :: "ctx \<Rightarrow> flare \<Rightarrow> attestation \<Rightarrow> db \<Rightarrow> db" where
  "requestProof c fl a d = (if at_proof a \<noteq> None then d else attemptR d
    (bindR (isRoundFinalized fl (at_roundId a)) (\<lambda>finalized.
     if \<not> finalized then Inr d else
     bindR (getAttestationProof fl (at_roundId a) (at_abiEncodedRequest a)) (\<lambda>attestationProof.
     case attestationProof of
       None \<Rightarrow> Inr d
     | Some ap \<Rightarrow> if ap_proof ap = [] then Inr d
         else Inr (d\<lparr>attestations := updateRow c (rowId a) (\<lambda>r. r\<lparr>at_proof := Some ap\<rparr>)
                       (attestations d)\<rparr>)))))"

definition requestPredictionSetAttestationProofs :: "ctx \<Rightarrow> flare \<Rightarrow> db \<Rightarrow> db" where
  "requestPredictionSetAttestationProofs c fl d =
     fold (\<lambda>p d. fold (requestProof c fl) (getAttestations (rowId p) d) d) (proofDue (ctx_now c) d) d"

section \<open>Properties\<close>

definition attestationKey :: "attestation \<Rightarrow> nat \<times> nat" where
  "attestationKey a = (at_prediction_set_id a, at_data_source_id a)"

definition attestationKeys :: "db \<Rightarrow> (nat \<times> nat) list" where
  "attestationKeys d = map attestationKey (filter (\<lambda>a. status a \<noteq> DELETED) (rows (attestations d)))"

lemma liveAttestations_keys:
  "(psId, j) \<in> set (attestationKeys d) \<longleftrightarrow> j \<in> set (map at_data_source_id (liveAttestations psId d))"
  by (auto simp: attestationKeys_def liveAttestations_def attestationKey_def image_iff)

lemma set_getAttestations: "set (getAttestations psId d) = set (liveAttestations psId d)"
  by (simp add: getAttestations_def liveAttestations_def)

text \<open>What one request does: nothing, or exactly one more live attestation, without a proof.\<close>

lemma requestAttestation_cases:
  obtains (nothing) "requestAttestation c fl psId ds d = d"
  | (inserted) er n i t where "prepareAttestationRequest fl ds = Inr er" "er_status er = VALID"
      "submitAttestationRequest fl er = Inr n" "n \<noteq> 0"
      "insertRow c noClash (newAttestation psId (rowId ds) n (er_abiEncodedRequest er)) (attestations d) = Inr (i, t)"
      "requestAttestation c fl psId ds d = d\<lparr>attestations := t\<rparr>"
proof -
  let ?m = "bindR (prepareAttestationRequest fl ds) (\<lambda>er.
     if er_status er \<noteq> VALID then Inr d else
     bindR (submitAttestationRequest fl er) (\<lambda>roundId.
     if roundId = 0 then Inr d else
     bindR (insertRow c noClash (newAttestation psId (rowId ds) roundId (er_abiEncodedRequest er))
              (attestations d)) (\<lambda>(i, t).
       Inr (d\<lparr>attestations := t\<rparr>))))"
  have eq: "requestAttestation c fl psId ds d = attemptR d ?m" by (simp add: requestAttestation_def)
  show thesis
  proof (cases rule: attemptR_cases [of d ?m])
    case failed
    then have "requestAttestation c fl psId ds d = d" using eq by simp
    then show ?thesis by (rule nothing)
  next
    case done_
    then have m: "?m = Inr (requestAttestation c fl psId ds d)" using eq by simp
    show ?thesis
    proof (cases "requestAttestation c fl psId ds d = d")
      case True
      then show ?thesis by (rule nothing)
    next
      case False
      then obtain er n i t where "prepareAttestationRequest fl ds = Inr er" "er_status er = VALID"
        "submitAttestationRequest fl er = Inr n" "n \<noteq> 0"
        "insertRow c noClash (newAttestation psId (rowId ds) n (er_abiEncodedRequest er)) (attestations d) = Inr (i, t)"
        "requestAttestation c fl psId ds d = d\<lparr>attestations := t\<rparr>"
        using m by (auto simp: res_simps split: if_splits)
      then show ?thesis by (rule inserted)
    qed
  qed
qed

lemma requestAttestation_keys:
  "\<exists>ks. attestationKeys (requestAttestation c fl psId ds d) = attestationKeys d @ ks
      \<and> (ks = [] \<or> ks = [(psId, rowId ds)])"
proof (cases rule: requestAttestation_cases [of c fl psId ds d])
  case (inserted er n i t)
  then show ?thesis
    using insertRow_Inr(1) [OF inserted(5)]
    by (simp add: attestationKeys_def attestationKey_def newAttestation_def)
qed simp

lemma requestAttestation_frame:
  "\<exists>t. requestAttestation c fl psId ds d = d\<lparr>attestations := t\<rparr>
     \<and> (tblInv (attestations d) \<longrightarrow> tblInv t)"
proof (cases rule: requestAttestation_cases [of c fl psId ds d])
  case nothing
  then show ?thesis by (auto intro: exI [of _ "attestations d"])
next
  case (inserted er n i t)
  then show ?thesis using tblInv_insertRow [OF _ inserted(5)] by blast
qed

text \<open>The verifier and the chain answer for this source.\<close>

definition answering :: "flare \<Rightarrow> data_source \<Rightarrow> bool" where
  "answering fl ds = (case prepareAttestationRequest fl ds of
      Inl e \<Rightarrow> False
    | Inr er \<Rightarrow> er_status er = VALID
        \<and> (case submitAttestationRequest fl er of Inl e \<Rightarrow> False | Inr n \<Rightarrow> n \<noteq> 0))"

lemma insertRow_fresh:
  assumes "tblInv t" and "rowId r = 0"
  obtains i t' where "insertRow c noClash r t = Inr (i, t')"
proof -
  have "\<not> list_ex (\<lambda>s. rowId s = auto_increment t) (rows t)"
    using assms(1) by (auto simp: tblInv_def list_ex_iff)
  then show thesis
    using that assms(2) by (auto simp: insertRow_def Let_def noClash_def)
qed

lemma requestAttestation_answered:
  assumes "tblInv (attestations d)" and "answering fl ds"
  shows "(psId, rowId ds) \<in> set (attestationKeys (requestAttestation c fl psId ds d))"
proof -
  from assms(2) obtain er n where q: "prepareAttestationRequest fl ds = Inr er" "er_status er = VALID"
    "submitAttestationRequest fl er = Inr n" "n \<noteq> 0"
    by (auto simp: answering_def split: sum.splits)
  obtain i t where ins: "insertRow c noClash (newAttestation psId (rowId ds) n (er_abiEncodedRequest er))
      (attestations d) = Inr (i, t)"
    using insertRow_fresh [OF assms(1)] by (metis newAttestation_def row.select_convs(1))
  then show ?thesis using q insertRow_Inr(1) [OF ins]
    by (simp add: requestAttestation_def attestationKeys_def attestationKey_def newAttestation_def)
qed

lemma fold_requestAttestation:
  assumes "tblInv (attestations d)" and "distinct (map rowId dss)" and "distinct (attestationKeys d)"
    and "\<forall>ds \<in> set dss. (psId, rowId ds) \<notin> set (attestationKeys d)"
    and "d' = fold (requestAttestation c fl psId) dss d"
  shows "distinct (attestationKeys d') \<and> (\<exists>ks. attestationKeys d' = attestationKeys d @ ks)
    \<and> (\<exists>t. d' = d\<lparr>attestations := t\<rparr> \<and> tblInv t)
    \<and> (\<forall>ds \<in> set dss. answering fl ds \<longrightarrow> (psId, rowId ds) \<in> set (attestationKeys d'))"
  using assms
proof (induction dss arbitrary: d)
  case Nil
  then show ?case by (auto intro: exI [of _ "attestations d"])
next
  case (Cons ds dss)
  let ?d1 = "requestAttestation c fl psId ds d"
  obtain ks where ks: "attestationKeys ?d1 = attestationKeys d @ ks" "ks = [] \<or> ks = [(psId, rowId ds)]"
    using requestAttestation_keys by blast
  obtain t where t: "?d1 = d\<lparr>attestations := t\<rparr>" "tblInv t"
    using requestAttestation_frame Cons.prems(1) by blast
  have "distinct (attestationKeys ?d1)" using Cons.prems(3,4) ks by auto
  moreover have "\<forall>s \<in> set dss. (psId, rowId s) \<notin> set (attestationKeys ?d1)"
    using Cons.prems(2,4) ks by (auto simp: image_iff)
  ultimately have ih: "distinct (attestationKeys d') \<and> (\<exists>ks. attestationKeys d' = attestationKeys ?d1 @ ks)
    \<and> (\<exists>u. d' = ?d1\<lparr>attestations := u\<rparr> \<and> tblInv u)
    \<and> (\<forall>ds \<in> set dss. answering fl ds \<longrightarrow> (psId, rowId ds) \<in> set (attestationKeys d'))"
    using Cons.IH [of ?d1] Cons.prems(2,5) t by simp
  have "answering fl ds \<longrightarrow> (psId, rowId ds) \<in> set (attestationKeys d')"
    using requestAttestation_answered [OF Cons.prems(1)] ih by auto
  then show ?case using ih ks(1) t by auto
qed

lemma distinct_getDataSources:
  assumes "tblInv (data_sources d)"
  shows "distinct (map rowId (filter P (getDataSources psId d)))"
proof -
  have "distinct (map rowId (getDataSources psId d))"
    using assms by (simp add: getDataSources_def tblInv_def distinct_map inj_on_def)
  then show ?thesis by (rule distinct_map_filter)
qed

lemma requestSetAttestations_step:
  assumes "tblInv (attestations d)" and "tblInv (data_sources d)" and "distinct (attestationKeys d)"
    and "d' = requestSetAttestations c fl p d"
  shows "distinct (attestationKeys d') \<and> (\<exists>ks. attestationKeys d' = attestationKeys d @ ks)
    \<and> (\<exists>t. d' = d\<lparr>attestations := t\<rparr> \<and> tblInv t)
    \<and> (\<forall>ds \<in> set (getDataSources (rowId p) d). answering fl ds
          \<longrightarrow> (rowId p, rowId ds) \<in> set (attestationKeys d'))"
proof -
  let ?old = "map at_data_source_id (getAttestations (rowId p) d)"
  let ?dss = "filter (\<lambda>ds. rowId ds \<notin> set ?old) (getDataSources (rowId p) d)"
  have old: "j \<in> set ?old \<longleftrightarrow> (rowId p, j) \<in> set (attestationKeys d)" for j
    by (simp add: liveAttestations_keys set_getAttestations)
  have "distinct (attestationKeys d') \<and> (\<exists>ks. attestationKeys d' = attestationKeys d @ ks)
    \<and> (\<exists>t. d' = d\<lparr>attestations := t\<rparr> \<and> tblInv t)
    \<and> (\<forall>ds \<in> set ?dss. answering fl ds \<longrightarrow> (rowId p, rowId ds) \<in> set (attestationKeys d'))"
    using assms(4) old
    by (intro fold_requestAttestation [OF assms(1) distinct_getDataSources [OF assms(2)] assms(3)])
       (auto simp: requestSetAttestations_def Let_def)
  then show ?thesis using old by auto
qed

lemma getDataSources_cong: "getDataSources i (d\<lparr>attestations := t\<rparr>) = getDataSources i d"
  by (simp add: getDataSources_def)

lemma fold_requestSetAttestations:
  assumes "tblInv (attestations d)" and "tblInv (data_sources d)" and "distinct (attestationKeys d)"
    and "d' = fold (requestSetAttestations c fl) ps d"
  shows "distinct (attestationKeys d') \<and> (\<exists>ks. attestationKeys d' = attestationKeys d @ ks)
    \<and> (\<exists>t. d' = d\<lparr>attestations := t\<rparr> \<and> tblInv t)
    \<and> (\<forall>p \<in> set ps. \<forall>ds \<in> set (getDataSources (rowId p) d). answering fl ds
          \<longrightarrow> (rowId p, rowId ds) \<in> set (attestationKeys d'))"
  using assms
proof (induction ps arbitrary: d)
  case Nil
  then show ?case by (auto intro: exI [of _ "attestations d"])
next
  case (Cons p ps)
  let ?d1 = "requestSetAttestations c fl p d"
  have one: "distinct (attestationKeys ?d1) \<and> (\<exists>ks. attestationKeys ?d1 = attestationKeys d @ ks)
    \<and> (\<exists>t. ?d1 = d\<lparr>attestations := t\<rparr> \<and> tblInv t)
    \<and> (\<forall>ds \<in> set (getDataSources (rowId p) d). answering fl ds
          \<longrightarrow> (rowId p, rowId ds) \<in> set (attestationKeys ?d1))"
    using requestSetAttestations_step Cons.prems by blast
  then obtain t ks where t: "?d1 = d\<lparr>attestations := t\<rparr>" "tblInv t"
    and ks: "attestationKeys ?d1 = attestationKeys d @ ks" by blast
  have ih: "distinct (attestationKeys d') \<and> (\<exists>ks. attestationKeys d' = attestationKeys ?d1 @ ks)
    \<and> (\<exists>u. d' = ?d1\<lparr>attestations := u\<rparr> \<and> tblInv u)
    \<and> (\<forall>p \<in> set ps. \<forall>ds \<in> set (getDataSources (rowId p) ?d1). answering fl ds
          \<longrightarrow> (rowId p, rowId ds) \<in> set (attestationKeys d'))"
    using Cons.IH [of ?d1] Cons.prems one t by simp
  then show ?case using one t ks by (auto simp: getDataSources_cong)
qed


text \<open>A proof the data availability server may give for the attestation.\<close>

definition provedBy :: "flare \<Rightarrow> attestation \<Rightarrow> attestation_proof \<Rightarrow> bool" where
  "provedBy fl a ap \<longleftrightarrow> isRoundFinalized fl (at_roundId a) = Inr True
     \<and> getAttestationProof fl (at_roundId a) (at_abiEncodedRequest a) = Inr (Some ap) \<and> ap_proof ap \<noteq> []"

text \<open>The only way a row may change: from no proof to a proof of its own round and request.\<close>

definition proofStep :: "flare \<Rightarrow> attestation \<Rightarrow> attestation \<Rightarrow> bool" where
  "proofStep fl a a' \<longleftrightarrow> a' = a \<or> (at_proof a = None \<and> attestationKey a' = attestationKey a
     \<and> at_roundId a' = at_roundId a \<and> at_abiEncodedRequest a' = at_abiEncodedRequest a
     \<and> status a' = status a \<and> (\<exists>ap. at_proof a' = Some ap \<and> provedBy fl a ap))"

definition proofSteps :: "flare \<Rightarrow> db \<Rightarrow> db \<Rightarrow> bool" where
  "proofSteps fl d d' \<longleftrightarrow> (\<exists>t. d' = d\<lparr>attestations := t\<rparr> \<and> (tblInv (attestations d) \<longrightarrow> tblInv t)) \<and>
     (\<forall>i. rel_option (proofStep fl) (byId i (attestations d)) (byId i (attestations d')))"

lemma proofStep_refl: "proofStep fl a a"
  by (simp add: proofStep_def)

lemma proofSteps_refl: "proofSteps fl d d"
  by (auto simp: proofSteps_def proofStep_refl option.rel_refl intro: exI [of _ "attestations d"])

lemma proofStep_trans: "proofStep fl a b \<Longrightarrow> proofStep fl b c \<Longrightarrow> proofStep fl a c"
  unfolding proofStep_def by (elim disjE) auto

lemma proofSteps_trans:
  assumes "proofSteps fl d1 d2" and "proofSteps fl d2 d3"
  shows "proofSteps fl d1 d3"
proof -
  have "rel_option (proofStep fl) x z"
    if "rel_option (proofStep fl) x y" "rel_option (proofStep fl) y z" for x y z
    using that proofStep_trans by (cases x; cases y; cases z) auto
  then show ?thesis using assms unfolding proofSteps_def by fastforce
qed

lemma requestProof_cases:
  obtains (nothing) "requestProof c fl a d = d"
  | (proved) ap where "at_proof a = None" "provedBy fl a ap"
      "requestProof c fl a d = d\<lparr>attestations :=
         updateRow c (rowId a) (\<lambda>r. r\<lparr>at_proof := Some ap\<rparr>) (attestations d)\<rparr>"
proof (cases "requestProof c fl a d = d")
  case False
  then have n: "at_proof a = None" by (cases "at_proof a") (simp_all add: requestProof_def)
  obtain b where f: "isRoundFinalized fl (at_roundId a) = Inr b" b
    using False n by (cases "isRoundFinalized fl (at_roundId a)") (auto simp: requestProof_def split: if_splits)
  obtain ap where g: "getAttestationProof fl (at_roundId a) (at_abiEncodedRequest a) = Inr (Some ap)"
      "ap_proof ap \<noteq> []"
    using False n f by (cases "getAttestationProof fl (at_roundId a) (at_abiEncodedRequest a)")
      (auto simp: requestProof_def split: option.splits if_splits)
  then show thesis using proved n f by (simp add: requestProof_def provedBy_def)
qed

lemma requestProof_steps:
  assumes "byId (rowId a) (attestations d) = Some a"
  shows "proofSteps fl d (requestProof c fl a d)
    \<and> (\<forall>j. j \<noteq> rowId a \<longrightarrow> byId j (attestations (requestProof c fl a d)) = byId j (attestations d))"
proof (cases rule: requestProof_cases [of c fl a d])
  case nothing
  then show ?thesis using proofSteps_refl by simp
next
  case (proved ap)
  let ?t = "updateRow c (rowId a) (\<lambda>r. r\<lparr>at_proof := Some ap\<rparr>) (attestations d)"
  have "rel_option (proofStep fl) (byId i (attestations d)) (byId i ?t)" for i
    using proved(1,2) assms
    by (cases "i = rowId a")
       (auto simp: tbl_simps proofStep_def attestationKey_def option.rel_refl)
  moreover have "tblInv (attestations d) \<longrightarrow> tblInv ?t" by (simp add: tbl_simps)
  ultimately show ?thesis using proved(3) by (auto simp: proofSteps_def tbl_simps)
qed

lemma fold_requestProof_steps:
  assumes "distinct (map rowId as)" and "\<forall>a \<in> set as. byId (rowId a) (attestations d) = Some a"
  shows "proofSteps fl d (fold (requestProof c fl) as d)"
  using assms
proof (induction as arbitrary: d)
  case Nil
  then show ?case using proofSteps_refl by simp
next
  case (Cons a as)
  let ?d1 = "requestProof c fl a d"
  have one: "proofSteps fl d ?d1"
    and others: "\<forall>j. j \<noteq> rowId a \<longrightarrow> byId j (attestations ?d1) = byId j (attestations d)"
    using requestProof_steps Cons.prems(2) by auto
  have "\<forall>b \<in> set as. byId (rowId b) (attestations ?d1) = Some b"
    using Cons.prems others by (auto simp: image_iff)
  then have "proofSteps fl ?d1 (fold (requestProof c fl) as ?d1)" using Cons by simp
  then show ?case using one proofSteps_trans by simp
qed

text \<open>
  A proof is stored at most once and only for its own attestation: the proof
  worker touches no other table and no attestation that has a proof, and where it
  stores one the round was finalized and the server gave that non-empty proof for
  the round and the request of the attestation.
\<close>

theorem proofs_written_once:
  assumes "dbInv d" and "byId i (attestations d) = Some a"
  shows "\<exists>t a'. requestPredictionSetAttestationProofs c fl d = d\<lparr>attestations := t\<rparr>
    \<and> byId i t = Some a' \<and> (at_proof a \<noteq> None \<longrightarrow> a' = a)
    \<and> (a' \<noteq> a \<longrightarrow> (\<exists>ap. at_proof a' = Some ap \<and> provedBy fl a ap \<and> attestationKey a' = attestationKey a))"
proof -
  let ?step = "\<lambda>p d. fold (requestProof c fl) (getAttestations (rowId p) d) d"
  have "proofSteps fl d (fold ?step ps d)" if "tblInv (attestations d)" for ps and d :: db
    using that
  proof (induction ps arbitrary: d)
    case Nil
    then show ?case using proofSteps_refl by simp
  next
    case (Cons p ps)
    have "distinct (map rowId (getAttestations (rowId p) d))"
      using Cons.prems by (simp add: getAttestations_def tblInv_def distinct_map inj_on_def)
    moreover have "\<forall>a \<in> set (getAttestations (rowId p) d). byId (rowId a) (attestations d) = Some a"
      using byId_distinct [OF Cons.prems] by (simp add: getAttestations_def)
    ultimately have one: "proofSteps fl d (?step p d)" using fold_requestProof_steps by blast
    then have "tblInv (attestations (?step p d))" using Cons.prems by (auto simp: proofSteps_def)
    then show ?case using Cons.IH one proofSteps_trans by simp
  qed
  then have ps: "proofSteps fl d (requestPredictionSetAttestationProofs c fl d)"
    using assms(1) unfolding requestPredictionSetAttestationProofs_def dbInv_def by blast
  then obtain t where t: "requestPredictionSetAttestationProofs c fl d = d\<lparr>attestations := t\<rparr>"
    by (auto simp: proofSteps_def)
  then have "rel_option (proofStep fl) (Some a) (byId i t)"
    using ps assms(2) by (simp add: proofSteps_def t) (metis option.rel_sel)
  then obtain a' where "byId i t = Some a'" "proofStep fl a a'" by (cases "byId i t") auto
  then show ?thesis using t by (auto simp: proofStep_def)
qed

end
