(* ===== verification/Finalizers.thy ===== *)
theory Finalizers
  imports Flare
begin

text \<open>
  The workers that resolve ended markets
  (\<open>workers/finalize-manual-prediction-sets.worker.ts\<close>,
  \<open>workers/flare/finalize-automatic-prediction-sets.worker.ts\<close>).  The oracle
  contract is a state of its own type \<open>'o\<close> with a call that finalizes a question
  and one that reads it, threaded through the loop over the markets.
\<close>

section \<open>Finalizing a question on chain\<close>

record 'o question_oracle =
  or_finalizeQuestion :: "string \<Rightarrow> named_proof list \<Rightarrow> 'o \<Rightarrow> (exn, 'o) res"
  or_question :: "string \<Rightarrow> 'o \<Rightarrow> (exn, int \<times> int) res"

text \<open>
  \<open>finalizePredictionSetResults\<close>: the transaction, then the question's status and
  winner as the oracle now has them.  The oracle keeps what the transaction did
  even when the read after it throws.
\<close>

definition finalizePredictionSetResults ::
  "'o question_oracle \<Rightarrow> string \<Rightarrow> named_proof list \<Rightarrow> 'o \<Rightarrow> (exn, int \<times> int) res \<times> 'o" where
  "finalizePredictionSetResults orc q proofs s = (case or_finalizeQuestion orc q proofs s of
      Inl e \<Rightarrow> (Inl blockchainError, s)
    | Inr s' \<Rightarrow> (or_question orc q s', s'))"

section \<open>Manual resolution\<close>

definition resolutionDue :: "int \<Rightarrow> ResolutionType \<Rightarrow> db \<Rightarrow> prediction_set list" where
  "resolutionDue now rt d = filter (\<lambda>p. ps_resolutionTime p \<le> now \<and> status p = ACTIVE
     \<and> ps_setStatus p = PS_ACTIVE \<and> ps_resolutionType p = resolutionTypeNo rt) (rows (prediction_sets d))"

definition finalizeManual :: "ctx \<Rightarrow> 'o question_oracle \<Rightarrow> prediction_set \<Rightarrow> 'o \<times> db \<Rightarrow> 'o \<times> db" where
  "finalizeManual c orc p sd = (let (s, d) = sd in
    case populateByPredictionSetId (rowId p) d of
      None \<Rightarrow> (s, d)
    | Some cd \<Rightarrow>
       (case finalizePredictionSetResults orc (cd_questionId cd) [] s of
          (Inl e, s') \<Rightarrow> (s', d)
        | (Inr (st, winnerIdx), s') \<Rightarrow>
           if st \<noteq> predictionSetBcStatusNo BC_VOTING then (s', d)
           else (s', setPredictionSet c (rowId p) (\<lambda>r. r\<lparr>ps_setStatus := PS_VOTING\<rparr>) d)))"

definition finalizeManualSets :: "ctx \<Rightarrow> 'o question_oracle \<Rightarrow> 'o \<times> db \<Rightarrow> 'o \<times> db" where
  "finalizeManualSets c orc sd =
     fold (finalizeManual c orc) (resolutionDue (ctx_now c) RT_MANUAL (snd sd)) sd"

section \<open>Automatic resolution\<close>

text \<open>
  The loop over the attestations: a missing proof ends it, a throw of the verifier
  counts as not verified.  The result is the list of answers, the proofs that were
  read and whether a proof was missing.
\<close>

fun verifyLoop :: "flare \<Rightarrow> attestation list \<Rightarrow> bool list \<times> proof_data list \<times> bool" where
  "verifyLoop fl [] = ([], [], False)"
| "verifyLoop fl (a # as) = (case at_proof a of
      None \<Rightarrow> ([False], [], True)
    | Some ap \<Rightarrow> (let (results, proofs, missing) = verifyLoop fl as in
        case verifyProof fl ap of
          Inl e \<Rightarrow> (False # results, proofs, missing)
        | Inr (verified, pd) \<Rightarrow> (verified # results, pd # proofs, missing)))"

definition setError :: "ctx \<Rightarrow> nat \<Rightarrow> db \<Rightarrow> db" where
  "setError c i d = setPredictionSet c i (\<lambda>r. r\<lparr>ps_setStatus := PS_ERROR\<rparr>) d"

definition finalizeAutomatic ::
  "ctx \<Rightarrow> flare \<Rightarrow> 'o question_oracle \<Rightarrow> prediction_set \<Rightarrow> 'o \<times> db \<Rightarrow> 'o \<times> db" where
  "finalizeAutomatic c fl orc p sd = (let (s, d) = sd; as = getAttestations (rowId p) d in
    case populateByPredictionSetId (rowId p) d of
      None \<Rightarrow> (s, d)
    | Some cd \<Rightarrow>
       if length as \<noteq> length (getDataSources (rowId p) d) then (s, setError c (rowId p) d)
       else (let (results, proofs, missing) = verifyLoop fl as;
                 d1 = (if missing then setError c (rowId p) d else d) in
         if \<not> list_all id results then (s, d1)
         else (case finalizePredictionSetResults orc (cd_questionId cd) (convertProofsToNamedObjects proofs) s of
             (Inl e, s') \<Rightarrow> (s', d1)
           | (Inr (st, winnerIdx), s') \<Rightarrow>
              if st = predictionSetBcStatusNo BC_FINALIZED
              then (case populateByIndexAndPredictionSetId winnerIdx (rowId p) d1 of
                      None \<Rightarrow> (s', d1)
                    | Some oc \<Rightarrow> (s', setPredictionSet c (rowId p)
                        (\<lambda>r. r\<lparr>ps_winner_outcome_id := Some (rowId oc), ps_setStatus := PS_FINALIZED\<rparr>) d1))
              else if st = predictionSetBcStatusNo BC_VOTING
              then (s', setPredictionSet c (rowId p) (\<lambda>r. r\<lparr>ps_setStatus := PS_VOTING\<rparr>) d1)
              else (s', d1))))"

definition finalizeAutomaticSets ::
  "ctx \<Rightarrow> flare \<Rightarrow> 'o question_oracle \<Rightarrow> 'o \<times> db \<Rightarrow> 'o \<times> db" where
  "finalizeAutomaticSets c fl orc sd =
     fold (finalizeAutomatic c fl orc) (resolutionDue (ctx_now c) RT_AUTOMATIC (snd sd)) sd"

section \<open>The verification loop\<close>

lemma verifyLoop_all:
  "verifyLoop fl as = (results, proofs, missing) \<Longrightarrow> list_all id results \<Longrightarrow>
     \<not> missing \<and> length proofs = length as
     \<and> list_all (\<lambda>a. \<exists>ap pd. at_proof a = Some ap \<and> verifyProof fl ap = Inr (True, pd)) as"
proof (induction as arbitrary: results proofs missing)
  case (Cons a as)
  obtain r p m where v: "verifyLoop fl as = (r, p, m)" by (metis prod.exhaust)
  show ?case
  proof (cases "at_proof a")
    case None
    then show ?thesis using Cons.prems by auto
  next
    case (Some ap)
    show ?thesis
    proof (cases "verifyProof fl ap")
      case (Inl e)
      then show ?thesis using Cons.prems Some v by auto
    next
      case (Inr x)
      then show ?thesis using Cons.prems Cons.IH [OF v] Some v by (cases x) auto
    qed
  qed
qed simp

lemma verifyLoop_missing:
  "verifyLoop fl as = (results, proofs, True) \<Longrightarrow> \<exists>a \<in> set as. at_proof a = None"
proof (induction as arbitrary: results proofs)
  case (Cons a as)
  obtain r p m where v: "verifyLoop fl as = (r, p, m)" by (metis prod.exhaust)
  show ?case
  proof (cases "at_proof a")
    case (Some ap)
    then have "m" using Cons.prems v by (auto split: sum.splits)
    then show ?thesis using Cons.IH v by auto
  qed simp
qed simp

section \<open>Sweeping over the due markets\<close>

text \<open>
  Both workers read the due markets and then treat them one after the other.  What
  they rely on: the treatment of a market writes only its own row, to a row the
  relation \<open>outcome\<close> allows, and the relation does not depend on the rows of the
  other markets.  The order of the markets then does not matter for their rows.
\<close>

locale market_sweep =
  fixes treat :: "prediction_set \<Rightarrow> 'o \<times> db \<Rightarrow> 'o \<times> db"
    and outcome :: "db \<Rightarrow> prediction_set \<Rightarrow> prediction_set \<Rightarrow> bool"
  assumes own_row: "tblInv (prediction_sets d) \<Longrightarrow> byId (rowId p) (prediction_sets d) = Some p \<Longrightarrow>
      treat p (s, d) = (s', d') \<Longrightarrow>
      \<exists>t p'. d' = d\<lparr>prediction_sets := t\<rparr> \<and> tblInv t \<and> byId (rowId p) t = Some p' \<and> outcome d p p'
        \<and> (\<forall>j. j \<noteq> rowId p \<longrightarrow> byId j t = byId j (prediction_sets d))"
    and outcome_frame: "outcome (d\<lparr>prediction_sets := t\<rparr>) p p' = outcome d p p'"
begin

lemma sweep:
  assumes "tblInv (prediction_sets d)" and "distinct (map rowId ps)"
    and "\<forall>p \<in> set ps. byId (rowId p) (prediction_sets d) = Some p"
    and "fold treat ps (s, d) = (s', d')"
  shows "\<exists>t. d' = d\<lparr>prediction_sets := t\<rparr> \<and> tblInv t
    \<and> (\<forall>j. j \<notin> rowId ` set ps \<longrightarrow> byId j t = byId j (prediction_sets d))
    \<and> (\<forall>p \<in> set ps. \<exists>p'. byId (rowId p) t = Some p' \<and> outcome d p p')"
  using assms
proof (induction ps arbitrary: s d)
  case Nil
  then show ?case by (auto intro: exI [of _ "prediction_sets d"])
next
  case (Cons p ps)
  obtain s1 d1 where one: "treat p (s, d) = (s1, d1)" by (metis prod.exhaust)
  obtain t p' where t: "d1 = d\<lparr>prediction_sets := t\<rparr>" "tblInv t" "byId (rowId p) t = Some p'"
      "outcome d p p'" "\<forall>j. j \<noteq> rowId p \<longrightarrow> byId j t = byId j (prediction_sets d)"
    using own_row [OF Cons.prems(1) _ one] Cons.prems(3) by auto
  have "\<forall>q \<in> set ps. byId (rowId q) (prediction_sets d1) = Some q"
    using Cons.prems(2,3) t by (auto simp: image_iff)
  then obtain u where u: "d' = d1\<lparr>prediction_sets := u\<rparr>" "tblInv u"
      "\<forall>j. j \<notin> rowId ` set ps \<longrightarrow> byId j u = byId j t"
      "\<forall>q \<in> set ps. \<exists>q'. byId (rowId q) u = Some q' \<and> outcome d1 q q'"
    using Cons.IH [of d1 s1] Cons.prems(2,4) t one by auto
  have "byId (rowId p) u = Some p'" using u(3) t(3) Cons.prems(2) by auto
  then show ?case using u t by (auto simp: outcome_frame)
qed

end

text \<open>The due markets are distinct rows of the table.\<close>

lemma resolutionDue_rows:
  assumes "tblInv (prediction_sets d)"
  shows "distinct (map rowId (resolutionDue now rt d))"
    and "\<forall>p \<in> set (resolutionDue now rt d). byId (rowId p) (prediction_sets d) = Some p"
  using assms byId_distinct [OF assms]
  by (auto simp: resolutionDue_def tblInv_def distinct_map_filter)

section \<open>Properties\<close>

text \<open>A row written by \<open>update\<close>: the new columns and the stamps.\<close>

definition stamped :: "ctx \<Rightarrow> prediction_set \<Rightarrow> prediction_set" where
  "stamped c r = r\<lparr>updateUser := ctx_user c, updateTime := ctx_now c\<rparr>"

definition manualOutcome ::
  "ctx \<Rightarrow> 'o question_oracle \<Rightarrow> db \<Rightarrow> prediction_set \<Rightarrow> prediction_set \<Rightarrow> bool" where
  "manualOutcome c orc d p p' \<longleftrightarrow> p' = p \<or>
     p' = stamped c (p\<lparr>ps_setStatus := PS_VOTING\<rparr>) \<and>
     (\<exists>cd s s' idx. populateByPredictionSetId (rowId p) d = Some cd \<and>
        finalizePredictionSetResults orc (cd_questionId cd) [] s = (Inr (predictionSetBcStatusNo BC_VOTING, idx), s'))"

text \<open>
  The four ends of an automatic resolution: nothing, ERROR for missing attestations
  or proofs, FINALIZED or VOTING as the oracle answered to the proofs.
\<close>

definition automaticOutcome ::
  "ctx \<Rightarrow> flare \<Rightarrow> 'o question_oracle \<Rightarrow> db \<Rightarrow> prediction_set \<Rightarrow> prediction_set \<Rightarrow> bool" where
  "automaticOutcome c fl orc d p p' \<longleftrightarrow>
     (let as = getAttestations (rowId p) d in p' = p \<or>
     (p' = stamped c (p\<lparr>ps_setStatus := PS_ERROR\<rparr>) \<and>
        (length as \<noteq> length (getDataSources (rowId p) d) \<or> (\<exists>a \<in> set as. at_proof a = None))) \<or>
     (length as = length (getDataSources (rowId p) d) \<and>
      (\<forall>a \<in> set as. \<exists>ap pd. at_proof a = Some ap \<and> verifyProof fl ap = Inr (True, pd)) \<and>
      (\<exists>cd proofs s s' st idx. populateByPredictionSetId (rowId p) d = Some cd \<and>
         length proofs = length as \<and>
         finalizePredictionSetResults orc (cd_questionId cd) proofs s = (Inr (st, idx), s') \<and>
         ((st = predictionSetBcStatusNo BC_FINALIZED \<and>
             (\<exists>oc. populateByIndexAndPredictionSetId idx (rowId p) d = Some oc \<and>
               p' = stamped c (p\<lparr>ps_winner_outcome_id := Some (rowId oc), ps_setStatus := PS_FINALIZED\<rparr>))) \<or>
          (st = predictionSetBcStatusNo BC_VOTING \<and> p' = stamped c (p\<lparr>ps_setStatus := PS_VOTING\<rparr>))))))"

lemma byId_setPredictionSet:
  "byId j (prediction_sets (setPredictionSet c i f d)) = (if j = i
     then map_option (\<lambda>r. (f r)\<lparr>rowId := i, updateUser := ctx_user c, updateTime := ctx_now c\<rparr>)
            (byId i (prediction_sets d)) else byId j (prediction_sets d))"
  by (simp add: setPredictionSet_def tbl_simps)

lemma reads_frame:
  "populateByPredictionSetId i (d\<lparr>prediction_sets := t\<rparr>) = populateByPredictionSetId i d"
  "populateByIndexAndPredictionSetId k i (d\<lparr>prediction_sets := t\<rparr>) = populateByIndexAndPredictionSetId k i d"
  "getAttestations i (d\<lparr>prediction_sets := t\<rparr>) = getAttestations i d"
  "getDataSources i (d\<lparr>prediction_sets := t\<rparr>) = getDataSources i d"
  by (simp_all add: populateByPredictionSetId_def populateByIndexAndPredictionSetId_def
      getAttestations_def getDataSources_def)

text \<open>A treatment that leaves the database or rewrites the market's row has the frame of the sweep.\<close>

lemma own_row_intro:
  assumes "tblInv (prediction_sets d)" and "byId (rowId p) (prediction_sets d) = Some p"
    and "d' = d \<and> P p \<or> (\<exists>f. d' = setPredictionSet c (rowId p) f d \<and> rowId (f p) = rowId p
            \<and> P (stamped c (f p)))"
  shows "\<exists>t p'. d' = d\<lparr>prediction_sets := t\<rparr> \<and> tblInv t \<and> byId (rowId p) t = Some p' \<and> P p'
        \<and> (\<forall>j. j \<noteq> rowId p \<longrightarrow> byId j t = byId j (prediction_sets d))"
  using assms(3)
proof
  assume "d' = d \<and> P p"
  then show ?thesis using assms by (auto intro: exI [of _ "prediction_sets d"])
next
  assume "\<exists>f. d' = setPredictionSet c (rowId p) f d \<and> rowId (f p) = rowId p \<and> P (stamped c (f p))"
  then obtain f where f: "d' = setPredictionSet c (rowId p) f d" "rowId (f p) = rowId p"
      "P (stamped c (f p))" by blast
  let ?t = "updateRow c (rowId p) f (prediction_sets d)"
  have "byId (rowId p) ?t = Some (stamped c (f p))"
    using assms(2) f(2) by (simp add: tbl_simps stamped_def)
  moreover have "tblInv ?t" using assms(1) by (simp add: tbl_simps)
  ultimately show ?thesis using f by (auto simp: setPredictionSet_def tbl_simps)
qed

lemma finalizeManual_outcome:
  assumes "finalizeManual c orc p (s, d) = (s', d')"
  shows "d' = d \<and> manualOutcome c orc d p p \<or> (\<exists>f. d' = setPredictionSet c (rowId p) f d
    \<and> rowId (f p) = rowId p \<and> manualOutcome c orc d p (stamped c (f p)))"
proof (cases "populateByPredictionSetId (rowId p) d")
  case None
  then show ?thesis using assms by (simp add: finalizeManual_def manualOutcome_def)
next
  case (Some cd)
  obtain r s1 where fin: "finalizePredictionSetResults orc (cd_questionId cd) [] s = (r, s1)"
    by (metis prod.exhaust)
  show ?thesis
  proof (cases "\<exists>idx. r = Inr (predictionSetBcStatusNo BC_VOTING, idx)")
    case True
    then have "d' = setPredictionSet c (rowId p) (\<lambda>r. r\<lparr>ps_setStatus := PS_VOTING\<rparr>) d"
      using assms Some fin by (auto simp: finalizeManual_def)
    moreover have "manualOutcome c orc d p (stamped c (p\<lparr>ps_setStatus := PS_VOTING\<rparr>))"
      using True Some fin by (auto simp: manualOutcome_def)
    ultimately show ?thesis by (auto intro!: exI [of _ "\<lambda>r. r\<lparr>ps_setStatus := PS_VOTING\<rparr>"])
  next
    case False
    then have "d' = d"
      using assms Some fin by (auto simp: finalizeManual_def split: sum.splits if_splits)
    then show ?thesis by (simp add: manualOutcome_def)
  qed
qed

interpretation manual: market_sweep "finalizeManual c orc" "manualOutcome c orc"
  for c :: ctx and orc :: "'o question_oracle"
proof
  fix d p s s' d'
  assume "tblInv (prediction_sets d)" "byId (rowId p) (prediction_sets d) = Some p"
    "finalizeManual c orc p (s, d) = (s', d')"
  then show "\<exists>t p'. d' = d\<lparr>prediction_sets := t\<rparr> \<and> tblInv t \<and> byId (rowId p) t = Some p'
      \<and> manualOutcome c orc d p p' \<and> (\<forall>j. j \<noteq> rowId p \<longrightarrow> byId j t = byId j (prediction_sets d))"
    using own_row_intro [of d p d' "manualOutcome c orc d p" c] finalizeManual_outcome by fast
qed (simp add: manualOutcome_def reads_frame)

text \<open>The writes of the automatic resolution.\<close>

lemma finalizeAutomatic_cases:
  assumes "finalizeAutomatic c fl orc p (s, d) = (s', d')"
  obtains (same) "d' = d"
  | (error) "d' = setError c (rowId p) d"
      "length (getAttestations (rowId p) d) \<noteq> length (getDataSources (rowId p) d)
        \<or> (\<exists>a \<in> set (getAttestations (rowId p) d). at_proof a = None)"
  | (answered) cd results proofs st idx s1
      where "populateByPredictionSetId (rowId p) d = Some cd"
      "length (getAttestations (rowId p) d) = length (getDataSources (rowId p) d)"
      "verifyLoop fl (getAttestations (rowId p) d) = (results, proofs, False)" "list_all id results"
      "finalizePredictionSetResults orc (cd_questionId cd) (convertProofsToNamedObjects proofs) s = (Inr (st, idx), s1)"
      "(st = predictionSetBcStatusNo BC_FINALIZED \<and>
          (\<exists>oc. populateByIndexAndPredictionSetId idx (rowId p) d = Some oc \<and> d' = setPredictionSet c (rowId p)
             (\<lambda>r. r\<lparr>ps_winner_outcome_id := Some (rowId oc), ps_setStatus := PS_FINALIZED\<rparr>) d))
       \<or> (st = predictionSetBcStatusNo BC_VOTING \<and>
          d' = setPredictionSet c (rowId p) (\<lambda>r. r\<lparr>ps_setStatus := PS_VOTING\<rparr>) d)"
proof (cases "populateByPredictionSetId (rowId p) d")
  case None
  then have "d' = d" using assms by (simp add: finalizeAutomatic_def)
  then show thesis by (rule same)
next
  case (Some cd)
  let ?as = "getAttestations (rowId p) d"
  obtain results proofs missing where v: "verifyLoop fl ?as = (results, proofs, missing)"
    by (metis prod.exhaust)
  obtain r s1 where fin:
    "finalizePredictionSetResults orc (cd_questionId cd) (convertProofsToNamedObjects proofs) s = (r, s1)"
    by (metis prod.exhaust)
  show thesis
  proof (cases "length ?as = length (getDataSources (rowId p) d)")
    case False
    then have "d' = setError c (rowId p) d" using assms Some by (simp add: finalizeAutomatic_def Let_def)
    then show thesis using error False by blast
  next
    case len: True
    show thesis
    proof (cases "list_all id results")
      case False
      then have e: "d' = (if missing then setError c (rowId p) d else d)"
        using assms Some len v by (simp add: finalizeAutomatic_def Let_def)
      show thesis
      proof (cases missing)
        case True
        then have "\<exists>a \<in> set ?as. at_proof a = None" using verifyLoop_missing [of fl ?as results proofs] v by simp
        moreover have "d' = setError c (rowId p) d" using e True by simp
        ultimately show thesis using error by blast
      next
        case False
        then have "d' = d" using e by simp
        then show thesis by (rule same)
      qed
    next
      case True
      then have m: "\<not> missing" using verifyLoop_all [OF v] by blast
      show thesis
      proof (cases "d' = d")
        case False
        then obtain st idx where "r = Inr (st, idx)"
          "(st = predictionSetBcStatusNo BC_FINALIZED \<and>
             (\<exists>oc. populateByIndexAndPredictionSetId idx (rowId p) d = Some oc \<and> d' = setPredictionSet c (rowId p)
              (\<lambda>r. r\<lparr>ps_winner_outcome_id := Some (rowId oc), ps_setStatus := PS_FINALIZED\<rparr>) d))
          \<or> (st = predictionSetBcStatusNo BC_VOTING \<and>
             d' = setPredictionSet c (rowId p) (\<lambda>r. r\<lparr>ps_setStatus := PS_VOTING\<rparr>) d)"
          using assms Some len v True m fin
          by (auto simp: finalizeAutomatic_def Let_def split: sum.splits if_splits option.splits)
        then show thesis using answered Some len v True m fin by auto
      qed (rule same)
    qed
  qed
qed

lemma finalizeAutomatic_outcome:
  assumes "finalizeAutomatic c fl orc p (s, d) = (s', d')"
  shows "d' = d \<and> automaticOutcome c fl orc d p p \<or> (\<exists>f. d' = setPredictionSet c (rowId p) f d
    \<and> rowId (f p) = rowId p \<and> automaticOutcome c fl orc d p (stamped c (f p)))"
  using assms
proof (cases rule: finalizeAutomatic_cases)
  case same
  then show ?thesis by (simp add: automaticOutcome_def)
next
  case error
  then show ?thesis
    by (auto simp: automaticOutcome_def setError_def intro!: exI [of _ "\<lambda>r. r\<lparr>ps_setStatus := PS_ERROR\<rparr>"])
next
  case (answered cd results proofs st idx s1)
  have base: "automaticOutcome c fl orc d p p'"
    if "st = predictionSetBcStatusNo BC_FINALIZED \<and>
          (\<exists>oc. populateByIndexAndPredictionSetId idx (rowId p) d = Some oc \<and>
             p' = stamped c (p\<lparr>ps_winner_outcome_id := Some (rowId oc), ps_setStatus := PS_FINALIZED\<rparr>))
       \<or> st = predictionSetBcStatusNo BC_VOTING \<and> p' = stamped c (p\<lparr>ps_setStatus := PS_VOTING\<rparr>)" for p'
    using verifyLoop_all [OF answered(3,4)] answered(1,2,5) that
    unfolding automaticOutcome_def Let_def list_all_iff convertProofsToNamedObjects_def
    by (metis length_map)
  show ?thesis
    using answered(6)
  proof (elim disjE conjE exE)
    fix oc
    assume "st = predictionSetBcStatusNo BC_FINALIZED" "populateByIndexAndPredictionSetId idx (rowId p) d = Some oc"
      and d': "d' = setPredictionSet c (rowId p)
         (\<lambda>r. r\<lparr>ps_winner_outcome_id := Some (rowId oc), ps_setStatus := PS_FINALIZED\<rparr>) d"
    then have "automaticOutcome c fl orc d p
        (stamped c (p\<lparr>ps_winner_outcome_id := Some (rowId oc), ps_setStatus := PS_FINALIZED\<rparr>))"
      using base by blast
    with d' show ?thesis by (intro disjI2 exI conjI) (assumption, simp_all)
  next
    assume "st = predictionSetBcStatusNo BC_VOTING"
      and d': "d' = setPredictionSet c (rowId p) (\<lambda>r. r\<lparr>ps_setStatus := PS_VOTING\<rparr>) d"
    then have "automaticOutcome c fl orc d p (stamped c (p\<lparr>ps_setStatus := PS_VOTING\<rparr>))" using base by blast
    with d' show ?thesis by (intro disjI2 exI conjI) (assumption, simp_all)
  qed
qed

interpretation automatic: market_sweep "finalizeAutomatic c fl orc" "automaticOutcome c fl orc"
  for c :: ctx and fl :: flare and orc :: "'o question_oracle"
proof
  fix d p s s' d'
  assume "tblInv (prediction_sets d)" "byId (rowId p) (prediction_sets d) = Some p"
    "finalizeAutomatic c fl orc p (s, d) = (s', d')"
  then show "\<exists>t p'. d' = d\<lparr>prediction_sets := t\<rparr> \<and> tblInv t \<and> byId (rowId p) t = Some p'
      \<and> automaticOutcome c fl orc d p p' \<and> (\<forall>j. j \<noteq> rowId p \<longrightarrow> byId j t = byId j (prediction_sets d))"
    using own_row_intro [of d p d' "automaticOutcome c fl orc d p" c] finalizeAutomatic_outcome by fast
qed (simp add: automaticOutcome_def reads_frame)

text \<open>
  C33: Manual resolution: a run of the manual finalizer leaves every market as it is
  unless it is live, ACTIVE, of MANUAL resolution and past its resolution time, and
  such a market changes only by moving to VOTING, and only when the oracle answered
  VOTING for its question.
\<close>

theorem manual_resolution:
  assumes "dbInv d" and "finalizeManualSets c orc (s, d) = (s', d')"
    and "byId i (prediction_sets d) = Some p"
  shows "\<exists>t p'. d' = d\<lparr>prediction_sets := t\<rparr> \<and> byId i t = Some p'
    \<and> (if p \<in> set (resolutionDue (ctx_now c) RT_MANUAL d) then manualOutcome c orc d p p' else p' = p)"
proof -
  have inv: "tblInv (prediction_sets d)" using assms(1) by (simp add: dbInv_def)
  note rows = resolutionDue_rows [OF inv, of "ctx_now c" RT_MANUAL]
  have id: "rowId p = i" using assms(3) byId_SomeD by blast
  have own: "p \<in> set (resolutionDue (ctx_now c) RT_MANUAL d)"
    if "i \<in> rowId ` set (resolutionDue (ctx_now c) RT_MANUAL d)"
    using that rows(2) assms(3) by auto
  show ?thesis
    using manual.sweep [OF inv rows, of c orc s s' d'] assms(2,3) own id
    by (force simp: finalizeManualSets_def)
qed


end
