(* ===== verification/Js_Number.thy ===== *)
theory Js_Number
  imports Prelude
begin

text \<open>
  Numbers of the language: IEEE binary64 values as the rational numbers they are,
  with rounding to nearest, ties to even, after every operation.  The exponent is
  unbounded: overflow to infinity and subnormal numbers are left out, which the
  amounts of the program (sums and products of token amounts) do not reach.
\<close>

section \<open>Rounding\<close>

definition roundEven :: "rat \<Rightarrow> int" where
  "roundEven x = (let f = \<lfloor>x\<rfloor>; d = x - of_int f in
     if d < 1 / 2 then f else if d > 1 / 2 then f + 1 else if even f then f else f + 1)"

fun log2n :: "nat \<Rightarrow> nat" where
  "log2n n = (if n < 2 then 0 else Suc (log2n (n div 2)))"

declare log2n.simps [simp del]

definition exponent :: "rat \<Rightarrow> int" where
  "exponent x = (let (p, q) = quotient_of x; e = int (log2n (nat p)) - int (log2n (nat q)) in
     if 2 powi e \<le> x then e else e - 1)"

definition ulp :: "rat \<Rightarrow> rat" where
  "ulp x = 2 powi (exponent x - 52)"

definition double :: "rat \<Rightarrow> rat" where
  "double x = (if x = 0 then 0
     else if x > 0 then of_int (roundEven (x / ulp x)) * ulp x
     else - (of_int (roundEven (- x / ulp (- x))) * ulp (- x)))"

lemma log2n_bounds: "0 < n \<Longrightarrow> 2 ^ log2n n \<le> n \<and> n < 2 ^ Suc (log2n n)"
proof (induction n rule: log2n.induct)
  case (1 n)
  show ?case
  proof (cases "n < 2")
    case True
    then show ?thesis using 1 by (subst log2n.simps, subst (2) log2n.simps) auto
  next
    case False
    then have "2 ^ log2n (n div 2) \<le> n div 2 \<and> n div 2 < 2 ^ Suc (log2n (n div 2))" using 1 by simp
    moreover have "log2n n = Suc (log2n (n div 2))" using False by (subst log2n.simps) simp
    ultimately show ?thesis by auto
  qed
qed

lemma exponent_bounds:
  assumes "0 < x"
  shows "2 powi exponent x \<le> x" and "x < 2 powi (exponent x + 1)"
proof -
  obtain p q where pq: "quotient_of x = (p, q)" by (metis prod.exhaust)
  have q: "0 < q" using quotient_of_denom_pos [OF pq] .
  have x: "x = of_int p / of_int q" using quotient_of_div [OF pq] .
  have p: "0 < p" using assms q x by (simp add: zero_less_divide_iff)
  define a where "a = log2n (nat p)"
  define b where "b = log2n (nat q)"
  have "2 ^ a \<le> p" "p < 2 ^ Suc a" "2 ^ b \<le> q" "q < 2 ^ Suc b"
    using log2n_bounds [of "nat p"] log2n_bounds [of "nat q"] p q
    by (simp_all add: le_nat_iff nat_less_iff a_def b_def)
  then have "of_int (2 ^ a) \<le> (of_int p :: rat)" "of_int p < (of_int (2 ^ Suc a) :: rat)"
      "of_int (2 ^ b) \<le> (of_int q :: rat)" "of_int q < (of_int (2 ^ Suc b) :: rat)"
    by (simp_all only: of_int_le_iff of_int_less_iff)
  then have A: "(2::rat) ^ a \<le> of_int p" "of_int p < (2::rat) ^ Suc a"
    and B: "(2::rat) ^ b \<le> of_int q" "of_int q < (2::rat) ^ Suc b"
    by simp_all
  have pw: "(2::rat) powi (int a - int b) = 2 ^ a / 2 ^ b" by (simp add: power_int_diff)
  have lo: "2 powi (int a - int b - 1) < x"
  proof -
    have "(2::rat) ^ a / 2 ^ Suc b < of_int p / of_int q"
      using A(1) B q by (intro frac_less2) auto
    then show ?thesis using pw x by (simp add: power_int_diff)
  qed
  have hi: "x < 2 powi (int a - int b + 1)"
  proof -
    have "of_int p / of_int q < (2::rat) ^ Suc a / 2 ^ b"
      using A(2) B q p by (intro frac_less) auto
    then show ?thesis using pw x by (simp add: power_int_add mult.commute)
  qed
  have ex: "exponent x = (if 2 powi (int a - int b) \<le> x then int a - int b else int a - int b - 1)"
    by (simp add: exponent_def pq a_def b_def)
  show "2 powi exponent x \<le> x" using ex lo by simp
  show "x < 2 powi (exponent x + 1)" using ex hi by (simp add: not_le)
qed

lemma exponent_mono:
  assumes "0 < x" and "x \<le> y"
  shows "exponent x \<le> exponent y"
proof (rule ccontr)
  assume "\<not> exponent x \<le> exponent y"
  then have "(2::rat) powi (exponent y + 1) \<le> 2 powi exponent x"
    by (intro power_int_increasing) auto
  then show False using exponent_bounds [of x] exponent_bounds [of y] assms by linarith
qed

lemma ulp_pos [simp]: "0 < ulp x"
  by (simp add: ulp_def)

lemma roundEven_int [simp]: "roundEven (of_int n) = n"
  by (simp add: roundEven_def)

lemma roundEven_mono: "x \<le> y \<Longrightarrow> roundEven x \<le> roundEven y"
proof -
  assume "x \<le> y"
  then have f: "\<lfloor>x\<rfloor> \<le> \<lfloor>y\<rfloor>" by (rule floor_mono)
  have r: "\<lfloor>z\<rfloor> \<le> roundEven z \<and> roundEven z \<le> \<lfloor>z\<rfloor> + 1" for z by (simp add: roundEven_def Let_def)
  show ?thesis
  proof (cases "\<lfloor>x\<rfloor> = \<lfloor>y\<rfloor>")
    case True
    then show ?thesis using \<open>x \<le> y\<close> by (auto simp: roundEven_def Let_def)
  next
    case False
    then have "\<lfloor>x\<rfloor> + 1 \<le> \<lfloor>y\<rfloor>" using f by simp
    then show ?thesis using r [of x] r [of y] by linarith
  qed
qed

text \<open>The significand of a positive number has 53 bits.\<close>

lemma significand:
  assumes "0 < x"
  shows "2 ^ 52 \<le> x / ulp x" and "x / ulp x < 2 ^ 53"
proof -
  have u: "(2::rat) powi exponent x = 2 ^ 52 * ulp x" "2 powi (exponent x + 1) = 2 ^ 53 * ulp x"
    by (simp_all add: ulp_def power_int_diff power_int_add)
  show "2 ^ 52 \<le> x / ulp x" "x / ulp x < 2 ^ 53"
    using exponent_bounds [OF assms] u by (simp_all add: pos_le_divide_eq pos_divide_less_eq)
qed

lemma roundEven_significand:
  assumes "0 < x"
  shows "2 ^ 52 \<le> roundEven (x / ulp x)" and "roundEven (x / ulp x) \<le> 2 ^ 53"
proof -
  have "roundEven (of_int (2 ^ 52)) \<le> roundEven (x / ulp x)"
    using significand [OF assms] by (intro roundEven_mono) simp
  then show "2 ^ 52 \<le> roundEven (x / ulp x)" by (simp only: roundEven_int)
  have "roundEven (x / ulp x) \<le> roundEven (of_int (2 ^ 53))"
    using significand [OF assms] by (intro roundEven_mono) simp
  then show "roundEven (x / ulp x) \<le> 2 ^ 53" by (simp only: roundEven_int)
qed

lemma double_zero [simp]: "double 0 = 0"
  by (simp add: double_def)

lemma double_pos: "0 < x \<Longrightarrow> double x = of_int (roundEven (x / ulp x)) * ulp x"
  by (simp add: double_def)

lemma double_minus: "double (- x) = - double x"
  by (auto simp: double_def)

lemma double_binade:
  assumes "0 < x"
  shows "2 powi exponent x \<le> double x" and "double x \<le> 2 powi (exponent x + 1)"
proof -
  have u: "(2::rat) powi exponent x = 2 ^ 52 * ulp x" "2 powi (exponent x + 1) = 2 ^ 53 * ulp x"
    by (simp_all add: ulp_def power_int_diff power_int_add)
  have "of_int (2 ^ 52) \<le> (of_int (roundEven (x / ulp x)) :: rat)"
      "of_int (roundEven (x / ulp x)) \<le> (of_int (2 ^ 53) :: rat)"
    using roundEven_significand [OF assms] by (simp_all only: of_int_le_iff)
  then show "2 powi exponent x \<le> double x" "double x \<le> 2 powi (exponent x + 1)"
    using u by (simp_all add: double_pos [OF assms])
qed

lemma double_nonneg: "0 \<le> x \<Longrightarrow> 0 \<le> double x"
proof -
  assume "0 \<le> x"
  moreover have "0 < (2::rat) powi exponent x" by simp
  ultimately show ?thesis using double_binade(1) [of x] by (cases "x = 0") (simp, linarith)
qed

lemma double_mono_nonneg:
  assumes "0 \<le> x" and "x \<le> y"
  shows "double x \<le> double y"
proof (cases "x = 0")
  case True
  then show ?thesis using assms double_nonneg by simp
next
  case False
  then have pos: "0 < x" "0 < y" using assms by simp_all
  show ?thesis
  proof (cases "exponent x = exponent y")
    case True
    then have u: "ulp x = ulp y" by (simp add: ulp_def)
    have "x / ulp y \<le> y / ulp y" using assms(2) by (rule divide_right_mono) (simp add: less_imp_le)
    then have "roundEven (x / ulp y) \<le> roundEven (y / ulp y)" by (rule roundEven_mono)
    then show ?thesis using pos u by (simp add: double_pos)
  next
    case False
    then have "(2::rat) powi (exponent x + 1) \<le> 2 powi exponent y"
      using exponent_mono [OF pos(1) assms(2)] by (intro power_int_increasing) auto
    then show ?thesis using double_binade [OF pos(1)] double_binade [OF pos(2)] by linarith
  qed
qed

section \<open>Numbers that are represented exactly\<close>

lemma double_exact:
  assumes "0 < m" and "m < 2 ^ 53"
  shows "double (of_int m * 2 powi e) = of_int m * 2 powi e"
proof -
  let ?x = "of_int m * (2::rat) powi e"
  have x: "0 < ?x" using assms by simp
  have ge: "exponent ?x - 52 \<le> e"
  proof (rule ccontr)
    assume "\<not> exponent ?x - 52 \<le> e"
    then have "(2::rat) powi (e + 53) \<le> 2 powi exponent ?x" by (intro power_int_increasing) auto
    also have "2 powi exponent ?x \<le> ?x" using exponent_bounds [OF x] by simp
    finally have "of_int (2 ^ 53) * (2::rat) powi e \<le> of_int m * 2 powi e" by (simp add: power_int_add)
    then have "of_int (2 ^ 53) \<le> (of_int m :: rat)" by (rule mult_right_le_imp_le) simp
    then show False using assms(2) by (simp only: of_int_le_iff)
  qed
  then obtain k where k: "e - (exponent ?x - 52) = int k" by (metis zero_le_imp_eq_int diff_ge_0_iff_ge)
  have "?x / ulp ?x = of_int m * 2 powi (e - (exponent ?x - 52))"
    by (simp add: ulp_def power_int_diff)
  then have "?x / ulp ?x = of_int (m * 2 ^ k)" by (simp add: k)
  then have "double ?x = of_int (m * 2 ^ k) * ulp ?x" using x by (simp only: double_pos roundEven_int)
  then show ?thesis by (metis \<open>?x / ulp ?x = of_int (m * 2 ^ k)\<close> ulp_pos nonzero_eq_divide_eq less_irrefl)
qed

text \<open>Rounding a second time changes nothing, so a computed number is a fixed point.\<close>

lemma double_idem: "double (double x) = double x"
proof -
  have pos: "double (double x) = double x" if "0 < x" for x
  proof -
    let ?m = "roundEven (x / ulp x)"
    have m: "2 ^ 52 \<le> ?m" "?m \<le> 2 ^ 53" using roundEven_significand [OF that] by auto
    have d: "double x = of_int ?m * 2 powi (exponent x - 52)" using that by (simp add: double_pos ulp_def)
    show ?thesis
    proof (cases "?m = 2 ^ 53")
      case True
      have "double x = of_int (2 ^ 52) * 2 powi (exponent x - 51)"
        using True by (simp add: d power_int_diff)
      then show ?thesis using double_exact [of "2 ^ 52" "exponent x - 51"] by simp
    next
      case False
      then show ?thesis using m double_exact [of ?m "exponent x - 52"] d by simp
    qed
  qed
  consider "x = 0" | "0 < x" | "0 < - x" by linarith
  then show ?thesis
  proof cases
    case 3
    then show ?thesis using pos [OF 3] by (simp add: double_minus)
  qed (use pos in auto)
qed

lemma double_int:
  assumes "\<bar>n\<bar> < 2 ^ 53"
  shows "double (of_int n) = of_int n"
proof -
  have pos: "double (of_int k) = of_int k" if "0 < k" "k < 2 ^ 53" for k
    using double_exact [OF that, of 0] by simp
  consider "n = 0" | "0 < n" | "0 < - n" by linarith
  then show ?thesis
  proof cases
    case 3
    then show ?thesis using pos [of "- n"] assms double_minus [of "of_int n"] by simp
  qed (use pos assms in auto)
qed

lemma double_one [simp]: "double 1 = 1"
  using double_int [of 1] by simp

lemma double_le_rep: "0 \<le> x \<Longrightarrow> x \<le> y \<Longrightarrow> double y = y \<Longrightarrow> double x \<le> y"
  using double_mono_nonneg by metis

lemma double_ge_rep: "0 \<le> x \<Longrightarrow> x \<le> y \<Longrightarrow> double x = x \<Longrightarrow> x \<le> double y"
  using double_mono_nonneg by metis

section \<open>Arithmetic\<close>

definition addD :: "rat \<Rightarrow> rat \<Rightarrow> rat" where "addD x y = double (x + y)"
definition subD :: "rat \<Rightarrow> rat \<Rightarrow> rat" where "subD x y = double (x - y)"
definition mulD :: "rat \<Rightarrow> rat \<Rightarrow> rat" where "mulD x y = double (x * y)"
definition divD :: "rat \<Rightarrow> rat \<Rightarrow> rat" where "divD x y = double (x / y)"

lemma mulD_nonneg: "0 \<le> x \<Longrightarrow> 0 \<le> y \<Longrightarrow> 0 \<le> mulD x y"
  by (simp add: mulD_def double_nonneg)

lemma addD_nonneg: "0 \<le> x \<Longrightarrow> 0 \<le> y \<Longrightarrow> 0 \<le> addD x y"
  by (simp add: addD_def double_nonneg)

text \<open>A sum of nonnegative numbers, rounded at each step, is at least each of them.\<close>

lemma foldl_addD_ge:
  assumes "\<forall>v \<in> set vs. 0 \<le> v \<and> double v = v" and "0 \<le> s" and "double s = s"
  shows "s \<le> foldl addD s vs \<and> (\<forall>v \<in> set vs. v \<le> foldl addD s vs)"
  using assms
proof (induction vs arbitrary: s)
  case (Cons v vs)
  let ?s = "addD s v"
  have v: "0 \<le> v" "double v = v" using Cons.prems(1) by auto
  have "s \<le> ?s" "v \<le> ?s"
    using double_ge_rep [of s "s + v"] double_ge_rep [of v "s + v"] v Cons.prems(2,3)
    by (simp_all add: addD_def)
  moreover have "?s \<le> foldl addD ?s vs \<and> (\<forall>v \<in> set vs. v \<le> foldl addD ?s vs)"
    using Cons v by (intro Cons.IH) (auto simp: addD_def double_idem double_nonneg)
  ultimately show ?case by auto
qed simp

end
