(* ===== verification/Indexer.thy ===== *)
theory Indexer
  imports Chain_Parsers Rewards Js_Number Js_String
begin

text \<open>
  The indexer (\<open>indexer/process-scripts/\<close>): the cycle of the process that follows
  one market on chain (\<open>prediction-set-parser.ts\<close>) and the planner that keeps one
  such process per open market (\<open>prediction-set-parser-planner.ts\<close>).  Amounts are
  the numbers of the language, so every operation on them rounds.
\<close>

section \<open>Events\<close>

record fund_event =
  fu_txHash :: string
  fu_wallet :: string
  fu_amounts :: "nat list"
  fu_shares :: int

record trade_event =
  te_type :: ShareTransactionType
  te_txHash :: string
  te_wallet :: string
  te_amount :: int
  te_feeAmount :: int
  te_outcomeIndex :: nat
  te_outcomeTokens :: int

record index_chain =
  ix_head :: int
  ix_funding :: "int \<Rightarrow> int \<Rightarrow> (exn, fund_event list) res"
  ix_isFunded :: "(exn, bool) res"
  ix_buys :: "int \<Rightarrow> int \<Rightarrow> (exn, trade_event list) res"
  ix_sells :: "int \<Rightarrow> int \<Rightarrow> (exn, trade_event list) res"
  ix_enqueue :: "nat \<Rightarrow> (exn, unit) res"

text \<open>
  An event of an outcome that is not stored ends the process; any other throw is
  logged and the cycle is tried again.
\<close>

datatype cycle_error = CycleThrow exn | OutcomeMissing nat

fun thrown :: "(exn, 'a) res \<Rightarrow> (cycle_error, 'a) res" where
  "thrown (Inl e) = Inl (CycleThrow e)"
| "thrown (Inr x) = Inr x"

lemma thrown_Inr [res_simps]: "thrown m = Inr x \<longleftrightarrow> m = Inr x"
  by (cases m) auto

lemma thrown_Inl [res_simps]: "thrown m = Inl e \<longleftrightarrow> (\<exists>x. m = Inl x \<and> e = CycleThrow x)"
  by (cases m) auto

section \<open>The price of the market maker\<close>

text \<open>The text of an amounts array, and the numbers read back from it.\<close>

definition amountsOf :: "nat list \<Rightarrow> rat list" where
  "amountsOf ns = (if ns = [] then [0] else map (\<lambda>n. double (of_nat n)) ns)"

text \<open>\<open>Math.max(...amounts)\<close> and \<open>Math.min(...amounts)\<close>\<close>

definition maxOf :: "rat list \<Rightarrow> rat" where "maxOf xs = fold max (tl xs) (hd xs)"
definition minOf :: "rat list \<Rightarrow> rat" where "minOf xs = fold min (tl xs) (hd xs)"

definition outcomeProduct :: "rat list \<Rightarrow> nat \<Rightarrow> rat" where
  "outcomeProduct amounts i = foldl (\<lambda>prod (j, amt). if i = j then prod else mulD prod amt) 1
     (enumerate 0 amounts)"

definition outcomePrice :: "rat list \<Rightarrow> nat \<Rightarrow> rat" where
  "outcomePrice amounts i =
    (let outcomeProducts = map (outcomeProduct amounts) [0..<length amounts];
         denominator = foldl addD 0 outcomeProducts
     in if denominator = 0 then 0 else divD (outcomeProducts ! i) denominator)"

text \<open>Outcome tokens acquired by funding at unequal amounts, and their cost.\<close>

definition fundTokens :: "rat \<Rightarrow> rat \<Rightarrow> rat" where
  "fundTokens collateralAmount amount = subD collateralAmount amount"

definition fundCost :: "rat list \<Rightarrow> rat \<Rightarrow> nat \<Rightarrow> rat \<Rightarrow> int" where
  "fundCost amounts collateralAmount i amount =
     \<lfloor>mulD (fundTokens collateralAmount amount) (outcomePrice amounts i)\<rfloor>"

section \<open>Points\<close>

text \<open>A collateral token that is gone has neither decimals nor a price, which makes the value 0.\<close>

definition amountInUsd :: "collateral_token option \<Rightarrow> rat \<Rightarrow> rat" where
  "amountInUsd tok amount = (case tok of
      None \<Rightarrow> 0
    | Some t \<Rightarrow> mulD (divD amount (double (10 ^ co_decimals t))) (double (co_usdPrice t)))"

definition pointsMultiplier :: "collateral_token option \<Rightarrow> rat \<Rightarrow> rat \<Rightarrow> int" where
  "pointsMultiplier tok amount per = \<lfloor>divD (amountInUsd tok amount) per\<rfloor>"

definition awardFor ::
  "ctx \<Rightarrow> prediction_set \<Rightarrow> user option \<Rightarrow> RewardType \<Rightarrow> rat \<Rightarrow> rat \<Rightarrow> db \<Rightarrow> (cycle_error, db) res" where
  "awardFor c ps u ty amount per w = (case u of
      None \<Rightarrow> Inr w
    | Some usr \<Rightarrow>
        bindR (thrown (populateById (ps_collateral_token_id ps) (collateral_tokens w))) (\<lambda>tok.
          if pointsMultiplier tok amount per > 0
          then thrown (awardPoints c (rowId usr) ty (pointsMultiplier tok amount per) w)
          else Inr w))"

section \<open>Funding\<close>

definition newShare ::
  "ShareTransactionType \<Rightarrow> string \<Rightarrow> string \<Rightarrow> int \<Rightarrow> int \<Rightarrow> nat \<Rightarrow> int \<Rightarrow> nat option \<Rightarrow> nat \<Rightarrow> nat
    \<Rightarrow> share_transaction" where
  "newShare ty tx wallet amount fee idx tokens uId ocId psId =
     \<lparr>rowId = 0, status = ACTIVE, createTime = 0, updateTime = 0, createUser = None, updateUser = None,
      st_prediction_set_id = psId, st_user_id = uId, st_outcome_id = ocId, st_txHash = tx,
      st_wallet = wallet, st_amount = amount, st_feeAmount = fee, st_outcomeIndex = idx,
      st_outcomeTokens = tokens, st_type = ty\<rparr>"

definition insertShare :: "ctx \<Rightarrow> share_transaction \<Rightarrow> db \<Rightarrow> (cycle_error, db) res" where
  "insertShare c s w = bindR (thrown (insertRow c noClash s (share_transactions w))) (\<lambda>(i, t).
     Inr (w\<lparr>share_transactions := t\<rparr>))"

definition newFunding :: "fund_event \<Rightarrow> rat \<Rightarrow> nat option \<Rightarrow> nat \<Rightarrow> funding_transaction" where
  "newFunding e collateralAmount uId psId =
     \<lparr>rowId = 0, status = ACTIVE, createTime = 0, updateTime = 0, createUser = None, updateUser = None,
      ft_prediction_set_id = psId, ft_user_id = uId, ft_txHash = fu_txHash e, ft_wallet = fu_wallet e,
      ft_amounts = joinWith '','' (map decimal (fu_amounts e)), ft_shares = fu_shares e,
      ft_collateralAmount = Some \<lfloor>collateralAmount\<rfloor>, ft_collateralRemovedFromFeePool = None,
      ft_type = FT_ADDED\<rparr>"

text \<open>The share transactions of funding at unequal amounts: one per outcome below the maximum.\<close>

definition fundShare ::
  "ctx \<Rightarrow> prediction_set \<Rightarrow> user option \<Rightarrow> fund_event \<Rightarrow> rat list \<Rightarrow> rat \<Rightarrow> nat \<times> rat \<Rightarrow> db
    \<Rightarrow> (cycle_error, db) res" where
  "fundShare c ps u e amounts collateralAmount ia w = (let (index, amount) = ia in
    if amount = collateralAmount then Inr w
    else (case populateByIndexAndPredictionSetId (int index) (rowId ps) w of
        None \<Rightarrow> Inl (OutcomeMissing index)
      | Some oc \<Rightarrow> insertShare c (newShare ST_FUND (fu_txHash e) (fu_wallet e)
            (fundCost amounts collateralAmount index amount) 0 index
            \<lfloor>fundTokens collateralAmount amount\<rfloor> (map_option rowId u) (rowId oc) (rowId ps)) w))"

definition processFunding :: "ctx \<Rightarrow> prediction_set \<Rightarrow> fund_event \<Rightarrow> db \<Rightarrow> (cycle_error, db) res" where
  "processFunding c ps e w =
    (let u = populateByWalletAddress (fu_wallet e) w;
         amounts = amountsOf (fu_amounts e);
         collateralAmount = maxOf amounts in
     bindR (thrown (insertRow c noClash (newFunding e collateralAmount (map_option rowId u) (rowId ps))
              (funding_transactions w))) (\<lambda>(i, t).
     bindR (if collateralAmount \<noteq> minOf amounts
            then forEach (fundShare c ps u e amounts collateralAmount) (enumerate 0 amounts)
                   (w\<lparr>funding_transactions := t\<rparr>)
            else Inr (w\<lparr>funding_transactions := t\<rparr>)) (\<lambda>w1.
       awardFor c ps u MARKET_FUNDING collateralAmount 100 w1)))"

text \<open>Trading is opened when the window has funding and the contract is funded.\<close>

definition activateFunded ::
  "ctx \<Rightarrow> index_chain \<Rightarrow> prediction_set \<Rightarrow> fund_event list \<Rightarrow> db \<Rightarrow> (cycle_error, db) res" where
  "activateFunded c ix ps fundingEvents w =
    (if fundingEvents = [] then Inr w
     else bindR (thrown (ix_isFunded ix)) (\<lambda>isFunded.
       if isFunded \<and> ps_setStatus ps \<noteq> PS_ACTIVE then Inr (setStatusRow c (rowId ps) PS_ACTIVE w)
       else Inr w))"

section \<open>Trades\<close>

definition processTrade :: "ctx \<Rightarrow> prediction_set \<Rightarrow> trade_event \<Rightarrow> db \<Rightarrow> (cycle_error, db) res" where
  "processTrade c ps e w =
    (let u = populateByWalletAddress (te_wallet e) w in
     case populateByIndexAndPredictionSetId (int (te_outcomeIndex e)) (rowId ps) w of
       None \<Rightarrow> Inl (OutcomeMissing (te_outcomeIndex e))
     | Some oc \<Rightarrow>
        bindR (insertShare c (newShare (te_type e) (te_txHash e) (te_wallet e) (te_amount e)
                 (te_feeAmount e) (te_outcomeIndex e) (te_outcomeTokens e) (map_option rowId u)
                 (rowId oc) (rowId ps)) w) (\<lambda>w1.
          awardFor c ps u (if te_type e = ST_BUY then BUYING_SHARES else SELLING_SHARES)
            (double (of_int (te_amount e))) 10 w1))"

section \<open>The cycle\<close>

definition indexWindow ::
  "ctx \<Rightarrow> index_chain \<Rightarrow> prediction_set \<Rightarrow> int \<Rightarrow> int \<Rightarrow> db \<Rightarrow> (cycle_error, db) res" where
  "indexWindow c ix ps fromBlock toBlock w =
    bindR (thrown (ix_funding ix fromBlock toBlock)) (\<lambda>fundingEvents.
    bindR (forEach (processFunding c ps) fundingEvents w) (\<lambda>w1.
    bindR (activateFunded c ix ps fundingEvents w1) (\<lambda>w2.
    bindR (thrown (ix_buys ix fromBlock toBlock)) (\<lambda>buys.
    bindR (thrown (ix_sells ix fromBlock toBlock)) (\<lambda>sells.
    let transactionEvents = map (\<lambda>e. e\<lparr>te_type := ST_BUY\<rparr>) buys @ map (\<lambda>e. e\<lparr>te_type := ST_SELL\<rparr>) sells in
    bindR (forEach (processTrade c ps) transactionEvents w2) (\<lambda>w3.
    if fundingEvents = [] \<and> transactionEvents = [] then Inr w3
    else bindR (thrown (ix_enqueue ix (rowId ps))) (\<lambda>u. Inr w3)))))))"

datatype cycle_end = Stopped | Again

text \<open>
  One cycle.  The market and its chain data are read without the transaction's
  connection, so from the committed database.
\<close>

definition cycle :: "ctx \<Rightarrow> index_chain \<Rightarrow> nat \<Rightarrow> db mysql \<Rightarrow> cycle_end \<times> db mysql" where
  "cycle c ix predictionSetId m = (let (w, m1) = start m; pool = committed m in
    case populateById predictionSetId (prediction_sets pool) of
      Inl e \<Rightarrow> (Again, rollback m1)
    | Inr None \<Rightarrow> (Stopped, rollback m1)
    | Inr (Some ps) \<Rightarrow>
       (case populateByPredictionSetId predictionSetId pool of
          None \<Rightarrow> (Again, rollback m1)
        | Some cd \<Rightarrow>
           (case (cd_contractAddress cd,
                  nextWindowIndexer (cd_lastProcessedBlock cd) (cd_parseBlockSize cd) (ix_head ix)) of
              (Some addr, Some (fromBlock, toBlock)) \<Rightarrow>
                (case indexWindow c ix ps fromBlock toBlock w of
                   Inl (OutcomeMissing k) \<Rightarrow> (Stopped, rollback m1)
                 | Inl (CycleThrow e) \<Rightarrow> (Again, rollback m1)
                 | Inr w' \<Rightarrow>
                     (Again, commit (updateLastProcessedBlock (ctx_now c) (rowId cd) toBlock w') m1))
            | _ \<Rightarrow> (Again, rollback m1))))"

section \<open>Bounds of the price\<close>

definition rep :: "rat \<Rightarrow> bool" where
  "rep x \<longleftrightarrow> 0 \<le> x \<and> double x = x"

lemma rep_simps [simp]: "rep 0" "rep 1"
  by (simp_all add: rep_def)

lemma rep_double: "0 \<le> x \<Longrightarrow> rep (double x)"
  by (simp add: rep_def double_idem double_nonneg)

lemma rep_amountsOf: "x \<in> set (amountsOf ns) \<Longrightarrow> rep x"
  by (auto simp: amountsOf_def rep_double split: if_splits)

lemma rep_outcomeProduct:
  assumes "\<forall>x \<in> set amounts. rep x"
  shows "rep (outcomeProduct amounts i)"
proof -
  have "rep (foldl (\<lambda>prod (j, amt). if i = j then prod else mulD prod amt) s xs)"
    if "rep s" "\<forall>(j, x) \<in> set xs. rep x" for s and xs :: "(nat \<times> rat) list"
    using that
  proof (induction xs arbitrary: s)
    case (Cons a xs)
    obtain j x where a: "a = (j, x)" by (cases a)
    have "rep (if i = j then s else mulD s x)"
      using Cons.prems a by (simp add: rep_double mulD_def) (simp add: rep_def rep_double double_idem double_nonneg)
    then show ?case using Cons a by simp
  qed simp
  moreover have "\<forall>(j, x) \<in> set (enumerate 0 amounts). rep x"
    using assms by (auto simp: enumerate_eq_zip dest: set_zip_rightD)
  ultimately show ?thesis by (simp add: outcomeProduct_def)
qed

lemma outcomePrice_bounds:
  assumes "\<forall>x \<in> set amounts. rep x" and "i < length amounts"
  shows "0 \<le> outcomePrice amounts i \<and> outcomePrice amounts i \<le> 1"
proof -
  let ?ps = "map (outcomeProduct amounts) [0..<length amounts]"
  let ?den = "foldl addD 0 ?ps"
  have "\<forall>v \<in> set ?ps. 0 \<le> v \<and> double v = v"
    using rep_outcomeProduct [OF assms(1)] by (auto simp: rep_def)
  then have den: "0 \<le> ?den \<and> (\<forall>v \<in> set ?ps. v \<le> ?den)"
    using foldl_addD_ge [of ?ps 0] by simp
  have mem: "?ps ! i \<in> set ?ps" using assms(2) by (intro nth_mem) simp
  have v: "0 \<le> ?ps ! i" "?ps ! i \<le> ?den"
    using mem den rep_outcomeProduct [OF assms(1)] assms(2) by (auto simp: rep_def)
  show ?thesis
  proof (cases "?den = 0")
    case True
    then show ?thesis by (simp add: outcomePrice_def Let_def)
  next
    case False
    then have "0 \<le> ?ps ! i / ?den" "?ps ! i / ?den \<le> 1" using v den by simp_all
    then show ?thesis using False double_nonneg double_le_rep [of "?ps ! i / ?den" 1]
      by (simp add: outcomePrice_def Let_def divD_def)
  qed
qed

lemma fold_max_ge: "\<forall>x \<in> set (y # ys). x \<le> fold max ys (y :: rat)"
proof (induction ys arbitrary: y)
  case (Cons z ys)
  have "max z y \<le> fold max ys (max z y)" using Cons.IH [of "max z y"] by simp
  then show ?case using Cons.IH [of "max z y"] by auto
qed simp

lemma maxOf_ge: "x \<in> set xs \<Longrightarrow> x \<le> maxOf xs"
  using fold_max_ge [of "hd xs" "tl xs"] by (cases xs) (auto simp: maxOf_def)

lemma maxOf_mem: "xs \<noteq> [] \<Longrightarrow> maxOf xs \<in> set xs"
proof -
  have "fold max ys y \<in> set (y # ys)" for ys and y :: rat
  proof (induction ys arbitrary: y)
    case (Cons z ys)
    then show ?case using Cons.IH [of "max z y"] by (auto simp: max_def split: if_splits)
  qed simp
  then show "xs \<noteq> [] \<Longrightarrow> maxOf xs \<in> set xs" by (cases xs) (auto simp: maxOf_def)
qed

text \<open>
  The cost of the outcome tokens that a funder keeps, as the indexer computes it
  in floating point, stays in range: the price of an outcome is between 0 and 1, and
  the recorded cost is nonnegative and at most the number of tokens acquired.
\<close>

theorem fund_cost_bounds:
  assumes "i < length (amountsOf ns)"
  shows "0 \<le> outcomePrice (amountsOf ns) i \<and> outcomePrice (amountsOf ns) i \<le> 1
    \<and> 0 \<le> fundCost (amountsOf ns) (maxOf (amountsOf ns)) i (amountsOf ns ! i)
    \<and> fundCost (amountsOf ns) (maxOf (amountsOf ns)) i (amountsOf ns ! i)
        \<le> \<lfloor>fundTokens (maxOf (amountsOf ns)) (amountsOf ns ! i)\<rfloor>"
proof -
  let ?xs = "amountsOf ns" and ?t = "fundTokens (maxOf (amountsOf ns)) (amountsOf ns ! i)"
  have price: "0 \<le> outcomePrice ?xs i \<and> outcomePrice ?xs i \<le> 1"
    using rep_amountsOf by (intro outcomePrice_bounds assms) blast
  have "?xs ! i \<le> maxOf ?xs" using assms by (intro maxOf_ge) simp
  then have t: "rep ?t" by (simp add: fundTokens_def subD_def rep_double)
  then have "?t * outcomePrice ?xs i \<le> ?t" "0 \<le> ?t * outcomePrice ?xs i"
    using price by (auto simp: rep_def mult_left_le)
  then have "0 \<le> mulD ?t (outcomePrice ?xs i)" "mulD ?t (outcomePrice ?xs i) \<le> ?t"
    using t double_le_rep by (auto simp: mulD_def rep_def double_nonneg)
  then show ?thesis using price by (simp add: fundCost_def floor_mono)
qed

section \<open>What a window writes\<close>

lemma awardFor_frame: "awardFor c ps u ty a per w = Inr w' \<Longrightarrow> \<exists>t. w' = w\<lparr>reward_transactions := t\<rparr>"
proof (cases u)
  case (Some usr)
  assume a: "awardFor c ps u ty a per w = Inr w'"
  then obtain tok where "(if pointsMultiplier tok a per > 0
      then thrown (awardPoints c (rowId usr) ty (pointsMultiplier tok a per) w) else Inr w) = Inr w'"
    using Some by (auto simp: awardFor_def res_simps)
  then show ?thesis
    using awardPoints_frame by (cases "pointsMultiplier tok a per > 0")
      (auto simp: res_simps intro: exI [of _ "reward_transactions w"])
qed (auto simp: awardFor_def intro: exI [of _ "reward_transactions w"])

text \<open>The keys by which events and rows are compared.\<close>

definition fundKeys :: "db \<Rightarrow> (nat \<times> string \<times> string \<times> int) list" where
  "fundKeys d = map (\<lambda>r. (ft_prediction_set_id r, ft_txHash r, ft_wallet r, ft_shares r))
     (rows (funding_transactions d))"

definition tradeKeys :: "db \<Rightarrow> (nat \<times> ShareTransactionType \<times> string \<times> string \<times> int \<times> nat \<times> int) list" where
  "tradeKeys d = map (\<lambda>r. (st_prediction_set_id r, st_type r, st_txHash r, st_wallet r, st_amount r,
      st_outcomeIndex r, st_outcomeTokens r)) (filter (\<lambda>r. st_type r \<noteq> ST_FUND) (rows (share_transactions d)))"

text \<open>The tables that no event of a window writes.\<close>

definition sameBase :: "db \<Rightarrow> db \<Rightarrow> bool" where
  "sameBase d d' \<longleftrightarrow> chain_datas d' = chain_datas d \<and> outcomes d' = outcomes d \<and> users d' = users d
     \<and> collateral_tokens d' = collateral_tokens d"

lemma sameBase_trans: "sameBase d1 d2 \<Longrightarrow> sameBase d2 d3 \<Longrightarrow> sameBase d1 d3"
  by (simp add: sameBase_def)

lemma insertShare_effect:
  assumes "insertShare c s w = Inr w'" and "st_type s \<noteq> ST_FUND"
  shows "tradeKeys w' = tradeKeys w @ [(st_prediction_set_id s, st_type s, st_txHash s, st_wallet s,
      st_amount s, st_outcomeIndex s, st_outcomeTokens s)]"
    and "fundKeys w' = fundKeys w" and "sameBase w w'" and "prediction_sets w' = prediction_sets w"
  using assms by (auto simp: insertShare_def res_simps tradeKeys_def fundKeys_def sameBase_def
      dest!: insertRow_Inr(1))

lemma insertShare_fund:
  assumes "insertShare c s w = Inr w'" and "st_type s = ST_FUND"
  shows "tradeKeys w' = tradeKeys w" and "fundKeys w' = fundKeys w" and "sameBase w w'"
    and "prediction_sets w' = prediction_sets w"
  using assms by (auto simp: insertShare_def res_simps tradeKeys_def fundKeys_def sameBase_def
      dest!: insertRow_Inr(1))

lemma fundShare_effect:
  assumes "fundShare c ps u e amounts coll ia w = Inr w'"
  shows "tradeKeys w' = tradeKeys w \<and> fundKeys w' = fundKeys w \<and> sameBase w w'
    \<and> prediction_sets w' = prediction_sets w"
proof (cases "snd ia = coll")
  case True
  then show ?thesis using assms by (auto simp: fundShare_def Let_def sameBase_def split: prod.splits)
next
  case False
  then obtain s where "insertShare c s w = Inr w'" "st_type s = ST_FUND"
    using assms by (auto simp: fundShare_def Let_def newShare_def split: prod.splits option.splits)
  then show ?thesis using insertShare_fund by blast
qed

lemma award_effect:
  assumes "awardFor c ps u ty a per w = Inr w'"
  shows "tradeKeys w' = tradeKeys w \<and> fundKeys w' = fundKeys w \<and> sameBase w w'
    \<and> prediction_sets w' = prediction_sets w"
  using awardFor_frame [OF assms] by (auto simp: tradeKeys_def fundKeys_def sameBase_def)

lemma forEach_fundShare:
  assumes "forEach (fundShare c ps u e amounts coll) ias w = Inr w'"
  shows "tradeKeys w' = tradeKeys w \<and> fundKeys w' = fundKeys w \<and> sameBase w w'
    \<and> prediction_sets w' = prediction_sets w"
proof (rule forEach_invariant [OF assms])
  fix ia s s'
  assume "tradeKeys s = tradeKeys w \<and> fundKeys s = fundKeys w \<and> sameBase w s \<and> prediction_sets s = prediction_sets w"
    and "fundShare c ps u e amounts coll ia s = Inr s'"
  then show "tradeKeys s' = tradeKeys w \<and> fundKeys s' = fundKeys w \<and> sameBase w s'
      \<and> prediction_sets s' = prediction_sets w"
    using fundShare_effect sameBase_trans by metis
qed (simp add: sameBase_def)

lemma processFunding_effect:
  assumes "processFunding c ps e w = Inr w'"
  shows "tradeKeys w' = tradeKeys w
    \<and> fundKeys w' = fundKeys w @ [(rowId ps, fu_txHash e, fu_wallet e, fu_shares e)]
    \<and> sameBase w w' \<and> prediction_sets w' = prediction_sets w"
proof -
  let ?xs = "amountsOf (fu_amounts e)"
  let ?u = "populateByWalletAddress (fu_wallet e) w"
  obtain i t w1 where ins: "insertRow c noClash (newFunding e (maxOf ?xs) (map_option rowId ?u) (rowId ps))
        (funding_transactions w) = Inr (i, t)"
    and step: "(if maxOf ?xs \<noteq> minOf ?xs
        then forEach (fundShare c ps ?u e ?xs (maxOf ?xs)) (enumerate 0 ?xs) (w\<lparr>funding_transactions := t\<rparr>)
        else Inr (w\<lparr>funding_transactions := t\<rparr>)) = Inr w1"
    and aw: "awardFor c ps ?u MARKET_FUNDING (maxOf ?xs) 100 w1 = Inr w'"
    using assms unfolding processFunding_def Let_def by (auto simp: res_simps)
  let ?w0 = "w\<lparr>funding_transactions := t\<rparr>"
  have base: "tradeKeys ?w0 = tradeKeys w \<and> sameBase w ?w0 \<and> prediction_sets ?w0 = prediction_sets w
      \<and> fundKeys ?w0 = fundKeys w @ [(rowId ps, fu_txHash e, fu_wallet e, fu_shares e)]"
    using insertRow_Inr(1) [OF ins] by (simp add: tradeKeys_def sameBase_def fundKeys_def newFunding_def)
  have "tradeKeys w1 = tradeKeys ?w0 \<and> fundKeys w1 = fundKeys ?w0 \<and> sameBase ?w0 w1
      \<and> prediction_sets w1 = prediction_sets ?w0"
    using step forEach_fundShare by (cases "maxOf ?xs \<noteq> minOf ?xs") (auto simp: sameBase_def)
  then show ?thesis using base award_effect [OF aw] sameBase_trans by metis
qed

lemma processTrade_effect:
  assumes "processTrade c ps e w = Inr w'" and "te_type e \<noteq> ST_FUND"
  shows "tradeKeys w' = tradeKeys w @ [(rowId ps, te_type e, te_txHash e, te_wallet e, te_amount e,
        te_outcomeIndex e, te_outcomeTokens e)]
    \<and> fundKeys w' = fundKeys w \<and> sameBase w w' \<and> prediction_sets w' = prediction_sets w"
proof -
  let ?u = "populateByWalletAddress (te_wallet e) w"
  obtain oc where oc: "populateByIndexAndPredictionSetId (int (te_outcomeIndex e)) (rowId ps) w = Some oc"
    using assms(1) by (auto simp: processTrade_def Let_def split: option.splits)
  let ?s = "newShare (te_type e) (te_txHash e) (te_wallet e) (te_amount e) (te_feeAmount e)
      (te_outcomeIndex e) (te_outcomeTokens e) (map_option rowId ?u) (rowId oc) (rowId ps)"
  obtain w1 where "insertShare c ?s w = Inr w1"
    "awardFor c ps ?u (if te_type e = ST_BUY then BUYING_SHARES else SELLING_SHARES)
       (double (of_int (te_amount e))) 10 w1 = Inr w'"
    using assms(1) oc unfolding processTrade_def Let_def by (auto simp: res_simps)
  then show ?thesis
    using insertShare_effect [of c ?s w w1] award_effect assms(2) sameBase_trans
    by (fastforce simp: newShare_def)
qed

lemma forEach_funding:
  assumes "forEach (processFunding c ps) es w = Inr w'"
  shows "tradeKeys w' = tradeKeys w
    \<and> fundKeys w' = fundKeys w @ map (\<lambda>e. (rowId ps, fu_txHash e, fu_wallet e, fu_shares e)) es
    \<and> sameBase w w' \<and> prediction_sets w' = prediction_sets w"
  using assms
proof (induction es arbitrary: w)
  case (Cons e es)
  then obtain w1 where "processFunding c ps e w = Inr w1" "forEach (processFunding c ps) es w1 = Inr w'"
    by (auto simp: res_simps)
  then show ?case using Cons.IH processFunding_effect [of c ps e w w1] sameBase_trans by fastforce
qed (simp add: sameBase_def)

lemma forEach_trades:
  assumes "forEach (processTrade c ps) es w = Inr w'" and "\<forall>e \<in> set es. te_type e \<noteq> ST_FUND"
  shows "tradeKeys w' = tradeKeys w @ map (\<lambda>e. (rowId ps, te_type e, te_txHash e, te_wallet e,
        te_amount e, te_outcomeIndex e, te_outcomeTokens e)) es
    \<and> fundKeys w' = fundKeys w \<and> sameBase w w' \<and> prediction_sets w' = prediction_sets w"
  using assms
proof (induction es arbitrary: w)
  case (Cons e es)
  then obtain w1 where "processTrade c ps e w = Inr w1" "forEach (processTrade c ps) es w1 = Inr w'"
    by (auto simp: res_simps)
  then show ?case using Cons processTrade_effect [of c ps e w w1] sameBase_trans by fastforce
qed (simp add: sameBase_def)

lemma activateFunded_effect:
  assumes "activateFunded c ix ps es w = Inr w'"
  shows "tradeKeys w' = tradeKeys w \<and> fundKeys w' = fundKeys w \<and> sameBase w w'
    \<and> w' = (if es \<noteq> [] \<and> ix_isFunded ix = Inr True \<and> ps_setStatus ps \<noteq> PS_ACTIVE
            then setStatusRow c (rowId ps) PS_ACTIVE w else w)"
  using assms
  by (auto simp: activateFunded_def res_simps setStatusRow_def tradeKeys_def fundKeys_def sameBase_def
      split: if_splits)

text \<open>The events of a window, as the rows they must become.\<close>

definition windowTrades :: "trade_event list \<Rightarrow> trade_event list \<Rightarrow> trade_event list" where
  "windowTrades buys sells = map (\<lambda>e. e\<lparr>te_type := ST_BUY\<rparr>) buys @ map (\<lambda>e. e\<lparr>te_type := ST_SELL\<rparr>) sells"

lemma indexWindow_effect:
  assumes "indexWindow c ix ps f t w = Inr w'"
  obtains fs buys sells where "ix_funding ix f t = Inr fs" "ix_buys ix f t = Inr buys"
    "ix_sells ix f t = Inr sells"
    "fundKeys w' = fundKeys w @ map (\<lambda>e. (rowId ps, fu_txHash e, fu_wallet e, fu_shares e)) fs"
    "tradeKeys w' = tradeKeys w @ map (\<lambda>e. (rowId ps, te_type e, te_txHash e, te_wallet e,
        te_amount e, te_outcomeIndex e, te_outcomeTokens e)) (windowTrades buys sells)"
    "sameBase w w'"
    "prediction_sets w' = (if fs \<noteq> [] \<and> ix_isFunded ix = Inr True \<and> ps_setStatus ps \<noteq> PS_ACTIVE
       then prediction_sets (setStatusRow c (rowId ps) PS_ACTIVE w) else prediction_sets w)"
proof -
  obtain fs w1 w2 buys sells w3 where q: "ix_funding ix f t = Inr fs" "ix_buys ix f t = Inr buys"
      "ix_sells ix f t = Inr sells"
    and f: "forEach (processFunding c ps) fs w = Inr w1"
    and a: "activateFunded c ix ps fs w1 = Inr w2"
    and t: "forEach (processTrade c ps) (windowTrades buys sells) w2 = Inr w3"
    and e: "w' = w3"
    using assms unfolding indexWindow_def Let_def windowTrades_def
    by (auto simp: res_simps split: if_splits)
  have "\<forall>e \<in> set (windowTrades buys sells). te_type e \<noteq> ST_FUND" by (auto simp: windowTrades_def)
  note F = forEach_funding [OF f] and A = activateFunded_effect [OF a] and T = forEach_trades [OF t this]
  have "prediction_sets (setStatusRow c (rowId ps) PS_ACTIVE w1)
      = prediction_sets (setStatusRow c (rowId ps) PS_ACTIVE w)"
    using F by (simp add: setStatusRow_def)
  then have sets: "prediction_sets w' = (if fs \<noteq> [] \<and> ix_isFunded ix = Inr True \<and> ps_setStatus ps \<noteq> PS_ACTIVE
       then prediction_sets (setStatusRow c (rowId ps) PS_ACTIVE w) else prediction_sets w)"
    using F A T e by simp
  have base: "sameBase w w'" using F A T e sameBase_trans by blast
  have funds: "fundKeys w' = fundKeys w @ map (\<lambda>e. (rowId ps, fu_txHash e, fu_wallet e, fu_shares e)) fs"
    using F A T e by metis
  have trades: "tradeKeys w' = tradeKeys w @ map (\<lambda>e. (rowId ps, te_type e, te_txHash e, te_wallet e,
        te_amount e, te_outcomeIndex e, te_outcomeTokens e)) (windowTrades buys sells)"
    unfolding e T [THEN conjunct1] A [THEN conjunct1] F [THEN conjunct1] ..
  show thesis by (rule that [OF q funds trades base sets])
qed

text \<open>A cycle commits a whole window or leaves everything as it was.\<close>

lemma cycle_cases:
  obtains (nothing) r where "cycle c ix i m = (r, m)"
  | (committed_) ps cd f t w where "populateById i (prediction_sets (committed m)) = Inr (Some ps)"
      "populateByPredictionSetId i (committed m) = Some cd"
      "nextWindowIndexer (cd_lastProcessedBlock cd) (cd_parseBlockSize cd) (ix_head ix) = Some (f, t)"
      "indexWindow c ix ps f t (committed m) = Inr w"
      "cycle c ix i m = (Again, m\<lparr>committed := updateLastProcessedBlock (ctx_now c) (rowId cd) t w\<rparr>)"
proof (cases "\<exists>r. cycle c ix i m = (r, m)")
  case True
  then obtain r where "cycle c ix i m = (r, m)" by blast
  then show thesis by (rule nothing)
next
  case False
  note D = cycle_def start_def rollback_def commit_def Let_def
  obtain ps where ps: "populateById i (prediction_sets (committed m)) = Inr (Some ps)"
    using False by (auto simp: D split: sum.splits option.splits)
  obtain cd where cd: "populateByPredictionSetId i (committed m) = Some cd"
    using False ps by (auto simp: D split: option.splits)
  obtain addr f t where win: "cd_contractAddress cd = Some addr"
    "nextWindowIndexer (cd_lastProcessedBlock cd) (cd_parseBlockSize cd) (ix_head ix) = Some (f, t)"
    using False ps cd by (auto simp: D split: option.splits)
  obtain w where w: "indexWindow c ix ps f t (committed m) = Inr w"
    using False ps cd win by (auto simp: D split: sum.splits cycle_error.splits)
  show thesis using committed_ [OF ps cd win(2) w] ps cd win w by (simp add: D)
qed

definition cycle_committed :: "ctx \<Rightarrow> index_chain \<Rightarrow> nat \<Rightarrow> db \<Rightarrow> db \<Rightarrow> prediction_set \<Rightarrow> chain_data
    \<Rightarrow> int \<Rightarrow> int \<Rightarrow> bool" where
  "cycle_committed c ix i d d' ps cd f t \<longleftrightarrow>
     (\<exists>fs buys sells. ix_funding ix f t = Inr fs \<and> ix_buys ix f t = Inr buys \<and> ix_sells ix f t = Inr sells
       \<and> fundKeys d' = fundKeys d @ map (\<lambda>e. (i, fu_txHash e, fu_wallet e, fu_shares e)) fs
       \<and> tradeKeys d' = tradeKeys d @ map (\<lambda>e. (i, te_type e, te_txHash e, te_wallet e,
            te_amount e, te_outcomeIndex e, te_outcomeTokens e)) (windowTrades buys sells)
       \<and> (\<exists>p. byId i (prediction_sets d') = Some p \<and> ps_setStatus p =
            (if fs \<noteq> [] \<and> ix_isFunded ix = Inr True then PS_ACTIVE else ps_setStatus ps)))"

text \<open>
  C6: The indexer records every event of a window once or none of them: a cycle
  either changes nothing, or it commits the window after the cursor of the market,
  with one funding row per funding event and one share row per buy and then per sell,
  in order and with the values of the event, moves the cursor to the end of the
  window, and sets the market ACTIVE exactly when the window has funding and the
  contract is funded, whatever its status was.
\<close>

theorem indexer_records_window:
  assumes "tblInv (prediction_sets (committed m))" and "tblInv (chain_datas (committed m))"
    and "cycle c ix i m = (r, m')"
  shows "m' = m \<or> (\<exists>ps cd f t cd'. byId i (prediction_sets (committed m)) = Some ps
     \<and> populateByPredictionSetId i (committed m) = Some cd
     \<and> nextWindowIndexer (cd_lastProcessedBlock cd) (cd_parseBlockSize cd) (ix_head ix) = Some (f, t)
     \<and> cycle_committed c ix i (committed m) (committed m') ps cd f t
     \<and> byId (rowId cd) (chain_datas (committed m')) = Some cd' \<and> cd_lastProcessedBlock cd' = t
     \<and> openTx m' = openTx m)"
proof (cases rule: cycle_cases [of c ix i m])
  case (nothing r')
  then show ?thesis using assms(3) by simp
next
  case (committed_ ps cd f t w)
  let ?d = "committed m" and ?d' = "updateLastProcessedBlock (ctx_now c) (rowId cd) t w"
  have m': "committed m' = ?d'" "openTx m' = openTx m" using committed_(5) assms(3) by auto
  have ps: "byId i (prediction_sets ?d) = Some ps" "rowId ps = i"
    using committed_(1) assms(1) by (auto simp: populateById_byId split: if_splits option.splits dest: byId_SomeD)
  have cd: "byId (rowId cd) (chain_datas ?d) = Some cd"
    using committed_(2) assms(2) find_SomeD byId_distinct
    by (fastforce simp: populateByPredictionSetId_def split: if_splits)
  from committed_(4) obtain fs buys sells where E: "ix_funding ix f t = Inr fs" "ix_buys ix f t = Inr buys"
    "ix_sells ix f t = Inr sells"
    "fundKeys w = fundKeys ?d @ map (\<lambda>e. (rowId ps, fu_txHash e, fu_wallet e, fu_shares e)) fs"
    "tradeKeys w = tradeKeys ?d @ map (\<lambda>e. (rowId ps, te_type e, te_txHash e, te_wallet e,
        te_amount e, te_outcomeIndex e, te_outcomeTokens e)) (windowTrades buys sells)"
    "sameBase ?d w"
    "prediction_sets w = (if fs \<noteq> [] \<and> ix_isFunded ix = Inr True \<and> ps_setStatus ps \<noteq> PS_ACTIVE
       then prediction_sets (setStatusRow c (rowId ps) PS_ACTIVE ?d) else prediction_sets ?d)"
    by (rule indexWindow_effect)
  have keys: "fundKeys ?d' = fundKeys w" "tradeKeys ?d' = tradeKeys w"
      "prediction_sets ?d' = prediction_sets w"
    by (simp_all add: fundKeys_def tradeKeys_def updateLastProcessedBlock_def)
  have "\<exists>p. byId i (prediction_sets ?d') = Some p \<and> ps_setStatus p =
            (if fs \<noteq> [] \<and> ix_isFunded ix = Inr True then PS_ACTIVE else ps_setStatus ps)"
    using E(7) ps keys(3) by (auto simp: setStatusRow_def tbl_simps)
  then have "cycle_committed c ix i ?d ?d' ps cd f t"
    using E keys ps unfolding cycle_committed_def by auto
  moreover have "\<exists>cd'. byId (rowId cd) (chain_datas ?d') = Some cd' \<and> cd_lastProcessedBlock cd' = t"
    using cd E(6) by (simp add: updateLastProcessedBlock_def sameBase_def tbl_simps)
  ultimately show ?thesis using m' ps committed_(2,3) by auto
qed

section \<open>The cycles of one market\<close>

definition marketCursor :: "nat \<Rightarrow> db \<Rightarrow> int" where
  "marketCursor i d = (case populateByPredictionSetId i d of None \<Rightarrow> 0 | Some cd \<Rightarrow> cd_lastProcessedBlock cd)"

definition marketBlocks :: "nat \<Rightarrow> db \<Rightarrow> int" where
  "marketBlocks i d = (case populateByPredictionSetId i d of None \<Rightarrow> 0 | Some cd \<Rightarrow> cd_parseBlockSize cd)"

definition marketReady :: "nat \<Rightarrow> db \<Rightarrow> bool" where
  "marketReady i d \<longleftrightarrow> (case populateByPredictionSetId i d of None \<Rightarrow> False | Some cd \<Rightarrow> cd_contractAddress cd \<noteq> None)"

definition advanceMarket :: "ctx \<Rightarrow> nat \<Rightarrow> int \<Rightarrow> db \<Rightarrow> db" where
  "advanceMarket c i b d = (case populateByPredictionSetId i d of
      None \<Rightarrow> d | Some cd \<Rightarrow> updateLastProcessedBlock (ctx_now c) (rowId cd) b d)"

definition indexMarket :: "ctx \<Rightarrow> nat \<Rightarrow> index_chain \<Rightarrow> int \<Rightarrow> int \<Rightarrow> db \<Rightarrow> (cycle_error, db) res" where
  "indexMarket c i ix f t d =
     bindR (thrown (populateById i (prediction_sets d))) (\<lambda>r.
     bindR (requireR (CycleThrow (JsError ''prediction set does not exist'')) r) (\<lambda>ps. indexWindow c ix ps f t d))"

lemma populateByPredictionSetId_advance:
  "populateByPredictionSetId i (updateLastProcessedBlock now k b d) =
     map_option (\<lambda>r. if rowId r = k then r\<lparr>cd_lastProcessedBlock := b, rowId := k, updateTime := now\<rparr> else r)
       (populateByPredictionSetId i d)"
  by (simp add: populateByPredictionSetId_def updateLastProcessedBlock_def rawUpdate_def find_upd_where)

lemma populateByPredictionSetId_base:
  "sameBase d d' \<Longrightarrow> populateByPredictionSetId i d' = populateByPredictionSetId i d"
  by (simp add: populateByPredictionSetId_def sameBase_def)

lemma indexMarket_base: "indexMarket c i ix f t d = Inr d' \<Longrightarrow> sameBase d d'"
  by (auto simp: indexMarket_def res_simps elim: indexWindow_effect)

interpretation indexer: block_parser "marketCursor i" "marketBlocks i" "advanceMarket c i"
  nextWindowIndexer ix_head "indexMarket c i" "marketReady i" for i :: nat and c :: ctx
proof
  show "nextWindowIndexer l n h = Some w \<Longrightarrow> windowOk l n h w" for l n h w
    by (rule nextWindowIndexer_ok)
next
  fix d b
  assume "marketReady i d"
  then obtain cd where "populateByPredictionSetId i d = Some cd" "cd_contractAddress cd \<noteq> None"
    by (auto simp: marketReady_def split: option.splits)
  then show "marketCursor i (advanceMarket c i b d) = b"
    and "marketBlocks i (advanceMarket c i b d) = marketBlocks i d"
    and "marketReady i (advanceMarket c i b d)"
    by (simp_all add: advanceMarket_def marketCursor_def marketBlocks_def marketReady_def
        populateByPredictionSetId_advance)
next
  fix ix f t d d'
  assume "marketReady i d" and "indexMarket c i ix f t d = Inr d'"
  then show "marketReady i d' \<and> marketCursor i d' = marketCursor i d \<and> marketBlocks i d' = marketBlocks i d"
    using populateByPredictionSetId_base [OF indexMarket_base]
    by (simp add: marketReady_def marketCursor_def marketBlocks_def)
qed

lemma cycle_pass:
  assumes "marketReady i (committed m)"
  shows "committed (snd (cycle c ix i m)) = indexer.pass i c ix (committed m)"
proof -
  obtain cd addr where cd: "populateByPredictionSetId i (committed m) = Some cd"
    "cd_contractAddress cd = Some addr"
    using assms by (auto simp: marketReady_def split: option.splits)
  note D = cycle_def start_def rollback_def commit_def Let_def
  have win: "marketCursor i (committed m) = cd_lastProcessedBlock cd"
      "marketBlocks i (committed m) = cd_parseBlockSize cd"
    using cd by (simp_all add: marketCursor_def marketBlocks_def)
  show ?thesis
  proof (cases "nextWindowIndexer (cd_lastProcessedBlock cd) (cd_parseBlockSize cd) (ix_head ix)")
    case None
    then show ?thesis using cd win
      by (simp add: indexer.pass_def) (simp add: D split: sum.split option.split)
  next
    case (Some ft)
    obtain f t where ft: "ft = (f, t)" by (cases ft)
    show ?thesis
    proof (cases "populateById i (prediction_sets (committed m))")
      case (Inl e)
      then show ?thesis using cd win Some ft
        by (simp add: indexer.pass_def indexMarket_def) (simp add: D)
    next
      case (Inr r)
      show ?thesis
      proof (cases r)
        case None
        then show ?thesis using cd win Some ft Inr
          by (simp add: indexer.pass_def indexMarket_def requireR_def) (simp add: D)
      next
        case (Some ps)
        note ps = this
        show ?thesis
        proof (cases "indexWindow c ix ps f t (committed m)")
          case (Inl e)
          then show ?thesis using cd win \<open>nextWindowIndexer _ _ _ = Some ft\<close> ft Inr ps
            by (cases e; simp add: indexer.pass_def indexMarket_def requireR_def; simp add: D)
        next
          case w: (Inr w)
          then have "populateByPredictionSetId i w = Some cd"
            using cd populateByPredictionSetId_base by (metis indexWindow_effect)
          then show ?thesis using cd win \<open>nextWindowIndexer _ _ _ = Some ft\<close> ft Inr ps w
            by (simp add: indexer.pass_def indexMarket_def requireR_def advanceMarket_def) (simp add: D)
        qed
      qed
    qed
  qed
qed

lemma cycles_passes:
  "marketReady i (committed m) \<Longrightarrow>
   committed (fold (\<lambda>ix m. snd (cycle c ix i m)) ixs m) = indexer.passes i c ixs (committed m)"
  by (induction ixs arbitrary: m)
     (simp_all add: cycle_pass indexer.ready_pass indexer.passes.simps)

text \<open>
  C7: Over any series of cycles of a market's process, the committed windows cover
  the blocks from the cursor on without gap or overlap: the blocks read are exactly
  those the cursor passed over, in order, and no cycle passes the confirmed head.
\<close>

theorem indexer_blocks_once:
  assumes "marketReady i (committed m)"
  shows "concat (map (\<lambda>w. [fst w..snd w]) (indexer.windows i c ixs (committed m)))
      = [marketCursor i (committed m) + 1..
         marketCursor i (committed (fold (\<lambda>ix m. snd (cycle c ix i m)) ixs m))]
    \<and> marketCursor i (committed (snd (cycle c ix i m))) \<le> max (marketCursor i (committed m)) (ix_head ix)"
  using indexer.passes_blocks [of i "committed m" c ixs] indexer.cursor_pass(2) [of i "committed m" c ix]
    assms by (simp add: cycles_passes cycle_pass)

end
