(* ===== verification/Proposals.thy ===== *)
theory Proposals
  imports Rewards Js_String
begin

text \<open>
  Proposals and their voting rounds (\<open>modules/proposal/\<close>) and the worker that ends
  the rounds (\<open>workers/finalize-proposal-rounds.worker.ts\<close>).  Arrays of a model are
  stored in one column with the delimiter of
  \<open>decorators/constant-array.decorator.ts\<close>, by \<open>BaseSQLModel.serialize\<close>.
\<close>

section \<open>Arrays in a column\<close>

definition arrayDelimiter :: string where
  "arrayDelimiter = '';;;''"

text \<open>\<open>split(';;;')\<close>\<close>

function splitArray :: "string \<Rightarrow> string list" where
  "splitArray [] = [[]]"
| "splitArray (ch # s) =
     (if take 3 (ch # s) = arrayDelimiter then [] # splitArray (drop 2 s)
      else (case splitArray s of [] \<Rightarrow> [[ch]] | w # ws \<Rightarrow> (ch # w) # ws))"
  by pat_completeness auto

termination by (relation "measure length") auto

definition storeArray :: "string list \<Rightarrow> string option" where
  "storeArray xs = (let s = joinWith arrayDelimiter xs in if s = [] then None else Some s)"

text \<open>The setter of the property splits an array of one element, which is what a column gives.\<close>

definition arraySetter :: "string list \<Rightarrow> string list" where
  "arraySetter xs = (case xs of [s] \<Rightarrow> splitArray s | _ \<Rightarrow> xs)"

definition readArray :: "string option \<Rightarrow> string list option" where
  "readArray col = map_option (\<lambda>s. arraySetter [s]) col"

section \<open>Moderation\<close>

text \<open>\<open>lib/content-moderation.ts\<close>: a failing moderation service counts as safe.\<close>

definition isTextSafe :: "(string \<Rightarrow> (exn, bool) res) \<Rightarrow> string \<Rightarrow> bool" where
  "isTextSafe flagged content = (case flagged content of Inl e \<Rightarrow> True | Inr b \<Rightarrow> \<not> b)"

section \<open>Reads\<close>

text \<open>The body of a request, with the fields it has.\<close>

record proposal_data =
  pp_question :: "string option"
  pp_generalResolutionDef :: "string option"
  pp_outcomes :: "string list option"
  pp_tags :: "string list option"

definition getActiveRound :: "int \<Rightarrow> db \<Rightarrow> proposal_round option" where
  "getActiveRound now d = find (\<lambda>r. status r \<noteq> DELETED \<and> rd_roundStatus r = ROUND_ACTIVE
     \<and> rd_startTime r < now \<and> now < rd_endTime r) (rows (proposal_rounds d))"

definition getByUserIdAndProposalId :: "nat \<Rightarrow> nat \<Rightarrow> db \<Rightarrow> proposal_vote option" where
  "getByUserIdAndProposalId uId pId d = find (\<lambda>v. status v \<noteq> DELETED \<and> pv_user_id v = uId
     \<and> pv_proposal_id v = pId) (rows (proposal_votes d))"

definition getProposalVotesCount :: "nat \<Rightarrow> db \<Rightarrow> nat" where
  "getProposalVotesCount pId d =
     length (filter (\<lambda>v. status v \<noteq> DELETED \<and> pv_proposal_id v = pId) (rows (proposal_votes d)))"

definition proposalMissing :: exn where
  "proposalMissing = CodeException 404 PREDICTION_SET_PROPOSAL_DOES_NOT_EXISTS"

definition sqlError :: exn where
  "sqlError = CodeException 500 SQL_SYSTEM_ERROR"

text \<open>A live row, or the 404 of the component.\<close>

definition requireRow :: "exn \<Rightarrow> nat \<Rightarrow> 'r row_scheme tbl \<Rightarrow> (exn, 'r row_scheme) res" where
  "requireRow e i t = bindR (populateById i t) (requireR e)"

text \<open>\<open>context.user.id\<close> on a request without a user.\<close>

definition contextUser :: "ctx \<Rightarrow> (exn, nat) res" where
  "contextUser c = requireR (JsError ''TypeError'') (ctx_user c)"

definition getProposalById :: "nat \<Rightarrow> db \<Rightarrow> (exn, proposal) res" where
  "getProposalById i d = requireRow proposalMissing i (proposals d)"

definition getProposalRoundById :: "nat \<Rightarrow> db \<Rightarrow> (exn, proposal_round) res" where
  "getProposalRoundById i d =
     requireRow (CodeException 404 PREDICTION_SET_PROPOSAL_ROUND_DOES_NOT_EXISTS) i (proposal_rounds d)"

section \<open>Creating and changing proposals\<close>

definition populateProposal :: "proposal_data \<Rightarrow> proposal \<Rightarrow> proposal" where
  "populateProposal b p = p\<lparr>
     pr_question := (case pp_question b of None \<Rightarrow> pr_question p | Some s \<Rightarrow> s),
     pr_generalResolutionDef := (case pp_generalResolutionDef b of None \<Rightarrow> pr_generalResolutionDef p | Some s \<Rightarrow> s),
     pr_outcomes := (case pp_outcomes b of None \<Rightarrow> pr_outcomes p | Some xs \<Rightarrow> storeArray (arraySetter xs)),
     pr_tags := (case pp_tags b of None \<Rightarrow> pr_tags p | Some xs \<Rightarrow> storeArray (arraySetter xs))\<rparr>"

text \<open>The arrays the model holds after the body was populated into it.\<close>

definition modelOutcomes :: "proposal_data \<Rightarrow> proposal \<Rightarrow> string list option" where
  "modelOutcomes b p = (case pp_outcomes b of None \<Rightarrow> readArray (pr_outcomes p) | Some xs \<Rightarrow> Some (arraySetter xs))"

definition modelTags :: "proposal_data \<Rightarrow> proposal \<Rightarrow> string list option" where
  "modelTags b p = (case pp_tags b of None \<Rightarrow> readArray (pr_tags p) | Some xs \<Rightarrow> Some (arraySetter xs))"

definition textToCheck :: "proposal_data \<Rightarrow> proposal \<Rightarrow> string" where
  "textToCheck b p = (let p' = populateProposal b p in
     joinWith [CHR 0x0A] ([pr_question p', pr_generalResolutionDef p']
     @ (case modelOutcomes b p of None \<Rightarrow> [] | Some xs \<Rightarrow> xs)
     @ (case modelTags b p of None \<Rightarrow> [] | Some xs \<Rightarrow> xs)))"

definition emptyProposal :: proposal where
  "emptyProposal =
     \<lparr>rowId = 0, status = ACTIVE, createTime = 0, updateTime = 0, createUser = None, updateUser = None,
      pr_round_id = 0, pr_user_id = 0, pr_question = [], pr_generalResolutionDef = [],
      pr_outcomes = None, pr_tags = None\<rparr>"

definition newProposal :: "nat \<Rightarrow> nat \<Rightarrow> proposal_data \<Rightarrow> proposal" where
  "newProposal roundId uId b = (populateProposal b emptyProposal)\<lparr>pr_round_id := roundId, pr_user_id := uId\<rparr>"

definition createProposalTx ::
  "ctx \<Rightarrow> (string \<Rightarrow> (exn, bool) res) \<Rightarrow> proposal_data \<Rightarrow> db \<Rightarrow> (exn, db \<times> nat) res" where
  "createProposalTx c flagged b d =
    bindR (requireR (CodeException 404 PREDICTION_SET_PROPOSAL_ACTIVE_ROUND_DOES_NOT_EXISTS)
             (getActiveRound (ctx_now c) d)) (\<lambda>rd.
    bindR (guardR (isTextSafe flagged (textToCheck b emptyProposal))
             (CodeException 400 TEXT_CONTENT_NOT_SAFE)) (\<lambda>u.
    bindR (contextUser c) (\<lambda>uId.
    bindR (rethrowR sqlError (insertRow c noClash (newProposal (rowId rd) uId b) (proposals d)))
      (\<lambda>(i, t). Inr (d\<lparr>proposals := t\<rparr>, i)))))"

text \<open>The reads commit nothing, so the operation is one transaction around its insert.\<close>

definition createProposal ::
  "ctx \<Rightarrow> (string \<Rightarrow> (exn, bool) res) \<Rightarrow> proposal_data \<Rightarrow> db mysql \<Rightarrow> (exn, nat) res \<times> db mysql" where
  "createProposal c flagged b m = withTx (createProposalTx c flagged b) m"

definition validateProposal :: "proposal_data \<Rightarrow> proposal \<Rightarrow> ValidatorErrorCode list" where
  "validateProposal b p = (let p' = populateProposal b p in
     (if pr_question p' = [] then [PROPOSAL_QUESTION_NOT_PRESENT] else [])
   @ (if pr_generalResolutionDef p' = [] then [PROPOSAL_GENERAL_RESOLUTION_NOT_PRESENT] else [])
   @ (if 2 \<le> (case modelOutcomes b p of None \<Rightarrow> 0 | Some xs \<Rightarrow> length xs)
      then [] else [PROPOSAL_OUTCOME_RESOLUTION_NOT_PRESENT]))"

definition setProposal :: "ctx \<Rightarrow> nat \<Rightarrow> (proposal \<Rightarrow> proposal) \<Rightarrow> db \<Rightarrow> db" where
  "setProposal c i f d = d\<lparr>proposals := updateRow c i f (proposals d)\<rparr>"

definition updateProposalTx ::
  "ctx \<Rightarrow> (string \<Rightarrow> (exn, bool) res) \<Rightarrow> nat \<Rightarrow> proposal_data \<Rightarrow> db \<Rightarrow> (exn, db \<times> proposal) res" where
  "updateProposalTx c flagged i b d =
    bindR (getProposalById i d) (\<lambda>p.
    bindR (contextUser c) (\<lambda>uId.
    bindR (guardR (pr_user_id p = uId) (CodeException 403 OWNERSHIP_MISMATCH)) (\<lambda>u.
    bindR (guardR (getProposalVotesCount i d = 0) (CodeException 404 PROPOSAL_CANNOT_BE_UPDATED)) (\<lambda>u.
    bindR (guardR (isTextSafe flagged (textToCheck b p)) (CodeException 400 TEXT_CONTENT_NOT_SAFE)) (\<lambda>u.
    bindR (guardR (validateProposal b p = []) (ModelValidationException (validateProposal b p))) (\<lambda>u.
      Inr (setProposal c i (populateProposal b) d, populateProposal b p)))))))"

definition updateProposal ::
  "ctx \<Rightarrow> (string \<Rightarrow> (exn, bool) res) \<Rightarrow> nat \<Rightarrow> proposal_data \<Rightarrow> db mysql \<Rightarrow> (exn, proposal) res \<times> db mysql" where
  "updateProposal c flagged i b m = withTx (updateProposalTx c flagged i b) m"

definition deleteProposalTx :: "ctx \<Rightarrow> nat \<Rightarrow> db \<Rightarrow> (exn, db \<times> proposal) res" where
  "deleteProposalTx c i d =
    bindR (getProposalById i d) (\<lambda>p.
    bindR (contextUser c) (\<lambda>uId.
    bindR (guardR (pr_user_id p = uId) (CodeException 403 OWNERSHIP_MISMATCH)) (\<lambda>u.
      Inr (d\<lparr>proposals := markDeleted c i (proposals d)\<rparr>, p\<lparr>status := DELETED\<rparr>))))"

definition deleteProposal :: "ctx \<Rightarrow> nat \<Rightarrow> db mysql \<Rightarrow> (exn, proposal) res \<times> db mysql" where
  "deleteProposal c i m = withTx (deleteProposalTx c i) m"

section \<open>Voting\<close>

definition newVote :: "nat \<Rightarrow> nat \<Rightarrow> ProposalVoteType \<Rightarrow> proposal_vote" where
  "newVote pId uId vt =
     \<lparr>rowId = 0, status = ACTIVE, createTime = 0, updateTime = 0, createUser = None, updateUser = None,
      pv_proposal_id = pId, pv_user_id = uId, pv_voteType = vt\<rparr>"

text \<open>The checks before a vote, which answer the proposal and the voter.\<close>

definition checkVote :: "ctx \<Rightarrow> nat \<Rightarrow> db \<Rightarrow> (exn, proposal \<times> nat) res" where
  "checkVote c pId d =
    bindR (getProposalById pId d) (\<lambda>p.
    bindR (requireRow (CodeException 404 PREDICTION_SET_PROPOSAL_ACTIVE_ROUND_DOES_NOT_EXISTS)
             (pr_round_id p) (proposal_rounds d)) (\<lambda>rd.
    bindR (guardR (rd_roundStatus rd = ROUND_ACTIVE) (CodeException 400 PROPOSAL_ROUND_NOT_ACTIVE)) (\<lambda>u.
    bindR (contextUser c) (\<lambda>uId.
    bindR (guardR (uId \<noteq> pr_user_id p) (CodeException 400 PROPOSAL_AUTHOR_CANNOT_VOTE)) (\<lambda>u.
      Inr (p, uId))))))"

text \<open>What a vote becomes when the user has one: the same again withdraws it.\<close>

definition revote :: "ProposalVoteType \<Rightarrow> ProposalVoteType \<Rightarrow> ProposalVoteType" where
  "revote old new = (if old = new then NEUTRALIZED else new)"

definition voteOnProposal ::
  "ctx \<Rightarrow> nat \<Rightarrow> ProposalVoteType \<Rightarrow> db mysql \<Rightarrow> (exn, ProposalVoteType) res \<times> db mysql" where
  "voteOnProposal c pId vt m = (let d = committed m in
    case checkVote c pId d of
      Inl e \<Rightarrow> (Inl e, m)
    | Inr (p, uId) \<Rightarrow>
       (case getByUserIdAndProposalId uId pId d of
          Some v \<Rightarrow> (Inr (revote (pv_voteType v) vt),
             single (\<lambda>d. d\<lparr>proposal_votes := updateRow c (rowId v)
               (\<lambda>r. r\<lparr>pv_voteType := revote (pv_voteType v) vt\<rparr>) (proposal_votes d)\<rparr>) m)
        | None \<Rightarrow>
           (case withTx (\<lambda>d. bindR (rethrowR sqlError
                   (insertRow c proposalVoteClash (newVote pId uId vt) (proposal_votes d)))
                   (\<lambda>(i, t). Inr (d\<lparr>proposal_votes := t\<rparr>, ()))) m of
              (Inl e, m1) \<Rightarrow> (Inl e, m1)
            | (Inr u, m1) \<Rightarrow> (Inr vt, snd (withTx (\<lambda>d. bindR (awardPoints c uId PROPOSAL_VOTE 1 d)
                   (\<lambda>d'. Inr (d', ()))) m1)))))"

section \<open>Ending a round\<close>

definition roundProposals :: "nat \<Rightarrow> db \<Rightarrow> proposal list" where
  "roundProposals rId d = filter (\<lambda>p. pr_round_id p = rId \<and> status p \<noteq> DELETED) (rows (proposals d))"

definition totalVotes :: "nat \<Rightarrow> db \<Rightarrow> int" where
  "totalVotes pId d = (\<Sum>v\<leftarrow>filter (\<lambda>v. pv_proposal_id v = pId) (rows (proposal_votes d)).
     proposalVoteTypeNo (pv_voteType v))"

text \<open>
  \<open>ORDER BY totalVotes DESC LIMIT 1\<close>: any of the proposals with the most votes; \<open>tie\<close>
  is the one the server happens to take.
\<close>

definition winningProposal :: "nat \<Rightarrow> nat \<Rightarrow> db \<Rightarrow> proposal option" where
  "winningProposal tie rId d = (let ps = roundProposals rId d;
       best = filter (\<lambda>p. list_all (\<lambda>q. totalVotes (rowId q) d \<le> totalVotes (rowId p) d) ps) ps
     in if best = [] then None else Some (best ! (tie mod length best)))"

definition newRound :: "int \<Rightarrow> int \<Rightarrow> int \<Rightarrow> proposal_round" where
  "newRound points startTime endTime =
     \<lparr>rowId = 0, status = ACTIVE, createTime = 0, updateTime = 0, createUser = None, updateUser = None,
      rd_rewardPoints = points, rd_startTime = startTime, rd_endTime = endTime,
      rd_roundStatus = ROUND_ACTIVE, rd_winner_id = None\<rparr>"

definition finishRound :: "proposal option \<Rightarrow> proposal_round \<Rightarrow> proposal_round" where
  "finishRound winner r = r\<lparr>rd_roundStatus := ROUND_FINISHED,
     rd_winner_id := (case winner of None \<Rightarrow> rd_winner_id r | Some p \<Rightarrow> Some (rowId p))\<rparr>"

text \<open>\<open>rewardPoints?.value || proposalRound.rewardPoints\<close>\<close>

definition nextRewardPoints :: "proposal_round \<Rightarrow> db \<Rightarrow> int" where
  "nextRewardPoints rd d = (case populateByType PROPOSAL_WINNER d of
      None \<Rightarrow> rd_rewardPoints rd
    | Some rp \<Rightarrow> if rp_value rp \<noteq> 0 then rp_value rp else rd_rewardPoints rd)"

definition finalizeRoundTx :: "ctx \<Rightarrow> int \<Rightarrow> nat \<Rightarrow> proposal_round \<Rightarrow> db \<Rightarrow> (exn, db \<times> unit) res" where
  "finalizeRoundTx c offset tie rd d =
    (let winner = winningProposal tie (rowId rd) d in
    bindR (case winner of
        None \<Rightarrow> Inr d
      | Some p \<Rightarrow> awardPoints c (pr_user_id p) PROPOSAL_WINNER 1 d) (\<lambda>d1.
    let d2 = d1\<lparr>proposal_rounds := updateRow c (rowId rd) (finishRound winner) (proposal_rounds d1)\<rparr> in
    bindR (insertRow c noClash (newRound (nextRewardPoints rd d2) (ctx_now c) (ctx_now c + offset))
             (proposal_rounds d2)) (\<lambda>(i, t).
      Inr (d2\<lparr>proposal_rounds := t\<rparr>, ()))))"

definition roundsDue :: "int \<Rightarrow> db \<Rightarrow> proposal_round list" where
  "roundsDue now d = filter (\<lambda>r. rd_endTime r \<le> now \<and> status r = ACTIVE
     \<and> rd_roundStatus r = ROUND_ACTIVE) (rows (proposal_rounds d))"

definition finalizeProposalRounds :: "ctx \<Rightarrow> int \<Rightarrow> nat \<Rightarrow> db mysql \<Rightarrow> db mysql" where
  "finalizeProposalRounds c offset tie m =
     fold (\<lambda>rd m. snd (withTx (finalizeRoundTx c offset tie rd) m)) (roundsDue (ctx_now c) (committed m)) m"

section \<open>The array column\<close>

lemma splitArray_word:
  assumes "CHR '';'' \<notin> set w"
  shows "splitArray (w @ arrayDelimiter @ s) = w # splitArray s" and "splitArray w = [w]"
proof -
  have "splitArray (w @ arrayDelimiter @ s) = w # splitArray s \<and> splitArray w = [w]"
    using assms
  proof (induction w)
    case Nil
    then show ?case by (simp add: arrayDelimiter_def)
  next
    case (Cons ch w)
    then show ?case by (auto simp: arrayDelimiter_def)
  qed
  then show "splitArray (w @ arrayDelimiter @ s) = w # splitArray s" and "splitArray w = [w]" by auto
qed

text \<open>
  Arrays survive storage: an array of at least one element whose text does not
  contain a semicolon and is not all empty is read back from its column as it was
  stored, and storing what was read writes the same column.
\<close>

theorem array_column_roundtrip:
  assumes "xs \<noteq> []" and "\<forall>x \<in> set xs. CHR '';'' \<notin> set x" and "joinWith arrayDelimiter xs \<noteq> []"
  shows "readArray (storeArray xs) = Some xs
    \<and> map_option storeArray (readArray (storeArray xs)) = Some (storeArray xs)"
proof -
  have "splitArray (joinWith arrayDelimiter ys) = ys"
    if "ys \<noteq> []" "\<forall>x \<in> set ys. CHR '';'' \<notin> set x" for ys
    using that by (induction ys rule: induct_list012) (simp_all add: splitArray_word)
  then show ?thesis using assms by (simp add: readArray_def storeArray_def arraySetter_def Let_def)
qed

section \<open>What a vote does\<close>

lemma requireRow_Inr: "requireRow e i t = Inr r \<longleftrightarrow> populateById i t = Inr (Some r)"
  by (auto simp: requireRow_def res_simps)

lemma checkVote_Inr:
  assumes "checkVote c pId d = Inr (p, uId)"
  shows "populateById pId (proposals d) = Inr (Some p)" and "ctx_user c = Some uId" and "uId \<noteq> pr_user_id p"
    and "\<exists>rd. populateById (pr_round_id p) (proposal_rounds d) = Inr (Some rd) \<and> rd_roundStatus rd = ROUND_ACTIVE"
  using assms
  by (auto simp: checkVote_def res_simps getProposalById_def requireRow_Inr contextUser_def)

lemma checkVote_cong:
  assumes "proposals d' = proposals d" and "proposal_rounds d' = proposal_rounds d"
  shows "checkVote c pId d' = checkVote c pId d"
  using assms by (simp add: checkVote_def getProposalById_def)

lemma award_committed:
  "\<exists>t. snd (withTx (\<lambda>d. bindR (awardPoints c u ty k d) (\<lambda>d'. Inr (d', ()))) m)
     = m\<lparr>committed := (committed m)\<lparr>reward_transactions := t\<rparr>\<rparr>"
proof (cases rule: withTx_cases [of "\<lambda>d. bindR (awardPoints c u ty k d) (\<lambda>d'. Inr (d', ()))" m])
  case failed
  then show ?thesis by (auto intro: exI [of _ "reward_transactions (committed m)"])
next
  case (published w a)
  then obtain t where "w = (committed m)\<lparr>reward_transactions := t\<rparr>"
    by (auto simp: res_simps dest: awardPoints_frame)
  then show ?thesis using published by auto
qed

text \<open>The three ends of a vote.\<close>

lemma voteOnProposal_cases:
  obtains (refused) e where "voteOnProposal c pId vt m = (Inl e, m)"
  | (again) p uId v where "checkVote c pId (committed m) = Inr (p, uId)"
      "getByUserIdAndProposalId uId pId (committed m) = Some v"
      "voteOnProposal c pId vt m = (Inr (revote (pv_voteType v) vt),
         m\<lparr>committed := (committed m)\<lparr>proposal_votes := updateRow c (rowId v)
            (\<lambda>r. r\<lparr>pv_voteType := revote (pv_voteType v) vt\<rparr>) (proposal_votes (committed m))\<rparr>\<rparr>)"
  | (first) p uId i t m1 where "checkVote c pId (committed m) = Inr (p, uId)"
      "getByUserIdAndProposalId uId pId (committed m) = None"
      "insertRow c proposalVoteClash (newVote pId uId vt) (proposal_votes (committed m)) = Inr (i, t)"
      "m1 = m\<lparr>committed := (committed m)\<lparr>proposal_votes := t\<rparr>\<rparr>"
      "voteOnProposal c pId vt m = (Inr vt,
         snd (withTx (\<lambda>d. bindR (awardPoints c uId PROPOSAL_VOTE 1 d) (\<lambda>d'. Inr (d', ()))) m1))"
proof (cases "checkVote c pId (committed m)")
  case (Inl e)
  then have "voteOnProposal c pId vt m = (Inl e, m)" by (simp add: voteOnProposal_def Let_def)
  then show thesis by (rule refused)
next
  case (Inr x)
  obtain p uId where x: "checkVote c pId (committed m) = Inr (p, uId)" using Inr by (cases x) auto
  show thesis
  proof (cases "getByUserIdAndProposalId uId pId (committed m)")
    case (Some v)
    show thesis
      by (rule again [OF x Some]) (simp add: voteOnProposal_def Let_def x Some single_def withTx_def
          start_def commit_def)
  next
    case None
    show thesis
    proof (cases "insertRow c proposalVoteClash (newVote pId uId vt) (proposal_votes (committed m))")
      case (Inl e)
      then have "voteOnProposal c pId vt m = (Inl sqlError, m)"
        by (simp add: voteOnProposal_def Let_def x None withTx_def start_def rollback_def rethrowR_def)
      then show thesis by (rule refused)
    next
      case (Inr it)
      obtain i t where it: "it = (i, t)" by (cases it)
      show thesis
        by (rule first [OF x None Inr [unfolded it] refl])
           (simp add: voteOnProposal_def Let_def x None Inr it withTx_Inr rethrowR_def)
    qed
  qed
qed

text \<open>The votes after one of them was rewritten.\<close>

lemma vote_rewritten:
  assumes "tblInv (proposal_votes d)" and "getByUserIdAndProposalId uId pId d = Some v"
    and "d' = d\<lparr>proposal_votes := updateRow c (rowId v) (\<lambda>r. r\<lparr>pv_voteType := x\<rparr>) (proposal_votes d)\<rparr>"
  shows "getByUserIdAndProposalId u q d' = (if u = uId \<and> q = pId
     then Some (v\<lparr>pv_voteType := x, rowId := rowId v, updateUser := ctx_user c, updateTime := ctx_now c\<rparr>)
     else getByUserIdAndProposalId u q d)"
proof -
  have of_row: "w \<in> set (rows (proposal_votes d)) \<and> pv_user_id w = u \<and> pv_proposal_id w = q"
    if "getByUserIdAndProposalId u q d = Some w" for u q w
    using that find_SomeD by (fastforce simp: getByUserIdAndProposalId_def)
  have g: "getByUserIdAndProposalId u q d' = map_option (\<lambda>r. if rowId r = rowId v
      then r\<lparr>pv_voteType := x, rowId := rowId v, updateUser := ctx_user c, updateTime := ctx_now c\<rparr> else r)
      (getByUserIdAndProposalId u q d)"
    unfolding getByUserIdAndProposalId_def assms(3) updateRow_def by (simp add: find_upd_where)
  have "w = v" if "getByUserIdAndProposalId u q d = Some w" "rowId w = rowId v" for w
    using that of_row [OF assms(2)] of_row [OF that(1)] assms(1)
    by (auto simp: tblInv_def distinct_map dest: inj_onD)
  note unique = this
  show ?thesis
  proof (cases "getByUserIdAndProposalId u q d")
    case None
    moreover from this have "\<not> (u = uId \<and> q = pId)" using assms(2) by auto
    ultimately show ?thesis using g by simp
  next
    case (Some w)
    have keys: "pv_user_id w = u" "pv_proposal_id w = q" "pv_user_id v = uId" "pv_proposal_id v = pId"
      using of_row [OF Some] of_row [OF assms(2)] by simp_all
    show ?thesis
    proof (cases "rowId w = rowId v")
      case True
      then have "w = v" by (rule unique [OF Some])
      then show ?thesis using g Some keys by simp
    next
      case False
      then have "\<not> (u = uId \<and> q = pId)" using Some assms(2) by auto
      then show ?thesis using g Some False by (simp only: if_False option.map)
    qed
  qed
qed

text \<open>The points after the award of a vote, in a transaction of its own whose failure is not seen.\<close>

lemma vote_award_points:
  assumes "tblInv (reward_transactions (committed m))"
    and "m' = snd (withTx (\<lambda>d. bindR (awardPoints c uId PROPOSAL_VOTE 1 d) (\<lambda>d'. Inr (d', ()))) m)"
  shows "pointsOf uId (committed m') = pointsOf uId (committed m) + rewardValue PROPOSAL_VOTE (committed m)"
proof (cases "awardPoints c uId PROPOSAL_VOTE 1 (committed m)")
  case (Inl e)
  then have "populateByType PROPOSAL_VOTE (committed m) = None"
    using awardPoints_total [OF assms(1), of PROPOSAL_VOTE _ c uId 1]
    by (cases "populateByType PROPOSAL_VOTE (committed m)") auto
  then show ?thesis using assms(2) Inl by (simp add: withTx_Inl rewardValue_def)
next
  case (Inr d')
  then show ?thesis using assms(2) ledger.balance_credit [OF Inr, of uId] by (simp add: withTx_Inr)
qed

text \<open>
  C9: One live vote per user and proposal: a vote that is accepted comes from a
  signed-in user other than the author, in an active round; afterwards the user's
  vote is the answered one, which is the new type, or NEUTRALIZED when the same type
  was there before; no other user's vote and no vote on another proposal changes;
  and points are given for the user's first vote on the proposal only.
\<close>

theorem vote_effect:
  assumes "dbInv (committed m)" and "voteOnProposal c pId vt m = (Inr r, m')"
  shows "\<exists>uId p rd. ctx_user c = Some uId \<and> populateById pId (proposals (committed m)) = Inr (Some p)
    \<and> uId \<noteq> pr_user_id p
    \<and> populateById (pr_round_id p) (proposal_rounds (committed m)) = Inr (Some rd) \<and> rd_roundStatus rd = ROUND_ACTIVE
    \<and> map_option pv_voteType (getByUserIdAndProposalId uId pId (committed m')) = Some r
    \<and> (case getByUserIdAndProposalId uId pId (committed m) of
         None \<Rightarrow> r = vt \<and> pointsOf uId (committed m') = pointsOf uId (committed m) + rewardValue PROPOSAL_VOTE (committed m)
       | Some v \<Rightarrow> r = (if pv_voteType v = vt then NEUTRALIZED else vt)
                 \<and> pointsOf uId (committed m') = pointsOf uId (committed m))
    \<and> (\<forall>u q. u \<noteq> uId \<or> q \<noteq> pId \<longrightarrow>
         getByUserIdAndProposalId u q (committed m') = getByUserIdAndProposalId u q (committed m))"
proof (cases rule: voteOnProposal_cases [of c pId vt m])
  case (refused e)
  then show ?thesis using assms(2) by simp
next
  case (again p uId v)
  have m': "committed m' = (committed m)\<lparr>proposal_votes := updateRow c (rowId v)
            (\<lambda>r. r\<lparr>pv_voteType := revote (pv_voteType v) vt\<rparr>) (proposal_votes (committed m))\<rparr>"
    and r: "r = revote (pv_voteType v) vt" using again assms(2) by auto
  have "tblInv (proposal_votes (committed m))" using assms(1) by (simp add: dbInv_def)
  note g = vote_rewritten [OF this again(2) m']
  have "pointsOf uId (committed m') = pointsOf uId (committed m)"
    by (simp add: m' pointsOf_def getUserPoints_def userRows_def)
  then show ?thesis
    using checkVote_Inr [OF again(1)] again(2) by (auto simp: g r revote_def)
next
  case (first p uId i t m1)
  let ?d1 = "(committed m)\<lparr>proposal_votes := t\<rparr>"
  have m1: "committed m1 = ?d1" using first(4) by simp
  have m': "m' = snd (withTx (\<lambda>d. bindR (awardPoints c uId PROPOSAL_VOTE 1 d) (\<lambda>d'. Inr (d', ()))) m1)"
    and r: "r = vt" using first(5) assms(2) by auto
  obtain rt where rt: "committed m' = ?d1\<lparr>reward_transactions := rt\<rparr>"
    using award_committed [of c uId PROPOSAL_VOTE 1 m1] m' m1 by auto
  have g: "getByUserIdAndProposalId u q (committed m') = (case getByUserIdAndProposalId u q (committed m) of
      Some w \<Rightarrow> Some w
    | None \<Rightarrow> if u = uId \<and> q = pId then Some ((newVote pId uId vt)\<lparr>rowId := i, createUser := ctx_user c,
        updateUser := ctx_user c, createTime := ctx_now c, updateTime := ctx_now c\<rparr>) else None)" for u q
    using insertRow_Inr(1) [OF first(3)]
    by (auto simp: getByUserIdAndProposalId_def rt find_append newVote_def split: option.split)
  have "pointsOf uId (committed m') = pointsOf uId (committed m) + rewardValue PROPOSAL_VOTE (committed m)"
    using vote_award_points [OF _ m'] assms(1)
    by (simp add: m1 dbInv_def pointsOf_def getUserPoints_def userRows_def rewardValue_def populateByType_def)
  then show ?thesis
    using checkVote_Inr [OF first(1)] g [of uId pId] first(2) g r
    by (auto simp: newVote_def split: option.split)
qed

section \<open>Rounds\<close>

definition activeRounds :: "proposal_round list \<Rightarrow> nat" where
  "activeRounds rs = length (filter (\<lambda>r. status r = ACTIVE \<and> rd_roundStatus r = ROUND_ACTIVE) rs)"

text \<open>What the end of a round leaves in its row.\<close>

definition roundOutcome :: "db \<Rightarrow> proposal_round \<Rightarrow> proposal_round \<Rightarrow> bool" where
  "roundOutcome d rd rd' \<longleftrightarrow> rd' = rd \<or> rd_roundStatus rd' = ROUND_FINISHED \<and>
     (if roundProposals (rowId rd) d = [] then rd_winner_id rd' = rd_winner_id rd
      else \<exists>p \<in> set (roundProposals (rowId rd) d). rd_winner_id rd' = Some (rowId p)
        \<and> (\<forall>q \<in> set (roundProposals (rowId rd) d). totalVotes (rowId q) d \<le> totalVotes (rowId p) d))"

lemma winningProposal_max:
  "winningProposal tie rId d = None \<longleftrightarrow> roundProposals rId d = []"
  "winningProposal tie rId d = Some p \<Longrightarrow> p \<in> set (roundProposals rId d)
     \<and> (\<forall>q \<in> set (roundProposals rId d). totalVotes (rowId q) d \<le> totalVotes (rowId p) d)"
proof -
  let ?ps = "roundProposals rId d"
  let ?best = "filter (\<lambda>p. list_all (\<lambda>q. totalVotes (rowId q) d \<le> totalVotes (rowId p) d) ?ps) ?ps"
  have "?best \<noteq> []" if "?ps \<noteq> []"
  proof -
    let ?v = "\<lambda>p. totalVotes (rowId p) d"
    have "Max (?v ` set ?ps) \<in> ?v ` set ?ps" using that by (intro Max_in) auto
    then obtain p where p: "p \<in> set ?ps" "?v p = Max (?v ` set ?ps)" by auto
    then have "\<forall>q \<in> set ?ps. ?v q \<le> ?v p" by simp
    then have "p \<in> set ?best" using p(1) by (simp add: list_all_iff)
    then show ?thesis by (metis empty_iff empty_set)
  qed
  then show "winningProposal tie rId d = None \<longleftrightarrow> ?ps = []"
    by (auto simp: winningProposal_def Let_def)
  assume "winningProposal tie rId d = Some p"
  then have ne: "?best \<noteq> []" and p: "p = ?best ! (tie mod length ?best)"
    by (auto simp: winningProposal_def Let_def split: if_splits)
  have "p \<in> set ?best" unfolding p using ne by (intro nth_mem) simp
  then show "p \<in> set ?ps \<and> (\<forall>q \<in> set ?ps. totalVotes (rowId q) d \<le> totalVotes (rowId p) d)"
    by (simp add: list_all_iff)
qed

lemma count_finished:
  assumes "distinct (map rowId rs)" and "r \<in> set rs" and "rowId r = i"
    and "status r = ACTIVE \<and> rd_roundStatus r = ROUND_ACTIVE" and "\<And>x. rd_roundStatus (f x) = ROUND_FINISHED"
  shows "Suc (activeRounds (upd_where (\<lambda>r. rowId r = i) f rs)) = activeRounds rs"
  using assms(1-4)
proof (induction rs)
  case (Cons x rs)
  show ?case
  proof (cases "rowId x = i")
    case True
    then have "\<forall>s \<in> set rs. rowId s \<noteq> i" using Cons.prems(1) by (auto simp: image_iff)
    then have "upd_where (\<lambda>r. rowId r = i) f rs = rs" by (intro upd_where_none) simp
    moreover have "x = r" using Cons.prems True by (auto simp: image_iff)
    ultimately show ?thesis using True Cons.prems(4) assms(5) by (simp add: activeRounds_def upd_where_def)
  next
    case False
    then have "Suc (activeRounds (upd_where (\<lambda>r. rowId r = i) f rs)) = activeRounds rs"
      using Cons by auto
    then show ?thesis using False by (simp add: activeRounds_def upd_where_def)
  qed
qed simp

text \<open>One round: the row is finished, a new one is active, nothing else of the component changes.\<close>

lemma finalizeRoundTx_effect:
  assumes "finalizeRoundTx c offset tie rd d = Inr (d', u)" and "tblInv (proposal_rounds d)"
    and "byId (rowId rd) (proposal_rounds d) = Some rd" and "status rd = ACTIVE \<and> rd_roundStatus rd = ROUND_ACTIVE"
  shows "proposals d' = proposals d \<and> proposal_votes d' = proposal_votes d \<and> tblInv (proposal_rounds d')
    \<and> activeRounds (rows (proposal_rounds d')) = activeRounds (rows (proposal_rounds d))
    \<and> (\<exists>rd'. byId (rowId rd) (proposal_rounds d') = Some rd' \<and> roundOutcome d rd rd')
    \<and> (\<forall>j r. j \<noteq> rowId rd \<longrightarrow> byId j (proposal_rounds d) = Some r \<longrightarrow> byId j (proposal_rounds d') = Some r)"
proof -
  let ?w = "winningProposal tie (rowId rd) d"
  let ?t1 = "updateRow c (rowId rd) (finishRound ?w) (proposal_rounds d)"
  obtain d1 i t where aw: "(case ?w of None \<Rightarrow> Inr d | Some p \<Rightarrow> awardPoints c (pr_user_id p) PROPOSAL_WINNER 1 d) = Inr d1"
    and ins: "insertRow c noClash (newRound (nextRewardPoints rd (d1\<lparr>proposal_rounds :=
          updateRow c (rowId rd) (finishRound ?w) (proposal_rounds d1)\<rparr>)) (ctx_now c) (ctx_now c + offset))
        (updateRow c (rowId rd) (finishRound ?w) (proposal_rounds d1)) = Inr (i, t)"
    and d': "d' = (d1\<lparr>proposal_rounds := updateRow c (rowId rd) (finishRound ?w) (proposal_rounds d1)\<rparr>)\<lparr>proposal_rounds := t\<rparr>"
    using assms(1) unfolding finalizeRoundTx_def Let_def by (auto simp: res_simps)
  have keep: "proposals d1 = proposals d \<and> proposal_votes d1 = proposal_votes d \<and> proposal_rounds d1 = proposal_rounds d"
    using aw awardPoints_frame by (fastforce split: option.splits)
  have inv1: "tblInv ?t1" using assms(2) by (simp add: tbl_simps)
  have t: "tblInv t" "byId j t = (if j = i then byId i t else byId j ?t1)" "byId i ?t1 = None" for j
    using ins keep tblInv_insertRow [OF inv1] byId_insertRow [of c noClash _ ?t1 i t]
      sql.fresh_put [of c noClash _ ?t1 i t] by auto
  have mem: "rd \<in> set (rows (proposal_rounds d))" using assms(3) byId_SomeD by blast
  have "Suc (activeRounds (rows ?t1)) = activeRounds (rows (proposal_rounds d))"
    unfolding updateRow_def using assms(2,4) mem
    by (simp, intro count_finished [of _ rd]) (auto simp: tblInv_def finishRound_def)
  moreover have "activeRounds (rows t) = Suc (activeRounds (rows ?t1))"
    using insertRow_Inr(1) [OF ins] keep by (simp add: activeRounds_def newRound_def)
  ultimately have cnt: "activeRounds (rows t) = activeRounds (rows (proposal_rounds d))" by simp
  have own: "byId (rowId rd) ?t1 = Some ((finishRound ?w rd)\<lparr>rowId := rowId rd, updateUser := ctx_user c,
      updateTime := ctx_now c\<rparr>)" using assms(3) by (simp add: tbl_simps)
  have "roundOutcome d rd ((finishRound ?w rd)\<lparr>rowId := rowId rd, updateUser := ctx_user c, updateTime := ctx_now c\<rparr>)"
    using winningProposal_max [of tie "rowId rd" d]
    by (cases ?w) (auto simp: roundOutcome_def finishRound_def)
  moreover have "byId (rowId rd) t = byId (rowId rd) ?t1" using t(2,3) own by (metis option.distinct(1))
  moreover have "byId j t = Some r" if "j \<noteq> rowId rd" "byId j (proposal_rounds d) = Some r" for j r
  proof -
    have "byId j ?t1 = Some r" using that by (simp add: tbl_simps)
    then show ?thesis using t(2,3) by (metis option.distinct(1))
  qed
  ultimately show ?thesis using d' keep t(1) cnt own by auto
qed

lemma roundOutcome_cong:
  "proposals d' = proposals d \<Longrightarrow> proposal_votes d' = proposal_votes d \<Longrightarrow> roundOutcome d' r r' = roundOutcome d r r'"
  by (simp add: roundOutcome_def roundProposals_def totalVotes_def)

lemma fold_rounds:
  assumes "tblInv (proposal_rounds (committed m))" and "distinct (map rowId rds)"
    and "\<forall>rd \<in> set rds. byId (rowId rd) (proposal_rounds (committed m)) = Some rd
           \<and> status rd = ACTIVE \<and> rd_roundStatus rd = ROUND_ACTIVE"
    and "m' = fold (\<lambda>rd m. snd (withTx (finalizeRoundTx c offset tie rd) m)) rds m"
  shows "activeRounds (rows (proposal_rounds (committed m'))) = activeRounds (rows (proposal_rounds (committed m)))
    \<and> (\<forall>j r. j \<notin> rowId ` set rds \<longrightarrow> byId j (proposal_rounds (committed m)) = Some r \<longrightarrow>
          byId j (proposal_rounds (committed m')) = Some r)
    \<and> (\<forall>rd \<in> set rds. \<exists>rd'. byId (rowId rd) (proposal_rounds (committed m')) = Some rd'
          \<and> roundOutcome (committed m) rd rd')"
  using assms
proof (induction rds arbitrary: m)
  case (Cons rd rds)
  let ?m1 = "snd (withTx (finalizeRoundTx c offset tie rd) m)"
  have rd: "byId (rowId rd) (proposal_rounds (committed m)) = Some rd" "status rd = ACTIVE \<and> rd_roundStatus rd = ROUND_ACTIVE"
    using Cons.prems(3) by auto
  have one: "proposals (committed ?m1) = proposals (committed m) \<and> proposal_votes (committed ?m1) = proposal_votes (committed m)
    \<and> tblInv (proposal_rounds (committed ?m1))
    \<and> activeRounds (rows (proposal_rounds (committed ?m1))) = activeRounds (rows (proposal_rounds (committed m)))
    \<and> (\<exists>rd'. byId (rowId rd) (proposal_rounds (committed ?m1)) = Some rd' \<and> roundOutcome (committed m) rd rd')
    \<and> (\<forall>j r. j \<noteq> rowId rd \<longrightarrow> byId j (proposal_rounds (committed m)) = Some r \<longrightarrow>
          byId j (proposal_rounds (committed ?m1)) = Some r)"
  proof (cases rule: withTx_cases [of "finalizeRoundTx c offset tie rd" m])
    case (failed e)
    then show ?thesis using Cons.prems(1) rd by (auto simp: roundOutcome_def)
  next
    case (published w u)
    then show ?thesis using finalizeRoundTx_effect [OF published(1) Cons.prems(1) rd] by simp
  qed
  have "\<forall>r \<in> set rds. byId (rowId r) (proposal_rounds (committed ?m1)) = Some r
      \<and> status r = ACTIVE \<and> rd_roundStatus r = ROUND_ACTIVE"
    using Cons.prems(2,3) one by (auto simp: image_iff)
  moreover have "m' = fold (\<lambda>rd m. snd (withTx (finalizeRoundTx c offset tie rd) m)) rds ?m1"
    using Cons.prems(4) by simp
  ultimately have ih: "activeRounds (rows (proposal_rounds (committed m'))) = activeRounds (rows (proposal_rounds (committed ?m1)))
    \<and> (\<forall>j r. j \<notin> rowId ` set rds \<longrightarrow> byId j (proposal_rounds (committed ?m1)) = Some r \<longrightarrow>
          byId j (proposal_rounds (committed m')) = Some r)
    \<and> (\<forall>rd \<in> set rds. \<exists>rd'. byId (rowId rd) (proposal_rounds (committed m')) = Some rd'
          \<and> roundOutcome (committed ?m1) rd rd')"
    using Cons.IH [of ?m1] one Cons.prems(2) by simp
  have "rowId rd \<notin> rowId ` set rds" using Cons.prems(2) by auto
  then have "\<exists>rd'. byId (rowId rd) (proposal_rounds (committed m')) = Some rd' \<and> roundOutcome (committed m) rd rd'"
    using one ih by blast
  then show ?case using one ih roundOutcome_cong [of "committed ?m1" "committed m"] by auto
qed simp

text \<open>
  C34: Ending the rounds keeps the number of open rounds: each round that is ended is
  replaced by exactly one new open round, a round not due keeps its row, and a due
  round is either left for the next run or FINISHED with a winner that is a live
  proposal of the round no other has more votes than.
\<close>

theorem rounds_replaced:
  assumes "dbInv (committed m)" and "m' = finalizeProposalRounds c offset tie m"
    and "byId i (proposal_rounds (committed m)) = Some rd"
  shows "activeRounds (rows (proposal_rounds (committed m'))) = activeRounds (rows (proposal_rounds (committed m)))
    \<and> (\<exists>rd'. byId i (proposal_rounds (committed m')) = Some rd' \<and>
        (if rd \<in> set (roundsDue (ctx_now c) (committed m)) then roundOutcome (committed m) rd rd' else rd' = rd))"
proof -
  let ?due = "roundsDue (ctx_now c) (committed m)"
  have inv: "tblInv (proposal_rounds (committed m))" using assms(1) by (simp add: dbInv_def)
  have dist: "distinct (map rowId ?due)"
    using inv by (simp add: roundsDue_def tblInv_def distinct_map_filter)
  have due: "\<forall>rd \<in> set ?due. byId (rowId rd) (proposal_rounds (committed m)) = Some rd
      \<and> status rd = ACTIVE \<and> rd_roundStatus rd = ROUND_ACTIVE"
    using byId_distinct [OF inv] by (auto simp: roundsDue_def)
  note F = fold_rounds [OF inv dist due assms(2) [unfolded finalizeProposalRounds_def]]
  have id: "rowId rd = i" using assms(3) byId_SomeD by blast
  have own: "rd \<in> set ?due" if "i \<in> rowId ` set ?due" using that due assms(3) by auto
  show ?thesis using F assms(3) own id by force
qed

section \<open>The handlers of the component\<close>

lemma dbInv_proposals: "dbInv d \<Longrightarrow> tblInv t \<Longrightarrow> dbInv (d\<lparr>proposals := t\<rparr>)"
  by (simp add: dbInv_def)

lemma createProposalTx_dbInv:
  "dbInv d \<Longrightarrow> createProposalTx c flagged b d = Inr (d', a) \<Longrightarrow> dbInv d'"
  by (auto simp: createProposalTx_def res_simps intro!: dbInv_proposals dest: tblInv_insertRow)
     (auto simp: dbInv_def dest: tblInv_insertRow)

text \<open>A request of the component: who asks, and for what.\<close>

datatype proposal_request = Create proposal_data | Edit nat proposal_data | Remove nat

fun proposalTx :: "(string \<Rightarrow> (exn, bool) res) \<Rightarrow> ctx \<times> proposal_request \<Rightarrow> db \<Rightarrow> (exn, db \<times> unit) res" where
  "proposalTx flagged (c, Create b) d = bindR (createProposalTx c flagged b d) (\<lambda>(d', i). Inr (d', ()))"
| "proposalTx flagged (c, Edit i b) d = bindR (updateProposalTx c flagged i b d) (\<lambda>(d', p). Inr (d', ()))"
| "proposalTx flagged (c, Remove i) d = bindR (deleteProposalTx c i d) (\<lambda>(d', p). Inr (d', ()))"

lemma proposalTx_dbInv: "dbInv d \<Longrightarrow> proposalTx flagged q d = Inr (d', a) \<Longrightarrow> dbInv d'"
  by (cases "(flagged, q, d)" rule: proposalTx.cases)
     (auto simp: res_simps updateProposalTx_def deleteProposalTx_def setProposal_def markDeleted_def Let_def
       tbl_simps intro!: dbInv_proposals dest: createProposalTx_dbInv, auto simp: dbInv_def)

interpretation proposing: tx_handler "\<lambda>q. withTx (proposalTx flagged q)" dbInv
  for flagged :: "string \<Rightarrow> (exn, bool) res"
  by (rule tx_handler_withTx) (rule proposalTx_dbInv)

lemma foreign_refused:
  assumes "\<forall>p. getProposalById i d = Inr p \<longrightarrow> ctx_user c \<noteq> Some (pr_user_id p)"
  shows "\<exists>e. updateProposalTx c flagged i b d = Inl e" and "\<exists>e. deleteProposalTx c i d = Inl e"
  using assms
  by (cases "getProposalById i d"; cases "ctx_user c";
      simp add: updateProposalTx_def deleteProposalTx_def guardR_def contextUser_def requireR_def)+

text \<open>
  C35: Proposals are protected: over any series of requests to create, edit or remove
  proposals the invariant of the database holds and every connection is given back,
  and a series by signed-in users that only tries to edit or remove proposals of
  others changes nothing at all.
\<close>

theorem proposals_protected:
  "(dbInv (committed m) \<longrightarrow> dbInv (committed (proposing.serve flagged qs m)))
   \<and> openTx (proposing.serve flagged qs m) = openTx m
   \<and> ((\<forall>(c, q) \<in> set qs. \<exists>i. (q = Remove i \<or> (\<exists>b. q = Edit i b)) \<and> (\<forall>p. getProposalById i (committed m) = Inr p
          \<longrightarrow> ctx_user c \<noteq> Some (pr_user_id p)))
      \<longrightarrow> committed (proposing.serve flagged qs m) = committed m)"
proof -
  have "committed (proposing.serve flagged qs m) = committed m"
    if foreign: "\<forall>(c, q) \<in> set qs. \<exists>i. (q = Remove i \<or> (\<exists>b. q = Edit i b)) \<and>
      (\<forall>p. getProposalById i (committed m) = Inr p \<longrightarrow> ctx_user c \<noteq> Some (pr_user_id p))"
  proof (rule proposing.serve_refused)
    fix cq :: "ctx \<times> proposal_request" and m' :: "db mysql"
    assume "cq \<in> set qs" and m': "committed m' = committed m"
    obtain c q where cq: "cq = (c, q)" by (cases cq)
    with foreign \<open>cq \<in> set qs\<close> m' obtain i where q: "q = Remove i \<or> (\<exists>b. q = Edit i b)"
      and f: "\<forall>p. getProposalById i (committed m') = Inr p \<longrightarrow> ctx_user c \<noteq> Some (pr_user_id p)"
      by (auto dest!: bspec)
    obtain e where "proposalTx flagged cq (committed m') = Inl e"
      using q
    proof
      assume "q = Remove i"
      then show thesis using that foreign_refused(2) [OF f] by (auto simp: cq)
    next
      assume "\<exists>b. q = Edit i b"
      then obtain b where "q = Edit i b" by blast
      then show thesis using that foreign_refused(1) [OF f, of flagged b] by (auto simp: cq)
    qed
    then show "\<exists>e m2. withTx (proposalTx flagged cq) m' = (Inl e, m2)" by (simp add: withTx_Inl)
  qed
  then show ?thesis using proposing.serve_good proposing.serve_gives_back by blast
qed

end
