(* ===== verification/Lifecycle.thy ===== *)
theory Lifecycle
  imports Prediction_Service Chain_Parsers Blockchain Flare Finalizers Indexer Proposals
begin

text \<open>
  The life of a market across all components.  The abstract state of a market is
  its \<open>setStatus\<close> and its winner; the abstract steps say which part of the system
  may move it where.  The concrete system is the relation of every operation that
  writes the database, and each of its steps is a sequence of abstract steps of the
  part that made it.
\<close>

section \<open>The abstract life of a market\<close>

datatype actor = Api | Creator | Factory | Market_indexer | Resolver | Votes | Other

type_synonym life = "PredictionSetStatus \<times> nat option"

inductive life_step :: "actor \<Rightarrow> life \<Rightarrow> life \<Rightarrow> bool" where
  edited: "editable st \<Longrightarrow> life_step Api (st, w) (st', w)"
| failed: "st \<in> {PS_PENDING, PS_ERROR} \<Longrightarrow> life_step Creator (st, w) (PS_ERROR, w)"
| listed: "life_step Factory (st, w) (PS_FUNDING, w)"
| funded: "life_step Market_indexer (st, w) (PS_ACTIVE, w)"
| unattested: "life_step Resolver (PS_ACTIVE, w) (PS_ERROR, w)"
| undecided: "life_step Resolver (PS_ACTIVE, w) (PS_VOTING, w)"
| resolved: "life_step Resolver (PS_ACTIVE, w) (PS_FINALIZED, Some oc)"
| decided: "life_step Votes (st, w) (PS_FINALIZED, Some oc)"
| forced: "life_step Votes (st, w) (PS_VOTING, w)"

inductive_cases life_stepE [elim!]: "life_step a l l'"
inductive_simps life_step_Other [simp]: "life_step Other l l'"

definition life :: "prediction_set \<Rightarrow> life" where
  "life p = (ps_setStatus p, ps_winner_outcome_id p)"

lemma life_stamps [simp]:
  "life (p\<lparr>rowId := i\<rparr>) = life p" "life (p\<lparr>updateUser := u\<rparr>) = life p"
  "life (p\<lparr>updateTime := t\<rparr>) = life p" "life (p\<lparr>status := st\<rparr>) = life p" "life (p\<lparr>ps_hide := h\<rparr>) = life p"
  "life (stamped c p) = life p"
  by (simp_all add: life_def stamped_def)

text \<open>A winner may be replaced, never withdrawn.\<close>

lemma life_step_winner: "(life_step a)\<^sup>*\<^sup>* l l' \<Longrightarrow> snd l \<noteq> None \<Longrightarrow> snd l' \<noteq> None"
  by (induction rule: rtranclp_induct) auto

lemma life_steps_Other: "(life_step Other)\<^sup>*\<^sup>* l l' \<Longrightarrow> l' = l"
  by (induction rule: rtranclp_induct) auto

section \<open>What a step may do to the database\<close>

text \<open>The outcome ids of each market, and the markets that are finished without one of theirs.\<close>

definition outcomeKeys :: "db \<Rightarrow> (nat \<times> nat) set" where
  "outcomeKeys d = (\<lambda>r. (rowId r, oc_prediction_set_id r)) ` set (rows (outcomes d))"

definition hasWinner :: "db \<Rightarrow> prediction_set \<Rightarrow> bool" where
  "hasWinner d p \<longleftrightarrow> (\<exists>oc. ps_winner_outcome_id p = Some oc \<and> (oc, rowId p) \<in> outcomeKeys d)"

definition winnersOk :: "db \<Rightarrow> bool" where
  "winnersOk d \<longleftrightarrow> (\<forall>p \<in> set (rows (prediction_sets d)). ps_setStatus p = PS_FINALIZED \<longrightarrow> hasWinner d p)"

text \<open>
  The effect of a step of part \<open>a\<close>: the tables keep their invariant, every market is
  still there and has moved as \<open>a\<close> may move it, and, where no request body may say
  FINALIZED (\<open>strict\<close>), finalized markets keep a winner of their own.
\<close>

definition evolves :: "bool \<Rightarrow> actor \<Rightarrow> db \<Rightarrow> db \<Rightarrow> bool" where
  "evolves strict a d d' \<longleftrightarrow> (dbInv d \<longrightarrow> dbInv d'
     \<and> (\<forall>i p. byId i (prediction_sets d) = Some p \<longrightarrow>
          (\<exists>p'. byId i (prediction_sets d') = Some p' \<and> (life_step a)\<^sup>*\<^sup>* (life p) (life p')))
     \<and> (strict \<longrightarrow> winnersOk d \<longrightarrow> winnersOk d'))"

lemma evolvesD:
  assumes "evolves strict a d d'" and "dbInv d" and "byId i (prediction_sets d) = Some p"
  shows "\<exists>p'. byId i (prediction_sets d') = Some p' \<and> (life_step a)\<^sup>*\<^sup>* (life p) (life p')"
  using assms unfolding evolves_def by simp

text \<open>Effects compose: every control structure of the code preserves one.\<close>

locale effect =
  fixes E :: "'d \<Rightarrow> 'd \<Rightarrow> bool"
  assumes none: "E d d" and both: "E d1 d2 \<Longrightarrow> E d2 d3 \<Longrightarrow> E d1 d3"
begin

lemma loop:
  assumes "forEach step xs d = Inr d'" and "\<And>x d d'. x \<in> set xs \<Longrightarrow> step x d = Inr d' \<Longrightarrow> E d d'"
  shows "E d d'"
  using assms
proof (induction xs arbitrary: d)
  case (Cons x xs)
  then obtain d1 where d1: "step x d = Inr d1" "forEach step xs d1 = Inr d'" by (auto simp: res_simps)
  have "E d d1" by (rule Cons.prems(2) [OF _ d1(1)]) simp
  moreover have "E d1 d'" by (rule Cons.IH [OF d1(2)]) (rule Cons.prems(2), simp_all)
  ultimately show ?case by (rule both)
qed (simp add: none)

lemma folded:
  assumes "\<And>x d. x \<in> set xs \<Longrightarrow> E d (f x d)"
  shows "E d (fold f xs d)"
  using assms
proof (induction xs arbitrary: d)
  case (Cons x xs)
  have a: "E d (f x d)" and b: "E (f x d) (fold f xs (f x d))" using Cons by simp_all
  show ?case using both [OF a b] by simp
qed (simp add: none)

lemma inTx:
  assumes "\<And>d' a. body (committed m) = Inr (d', a) \<Longrightarrow> E (committed m) d'"
  shows "E (committed m) (committed (snd (withTx body m)))"
  using assms none by (cases rule: withTx_cases [of body m]) auto

lemma inTxA:
  assumes "\<And>d' a. body (committed m) = Inr (d', a) \<Longrightarrow> E (committed m) d'"
  shows "E (committed m) (committed (snd (withTxA body m)))"
  using assms none by (cases rule: withTxA_cases [of body m]) auto

end

interpretation life: effect "evolves strict a" for strict :: bool and a :: actor
proof
  show "evolves strict a d d" for d by (auto simp: evolves_def)
next
  fix d1 d2 d3
  assume A: "evolves strict a d1 d2" and B: "evolves strict a d2 d3"
  show "evolves strict a d1 d3"
    unfolding evolves_def
  proof (intro impI conjI allI)
    assume inv: "dbInv d1"
    then have inv2: "dbInv d2" using A by (simp add: evolves_def)
    show "dbInv d3" using B inv2 by (simp add: evolves_def)
    show "winnersOk d3" if strict "winnersOk d1"
      using A B inv inv2 that by (simp add: evolves_def)
    show "\<exists>p'. byId i (prediction_sets d3) = Some p' \<and> (life_step a)\<^sup>*\<^sup>* (life p) (life p')"
      if row: "byId i (prediction_sets d1) = Some p" for i p
    proof -
      obtain q where q: "byId i (prediction_sets d2) = Some q" "(life_step a)\<^sup>*\<^sup>* (life p) (life q)"
        using evolvesD [OF A inv row] by blast
      obtain r where "byId i (prediction_sets d3) = Some r" "(life_step a)\<^sup>*\<^sup>* (life q) (life r)"
        using evolvesD [OF B inv2 q(1)] by blast
      then show ?thesis using rtranclp_trans [OF q(2)] by blast
    qed
  qed
qed

section \<open>Elementary effects\<close>

lemma dbInv_sets: "dbInv d \<Longrightarrow> tblInv (prediction_sets d)"
  by (simp add: dbInv_def)

text \<open>A step that leaves the markets alone and the outcomes of finalized markets.\<close>

lemma evolves_frame:
  assumes "prediction_sets d' = prediction_sets d" and "dbInv d \<Longrightarrow> dbInv d'"
    and "\<And>p oc. p \<in> set (rows (prediction_sets d)) \<Longrightarrow> ps_setStatus p = PS_FINALIZED \<Longrightarrow>
           (oc, rowId p) \<in> outcomeKeys d \<Longrightarrow> (oc, rowId p) \<in> outcomeKeys d'"
  shows "evolves strict a d d'"
  unfolding evolves_def winnersOk_def hasWinner_def assms(1) using assms(2,3) by blast

lemma evolves_same_outcomes:
  assumes "prediction_sets d' = prediction_sets d" and "outcomes d' = outcomes d" and "dbInv d \<Longrightarrow> dbInv d'"
  shows "evolves strict a d d'"
  using assms by (intro evolves_frame) (auto simp: outcomeKeys_def)

text \<open>A step that writes one market's row.\<close>

lemma evolves_row:
  assumes "\<And>p. byId i (prediction_sets d) = Some p \<Longrightarrow> (life_step a)\<^sup>*\<^sup>* (life p) (life (f p))
      \<and> (strict \<longrightarrow> ps_setStatus (f p) = PS_FINALIZED \<longrightarrow> life (f p) = life p \<or>
           (\<exists>oc. ps_winner_outcome_id (f p) = Some oc \<and> (oc, i) \<in> outcomeKeys d))"
  shows "evolves strict a d (d\<lparr>prediction_sets := updateRow c i f (prediction_sets d)\<rparr>)"
proof -
  let ?d' = "d\<lparr>prediction_sets := updateRow c i f (prediction_sets d)\<rparr>"
  have keys: "outcomeKeys ?d' = outcomeKeys d" by (simp add: outcomeKeys_def)
  have row: "\<exists>p'. byId j (prediction_sets ?d') = Some p' \<and> (life_step a)\<^sup>*\<^sup>* (life p) (life p')"
    if "byId j (prediction_sets d) = Some p" for j p
    using that assms by (cases "j = i") (auto simp: tbl_simps)
  have "winnersOk ?d'" if inv: "dbInv d" and ok: "winnersOk d" and strict
    unfolding winnersOk_def
  proof (intro ballI impI)
    fix q
    assume "q \<in> set (rows (prediction_sets ?d'))" and fin: "ps_setStatus q = PS_FINALIZED"
    then consider (other) "q \<in> set (rows (prediction_sets d))"
      | (own) p where "p \<in> set (rows (prediction_sets d))" "rowId p = i"
          "q = (f p)\<lparr>rowId := i, updateUser := ctx_user c, updateTime := ctx_now c\<rparr>"
      by (auto simp: updateRow_def set_upd_where)
    then show "hasWinner ?d' q"
    proof cases
      case other
      then show ?thesis using ok fin keys by (simp add: winnersOk_def hasWinner_def)
    next
      case own
      have "byId i (prediction_sets d) = Some p"
        using byId_distinct [OF dbInv_sets [OF inv] own(1)] own(2) by simp
      from assms [OF this] \<open>strict\<close> fin own(3)
      have "life (f p) = life p \<or> (\<exists>oc. ps_winner_outcome_id (f p) = Some oc \<and> (oc, i) \<in> outcomeKeys d)"
        by simp
      moreover have "hasWinner d p" if "life (f p) = life p"
        using ok own fin that by (auto simp: winnersOk_def life_def)
      ultimately show ?thesis using own(2,3) keys by (auto simp: hasWinner_def life_def)
    qed
  qed
  then show ?thesis using row unfolding evolves_def by (simp add: dbInv_def)
qed

lemma evolves_setPredictionSet:
  assumes "\<And>p. byId i (prediction_sets d) = Some p \<Longrightarrow> (life_step a)\<^sup>*\<^sup>* (life p) (life (f p))
      \<and> (strict \<longrightarrow> ps_setStatus (f p) = PS_FINALIZED \<longrightarrow> life (f p) = life p \<or>
           (\<exists>oc. ps_winner_outcome_id (f p) = Some oc \<and> (oc, i) \<in> outcomeKeys d))"
  shows "evolves strict a d (setPredictionSet c i f d)"
  using evolves_row [OF assms] by (simp add: setPredictionSet_def)

text \<open>A step that adds a market.\<close>

lemma evolves_insert:
  assumes "insertRow c clash p (prediction_sets d) = Inr (i, t)"
    and "strict \<Longrightarrow> ps_setStatus p \<noteq> PS_FINALIZED"
  shows "evolves strict a d (d\<lparr>prediction_sets := t\<rparr>)"
proof -
  have "dbInv (d\<lparr>prediction_sets := t\<rparr>)" if "dbInv d"
    using that tblInv_insertRow [OF _ assms(1)] by (simp add: dbInv_def)
  moreover have "byId j t = Some q" if "byId j (prediction_sets d) = Some q" for j q
    using that byId_insertRow [OF assms(1)] sql.fresh_put [OF assms(1)] by auto
  moreover have "winnersOk (d\<lparr>prediction_sets := t\<rparr>)" if "winnersOk d" strict
    using that assms(2) by (auto simp: winnersOk_def hasWinner_def outcomeKeys_def insertRow_Inr(1) [OF assms(1)])
  ultimately show ?thesis by (auto simp: evolves_def)
qed

text \<open>Steps that write another table.\<close>

lemma evolves_award:
  assumes "awardPoints c u ty k d = Inr d'"
  shows "evolves strict a d d'"
proof -
  obtain t where "d' = d\<lparr>reward_transactions := t\<rparr>" using awardPoints_frame [OF assms] by blast
  then show ?thesis using awardPoints_dbInv assms by (intro evolves_same_outcomes) auto
qed

lemma evolves_insertOutcome:
  assumes "insertOutcome c psId x d = Inr d'"
  shows "evolves strict a d d'"
proof -
  obtain i t where t: "insertRow c outcomeClash
      ((snd x)\<lparr>oc_outcomeIndex := fst x, oc_prediction_set_id := psId\<rparr>) (outcomes d) = Inr (i, t)"
    and d': "d' = d\<lparr>outcomes := t\<rparr>"
    using assms by (auto simp: insertOutcome_def split: sum.splits)
  have "outcomeKeys d \<subseteq> outcomeKeys d'" by (auto simp: outcomeKeys_def d' insertRow_Inr(1) [OF t])
  then show ?thesis using tblInv_insertRow [OF _ t]
    by (intro evolves_frame) (auto simp: d' dbInv_def)
qed

lemma evolves_attach: "attachDataSource psId i d = Inr d' \<Longrightarrow> evolves strict a d d'"
  using addDataSource_frame [of psId i d] attachDataSource_Inr(1)
  by (intro evolves_same_outcomes) (force simp: dbInv_def)+

lemma evolves_if: "(dbInv d \<Longrightarrow> evolves strict a d d') \<Longrightarrow> evolves strict a d d'"
  by (simp add: evolves_def)

lemma dbInv_byId: "dbInv d \<Longrightarrow> populateById i (prediction_sets d) = Inr (Some p) \<Longrightarrow>
    byId i (prediction_sets d) = Some p"
  by (auto simp: populateById_byId dbInv_def split: option.splits if_splits)

section \<open>Effects of the service\<close>

lemma evolves_create:
  assumes "strict \<Longrightarrow> ps_setStatus p \<noteq> PS_FINALIZED"
  shows "evolves strict Api (committed m) (committed (snd (createPredictionSet c k p ocs dsIds cats m)))"
  unfolding createPredictionSet_def
proof (rule life.inTxA)
  fix d' psId
  let ?d = "committed m"
  assume "createPredictionSetTx c k ?d p ocs dsIds cats ?d = Inr (d', psId)"
  then obtain t w1 w2 where t: "insertRow c noClash p (prediction_sets ?d) = Inr (psId, t)"
    and w1: "forEach (attachDataSource psId) dsIds (?d\<lparr>prediction_sets := t\<rparr>) = Inr w1
        \<or> w1 = ?d\<lparr>prediction_sets := t\<rparr>"
    and w2: "forEach (insertOutcome c psId) (zip [0..<length ocs] ocs) w1 = Inr w2"
    and d': "d' = w2\<lparr>ps_categories := ps_categories w2 @ map (Pair psId) cats\<rparr>"
    by (rule createPredictionSetTx_Inr) blast
  have "evolves strict Api ?d (?d\<lparr>prediction_sets := t\<rparr>)" using evolves_insert [OF t assms] .
  moreover have "evolves strict Api (?d\<lparr>prediction_sets := t\<rparr>) w1"
    using w1 by (elim disjE) (erule life.loop [OF _ evolves_attach], simp_all add: life.none)
  moreover have "evolves strict Api w1 w2" using life.loop [OF w2 evolves_insertOutcome] .
  moreover have "evolves strict Api w2 d'" by (intro evolves_same_outcomes) (auto simp: d' dbInv_def)
  ultimately show "evolves strict Api ?d d'" using life.both by blast
qed

lemma evolves_process:
  "evolves strict Api (committed m) (committed (fst (snd (processPredictionSet c send i m))))"
proof (rule evolves_if)
  assume inv: "dbInv (committed m)"
  show ?thesis
  proof (cases "\<exists>p. requirePredictionSet i (committed m) = Inr p \<and> editable (ps_setStatus p)")
    case True
    then obtain p where p: "requirePredictionSet i (committed m) = Inr p" "editable (ps_setStatus p)" by blast
    let ?f = "\<lambda>r. r\<lparr>ps_setStatus := PS_PENDING\<rparr>"
    have "committed (fst (snd (processPredictionSet c send i m))) = setPredictionSet c i ?f (committed m)"
      using p by (auto simp: processPredictionSet_def Let_def split: sum.splits)
    moreover have "evolves strict Api (committed m) (setPredictionSet c i ?f (committed m))"
    proof (rule evolves_setPredictionSet)
      fix q
      assume "byId i (prediction_sets (committed m)) = Some q"
      then have "editable (ps_setStatus q)"
        using p requirePredictionSet_byId [OF dbInv_sets [OF inv]] by simp
      then show "(life_step Api)\<^sup>*\<^sup>* (life q) (life (?f q)) \<and> (strict \<longrightarrow> ps_setStatus (?f q) = PS_FINALIZED \<longrightarrow>
          life (?f q) = life q \<or> (\<exists>oc. ps_winner_outcome_id (?f q) = Some oc \<and> (oc, i) \<in> outcomeKeys (committed m)))"
        by (auto simp: life_def intro: life_step.edited)
    qed
    ultimately show ?thesis by simp
  next
    case False
    then have "committed (fst (snd (processPredictionSet c send i m))) = committed m"
      by (auto simp: processPredictionSet_def Let_def split: sum.splits)
    then show ?thesis using life.none by simp
  qed
qed

text \<open>An update drops the outcomes of an editable market only, which is not finalized.\<close>

lemma evolves_update:
  assumes "strict \<Longrightarrow> ps_setStatus dto \<noteq> PS_FINALIZED"
  shows "evolves strict Api (committed m) (committed (snd (updatePredictionSet c i dto ocs dsIds m)))"
  unfolding updatePredictionSet_def
proof (rule life.inTxA, rule evolves_if)
  fix d' j
  let ?d = "committed m"
  assume inv: "dbInv ?d" and tx: "updatePredictionSetTx c i dto ocs dsIds ?d = Inr (d', j)"
  obtain p w1 w2 where p: "requirePredictionSet i ?d = Inr p" "editable (ps_setStatus p)"
    and w1: "forEach (attachDataSource i) dsIds (deleteDataSources i ?d) = Inr w1"
    and w2: "forEach (insertOutcome c i) (zip [0..<length ocs] ocs) (deleteOutcomes i w1) = Inr w2"
    and d': "d' = setPredictionSet c i (populateUser dto) w2"
    by (rule updatePredictionSetTx_Inr [OF tx]) blast
  have row: "byId i (prediction_sets ?d) = Some p"
    using p(1) requirePredictionSet_byId [OF dbInv_sets [OF inv]] by simp
  obtain l where l: "w1 = ?d\<lparr>ps_data_sources := l\<rparr>"
    using attachDataSources_Inr(1) [OF w1] by (auto simp: deleteDataSources_def)
  have "prediction_sets w2 = prediction_sets (deleteOutcomes i w1)"
    by (rule forEach_preserves [OF w2]) (auto simp: insertOutcome_def split: sum.splits)
  then have s2: "prediction_sets w2 = prediction_sets ?d" by (simp add: deleteOutcomes_def l)
  have "evolves strict Api ?d (deleteOutcomes i w1)"
  proof (rule evolves_frame)
    show "prediction_sets (deleteOutcomes i w1) = prediction_sets ?d" by (simp add: deleteOutcomes_def l)
    show "dbInv (deleteOutcomes i w1)"
      using inv by (auto simp: deleteOutcomes_def l dbInv_def tblInv_def distinct_map_filter)
  next
    fix q oc
    assume q: "q \<in> set (rows (prediction_sets ?d))" "ps_setStatus q = PS_FINALIZED" "(oc, rowId q) \<in> outcomeKeys ?d"
    have "rowId q \<noteq> i"
      using byId_distinct [OF dbInv_sets [OF inv] q(1)] q(2) row p(2) by (auto simp: editable_def)
    then show "(oc, rowId q) \<in> outcomeKeys (deleteOutcomes i w1)"
      using q(3) by (auto simp: outcomeKeys_def deleteOutcomes_def l)
  qed
  moreover have "evolves strict Api (deleteOutcomes i w1) w2" using life.loop [OF w2 evolves_insertOutcome] .
  moreover have "evolves strict Api w2 d'"
    unfolding d'
  proof (rule evolves_setPredictionSet)
    fix q
    assume "byId i (prediction_sets w2) = Some q"
    then have "q = p" using row s2 by simp
    then show "(life_step Api)\<^sup>*\<^sup>* (life q) (life (populateUser dto q)) \<and>
        (strict \<longrightarrow> ps_setStatus (populateUser dto q) = PS_FINALIZED \<longrightarrow> life (populateUser dto q) = life q \<or>
          (\<exists>oc. ps_winner_outcome_id (populateUser dto q) = Some oc \<and> (oc, i) \<in> outcomeKeys w2))"
      using assms p(2) by (auto simp: life_def populateUser_def intro: life_step.edited)
  qed
  ultimately show "evolves strict Api ?d d'" using life.both by blast
qed

lemma evolves_hide: "evolves strict Api (committed m) (committed (snd (updatePredictionHide c i hide m)))"
  using evolves_setPredictionSet [of i "committed m" Api "\<lambda>r. r\<lparr>ps_hide := hide\<rparr>" strict c] life.none
  by (auto simp: updatePredictionHide_def split: sum.splits)

lemma evolves_delete: "evolves strict Api (committed m) (committed (snd (deletePredictionSet c i m)))"
  using evolves_setPredictionSet [of _ "committed m" Api "\<lambda>r. r\<lparr>status := DELETED\<rparr>" strict c] life.none
  by (auto simp: deletePredictionSet_def split: sum.splits option.splits)


section \<open>Effects of the workers\<close>

text \<open>A database write outside the markets and the outcomes, one lemma per table.\<close>

lemma evolves_tables:
  "(tblInv (chain_datas d) \<Longrightarrow> tblInv t) \<Longrightarrow> evolves strict a d (d\<lparr>chain_datas := t\<rparr>)"
  "(tblInv (voting_transactions d) \<Longrightarrow> tblInv u) \<Longrightarrow> evolves strict a d (d\<lparr>voting_transactions := u\<rparr>)"
  "(tblInv (claim_transactions d) \<Longrightarrow> tblInv v) \<Longrightarrow> evolves strict a d (d\<lparr>claim_transactions := v\<rparr>)"
  "(tblInv (funding_transactions d) \<Longrightarrow> tblInv w) \<Longrightarrow> evolves strict a d (d\<lparr>funding_transactions := w\<rparr>)"
  "(tblInv (share_transactions d) \<Longrightarrow> tblInv x) \<Longrightarrow> evolves strict a d (d\<lparr>share_transactions := x\<rparr>)"
  "(tblInv (contracts d) \<Longrightarrow> tblInv y) \<Longrightarrow> evolves strict a d (d\<lparr>contracts := y\<rparr>)"
  "(tblInv (attestations d) \<Longrightarrow> tblInv z) \<Longrightarrow> evolves strict a d (d\<lparr>attestations := z\<rparr>)"
  by (rule evolves_same_outcomes; simp add: dbInv_def)+

lemma evolves_creation_worker:
  "evolves strict Creator (committed m) (committed (snd (handleCreatePredictionSet c mf i m)))"
proof (rule evolves_if)
  assume inv: "dbInv (committed m)"
  let ?d = "committed m" and ?f = "\<lambda>r. r\<lparr>ps_setStatus := PS_ERROR\<rparr>"
  let ?r = "committed (snd (handleCreatePredictionSet c mf i m))"
  have "?r = ?d \<or> (\<exists>p. addPredictionSet c mf p ?d = Inr ?r)
    \<or> (\<exists>p. populateById i (prediction_sets ?d) = Inr (Some p) \<and> ps_setStatus p \<in> {PS_PENDING, PS_ERROR}
          \<and> ?r = setPredictionSet c i ?f ?d)"
    unfolding handleCreatePredictionSet_def
    by (auto split: sum.split option.split)
  then consider (nothing) "?r = ?d" | (added) p where "addPredictionSet c mf p ?d = Inr ?r"
    | (failed) p where "populateById i (prediction_sets ?d) = Inr (Some p)" "ps_setStatus p \<in> {PS_PENDING, PS_ERROR}"
        "?r = setPredictionSet c i ?f ?d" by blast
  then show "evolves strict Creator ?d ?r"
  proof cases
    case nothing
    then show ?thesis by (simp add: life.none)
  next
    case added
    from addPredictionSet_Inr [OF added(1)] obtain cond blk j t where
      "insertRow c chainDataClash (newChainData mf (rowId p) cond blk) (chain_datas ?d) = Inr (j, t)"
      "?r = ?d\<lparr>chain_datas := t\<rparr>" by metis
    then show ?thesis using evolves_tables(1) tblInv_insertRow by metis
  next
    case failed
    have "evolves strict Creator ?d (setPredictionSet c i ?f ?d)"
    proof (rule evolves_setPredictionSet)
      fix q
      assume "byId i (prediction_sets ?d) = Some q"
      then have "q = p" using dbInv_byId [OF inv failed(1)] by simp
      then show "(life_step Creator)\<^sup>*\<^sup>* (life q) (life (?f q)) \<and> (strict \<longrightarrow> ps_setStatus (?f q) = PS_FINALIZED \<longrightarrow>
          life (?f q) = life q \<or> (\<exists>oc. ps_winner_outcome_id (?f q) = Some oc \<and> (oc, i) \<in> outcomeKeys ?d))"
        using failed(2) by (auto simp: life_def intro: life_step.failed)
    qed
    then show ?thesis using failed(3) by simp
  qed
qed

text \<open>The frame of a contract parser adds the move of the cursor to its events.\<close>

lemma evolves_contractPass:
  assumes "\<And>f t d'. process (committed m) f t (committed m) = Inr d' \<Longrightarrow> evolves strict a (committed m) d'"
  shows "evolves strict a (committed m) (committed (contractPass c k h process m))"
  unfolding contractPass_def
proof (rule life.inTx)
  fix d' u
  assume "contractPassTx c k h process (committed m) (committed m) = Inr (d', u)"
  then obtain f t w where "process (committed m) f t (committed m) = Inr w" "d' = advanceContract c k t w"
    by (auto simp: contractPassTx_def res_simps split: option.splits prod.splits)
  moreover have "evolves strict a w (advanceContract c k t w)" for t
    unfolding advanceContract_def updateContractBlock_def by (rule evolves_tables(6)) simp
  ultimately show "evolves strict a (committed m) d'" using assms life.both by blast
qed

lemma evolves_setStatusRow:
  assumes "\<And>st w. life_step a (st, w) (s, w)" and "s \<noteq> PS_FINALIZED"
  shows "evolves strict a d (setStatusRow c i s d)"
  unfolding setStatusRow_def by (rule evolves_row) (use assms in \<open>simp add: life_def r_into_rtranclp\<close>)

text \<open>
  The votes: the outcome that wins is read from the pool, whose outcomes are those
  of the transaction.
\<close>

lemma evolves_vote:
  assumes "processVote c chain pool e w = Inr w'" and "outcomes pool = outcomes w"
  shows "evolves strict Votes w w'"
proof -
  have ins: "evolves strict Votes x w'" if "insertVote c pool e i x = Inr w'" for i x
    using that tblInv_insertRow by (auto simp: insertVote_def res_simps intro!: evolves_tables(2))
  show ?thesis
    using assms(1)
  proof (cases rule: processVote_cases)
    case skipped
    then show ?thesis by (simp add: life.none)
  next
    case (voted ps)
    then show ?thesis using ins by simp
  next
    case (finalized ps winnerIdx oc)
    have "(rowId oc, rowId ps) \<in> outcomeKeys w"
      using finalized(3) assms(2)
      by (auto simp: populateByIndexAndPredictionSetId_def outcomeKeys_def dest!: find_SomeD)
    then have "evolves strict Votes w (finalizeRow c (rowId ps) (rowId oc) w)"
      unfolding finalizeRow_def
      by (intro evolves_row) (auto simp: life_def intro: life_step.decided)
    then show ?thesis using ins [OF finalized(4)] life.both by blast
  qed
qed

lemma evolves_parseVotes: "evolves strict Votes (committed m) (committed (parseVotes c chain m))"
  unfolding parseVotes_def
proof (rule evolves_contractPass)
  fix f t d'
  let ?d = "committed m"
  assume "processVoting c chain ?d f t ?d = Inr d'"
  then obtain votes w1 forced where v: "forEach (processVote c chain ?d) votes ?d = Inr w1"
    and f: "forEach (processForced c) forced w1 = Inr d'"
    by (auto simp: processVoting_def res_simps)
  have "evolves strict Votes ?d w1 \<and> outcomes ?d = outcomes w1"
  proof (rule forEach_invariant [OF v])
    fix x s s'
    assume "evolves strict Votes ?d s \<and> outcomes ?d = outcomes s" and step: "processVote c chain ?d x s = Inr s'"
    then show "evolves strict Votes ?d s' \<and> outcomes ?d = outcomes s'"
      using evolves_vote [OF step, of strict] processVote_keeps [OF step] life.both by metis
  qed (simp add: life.none)
  moreover have "evolves strict Votes w1 d'"
  proof (rule life.loop [OF f])
    fix x s s'
    assume "processForced c x s = Inr s'"
    then show "evolves strict Votes s s'"
      using evolves_setStatusRow [of Votes PS_VOTING] life.none life_step.forced
      by (auto simp: processForced_def res_simps split: option.splits)
  qed
  ultimately show "evolves strict Votes ?d d'" using life.both by blast
qed

lemma evolves_parseClaims: "evolves strict Other (committed m) (committed (parseClaims c chain m))"
  unfolding parseClaims_def
proof (rule evolves_contractPass)
  fix f t d'
  assume "processClaims c chain (committed m) f t (committed m) = Inr d'"
  then obtain es where "forEach (processClaim c) es (committed m) = Inr d'"
    by (auto simp: processClaims_def res_simps)
  then show "evolves strict Other (committed m) d'"
  proof (rule life.loop)
    fix e w w'
    assume "processClaim c e w = Inr w'"
    then show "evolves strict Other w w'"
    proof (cases rule: processClaim_cases)
      case skipped
      then show ?thesis by (simp add: life.none)
    next
      case (claimed ps u idx oc i t)
      have "evolves strict Other w (w\<lparr>claim_transactions := t\<rparr>)"
        using evolves_tables(3) tblInv_insertRow claimed(5) by blast
      then show ?thesis using evolves_award [OF claimed(6)] life.both by blast
    qed
  qed
qed

lemma outcomeKeys_updateRow:
  assumes "\<And>r. oc_prediction_set_id (f r) = oc_prediction_set_id r"
  shows "outcomeKeys (d\<lparr>outcomes := updateRow c i f (outcomes d)\<rparr>) = outcomeKeys d"
proof -
  have "map (\<lambda>r. (rowId r, oc_prediction_set_id r)) (rows (updateRow c i f (outcomes d)))
      = map (\<lambda>r. (rowId r, oc_prediction_set_id r)) (rows (outcomes d))"
    unfolding updateRow_def by (simp, rule map_upd_where) (simp add: assms)
  from arg_cong [OF this, of set] show ?thesis by (simp add: outcomeKeys_def)
qed

lemma evolves_setPositionId: "setPositionId c chain a oc w = Inr w' \<Longrightarrow> evolves strict b w w'"
  by (auto simp: setPositionId_def res_simps outcomeKeys_updateRow dbInv_def intro!: evolves_frame)

lemma evolves_parsePredictionSets:
  "evolves strict Factory (committed m) (committed (parsePredictionSets c chain m))"
  unfolding parsePredictionSets_def
proof (rule evolves_contractPass)
  fix f t d'
  assume "processFactory c chain (committed m) f t (committed m) = Inr d'"
  then obtain es where "forEach (processCreated c chain) es (committed m) = Inr d'"
    by (auto simp: processFactory_def res_simps)
  then show "evolves strict Factory (committed m) d'"
  proof (rule life.loop)
    fix e w w'
    assume "processCreated c chain e w = Inr w'"
    then obtain cd :: chain_data and ps :: prediction_set and g t where t: "updateUnique c chainDataClash (rowId cd) g (chain_datas w) = Inr t"
      and l: "forEach (setPositionId c chain (fa_contractAddress e)) (map fst (getOutcomes (rowId ps) w))
         (setStatusRow c (rowId ps) PS_FUNDING (w\<lparr>chain_datas := t\<rparr>)) = Inr w'"
      unfolding processCreated_def by (auto simp: res_simps split: option.splits)
    have "evolves strict Factory w (w\<lparr>chain_datas := t\<rparr>)"
      using t by (intro evolves_tables(1)) (auto simp: updateUnique_def split: option.splits if_splits)
    moreover have "evolves strict Factory (w\<lparr>chain_datas := t\<rparr>) (setStatusRow c (rowId ps) PS_FUNDING (w\<lparr>chain_datas := t\<rparr>))"
      by (rule evolves_setStatusRow) (auto intro: life_step.listed)
    moreover have "evolves strict Factory (setStatusRow c (rowId ps) PS_FUNDING (w\<lparr>chain_datas := t\<rparr>)) w'"
      using l evolves_setPositionId by (rule life.loop)
    ultimately show "evolves strict Factory w w'" using life.both by blast
  qed
qed

lemma evolves_cursor: "evolves strict a d (updateLastProcessedBlock now i b d)"
  unfolding updateLastProcessedBlock_def by (rule evolves_tables(1)) simp

lemma evolves_finalizedExecutor:
  "evolves strict Other (committed m) (committed (finalizedExecutor c chain i m))"
  unfolding finalizedExecutor_def
proof (rule life.inTx)
  fix d' u
  assume "finalizedExecutorTx c chain i (committed m) (committed m) = Inr (d', u)"
  then obtain es and cd :: chain_data and b w where l: "forEach (insertRemoved c i) es (committed m) = Inr w"
    and d': "d' = updateLastProcessedBlock (ctx_now c) (rowId cd) b w"
    unfolding finalizedExecutorTx_def
    by (auto simp: res_simps split: option.splits prod.splits if_splits dest: populateById_SomeD)
  have "evolves strict Other (committed m) w"
    using l by (rule life.loop) (auto simp: insertRemoved_def res_simps intro!: evolves_tables(4) intro: tblInv_insertRow)
  then show "evolves strict Other (committed m) d'" using d' evolves_cursor life.both by blast
qed

section \<open>Effects of the indexer\<close>

lemma evolves_insertShare: "insertShare c s w = Inr w' \<Longrightarrow> evolves strict a w w'"
  by (auto simp: insertShare_def res_simps intro!: evolves_tables(5) intro: tblInv_insertRow)

lemma evolves_awardFor: "awardFor c ps u ty x per w = Inr w' \<Longrightarrow> evolves strict a w w'"
  using evolves_award life.none
  by (cases u) (auto simp: awardFor_def res_simps split: if_splits)

lemma evolves_processFunding:
  assumes "processFunding c ps e w = Inr w'"
  shows "evolves strict a w w'"
proof -
  let ?xs = "amountsOf (fu_amounts e)" and ?u = "populateByWalletAddress (fu_wallet e) w"
  obtain i t w1 where ins: "insertRow c noClash (newFunding e (maxOf ?xs) (map_option rowId ?u) (rowId ps))
        (funding_transactions w) = Inr (i, t)"
    and step: "(if maxOf ?xs \<noteq> minOf ?xs
        then forEach (fundShare c ps ?u e ?xs (maxOf ?xs)) (enumerate 0 ?xs) (w\<lparr>funding_transactions := t\<rparr>)
        else Inr (w\<lparr>funding_transactions := t\<rparr>)) = Inr w1"
    and aw: "awardFor c ps ?u MARKET_FUNDING (maxOf ?xs) 100 w1 = Inr w'"
    using assms unfolding processFunding_def Let_def by (auto simp: res_simps)
  have one: "evolves strict a x y" if "fundShare c ps ?u e ?xs (maxOf ?xs) ia x = Inr y" for ia x y
    using that evolves_insertShare life.none
    by (auto simp: fundShare_def Let_def split: prod.splits option.splits if_splits)
  have "evolves strict a (w\<lparr>funding_transactions := t\<rparr>) w1"
  proof (cases "maxOf ?xs \<noteq> minOf ?xs")
    case True
    then show ?thesis using step by (intro life.loop [OF _ one]) simp_all
  next
    case False
    then show ?thesis using step by (simp add: life.none)
  qed
  moreover have "evolves strict a w (w\<lparr>funding_transactions := t\<rparr>)"
    using evolves_tables(4) tblInv_insertRow ins by blast
  ultimately show ?thesis using evolves_awardFor [OF aw] life.both by blast
qed

lemma evolves_processTrade:
  assumes "processTrade c ps e w = Inr w'"
  shows "evolves strict a w w'"
  using assms unfolding processTrade_def Let_def
  by (auto simp: res_simps split: option.splits intro: life.both evolves_insertShare evolves_awardFor)

lemma evolves_cycle: "evolves strict Market_indexer (committed m) (committed (snd (cycle c ix i m)))"
proof (cases rule: cycle_cases [of c ix i m])
  case (nothing r)
  then show ?thesis by (simp add: life.none)
next
  case (committed_ ps cd f t w)
  obtain fs w1 w2 buys sells w3 where "ix_funding ix f t = Inr fs" "ix_buys ix f t = Inr buys"
      "ix_sells ix f t = Inr sells" and F: "forEach (processFunding c ps) fs (committed m) = Inr w1"
    and A: "activateFunded c ix ps fs w1 = Inr w2"
    and "forEach (processTrade c ps) (windowTrades buys sells) w2 = Inr w3" and "w = w3"
    using committed_(4) unfolding indexWindow_def Let_def windowTrades_def
    by (auto simp: res_simps split: if_splits)
  then have T: "forEach (processTrade c ps) (windowTrades buys sells) w2 = Inr w" by simp
  have "evolves strict Market_indexer (committed m) w1" using F evolves_processFunding by (rule life.loop)
  moreover have "evolves strict Market_indexer w1 w2"
    using A evolves_setStatusRow [of Market_indexer PS_ACTIVE] life_step.funded life.none
    by (auto simp: activateFunded_def res_simps split: if_splits)
  moreover have "evolves strict Market_indexer w2 w" using T evolves_processTrade by (rule life.loop)
  ultimately have "evolves strict Market_indexer (committed m) w" using life.both by blast
  then have "evolves strict Market_indexer (committed m) (updateLastProcessedBlock (ctx_now c) (rowId cd) t w)"
    by (rule life.both) (rule evolves_cursor)
  then show ?thesis using committed_(5) by simp
qed

section \<open>Effects of the resolution\<close>

text \<open>A due market that is treated is still the row that was read.\<close>

lemma evolves_sweep:
  assumes inv: "dbInv d"
    and t: "d' = d\<lparr>prediction_sets := t\<rparr>" "tblInv t"
    and others: "\<forall>j. j \<notin> rowId ` set ps \<longrightarrow> byId j t = byId j (prediction_sets d)"
    and rows: "\<forall>p \<in> set ps. byId (rowId p) (prediction_sets d) = Some p"
    and treated: "\<forall>p \<in> set ps. \<exists>p'. byId (rowId p) t = Some p' \<and> (life_step a)\<^sup>*\<^sup>* (life p) (life p')
        \<and> (life p' = life p \<or> ps_setStatus p' \<noteq> PS_FINALIZED \<or>
           (\<exists>oc. ps_winner_outcome_id p' = Some oc \<and> (oc, rowId p) \<in> outcomeKeys d))"
  shows "evolves strict a d d'"
proof -
  have keys: "outcomeKeys d' = outcomeKeys d" by (simp add: outcomeKeys_def t(1))
  have old: "\<exists>p. byId j (prediction_sets d) = Some p \<and> (q = p \<or> p \<in> set ps)" if q: "byId j t = Some q" for j q
  proof (cases "j \<in> rowId ` set ps")
    case True
    then show ?thesis using rows by auto
  next
    case False
    then show ?thesis using others q by auto
  qed
  have "\<exists>p'. byId j t = Some p' \<and> (life_step a)\<^sup>*\<^sup>* (life p) (life p')"
    if p: "byId j (prediction_sets d) = Some p" for j p
  proof (cases "j \<in> rowId ` set ps")
    case True
    then obtain q where "q \<in> set ps" "rowId q = j" by auto
    then show ?thesis using rows treated p by fastforce
  next
    case False
    then show ?thesis using others p by auto
  qed
  moreover have "winnersOk d'" if ok: "winnersOk d"
    unfolding winnersOk_def
  proof (intro ballI impI)
    fix q
    assume "q \<in> set (rows (prediction_sets d'))" and fin: "ps_setStatus q = PS_FINALIZED"
    then have q: "byId (rowId q) t = Some q" using byId_distinct [OF t(2)] t(1) by simp
    obtain p where p: "byId (rowId q) (prediction_sets d) = Some p" "q = p \<or> p \<in> set ps"
      using old [OF q] by blast
    have pm: "p \<in> set (rows (prediction_sets d))" "rowId p = rowId q" using byId_SomeD [OF p(1)] by simp_all
    have "life q = life p \<or> (\<exists>oc. ps_winner_outcome_id q = Some oc \<and> (oc, rowId p) \<in> outcomeKeys d)"
      using p(2) treated q pm(2) fin by fastforce
    moreover have "hasWinner d p" if "life q = life p"
      using ok pm(1) fin that by (auto simp: winnersOk_def life_def)
    ultimately show "hasWinner d' q" using keys pm(2) by (auto simp: hasWinner_def life_def)
  qed
  ultimately show ?thesis using inv t by (auto simp: evolves_def dbInv_def)
qed

lemma due_active: "p \<in> set (resolutionDue now rt d) \<Longrightarrow> ps_setStatus p = PS_ACTIVE"
  by (simp add: resolutionDue_def)

lemma evolves_manual:
  assumes "finalizeManualSets c orc (s, d) = (s', d')"
  shows "evolves strict Resolver d d'"
proof (rule evolves_if)
  assume inv: "dbInv d"
  let ?ps = "resolutionDue (ctx_now c) RT_MANUAL d"
  note R = resolutionDue_rows [OF dbInv_sets [OF inv], of "ctx_now c" RT_MANUAL]
  obtain t where t: "d' = d\<lparr>prediction_sets := t\<rparr>" "tblInv t"
    "\<forall>j. j \<notin> rowId ` set ?ps \<longrightarrow> byId j t = byId j (prediction_sets d)"
    "\<forall>p \<in> set ?ps. \<exists>p'. byId (rowId p) t = Some p' \<and> manualOutcome c orc d p p'"
    using manual.sweep [OF dbInv_sets [OF inv] R, of c orc s s' d'] assms
    by (auto simp: finalizeManualSets_def)
  show ?thesis
  proof (rule evolves_sweep [OF inv t(1-3) R(2)], intro ballI)
    fix p
    assume p: "p \<in> set ?ps"
    then obtain p' where p': "byId (rowId p) t = Some p'" "manualOutcome c orc d p p'" using t(4) by blast
    moreover have "(life_step Resolver)\<^sup>*\<^sup>* (life p) (life (p\<lparr>ps_setStatus := PS_VOTING\<rparr>))"
      using due_active [OF p] by (auto simp: life_def intro: life_step.undecided)
    ultimately show "\<exists>p'. byId (rowId p) t = Some p' \<and> (life_step Resolver)\<^sup>*\<^sup>* (life p) (life p')
        \<and> (life p' = life p \<or> ps_setStatus p' \<noteq> PS_FINALIZED \<or>
           (\<exists>oc. ps_winner_outcome_id p' = Some oc \<and> (oc, rowId p) \<in> outcomeKeys d))"
      by (auto simp: manualOutcome_def stamped_def life_def)
  qed
qed

lemma evolves_automatic:
  assumes "finalizeAutomaticSets c fl orc (s, d) = (s', d')"
  shows "evolves strict Resolver d d'"
proof (rule evolves_if)
  assume inv: "dbInv d"
  let ?ps = "resolutionDue (ctx_now c) RT_AUTOMATIC d"
  note R = resolutionDue_rows [OF dbInv_sets [OF inv], of "ctx_now c" RT_AUTOMATIC]
  obtain t where t: "d' = d\<lparr>prediction_sets := t\<rparr>" "tblInv t"
    "\<forall>j. j \<notin> rowId ` set ?ps \<longrightarrow> byId j t = byId j (prediction_sets d)"
    "\<forall>p \<in> set ?ps. \<exists>p'. byId (rowId p) t = Some p' \<and> automaticOutcome c fl orc d p p'"
    using automatic.sweep [OF dbInv_sets [OF inv] R, of c fl orc s s' d'] assms
    by (auto simp: finalizeAutomaticSets_def)
  show ?thesis
  proof (rule evolves_sweep [OF inv t(1-3) R(2)], intro ballI)
    fix p
    assume p: "p \<in> set ?ps"
    then obtain p' where p': "byId (rowId p) t = Some p'" "automaticOutcome c fl orc d p p'" using t(4) by blast
    have st: "ps_setStatus p = PS_ACTIVE" using due_active [OF p] .
    consider (same) "p' = p" | (error) "p' = stamped c (p\<lparr>ps_setStatus := PS_ERROR\<rparr>)"
      | (final) oc idx where "populateByIndexAndPredictionSetId idx (rowId p) d = Some oc"
          "p' = stamped c (p\<lparr>ps_winner_outcome_id := Some (rowId oc), ps_setStatus := PS_FINALIZED\<rparr>)"
      | (voting) "p' = stamped c (p\<lparr>ps_setStatus := PS_VOTING\<rparr>)"
      using p'(2) unfolding automaticOutcome_def Let_def by blast
    then have "(life_step Resolver)\<^sup>*\<^sup>* (life p) (life p') \<and> (life p' = life p \<or> ps_setStatus p' \<noteq> PS_FINALIZED \<or>
           (\<exists>oc. ps_winner_outcome_id p' = Some oc \<and> (oc, rowId p) \<in> outcomeKeys d))"
    proof cases
      case final
      have "(rowId oc, rowId p) \<in> outcomeKeys d"
        using final(1) by (auto simp: populateByIndexAndPredictionSetId_def outcomeKeys_def dest!: find_SomeD)
      then show ?thesis using final(2) st by (auto simp: stamped_def life_def intro: life_step.resolved)
    qed (use st in \<open>auto simp: stamped_def life_def intro: life_step.unattested life_step.undecided\<close>)
    then show "\<exists>p'. byId (rowId p) t = Some p' \<and> (life_step Resolver)\<^sup>*\<^sup>* (life p) (life p')
        \<and> (life p' = life p \<or> ps_setStatus p' \<noteq> PS_FINALIZED \<or>
           (\<exists>oc. ps_winner_outcome_id p' = Some oc \<and> (oc, rowId p) \<in> outcomeKeys d))"
      using p'(1) by blast
  qed
qed

section \<open>Effects of the other parts\<close>

lemma evolves_other_tables:
  "(tblInv (watchlists d) \<Longrightarrow> tblInv t) \<Longrightarrow> evolves strict a d (d\<lparr>watchlists := t\<rparr>)"
  "(tblInv (proposals d) \<Longrightarrow> tblInv u) \<Longrightarrow> evolves strict a d (d\<lparr>proposals := u\<rparr>)"
  "(tblInv (proposal_votes d) \<Longrightarrow> tblInv v) \<Longrightarrow> evolves strict a d (d\<lparr>proposal_votes := v\<rparr>)"
  "(tblInv (proposal_rounds d) \<Longrightarrow> tblInv w) \<Longrightarrow> evolves strict a d (d\<lparr>proposal_rounds := w\<rparr>)"
  by (rule evolves_same_outcomes; simp add: dbInv_def)+

lemma evolves_attestations: "evolves strict Other d (requestPredictionSetAttestations c fl d)"
  unfolding requestPredictionSetAttestations_def
proof (rule life.folded)
  fix p d
  show "evolves strict Other d (requestSetAttestations c fl p d)"
    unfolding requestSetAttestations_def Let_def
  proof (rule life.folded)
    fix ds d
    obtain t where "requestAttestation c fl (rowId p) ds d = d\<lparr>attestations := t\<rparr>"
      "tblInv (attestations d) \<longrightarrow> tblInv t" using requestAttestation_frame by blast
    then show "evolves strict Other d (requestAttestation c fl (rowId p) ds d)"
      using evolves_tables(7) by simp
  qed
qed

lemma evolves_proofs: "evolves strict Other d (requestPredictionSetAttestationProofs c fl d)"
  unfolding requestPredictionSetAttestationProofs_def
proof (rule life.folded, rule life.folded)
  fix att :: attestation and d
  show "evolves strict Other d (requestProof c fl att d)"
  proof (cases rule: requestProof_cases [of c fl att d])
    case nothing
    then show ?thesis by (simp add: life.none)
  next
    case (proved ap)
    then show ?thesis using evolves_tables(7) by simp
  qed
qed

lemma evolves_awardTx:
  "evolves strict a (committed m) (committed (snd (withTx (\<lambda>d. bindR (awardPoints c u ty k d) (\<lambda>d'. Inr (d', ()))) m)))"
  by (rule life.inTx) (auto simp: res_simps intro: evolves_award)

lemma evolves_daily: "evolves strict Other (committed m) (committed (snd (claimUserDailyReward c u m)))"
  using evolves_awardTx life.none by (simp add: claimUserDailyReward_def)

lemma evolves_watch: "evolves strict Other (committed m) (committed (snd (addUserWatchlist c u i m)))"
proof (cases "populateByUserAndPredictionSetId u i (committed m) = None")
  case True
  then show ?thesis
    unfolding addUserWatchlist_def
    by (simp, intro life.inTx) (auto simp: res_simps intro!: evolves_other_tables(1) intro: tblInv_insertRow)
qed (simp add: addUserWatchlist_def life.none)

lemma evolves_unwatch: "evolves strict Other (committed m) (committed (snd (removeUserWatchlist u i m)))"
  by (auto simp: removeUserWatchlist_def life.none tblInv_deleteRow intro!: evolves_other_tables(1) split: option.split)

fun_cases proposalTx_elims: "proposalTx flagged (c, Create b) d = Inr x" "proposalTx flagged (c, Edit i b) d = Inr x"
  "proposalTx flagged (c, Remove i) d = Inr x"

lemma proposalTx_frame: "proposalTx flagged (c, r) d = Inr (d', a) \<Longrightarrow> \<exists>t. d' = d\<lparr>proposals := t\<rparr>"
  by (cases r) (auto simp: res_simps createProposalTx_def updateProposalTx_def deleteProposalTx_def setProposal_def
      elim!: proposalTx_elims)

lemma evolves_proposalTx: "proposalTx flagged (c, r) d = Inr (d', a) \<Longrightarrow> evolves strict Other d d'"
  using proposalTx_frame [of flagged c r d d' a] proposalTx_dbInv [of d flagged "(c, r)" d' a]
  by (intro evolves_same_outcomes) auto

lemma evolves_proposals:
  "evolves strict Other (committed m) (committed (snd (createProposal c flagged b m)))"
  "evolves strict Other (committed m) (committed (snd (updateProposal c flagged i b m)))"
  "evolves strict Other (committed m) (committed (snd (deleteProposal c i m)))"
  unfolding createProposal_def updateProposal_def deleteProposal_def
  by (rule life.inTx, rule evolves_proposalTx [of flagged c "Create b" _ _ "()"], simp,
      rule life.inTx, rule evolves_proposalTx [of flagged c "Edit i b" _ _ "()"], simp,
      rule life.inTx, rule evolves_proposalTx [of flagged c "Remove i" _ _ "()"], simp)

lemma evolves_voteOnProposal: "evolves strict Other (committed m) (committed (snd (voteOnProposal c i vt m)))"
proof (cases rule: voteOnProposal_cases [of c i vt m])
  case refused
  then show ?thesis by (simp add: life.none)
next
  case again
  then show ?thesis using evolves_other_tables(3) by simp
next
  case (first p u j t m1)
  have "evolves strict Other (committed m) (committed m1)"
    using evolves_other_tables(3) tblInv_insertRow first(3,4) by fastforce
  then show ?thesis using first(5) evolves_awardTx life.both by fastforce
qed

lemma evolves_rounds: "evolves strict Other (committed m) (committed (finalizeProposalRounds c offset tie m))"
proof -
  have one: "evolves strict Other (committed m) (committed (snd (withTx (finalizeRoundTx c offset tie rd) m)))" for rd m
  proof (rule life.inTx)
    fix d' u
    let ?d = "committed m"
    assume "finalizeRoundTx c offset tie rd ?d = Inr (d', u)"
    then obtain d1 t i n where aw: "(case winningProposal tie (rowId rd) ?d of None \<Rightarrow> Inr ?d
         | Some p \<Rightarrow> awardPoints c (pr_user_id p) PROPOSAL_WINNER 1 ?d) = Inr d1"
      and ins: "insertRow c noClash n (updateRow c (rowId rd) (finishRound (winningProposal tie (rowId rd) ?d))
           (proposal_rounds d1)) = Inr (i, t)"
      and d': "d' = d1\<lparr>proposal_rounds := t\<rparr>"
      unfolding finalizeRoundTx_def Let_def by (auto simp: res_simps)
    have "evolves strict Other ?d d1" using aw evolves_award life.none by (auto split: option.splits)
    moreover have "evolves strict Other d1 d'"
      unfolding d' using tblInv_insertRow [OF _ ins] by (intro evolves_other_tables(4)) simp
    ultimately show "evolves strict Other ?d d'" using life.both by blast
  qed
  have "evolves strict Other (committed m)
      (committed (fold (\<lambda>rd m. snd (withTx (finalizeRoundTx c offset tie rd) m)) rds m))" for rds
  proof (induction rds arbitrary: m)
    case (Cons rd rds)
    show ?case using life.both [OF one Cons.IH] by simp
  qed (simp add: life.none)
  then show ?thesis by (simp add: finalizeProposalRounds_def)
qed

end
