(* ===== verification/System.thy ===== *)
theory System
  imports Lifecycle
begin

text \<open>
  The system as one relation: a step is one run of an operation of some part, with
  the state of the oracle contract beside the database.  Every step refines the
  abstract life of every market, and over any interleaving of the parts a finalized
  market has a winner among its own outcomes.
\<close>

section \<open>The relation\<close>

inductive system_step :: "bool \<Rightarrow> actor \<Rightarrow> 'o \<times> db mysql \<Rightarrow> 'o \<times> db mysql \<Rightarrow> bool" for strict :: bool where
  create: "(strict \<longrightarrow> ps_setStatus p \<noteq> PS_FINALIZED) \<Longrightarrow>
    system_step strict Api (s, m) (s, snd (createPredictionSet c k p ocs dsIds cats m))"
| process: "system_step strict Api (s, m) (s, fst (snd (processPredictionSet c send i m)))"
| update: "(strict \<longrightarrow> ps_setStatus p \<noteq> PS_FINALIZED) \<Longrightarrow>
    system_step strict Api (s, m) (s, snd (updatePredictionSet c i p ocs dsIds m))"
| hide: "system_step strict Api (s, m) (s, snd (updatePredictionHide c i h m))"
| delete: "system_step strict Api (s, m) (s, snd (deletePredictionSet c i m))"
| watch: "system_step strict Other (s, m) (s, snd (addUserWatchlist c u i m))"
| unwatch: "system_step strict Other (s, m) (s, snd (removeUserWatchlist u i m))"
| daily: "system_step strict Other (s, m) (s, snd (claimUserDailyReward c u m))"
| propose: "system_step strict Other (s, m) (s, snd (createProposal c flagged b m))"
| edit: "system_step strict Other (s, m) (s, snd (updateProposal c flagged i b m))"
| withdraw: "system_step strict Other (s, m) (s, snd (deleteProposal c i m))"
| vote: "system_step strict Other (s, m) (s, snd (voteOnProposal c i vt m))"
| rounds: "system_step strict Other (s, m) (s, finalizeProposalRounds c offset tie m)"
| onChain: "system_step strict Creator (s, m) (s, snd (handleCreatePredictionSet c mf i m))"
| created: "system_step strict Factory (s, m) (s, parsePredictionSets c factory m)"
| voted: "system_step strict Votes (s, m) (s, parseVotes c voting m)"
| claimed: "system_step strict Other (s, m) (s, parseClaims c claims m)"
| removed: "system_step strict Other (s, m) (s, finalizedExecutor c market i m)"
| indexed: "system_step strict Market_indexer (s, m) (s, snd (cycle c ix i m))"
| manual: "finalizeManualSets c orc (s, committed m) = (s', d) \<Longrightarrow>
    system_step strict Resolver (s, m) (s', m\<lparr>committed := d\<rparr>)"
| automatic: "finalizeAutomaticSets c fl orc (s, committed m) = (s', d) \<Longrightarrow>
    system_step strict Resolver (s, m) (s', m\<lparr>committed := d\<rparr>)"
| requested: "system_step strict Other (s, m) (s, single (requestPredictionSetAttestations c fl) m)"
| proved: "system_step strict Other (s, m) (s, single (requestPredictionSetAttestationProofs c fl) m)"

lemmas evolves_operations =
  evolves_create evolves_process evolves_update evolves_hide evolves_delete evolves_watch evolves_unwatch
  evolves_daily evolves_proposals evolves_voteOnProposal evolves_rounds evolves_creation_worker
  evolves_parsePredictionSets evolves_parseVotes evolves_parseClaims evolves_finalizedExecutor
  evolves_cycle evolves_manual evolves_automatic evolves_attestations evolves_proofs

lemma system_step_evolves:
  assumes "system_step strict a x y"
  shows "evolves strict a (committed (snd x)) (committed (snd y))"
  using assms by induction (auto intro: evolves_operations)

section \<open>Refinement and invariant\<close>

text \<open>
  C2: The parts respect each other's turf: in every step of the system, whatever
  operation runs with whatever request, contract or oracle, every market survives
  and its pair of status and winner moves only along the abstract steps of the part
  that ran; a winner, once set, may be replaced but never withdrawn, and the parts
  that do not own the life of markets leave it unchanged.
\<close>

theorem market_lifecycle:
  assumes "system_step strict a x y" and "dbInv (committed (snd x))"
    and "byId i (prediction_sets (committed (snd x))) = Some p"
  shows "\<exists>p'. byId i (prediction_sets (committed (snd y))) = Some p'
    \<and> (life_step a)\<^sup>*\<^sup>* (ps_setStatus p, ps_winner_outcome_id p) (ps_setStatus p', ps_winner_outcome_id p')
    \<and> (ps_winner_outcome_id p \<noteq> None \<longrightarrow> ps_winner_outcome_id p' \<noteq> None)
    \<and> (a = Other \<longrightarrow> ps_setStatus p' = ps_setStatus p \<and> ps_winner_outcome_id p' = ps_winner_outcome_id p)"
proof -
  obtain p' where p': "byId i (prediction_sets (committed (snd y))) = Some p'" "(life_step a)\<^sup>*\<^sup>* (life p) (life p')"
    using evolvesD [OF system_step_evolves [OF assms(1)] assms(2,3)] by blast
  then show ?thesis
    using life_step_winner [OF p'(2)] life_steps_Other [of "life p" "life p'"]
    by (intro exI [of _ p']) (auto simp: life_def)
qed

text \<open>
  C3: Over any interleaving of all parts in which no request body of a create or an
  update says FINALIZED, every finalized market names a winner, and that winner is an
  outcome of the market itself: outcomes cannot be replaced under a finalized market,
  and no worker finalizes without an outcome found for it.
\<close>

theorem finalized_has_winner:
  assumes "(\<lambda>x y. \<exists>a. system_step True a x y)\<^sup>*\<^sup>* x y"
    and "dbInv (committed (snd x))" and "winnersOk (committed (snd x))"
    and "p \<in> set (rows (prediction_sets (committed (snd y))))" and "ps_setStatus p = PS_FINALIZED"
  shows "dbInv (committed (snd y)) \<and> (\<exists>oc \<in> set (rows (outcomes (committed (snd y)))).
    ps_winner_outcome_id p = Some (rowId oc) \<and> oc_prediction_set_id oc = rowId p)"
proof -
  have "dbInv (committed (snd y)) \<and> winnersOk (committed (snd y))"
    using assms(1)
  proof induction
    case (step y z)
    then show ?case using system_step_evolves by (fastforce simp: evolves_def)
  qed (use assms in simp)
  then show ?thesis
    using assms(4,5) unfolding winnersOk_def hasWinner_def outcomeKeys_def by fastforce
qed


end
