(* ===== verification/Examples.thy ===== *)
theory Examples
  imports Indexer_Planner System
begin

text \<open>
  A small concrete database, a request context and concrete chains on which the
  theory \<open>Witnesses\<close> applies the properties: one user with a wallet, an admin's
  market in each status that a property needs, its outcomes, data sources and
  chain data, the three contracts and the rewards of the seeds.
\<close>

section \<open>Requests\<close>

definition exCtx :: ctx where
  "exCtx = \<lparr>ctx_user = Some 1, ctx_roles = [2], ctx_now = 864000000\<rparr>"

definition exNext :: ctx where
  "exNext = \<lparr>ctx_user = Some 1, ctx_roles = [2], ctx_now = 950400000\<rparr>"

section \<open>Rows\<close>

definition exSet :: "nat \<Rightarrow> PredictionSetStatus \<Rightarrow> int \<Rightarrow> prediction_set" where
  "exSet i st rt = \<lparr>rowId = i, status = ACTIVE, createTime = 1, updateTime = 1,
     createUser = Some 2, updateUser = Some 2, ps_winner_outcome_id = None,
     ps_collateral_token_id = 1, ps_question = ''Rain?'', ps_outcomeResolutionDef = ''Gauge'',
     ps_startTime = 10, ps_endTime = 20, ps_attestationTime = Some 25, ps_resolutionTime = 30,
     ps_resolutionType = rt, ps_consensusThreshold = Some 60, ps_setStatus = st,
     ps_imgUrl = [], ps_hide = False, ps_marketCapPercent = 0\<rparr>"

definition exOutcome :: "nat \<Rightarrow> nat \<Rightarrow> nat \<Rightarrow> string \<Rightarrow> outcome" where
  "exOutcome i psId idx name = \<lparr>rowId = i, status = ACTIVE, createTime = 1, updateTime = 1,
     createUser = Some 2, updateUser = Some 2, oc_name = name, oc_prediction_set_id = psId,
     oc_outcomeIndex = idx, oc_positionId = None, oc_imgUrl = []\<rparr>"

definition exSource :: "nat \<Rightarrow> data_source" where
  "exSource i = \<lparr>rowId = i, status = ACTIVE, createTime = 1, updateTime = 1,
     createUser = Some 2, updateUser = Some 2, ds_endpoint = ''u'', ds_jqQuery = ''j'',
     ds_abi = ''a'', ds_httpMethod = ''GET'', ds_body = [], ds_headers = [], ds_queryParams = []\<rparr>"

definition exChainData :: "nat \<Rightarrow> nat \<Rightarrow> string \<Rightarrow> string \<Rightarrow> string option \<Rightarrow> chain_data" where
  "exChainData i psId qid cid addr = \<lparr>rowId = i, status = ACTIVE, createTime = 1, updateTime = 1,
     createUser = Some 2, updateUser = Some 2, cd_prediction_set_id = psId, cd_questionId = qid,
     cd_conditionId = cid, cd_txHash = ''t'', cd_contractAddress = addr, cd_oracleContract = ''o'',
     cd_lastProcessedBlock = 100, cd_parseBlockSize = 10\<rparr>"

definition exContract :: "nat \<Rightarrow> contract" where
  "exContract i = \<lparr>rowId = i, status = ACTIVE, createTime = 1, updateTime = 1,
     createUser = None, updateUser = None, con_name = ''c'', con_contractAddress = ''a'',
     con_lastProcessedBlock = 100, con_parseBlockSize = 10\<rparr>"

definition exToken :: collateral_token where
  "exToken = \<lparr>rowId = 1, status = ACTIVE, createTime = 1, updateTime = 1, createUser = None,
     updateUser = None, co_name = ''USD'', co_symbol = ''USD'', co_address = ''a'', co_decimals = 6,
     co_fundingThreshold = 100, co_usdPriceId = ''usd'', co_usdPrice = 1, co_imgUrl = [],
     co_requiredVotingAmount = 1\<rparr>"

definition exUser :: "nat \<Rightarrow> string \<Rightarrow> user" where
  "exUser i wallet = \<lparr>rowId = i, status = ACTIVE, createTime = 1, updateTime = 1, createUser = None,
     updateUser = None, us_username = Some wallet, us_email = None, us_emailStatus = EMAIL_PENDING,
     us_walletAddress = wallet, us_referralId = ''r''\<rparr>"

definition exReward :: "nat \<Rightarrow> RewardType \<Rightarrow> int \<Rightarrow> reward_points" where
  "exReward i ty v = \<lparr>rowId = i, status = ACTIVE, createTime = 1, updateTime = 1, createUser = None,
     updateUser = None, rp_name = ''n'', rp_description = ''d'', rp_reason = ''r'', rp_type = ty,
     rp_value = v\<rparr>"

definition exAttestation :: "nat \<Rightarrow> nat \<Rightarrow> nat \<Rightarrow> attestation_proof option \<Rightarrow> attestation" where
  "exAttestation i psId dsId pf = \<lparr>rowId = i, status = ACTIVE, createTime = 1, updateTime = 1,
     createUser = None, updateUser = None, at_prediction_set_id = psId, at_data_source_id = dsId,
     at_roundId = 7, at_abiEncodedRequest = ''q'', at_proof = pf\<rparr>"

definition exRound :: "nat \<Rightarrow> int \<Rightarrow> proposal_round" where
  "exRound i end = \<lparr>rowId = i, status = ACTIVE, createTime = 1, updateTime = 1, createUser = None,
     updateUser = None, rd_rewardPoints = 50, rd_startTime = 0, rd_endTime = end,
     rd_roundStatus = ROUND_ACTIVE, rd_winner_id = None\<rparr>"

definition exProposal :: "nat \<Rightarrow> nat \<Rightarrow> nat \<Rightarrow> proposal" where
  "exProposal i rdId uId = \<lparr>rowId = i, status = ACTIVE, createTime = 1, updateTime = 1,
     createUser = Some uId, updateUser = Some uId, pr_round_id = rdId, pr_user_id = uId,
     pr_question = ''Rain?'', pr_generalResolutionDef = ''g'', pr_outcomes = Some ''a;b'',
     pr_tags = None\<rparr>"

definition tblOf :: "'r list \<Rightarrow> 'r tbl" where
  "tblOf rs = \<lparr>auto_increment = length rs + 1, rows = rs\<rparr>"

section \<open>The database\<close>

text \<open>
  Market 1 is INITIALIZED, 2 PENDING, 3 ACTIVE with manual and 4 ACTIVE with
  automatic resolution, 5 FUNDING on chain.
\<close>

definition exDb :: db where
  "exDb = emptyDb\<lparr>
     prediction_sets := tblOf [exSet 1 PS_INITIALIZED 2, exSet 2 PS_PENDING 2, exSet 3 PS_ACTIVE 2,
        exSet 4 PS_ACTIVE 1, exSet 5 PS_FUNDING 2],
     outcomes := tblOf [exOutcome 1 3 0 ''yes'', exOutcome 2 3 1 ''no'', exOutcome 3 4 0 ''yes'',
        exOutcome 4 4 1 ''no'', exOutcome 5 5 0 ''yes'', exOutcome 6 5 1 ''no''],
     data_sources := tblOf [exSource 1],
     ps_data_sources := [(4, 1)],
     chain_datas := tblOf [exChainData 1 3 ''q3'' ''c3'' (Some ''m3''),
        exChainData 2 4 ''q4'' ''c4'' (Some ''m4''), exChainData 3 5 ''q5'' ''c5'' (Some ''m5'')],
     collateral_tokens := tblOf [exToken],
     contracts := tblOf [exContract 1, exContract 2, exContract 3],
     users := tblOf [exUser 1 ''w1'', exUser 2 ''w2''],
     reward_pointss := tblOf [exReward 1 DAILY_LOGIN 5, exReward 2 PROPOSAL_VOTE 3,
        exReward 3 MARKET_WINNER 20, exReward 4 MARKET_FUNDING 4, exReward 5 BUYING_SHARES 2,
        exReward 6 SELLING_SHARES 2, exReward 7 PROPOSAL_WINNER 30],
     proposal_rounds := tblOf [exRound 1 864000001],
     proposals := tblOf [exProposal 1 1 2]\<rparr>"

definition exM :: "db mysql" where
  "exM = \<lparr>committed = exDb, openTx = 0\<rparr>"

lemmas ex_defs = exDb_def exM_def exCtx_def exNext_def emptyDb_def emptyTbl_def tblOf_def
  exSet_def exOutcome_def exSource_def exChainData_def exContract_def exToken_def exUser_def
  exReward_def exAttestation_def exRound_def exProposal_def

lemma exM_simps [simp]:
  "committed exM = exDb" "openTx exM = 0"
  by (simp_all add: exM_def)

lemma exDb_inv: "dbInv exDb"
  by (simp add: ex_defs dbInv_def tblInv_def)


section \<open>Chains and queues\<close>

definition exFactory :: market_factory where
  "exFactory = \<lparr>mf_initializeQuestion = (\<lambda>q. Inr ()), mf_getConditionId = (\<lambda>q n. Inr ''c2''),
     mf_createMarket = (\<lambda>r. Inr 90), mf_oracleAddress = ''o'', mf_parseBlockSize = 50,
     mf_marketCapPercent = 10\<rparr>"

definition exVote :: vote_event where
  "exVote = \<lparr>ve_voter = ''w1'', ve_questionId = ''q3'', ve_outcomeIndex = 1, ve_txHash = ''t1''\<rparr>"

definition exForced :: forced_event where
  "exForced = \<lparr>fe_admin = ''w2'', fe_questionId = ''q3'', fe_txHash = ''t0''\<rparr>"

definition exVoting :: vote_chain where
  "exVoting = \<lparr>vc_head = 105, vc_votes = (\<lambda>f t. Inr [exVote]), vc_forced = (\<lambda>f t. Inr [exForced]),
     vc_question = (\<lambda>q. Inr (3, 1))\<rparr>"

definition exDecided :: vote_chain where
  "exDecided = exVoting\<lparr>vc_forced := (\<lambda>f t. Inr [])\<rparr>"

definition exClaim :: "string \<Rightarrow> claim_event" where
  "exClaim wallet = \<lparr>ce_wallet = wallet, ce_conditionId = ''c3'', ce_indexSet = 2, ce_payout = 9,
     ce_txHash = ''t2''\<rparr>"

definition exClaims :: claim_chain where
  "exClaims = \<lparr>cc_head = 105, cc_claims = (\<lambda>f t. Inr [exClaim ''w1'', exClaim ''w9''])\<rparr>"

definition exCreated :: factory_event where
  "exCreated = \<lparr>fa_contractAddress = ''m9'', fa_conditionId = ''c5'', fa_txHash = ''t3'', fa_blockNumber = 101\<rparr>"

definition exFactoryChain :: factory_chain where
  "exFactoryChain = \<lparr>fc_head = 105, fc_created = (\<lambda>f t. Inr [exCreated]), fc_finishSetup = (\<lambda>a. Inr ()),
     fc_positionId = (\<lambda>a k. Inr (if k = 0 then ''p0'' else ''p1''))\<rparr>"

definition exFund :: fund_event where
  "exFund = \<lparr>fu_txHash = ''t4'', fu_wallet = ''w9'', fu_amounts = [1000, 1000], fu_shares = 1000\<rparr>"

definition exBuy :: trade_event where
  "exBuy = \<lparr>te_type = ST_BUY, te_txHash = ''t5'', te_wallet = ''w9'', te_amount = 100, te_feeAmount = 1,
     te_outcomeIndex = 1, te_outcomeTokens = 180\<rparr>"

definition exIndex :: index_chain where
  "exIndex = \<lparr>ix_head = 105, ix_funding = (\<lambda>f t. Inr [exFund]), ix_isFunded = Inr True,
     ix_buys = (\<lambda>f t. Inr [exBuy]), ix_sells = (\<lambda>f t. Inr []), ix_enqueue = (\<lambda>i. Inr ())\<rparr>"

definition exProof :: attestation_proof where
  "exProof = \<lparr>ap_response_hex = ''0x'', ap_attestation_type = ''Web2Json'', ap_proof = [''h'']\<rparr>"

definition exResponse :: response_data where
  "exResponse = \<lparr>rs_attestationType = ''w'', rs_sourceId = ''s'', rs_votingRound = 7,
     rs_lowestUsedTimestamp = 1, rs_requestBody = [''u''], rs_responseBody = [''d'']\<rparr>"

definition exFlare :: flare where
  "exFlare = \<lparr>fl_prod = False,
     fl_prepareRequest = (\<lambda>r. Inr \<lparr>er_status = VALID, er_abiEncodedRequest = ''q''\<rparr>),
     fl_requestAttestation = (\<lambda>r. Inr 1000), fl_votingOffset = 100, fl_votingDuration = 90,
     fl_isFinalized = (\<lambda>k r. Inr True), fl_proofByRequest = (\<lambda>r q. Inr (Some exProof)),
     fl_decode = (\<lambda>h. Inr exResponse), fl_verifyWeb2Json = (\<lambda>p. Inr True)\<rparr>"

text \<open>An oracle that holds the status it will answer, one that finalizes with outcome 1.\<close>

definition exOracle :: "(int \<times> int) question_oracle" where
  "exOracle = \<lparr>or_finalizeQuestion = (\<lambda>q ps s. Inr s), or_question = (\<lambda>q s. Inr s)\<rparr>"

text \<open>Market 4 within its attestation period, and with its attestation, without and with the proof.\<close>

definition exAttestDb :: db where
  "exAttestDb = exDb\<lparr>prediction_sets := tblOf
     [exSet 1 PS_INITIALIZED 2, exSet 2 PS_PENDING 2, exSet 3 PS_ACTIVE 2,
      (exSet 4 PS_ACTIVE 1)\<lparr>ps_resolutionTime := 900000000\<rparr>, exSet 5 PS_FUNDING 2]\<rparr>"

definition exAttestedDb :: "attestation_proof option \<Rightarrow> db" where
  "exAttestedDb pf = exDb\<lparr>attestations := tblOf [exAttestation 1 4 1 pf]\<rparr>"

lemmas ex_chain_defs = exFactory_def exVote_def exForced_def exVoting_def exDecided_def exClaim_def exClaims_def
  exCreated_def exFactoryChain_def exFund_def exBuy_def exIndex_def exProof_def exResponse_def
  exFlare_def exOracle_def exAttestDb_def exAttestedDb_def

text \<open>A result is its error or value together with the state it leaves.\<close>

lemma result_split: "fst x = r \<Longrightarrow> x = (r, snd x)"
  by (cases x) simp


section \<open>A window of the indexer, step by step\<close>

definition exStamp :: "'r row_scheme \<Rightarrow> 'r row_scheme" where
  "exStamp r = r\<lparr>rowId := 1, createTime := 864000000, updateTime := 864000000,
     createUser := Some 1, updateUser := Some 1\<rparr>"

definition exFunded :: db where
  "exFunded = exDb\<lparr>funding_transactions := tblOf [exStamp (newFunding exFund 1000 None 5)]\<rparr>"

definition exActive :: db where
  "exActive = setStatusRow exCtx 5 PS_ACTIVE exFunded"

definition exTraded :: db where
  "exTraded = exActive\<lparr>share_transactions :=
     tblOf [exStamp (newShare ST_BUY ''t5'' ''w9'' 100 1 1 180 None 6 5)]\<rparr>"

lemma exAmounts: "amountsOf (fu_amounts exFund) = [1000, 1000]" "double (of_int (te_amount exBuy)) = 100"
  "maxOf [1000, 1000] = 1000" "minOf [1000, 1000] = 1000"
  using double_int [of 1000] double_int [of 100]
  by (simp_all add: amountsOf_def exFund_def exBuy_def maxOf_def minOf_def)

lemma exFunding: "processFunding exCtx (exSet 5 PS_FUNDING 2) exFund exDb = Inr exFunded"
  unfolding processFunding_def Let_def exAmounts exFunded_def exStamp_def
  by (simp add: ex_defs exFund_def newFunding_def awardFor_def insertRow_def populateByWalletAddress_def)

lemma exActivating: "activateFunded exCtx exIndex (exSet 5 PS_FUNDING 2) [exFund] exFunded = Inr exActive"
  by (simp add: activateFunded_def exIndex_def exActive_def exSet_def)

lemma exTrading: "processTrade exCtx (exSet 5 PS_FUNDING 2) (exBuy\<lparr>te_type := ST_BUY\<rparr>) exActive = Inr exTraded"
  unfolding processTrade_def Let_def exTraded_def exActive_def exFunded_def exStamp_def
  by (simp add: ex_defs exBuy_def newShare_def insertShare_def awardFor_def insertRow_def
      populateByWalletAddress_def populateByIndexAndPredictionSetId_def setStatusRow_def)

lemma exCycle: "cycle exCtx exIndex 5 exM =
    (Again, exM\<lparr>committed := updateLastProcessedBlock 864000000 3 105 exTraded\<rparr>)"
proof -
  let ?cd = "exChainData 3 5 ''q5'' ''c5'' (Some ''m5'')"
  have w: "indexWindow exCtx exIndex (exSet 5 PS_FUNDING 2) 101 105 exDb = Inr exTraded"
    using exFunding exActivating exTrading by (simp add: indexWindow_def exIndex_def)
  have h: "populateById 5 (prediction_sets exDb) = Inr (Some (exSet 5 PS_FUNDING 2))"
    "populateByPredictionSetId 5 exDb = Some ?cd" "cd_contractAddress ?cd = Some ''m5''"
    "nextWindowIndexer (cd_lastProcessedBlock ?cd) (cd_parseBlockSize ?cd) (ix_head exIndex) = Some (101, 105)"
    "rowId ?cd = 3" "ctx_now exCtx = 864000000" by code_simp+
  show ?thesis by (simp add: cycle_def start_def commit_def h w Let_def)
qed

end
