(* ===== verification/Witnesses.thy ===== *)
theory Witnesses
  imports Examples
begin

text \<open>
  One closed instance of every property that has hypotheses: the property is
  applied on the data of \<open>Examples\<close>, where its hypotheses are evaluated.
\<close>

section \<open>Rewards\<close>


theorem daily_reward_race_witness:
  "\<exists>d1 d2. awardPoints exCtx 1 DAILY_LOGIN 1 exDb = Inr d1 \<and> awardPoints exCtx 1 DAILY_LOGIN 1 d1 = Inr d2
    \<and> pointsOf 1 d2 = 10"
proof -
  have h: "canClaimDailyReward (ctx_now exCtx) 1 exDb" "tblInv (reward_transactions exDb)"
    "populateByType DAILY_LOGIN exDb = Some (exReward 1 DAILY_LOGIN 5)" "pointsOf 1 exDb = 0"
    "rp_value (exReward 1 DAILY_LOGIN 5) = 5"
    by code_simp+
  show ?thesis using daily_reward_race [OF h(1-3)] h(4,5) by simp
qed

theorem user_points_add_up_witness:
  "up_referralCount (getUserPoints 1 exDb) = 0 \<and> up_byType (getUserPoints 1 exDb) USER_REFERRAL = 0"
proof -
  have "up_referralCount (getUserPoints 1 exDb) = 0" by code_simp
  then show ?thesis using user_points_add_up [of 1 exDb] by simp
qed

section \<open>Markets\<close>


theorem createPredictionSet_fails_witness:
  "createPredictionSet exCtx 1 ((exSet 0 PS_INITIALIZED 2)\<lparr>ps_collateral_token_id := 9\<rparr>) [] [] [] exM
    = (Inl (CodeException 404 COLLATERAL_TOKEN_DOES_NOT_EXISTS), exM\<lparr>openTx := 1\<rparr>)"
proof -
  let ?p = "(exSet 0 PS_INITIALIZED 2)\<lparr>ps_collateral_token_id := 9\<rparr>"
  have "populateById (ps_collateral_token_id ?p) (collateral_tokens (committed exM)) = Inr None" by code_simp
  then show ?thesis using createPredictionSet_fails [of exCtx 1 ?p "[]" "[]" "[]" exM] by simp
qed

theorem updatePredictionSet_replaces_witness:
  "\<exists>m' p'. updatePredictionSet exCtx 1 (exSet 0 PS_ERROR 2) [exOutcome 0 0 0 ''yes''] [1] exM = (Inr 1, m')
    \<and> byId 1 (prediction_sets (committed m')) = Some p' \<and> ps_setStatus p' = PS_ERROR
    \<and> set (ps_data_sources (committed m')) = {(4, 1), (1, 1)}"
proof -
  let ?m' = "snd (updatePredictionSet exCtx 1 (exSet 0 PS_ERROR 2) [exOutcome 0 0 0 ''yes''] [1] exM)"
  have r: "updatePredictionSet exCtx 1 (exSet 0 PS_ERROR 2) [exOutcome 0 0 0 ''yes''] [1] exM = (Inr 1, ?m')"
    by (rule result_split, code_simp)
  have h: "tblInv (prediction_sets (committed exM))" "ps_setStatus (exSet 0 PS_ERROR 2) = PS_ERROR"
    "ps_data_sources exDb = [(4, 1)]"
    by code_simp+
  from updatePredictionSet_replaces [OF h(1) r] obtain p' where
    p': "byId 1 (prediction_sets (committed ?m')) = Some p'" "ps_setStatus p' = ps_setStatus (exSet 0 PS_ERROR 2)"
    and s: "set (ps_data_sources (committed ?m')) =
       {x \<in> set (ps_data_sources (committed exM)). fst x \<noteq> 1} \<union> Pair 1 ` set [1]" by blast
  have "set (ps_data_sources (committed ?m')) = {(4, 1), (1, 1)}"
    unfolding s by (auto simp: h(3))
  moreover have "ps_setStatus p' = PS_ERROR" using p'(2) h(2) by simp
  ultimately show ?thesis using r p'(1) by (intro exI conjI)
qed


theorem process_queue_failure_blocks_witness:
  "\<exists>m'. processPredictionSet exCtx (\<lambda>i. Inl (JsError ''queue'')) 1 exM = (Inl (JsError ''queue''), m', [])
    \<and> processPredictionSet exNext (\<lambda>i. Inr ()) 1 m' = (Inl predictionSetBadStatus, m', [])"
proof -
  have h: "tblInv (prediction_sets (committed exM))"
    "byId 1 (prediction_sets (committed exM)) = Some (exSet 1 PS_INITIALIZED 2)" "(1::nat) \<noteq> 0"
    "status (exSet 1 PS_INITIALIZED 2) \<noteq> DELETED" "editable (ps_setStatus (exSet 1 PS_INITIALIZED 2))"
    by code_simp+
  show ?thesis using process_queue_failure_blocks [OF h, of "\<lambda>i. Inl (JsError ''queue'')"] by blast
qed

theorem getPredictionById_visibility_witness:
  "getPredictionById exCtx 8 exDb = Inl predictionSetMissing
    \<and> (\<exists>v. getPredictionById exCtx 3 exDb = Inr v \<and> mv_set v = exSet 3 PS_ACTIVE 2)"
proof -
  have h: "tblInv (prediction_sets exDb)" "byId 8 (prediction_sets exDb) = None"
    "byId 3 (prediction_sets exDb) = Some (exSet 3 PS_ACTIVE 2)" by code_simp+
  have "okR (getPredictionById exCtx 3 exDb)" by code_simp
  then obtain v where v: "getPredictionById exCtx 3 exDb = Inr v" by (auto simp: okR_iff)
  have "getPredictionById exCtx 8 exDb = Inl predictionSetMissing"
    using getPredictionById_visibility [OF h(1), of 8 exCtx] h(2) by simp
  moreover have "mv_set v = exSet 3 PS_ACTIVE 2"
    using getPredictionById_visibility [OF h(1), of 3 exCtx] h(3) v by simp
  ultimately show ?thesis using v by blast
qed

section \<open>Creation on chain\<close>

theorem questionId_roundtrip_witness:
  "fromHexString (drop 2 (numberToBytes32 300)) = 300 \<and> length (numberToBytes32 300) = 66"
  using questionId_roundtrip [of 300] by simp

theorem create_worker_outcome_witness:
  "(\<exists>x. rows (chain_datas (committed (snd (handleCreatePredictionSet exCtx exFactory 2 exM))))
       = rows (chain_datas exDb) @ [x] \<and> cd_questionId x = numberToBytes32 2)
    \<or> committed (snd (handleCreatePredictionSet exCtx exFactory 2 exM))
       = setPredictionSet exCtx 2 (\<lambda>r. r\<lparr>ps_setStatus := PS_ERROR\<rparr>) exDb"
proof -
  have h: "tblInv (prediction_sets (committed exM))"
    "byId 2 (prediction_sets (committed exM)) = Some (exSet 2 PS_PENDING 2)" "(2::nat) \<noteq> 0"
    "status (exSet 2 PS_PENDING 2) \<noteq> DELETED" "ps_setStatus (exSet 2 PS_PENDING 2) = PS_PENDING" by code_simp+
  show ?thesis
    using create_worker_outcome [OF h(1-4), of exCtx exFactory
        "fst (handleCreatePredictionSet exCtx exFactory 2 exM)" "snd (handleCreatePredictionSet exCtx exFactory 2 exM)"]
      h(5) by auto
qed

section \<open>Workers\<close>

theorem single_block_window_witness:
  "nextWindowIndexer 100 10 101 = Some (101, 101) \<and> nextWindow 100 10 101 = None
    \<and> nextWindow 100 10 107 = nextWindowIndexer 100 10 107"
  using single_block_window [of 10 100] by simp

theorem voting_blocks_once_witness:
  "concat (map (\<lambda>w. [fst w..snd w]) (voting.windows exCtx [exVoting] exDb))
      = [101..contractCursor IGNITE_ORACLE (committed (parseVotes exCtx exVoting exM))]
    \<and> contractCursor IGNITE_ORACLE (committed (parseVotes exCtx exVoting exM)) = 105"
proof -
  have h: "contractReady IGNITE_ORACLE (committed exM)" "contractCursor IGNITE_ORACLE (committed exM) = 100"
    "contractCursor IGNITE_ORACLE (committed (parseVotes exCtx exVoting exM)) = 105" by code_simp+
  show ?thesis using voting_blocks_once [OF h(1), of exCtx "[exVoting]" exVoting] h(2,3) by simp
qed

theorem unknown_claimer_blocks_claims_witness:
  "parseClaims exCtx exClaims exM = exM"
proof (rule unknown_claimer_blocks_claims)
  show "contractReady CONDITIONAL_TOKENS (committed exM)" by code_simp
  show "nextWindow (contractCursor CONDITIONAL_TOKENS (committed exM))
           (contractBlocks CONDITIONAL_TOKENS (committed exM)) (cc_head exClaims) = Some (101, 105)" by code_simp
  show "cc_claims exClaims 101 105 = Inr [exClaim ''w1'', exClaim ''w9'']" by (simp add: exClaims_def)
  show "exClaim ''w9'' \<in> set [exClaim ''w1'', exClaim ''w9'']" by simp
  show "setOfChainData (populateByConditionId (ce_conditionId (exClaim ''w9'')) (committed exM)) (committed exM)
      = Inr (Some (exSet 3 PS_ACTIVE 2))" by code_simp
  show "populateByWalletAddress (ce_wallet (exClaim ''w9'')) (committed exM) = None" by code_simp
qed

theorem forced_voting_overwrites_final_witness:
  "\<exists>w'. processVoting exCtx exVoting exDb 101 105 exDb = Inr w'
    \<and> liveRow 3 (\<lambda>p. ps_winner_outcome_id p = Some 2 \<and> ps_setStatus p = PS_VOTING) w'"
proof -
  have "okR (processVoting exCtx exVoting exDb 101 105 exDb)" by code_simp
  then obtain w' where w': "processVoting exCtx exVoting exDb 101 105 exDb = Inr w'" by (auto simp: okR_iff)
  have h: "vc_votes exVoting 101 105 = Inr ([] @ [exVote])" "vc_forced exVoting 101 105 = Inr [exForced]"
    "exForced \<in> set [exForced]" "fe_questionId exForced = ve_questionId exVote"
    by (simp_all add: exVoting_def exForced_def exVote_def)
  have k: "populateByQuestionId (ve_questionId exVote) exDb = Some (exChainData 1 3 ''q3'' ''c3'' (Some ''m3''))"
    "cd_prediction_set_id (exChainData 1 3 ''q3'' ''c3'' (Some ''m3'')) = 3"
    "vc_question exVoting (ve_questionId exVote) = Inr (predictionSetBcStatusNo BC_FINALIZED, 1)"
    "populateByIndexAndPredictionSetId 1 3 exDb = Some (exOutcome 2 3 1 ''no'')"
    "rowId (exOutcome 2 3 1 ''no'') = 2" by code_simp+
  have "byId 3 (prediction_sets exDb) = Some (exSet 3 PS_ACTIVE 2)" "status (exSet 3 PS_ACTIVE 2) \<noteq> DELETED"
    "tblInv (prediction_sets exDb)" by code_simp+
  then have l: "liveRow 3 (\<lambda>p. True) exDb" by (simp add: liveRow_def)
  show ?thesis using w' forced_voting_overwrites_final [OF w' h k(1,2) l k(3,4)] k(5) by auto
qed

theorem created_market_is_funding_witness:
  "\<exists>w' (cd :: chain_data) (ps :: prediction_set) x. processCreated exCtx exFactoryChain exCreated exDb = Inr w'
    \<and> liveRow (rowId ps) (\<lambda>p. ps_setStatus p = PS_FUNDING) w'
    \<and> byId (rowId cd) (chain_datas w') = Some x \<and> cd_contractAddress x = Some ''m9''"
proof -
  have "okR (processCreated exCtx exFactoryChain exCreated exDb)" by code_simp
  then obtain w' where w': "processCreated exCtx exFactoryChain exCreated exDb = Inr w'" by (auto simp: okR_iff)
  have h: "tblInv (prediction_sets exDb)" "tblInv (chain_datas exDb)" "tblInv (outcomes exDb)" by code_simp+
  have a: "fa_contractAddress exCreated = ''m9''" by (simp add: exCreated_def)
  from created_market_is_funding [OF w' h] obtain cd :: chain_data and ps :: prediction_set and x where
    "liveRow (rowId ps) (\<lambda>p. ps_setStatus p = PS_FUNDING) w'"
    "byId (rowId cd) (chain_datas w') = Some x" "cd_contractAddress x = Some ''m9''"
    unfolding a by blast
  then show ?thesis using w' by blast
qed

theorem claims_are_rewarded_witness:
  "\<exists>w' new. forEach (processClaim exCtx) [exClaim ''w1''] exDb = Inr w'
    \<and> rows (claim_transactions w') = rows (claim_transactions exDb) @ new
    \<and> length (rows (reward_transactions w')) = length new
    \<and> pointsOf 1 w' = 20 * int (length (filter (\<lambda>r. ct_user_id r = 1) new))"
proof -
  have "okR (forEach (processClaim exCtx) [exClaim ''w1''] exDb)" by code_simp
  then obtain w' where w': "forEach (processClaim exCtx) [exClaim ''w1''] exDb = Inr w'" by (auto simp: okR_iff)
  have h: "rows (reward_transactions exDb) = []" "pointsOf 1 exDb = 0" "rewardValue MARKET_WINNER exDb = 20"
    by code_simp+
  from claims_are_rewarded [OF w'] obtain new where
    "rows (claim_transactions w') = rows (claim_transactions exDb) @ new"
    "length (rows (reward_transactions w')) = length (rows (reward_transactions exDb)) + length new"
    "pointsOf 1 w' = pointsOf 1 exDb + rewardValue MARKET_WINNER exDb
          * int (length (filter (\<lambda>r. ct_user_id r = 1) new))" by blast
  then show ?thesis using w' h by auto
qed

section \<open>Attestation and resolution\<close>

theorem toUtf8HexString_roundtrip_witness:
  "fromUtf8HexString (toUtf8HexString ''Ignite'') = ''Ignite'' \<and> length (toUtf8HexString ''Ignite'') = 66"
proof -
  have "list_all (\<lambda>ch. 16 \<le> (of_char ch :: nat)) ''Ignite''" by code_simp
  from toUtf8HexString_roundtrip [OF this] show ?thesis by simp
qed


theorem proofs_written_once_witness:
  "\<exists>t a'. requestPredictionSetAttestationProofs exCtx exFlare (exAttestedDb None)
      = (exAttestedDb None)\<lparr>attestations := t\<rparr> \<and> byId 1 t = Some a' \<and> at_proof a' = Some exProof"
proof -
  have d: "dbInv (exAttestedDb None)" using exDb_inv by (simp add: dbInv_def exAttestedDb_def ex_defs tblInv_def)
  have a: "byId 1 (attestations (exAttestedDb None)) = Some (exAttestation 1 4 1 None)" by code_simp
  have e: "map_option at_proof (byId 1 (attestations
      (requestPredictionSetAttestationProofs exCtx exFlare (exAttestedDb None)))) = Some (Some exProof)" by code_simp
  from proofs_written_once [OF d a, of exCtx exFlare] obtain t a' where
    t: "requestPredictionSetAttestationProofs exCtx exFlare (exAttestedDb None) = (exAttestedDb None)\<lparr>attestations := t\<rparr>"
    "byId 1 t = Some a'" by blast
  then show ?thesis using e by auto
qed

theorem manual_resolution_witness:
  "\<exists>t p'. snd (finalizeManualSets exCtx exOracle ((2, 0), exDb)) = exDb\<lparr>prediction_sets := t\<rparr>
    \<and> byId 3 t = Some p' \<and> ps_setStatus p' = PS_VOTING"
proof -
  obtain s' d' where r: "finalizeManualSets exCtx exOracle ((2, 0), exDb) = (s', d')" by (cases "finalizeManualSets exCtx exOracle ((2, 0), exDb)")
  have b: "byId 3 (prediction_sets exDb) = Some (exSet 3 PS_ACTIVE 2)" by code_simp
  have e: "map_option ps_setStatus (byId 3 (prediction_sets (snd (finalizeManualSets exCtx exOracle ((2, 0), exDb)))))
      = Some PS_VOTING" by code_simp
  from manual_resolution [OF exDb_inv r b] obtain t p' where "d' = exDb\<lparr>prediction_sets := t\<rparr>" "byId 3 t = Some p'"
    by blast
  then show ?thesis using e r by auto
qed


section \<open>The indexer\<close>

theorem fund_cost_bounds_witness:
  "0 \<le> outcomePrice (amountsOf [1000, 600]) 1 \<and> outcomePrice (amountsOf [1000, 600]) 1 \<le> 1
    \<and> 0 \<le> fundCost (amountsOf [1000, 600]) (maxOf (amountsOf [1000, 600])) 1 (amountsOf [1000, 600] ! 1)"
proof -
  have "1 < length (amountsOf [1000, 600])" by (simp add: amountsOf_def)
  from fund_cost_bounds [OF this] show ?thesis by simp
qed

theorem indexer_records_window_witness:
  "\<exists>m' ps cd. cycle exCtx exIndex 5 exM = (Again, m') \<and> cycle_committed exCtx exIndex 5 exDb (committed m') ps cd 101 105
    \<and> ps = exSet 5 PS_FUNDING 2"
proof -
  let ?m' = "exM\<lparr>committed := updateLastProcessedBlock 864000000 3 105 exTraded\<rparr>"
  let ?cd = "exChainData 3 5 ''q5'' ''c5'' (Some ''m5'')"
  have h: "tblInv (prediction_sets (committed exM))" "tblInv (chain_datas (committed exM))" by code_simp+
  have k: "byId 5 (prediction_sets exDb) = Some (exSet 5 PS_FUNDING 2)"
    "populateByPredictionSetId 5 exDb = Some ?cd"
    "nextWindowIndexer (cd_lastProcessedBlock ?cd) (cd_parseBlockSize ?cd) (ix_head exIndex) = Some (101, 105)" by code_simp+
  have "?m' \<noteq> exM"
  proof
    assume "?m' = exM"
    then have "share_transactions (committed ?m') = share_transactions exDb" by simp
    then show False
      by (simp add: updateLastProcessedBlock_def exTraded_def exDb_def emptyDb_def emptyTbl_def tblOf_def)
  qed
  with indexer_records_window [OF h exCycle] k
  have "cycle_committed exCtx exIndex 5 exDb (committed ?m') (exSet 5 PS_FUNDING 2) ?cd 101 105"
    by auto
  then show ?thesis using exCycle by blast
qed

theorem indexer_blocks_once_witness:
  "concat (map (\<lambda>w. [fst w..snd w]) (indexer.windows 5 exCtx [exIndex] exDb)) = [101, 102, 103, 104, 105]"
proof -
  have h: "marketReady 5 (committed exM)" "marketCursor 5 (committed exM) = 100" by code_simp+
  have e: "marketCursor 5 (committed (snd (cycle exCtx exIndex 5 exM))) = 105"
    unfolding exCycle
    by (simp add: marketCursor_def populateByPredictionSetId_def updateLastProcessedBlock_def rawUpdate_def
        upd_where_def exTraded_def exActive_def exFunded_def setStatusRow_def ex_defs)
  have "[101..105] = [101, 102, 103, 104, 105::int]" by code_simp
  then show ?thesis using indexer_blocks_once [OF h(1), of exCtx "[exIndex]" exIndex] h(2) e by simp
qed

theorem planner_runs_open_markets_witness:
  "fst ` set (running (executePlanner [5, 4] (executePlanner [3] noParsers))) = {4, 5}
    \<and> distinct (map fst (running (executePlanner [5, 4] (executePlanner [3] noParsers))))"
proof -
  have "planner_reach (executePlanner [3] noParsers)"
    by (rule planner_reach.step [OF planner_reach.init planner_step.plan])
  from planner_runs_open_markets [OF this refl, of "[5, 4]"] show ?thesis by auto
qed

section \<open>Proposals\<close>

theorem array_column_roundtrip_witness:
  "readArray (storeArray [''rain'', ''sun'']) = Some [''rain'', ''sun'']"
  using array_column_roundtrip [of "[''rain'', ''sun'']"] by (simp add: arrayDelimiter_def)

theorem vote_effect_witness:
  "\<exists>m'. voteOnProposal exCtx 1 UPVOTE exM = (Inr UPVOTE, m')
    \<and> map_option pv_voteType (getByUserIdAndProposalId 1 1 (committed m')) = Some UPVOTE
    \<and> pointsOf 1 (committed m') = 3"
proof -
  let ?m' = "snd (voteOnProposal exCtx 1 UPVOTE exM)"
  have r: "voteOnProposal exCtx 1 UPVOTE exM = (Inr UPVOTE, ?m')" by (rule result_split, code_simp)
  have i: "dbInv (committed exM)" by (simp add: exDb_inv)
  have h: "ctx_user exCtx = Some 1" "getByUserIdAndProposalId 1 1 exDb = None"
    "pointsOf 1 exDb = 0" "rewardValue PROPOSAL_VOTE exDb = 3" by code_simp+
  show ?thesis using r vote_effect [OF i r] h by auto
qed

theorem rounds_replaced_witness:
  "activeRounds (rows (proposal_rounds (committed (finalizeProposalRounds exNext 86400000 0 exM))))
      = activeRounds (rows (proposal_rounds exDb))
    \<and> (\<exists>rd'. byId 1 (proposal_rounds (committed (finalizeProposalRounds exNext 86400000 0 exM))) = Some rd'
        \<and> roundOutcome exDb (exRound 1 864000001) rd')"
proof -
  have i: "dbInv (committed exM)" by (simp add: exDb_inv)
  have h: "byId 1 (proposal_rounds (committed exM)) = Some (exRound 1 864000001)"
    "roundsDue (ctx_now exNext) exDb = [exRound 1 864000001]" by code_simp+
  show ?thesis using rounds_replaced [OF i refl h(1), of exNext 86400000 0] h(2) by auto
qed

theorem proposals_protected_witness:
  "committed (proposing.serve (\<lambda>s. Inr False) [(exCtx, Remove 1)] exM) = exDb"
proof -
  have "getProposalById 1 exDb = Inr (exProposal 1 1 2)" "ctx_user exCtx = Some 1"
    "pr_user_id (exProposal 1 1 2) = 2" by code_simp+
  then show ?thesis using proposals_protected [of exM "\<lambda>s. Inr False" "[(exCtx, Remove 1)]"] by auto
qed

section \<open>The system\<close>

lemma exVoted: "system_step strict Votes (s, exM) (s, parseVotes exCtx exDecided exM)"
  by (rule system_step.voted)

theorem market_lifecycle_witness:
  "\<exists>p'. byId 3 (prediction_sets (committed (parseVotes exCtx exDecided exM))) = Some p'
    \<and> (life_step Votes)\<^sup>*\<^sup>* (PS_ACTIVE, None) (ps_setStatus p', ps_winner_outcome_id p')
    \<and> ps_setStatus p' = PS_FINALIZED"
proof -
  have "byId 3 (prediction_sets exDb) = Some (exSet 3 PS_ACTIVE 2)" by code_simp
  moreover have "map_option ps_setStatus (byId 3 (prediction_sets (committed (parseVotes exCtx exDecided exM))))
      = Some PS_FINALIZED" by code_simp
  ultimately show ?thesis
    using market_lifecycle [OF exVoted [of False "()"], of 3 "exSet 3 PS_ACTIVE 2"] exDb_inv
    by (auto simp: exSet_def)
qed

theorem finalized_has_winner_witness:
  "\<exists>p \<in> set (rows (prediction_sets (committed (parseVotes exCtx exDecided exM)))). rowId p = 3
    \<and> ps_setStatus p = PS_FINALIZED
    \<and> (\<exists>oc \<in> set (rows (outcomes (committed (parseVotes exCtx exDecided exM)))).
          ps_winner_outcome_id p = Some (rowId oc) \<and> oc_prediction_set_id oc = 3)"
proof -
  let ?d = "committed (parseVotes exCtx exDecided exM)"
  have run: "(\<lambda>x y. \<exists>a. system_step True a x y)\<^sup>*\<^sup>* ((), exM) ((), parseVotes exCtx exDecided exM)"
    by (intro r_into_rtranclp exI) (rule exVoted)
  have ok: "winnersOk exDb" by (simp add: winnersOk_def ex_defs)
  have "list_ex (\<lambda>p. rowId p = 3 \<and> ps_setStatus p = PS_FINALIZED) (rows (prediction_sets ?d))" by code_simp
  then obtain p where "p \<in> set (rows (prediction_sets ?d))" "rowId p = 3" "ps_setStatus p = PS_FINALIZED"
    by (auto simp: list_ex_iff)
  then show ?thesis using finalized_has_winner [OF run, of p] exDb_inv ok by auto
qed

end
