(* ===== verification/Comments.thy ===== *)
theory Comments
  imports Proposals
begin

text \<open>
  Comments on markets and proposals (\<open>modules/comment/\<close>): creation with its checks,
  edition and removal by the author, and the list of an entity with one level of
  replies, in which the text of a removed comment is masked.
\<close>

section \<open>Creation\<close>

record comment_data =
  cb_entity_id :: nat
  cb_entityType :: CommentEntityTypes
  cb_parent_comment_id :: "nat option"
  cb_reply_user_id :: "nat option"
  cb_content :: string

definition newComment :: "nat \<Rightarrow> comment_data \<Rightarrow> comment" where
  "newComment uId b = \<lparr>rowId = 0, status = ACTIVE, createTime = 0, updateTime = 0, createUser = None,
     updateUser = None, cm_entity_id = cb_entity_id b, cm_entityType = cb_entityType b, cm_user_id = uId,
     cm_parent_comment_id = cb_parent_comment_id b, cm_reply_user_id = cb_reply_user_id b,
     cm_content = cb_content b\<rparr>"

definition DELETED_COMMENT_CONTENT :: string where
  "DELETED_COMMENT_CONTENT = ''This comment has been deleted.''"

definition commentMissing :: exn where
  "commentMissing = CodeException 404 COMMENT_DOES_NOT_EXISTS"

definition textNotSafe :: exn where
  "textNotSafe = CodeException 400 TEXT_CONTENT_NOT_SAFE"

text \<open>An id is checked only where it is truthy.\<close>

definition checkParent :: "nat option \<Rightarrow> db \<Rightarrow> (exn, unit) res" where
  "checkParent parent d = (case parent of
      None \<Rightarrow> Inr ()
    | Some i \<Rightarrow> if i = 0 then Inr ()
        else bindR (populateByIdAllowDeleted i (comments d)) (\<lambda>r. guardR (r \<noteq> None) commentMissing))"

fun checkEntity :: "CommentEntityTypes \<Rightarrow> nat \<Rightarrow> db \<Rightarrow> (exn, unit) res" where
  "checkEntity CE_PREDICTION_SET i d =
     bindR (requireRow (CodeException 404 PREDICTION_SET_DOES_NOT_EXISTS) i (prediction_sets d)) (\<lambda>p. Inr ())"
| "checkEntity CE_PROPOSAL i d = bindR (requireRow proposalMissing i (proposals d)) (\<lambda>p. Inr ())"

definition validateComment :: "comment \<Rightarrow> ValidatorErrorCode list" where
  "validateComment r = (if cm_content r = [] then [COMMENT_CONTENT_NOT_PRESENT] else [])"

text \<open>The INSERT under the foreign keys of the table: author, parent and tagged user are rows.\<close>

definition referenced :: "nat option \<Rightarrow> 'r row_scheme tbl \<Rightarrow> bool" where
  "referenced key t = (case key of None \<Rightarrow> True | Some i \<Rightarrow> byId i t \<noteq> None)"

definition insertComment :: "ctx \<Rightarrow> comment \<Rightarrow> db \<Rightarrow> (exn, db \<times> nat) res" where
  "insertComment c r d =
    (if referenced (Some (cm_user_id r)) (users d) \<and> referenced (cm_parent_comment_id r) (comments d)
        \<and> referenced (cm_reply_user_id r) (users d)
     then bindR (insertRow c noClash r (comments d)) (\<lambda>(i, t). Inr (d\<lparr>comments := t\<rparr>, i))
     else Inl (JsError ''foreign key''))"

definition createCommentTx ::
  "ctx \<Rightarrow> (string \<Rightarrow> (exn, bool) res) \<Rightarrow> comment_data \<Rightarrow> db \<Rightarrow> (exn, db \<times> nat) res" where
  "createCommentTx c flagged b d =
    bindR (contextUser c) (\<lambda>uId.
    bindR (guardR (isTextSafe flagged (cb_content b)) textNotSafe) (\<lambda>u.
    bindR (checkParent (cb_parent_comment_id b) d) (\<lambda>u.
    bindR (checkEntity (cb_entityType b) (cb_entity_id b) d) (\<lambda>u.
    bindR (guardR (validateComment (newComment uId b) = [])
             (ValidationException (validateComment (newComment uId b)))) (\<lambda>u.
      insertComment c (newComment uId b) d)))))"

section \<open>Edition and removal\<close>

definition updateCommentTx ::
  "ctx \<Rightarrow> (string \<Rightarrow> (exn, bool) res) \<Rightarrow> nat \<Rightarrow> string \<Rightarrow> db \<Rightarrow> (exn, db \<times> comment) res" where
  "updateCommentTx c flagged i content d =
    bindR (requireRow commentMissing i (comments d)) (\<lambda>r.
    bindR (contextUser c) (\<lambda>uId.
    bindR (guardR (cm_user_id r = uId) (CodeException 403 OWNERSHIP_MISMATCH)) (\<lambda>u.
    bindR (guardR (isTextSafe flagged content) textNotSafe) (\<lambda>u.
    bindR (guardR (validateComment (r\<lparr>cm_content := content\<rparr>) = [])
             (ValidationException (validateComment (r\<lparr>cm_content := content\<rparr>)))) (\<lambda>u.
      Inr (d\<lparr>comments := updateRow c i (\<lambda>x. x\<lparr>cm_content := content\<rparr>) (comments d)\<rparr>,
           r\<lparr>cm_content := content\<rparr>))))))"

definition updateComment ::
  "ctx \<Rightarrow> (string \<Rightarrow> (exn, bool) res) \<Rightarrow> nat \<Rightarrow> string \<Rightarrow> db mysql \<Rightarrow> (exn, comment) res \<times> db mysql" where
  "updateComment c flagged i content = withTx (updateCommentTx c flagged i content)"

text \<open>The answer to a removal shows the masked text; the row keeps the original.\<close>

definition deleteCommentTx :: "ctx \<Rightarrow> nat \<Rightarrow> db \<Rightarrow> (exn, db \<times> comment) res" where
  "deleteCommentTx c i d =
    bindR (requireRow commentMissing i (comments d)) (\<lambda>r.
    bindR (contextUser c) (\<lambda>uId.
    bindR (guardR (cm_user_id r = uId \<or> defaultUserRoleNo ROLE_ADMIN \<in> set (ctx_roles c))
             (CodeException 403 OWNERSHIP_MISMATCH)) (\<lambda>u.
      Inr (d\<lparr>comments := markDeleted c i (comments d)\<rparr>,
           r\<lparr>status := DELETED, cm_content := DELETED_COMMENT_CONTENT\<rparr>))))"

definition deleteComment :: "ctx \<Rightarrow> nat \<Rightarrow> db mysql \<Rightarrow> (exn, comment) res \<times> db mysql" where
  "deleteComment c i = withTx (deleteCommentTx c i)"

section \<open>The list of an entity\<close>

text \<open>The columns the query selects; the text of a removed comment is not among them.\<close>

record comment_view =
  cv_id :: nat
  cv_status :: SqlModelStatus
  cv_user_id :: nat
  cv_parent_comment_id :: "nat option"
  cv_reply_user_id :: "nat option"
  cv_content :: string
  cv_username :: "string option"
  cv_walletAddress :: "string option"
  cv_taggedUserUsername :: "string option"

definition joinedUser :: "nat option \<Rightarrow> db \<Rightarrow> user option" where
  "joinedUser key d = Option.bind key (\<lambda>i. byId i (users d))"

definition commentView :: "db \<Rightarrow> comment \<Rightarrow> comment_view" where
  "commentView d r = \<lparr>cv_id = rowId r, cv_status = status r, cv_user_id = cm_user_id r,
     cv_parent_comment_id = cm_parent_comment_id r, cv_reply_user_id = cm_reply_user_id r,
     cv_content = (if status r \<noteq> DELETED then cm_content r else DELETED_COMMENT_CONTENT),
     cv_username = Option.bind (joinedUser (Some (cm_user_id r)) d) us_username,
     cv_walletAddress = map_option us_walletAddress (joinedUser (Some (cm_user_id r)) d),
     cv_taggedUserUsername = Option.bind (joinedUser (cm_reply_user_id r) d) us_username\<rparr>"

text \<open>
  The answer to a creation: the new row as the author sees it.  The tagged user is
  read again, and only when it is not deleted.
\<close>

definition createdComment :: "ctx \<Rightarrow> comment_data \<Rightarrow> nat \<Rightarrow> db \<Rightarrow> comment_view" where
  "createdComment c b i d =
    (commentView d ((newComment (case ctx_user c of None \<Rightarrow> 0 | Some u \<Rightarrow> u) b)\<lparr>rowId := i\<rparr>))
      \<lparr>cv_taggedUserUsername := (case cb_reply_user_id b of None \<Rightarrow> None
         | Some k \<Rightarrow> (case populateById k (users d) of Inr (Some u) \<Rightarrow> us_username u | r \<Rightarrow> None))\<rparr>"

definition createComment ::
  "ctx \<Rightarrow> (string \<Rightarrow> (exn, bool) res) \<Rightarrow> comment_data \<Rightarrow> db mysql \<Rightarrow> (exn, comment_view) res \<times> db mysql" where
  "createComment c flagged b m =
    (case withTx (createCommentTx c flagged b) m of
       (Inl e, m') \<Rightarrow> (Inl e, m')
     | (Inr i, m') \<Rightarrow> (Inr (createdComment c b i (committed m')), m'))"

definition rootComments :: "nat \<Rightarrow> CommentEntityTypes \<Rightarrow> db \<Rightarrow> comment list" where
  "rootComments entityId ty d = filter (\<lambda>r. cm_entity_id r = entityId \<and> cm_entityType r = ty
     \<and> cm_parent_comment_id r = None) (rows (comments d))"

definition repliesTo :: "nat \<Rightarrow> db \<Rightarrow> comment list" where
  "repliesTo i d = filter (\<lambda>r. cm_parent_comment_id r = Some i) (rows (comments d))"

text \<open>
  \<open>orderBy\<close> stands for the database's ORDER BY; the page is cut after it, the total
  counts the groups.
\<close>

definition getCommentList ::
  "(comment list \<Rightarrow> comment list) \<Rightarrow> nat \<Rightarrow> nat \<Rightarrow> nat \<Rightarrow> CommentEntityTypes \<Rightarrow> db
    \<Rightarrow> (comment_view \<times> comment_view list) list \<times> nat" where
  "getCommentList orderBy limit offset entityId ty d =
    (map (\<lambda>r. (commentView d r, map (commentView d) (repliesTo (rowId r) d)))
        (take limit (drop offset (orderBy (rootComments entityId ty d)))),
     length (rootComments entityId ty d))"

section \<open>Effects\<close>

lemma dbInv_comments: "dbInv d \<Longrightarrow> tblInv t \<Longrightarrow> dbInv (d\<lparr>comments := t\<rparr>)"
  by (simp add: dbInv_def)

lemma insertComment_Inr:
  assumes "insertComment c r d = Inr (d', i)"
  obtains t where "insertRow c noClash r (comments d) = Inr (i, t)" "d' = d\<lparr>comments := t\<rparr>"
    "referenced (Some (cm_user_id r)) (users d)" "referenced (cm_parent_comment_id r) (comments d)"
    "referenced (cm_reply_user_id r) (users d)"
  using assms by (auto simp: insertComment_def res_simps split: if_splits)

lemma createCommentTx_Inr:
  assumes "createCommentTx c flagged b d = Inr (d', i)"
  obtains uId where "ctx_user c = Some uId" "isTextSafe flagged (cb_content b)" "cb_content b \<noteq> []"
    "insertComment c (newComment uId b) d = Inr (d', i)"
    "checkEntity (cb_entityType b) (cb_entity_id b) d = Inr ()"
  using assms by (auto simp: createCommentTx_def contextUser_def validateComment_def newComment_def res_simps
      split: if_splits)

lemma requireRow_row:
  "requireRow e i t = Inr r \<Longrightarrow> i \<noteq> 0 \<and> r \<in> set (rows t) \<and> rowId r = i \<and> status r \<noteq> DELETED"
  by (auto simp: requireRow_def res_simps dest: populateById_SomeD)

section \<open>Requests\<close>

datatype comment_request = Post comment_data | Reword nat string | Withdraw nat

fun commentTx :: "(string \<Rightarrow> (exn, bool) res) \<Rightarrow> ctx \<times> comment_request \<Rightarrow> db \<Rightarrow> (exn, db \<times> unit) res" where
  "commentTx flagged (c, Post b) d = bindR (createCommentTx c flagged b d) (\<lambda>(d', i). Inr (d', ()))"
| "commentTx flagged (c, Reword i s) d = bindR (updateCommentTx c flagged i s d) (\<lambda>(d', r). Inr (d', ()))"
| "commentTx flagged (c, Withdraw i) d = bindR (deleteCommentTx c i d) (\<lambda>(d', r). Inr (d', ()))"

lemma commentTx_Inr:
  assumes "commentTx flagged (c, q) d = Inr (d', u)"
  obtains (post) b uId i t where "q = Post b" "ctx_user c = Some uId" "d' = d\<lparr>comments := t\<rparr>"
      "insertRow c noClash (newComment uId b) (comments d) = Inr (i, t)"
      "referenced (cb_parent_comment_id b) (comments d)"
  | (reword) i s r where "q = Reword i s" "r \<in> set (rows (comments d))" "rowId r = i"
      "ctx_user c = Some (cm_user_id r)" "s \<noteq> []" "status r \<noteq> DELETED"
      "d' = d\<lparr>comments := updateRow c i (\<lambda>x. x\<lparr>cm_content := s\<rparr>) (comments d)\<rparr>"
  | (withdraw) i r where "q = Withdraw i" "r \<in> set (rows (comments d))" "rowId r = i"
      "ctx_user c = Some (cm_user_id r) \<or> defaultUserRoleNo ROLE_ADMIN \<in> set (ctx_roles c)"
      "d' = d\<lparr>comments := markDeleted c i (comments d)\<rparr>"
proof (cases q)
  case (Post b)
  then obtain i where "createCommentTx c flagged b d = Inr (d', i)" using assms by (auto simp: res_simps)
  then obtain uId where u: "ctx_user c = Some uId" "insertComment c (newComment uId b) d = Inr (d', i)"
    by (rule createCommentTx_Inr)
  then show thesis using post [OF Post u(1)] by (elim insertComment_Inr) (auto simp: newComment_def)
next
  case (Reword i s)
  then show thesis using assms reword
    by (auto simp: updateCommentTx_def contextUser_def validateComment_def res_simps
        dest!: requireRow_row split: if_splits)
next
  case (Withdraw i)
  then show thesis using assms withdraw
    by (auto simp: deleteCommentTx_def contextUser_def res_simps dest!: requireRow_row)
qed

lemma commentTx_dbInv: "dbInv d \<Longrightarrow> commentTx flagged q d = Inr (d', a) \<Longrightarrow> dbInv d'"
  by (cases q; elim commentTx_Inr [of flagged "fst q" "snd q" d d' a, simplified prod.collapse];
      auto intro!: dbInv_comments simp: dbInv_def dest: tblInv_insertRow)

interpretation commenting: tx_handler "\<lambda>q. withTx (commentTx flagged q)" dbInv
  for flagged :: "string \<Rightarrow> (exn, bool) res"
  by (rule tx_handler_withTx) (rule commentTx_dbInv)

section \<open>Properties\<close>

definition commentKey :: "comment \<Rightarrow> nat \<times> CommentEntityTypes \<times> nat \<times> nat option \<times> nat option" where
  "commentKey r = (cm_entity_id r, cm_entityType r, cm_user_id r, cm_parent_comment_id r, cm_reply_user_id r)"

text \<open>What one request may do to one comment.\<close>

definition commentStep :: "ctx \<times> comment_request \<Rightarrow> nat \<Rightarrow> comment \<Rightarrow> comment \<Rightarrow> bool" where
  "commentStep cq i r r' \<longleftrightarrow> commentKey r' = commentKey r
     \<and> (cm_content r' \<noteq> cm_content r \<longrightarrow>
          (\<exists>s. snd cq = Reword i s) \<and> ctx_user (fst cq) = Some (cm_user_id r))
     \<and> (status r' \<noteq> status r \<longrightarrow> snd cq = Withdraw i
          \<and> (ctx_user (fst cq) = Some (cm_user_id r) \<or> defaultUserRoleNo ROLE_ADMIN \<in> set (ctx_roles (fst cq))))"

lemma commentTx_row:
  assumes "commentTx flagged cq d = Inr (d', u)" and "dbInv d" and "byId i (comments d) = Some r"
  shows "\<exists>r'. byId i (comments d') = Some r' \<and> commentStep cq i r r'"
proof -
  obtain c q where cq: "cq = (c, q)" by (cases cq)
  have own: "x = r" if "x \<in> set (rows (comments d))" "rowId x = i" for x
    using byId_distinct [of "comments d" x] that assms(2,3) by (simp add: dbInv_def)
  have tx: "commentTx flagged (c, q) d = Inr (d', u)" using assms(1) cq by simp
  from tx show ?thesis
  proof (cases rule: commentTx_Inr)
    case (post b uId j t)
    then show ?thesis using sql.put_frame [OF post(4) assms(3)] by (simp add: commentStep_def cq)
  next
    case (reword j s x)
    then show ?thesis using own [of x] assms(3) by (auto simp: tbl_simps commentStep_def commentKey_def cq)
  next
    case (withdraw j x)
    then show ?thesis using own [of x] assms(3)
      by (auto simp: tbl_simps markDeleted_def commentStep_def commentKey_def cq)
  qed
qed

lemma commenting_row:
  assumes "dbInv (committed m)" and "byId i (comments (committed m)) = Some r"
  shows "\<exists>r'. byId i (comments (committed (snd (withTx (commentTx flagged cq) m)))) = Some r' \<and> commentStep cq i r r'"
proof (cases rule: withTx_cases [of "commentTx flagged cq" m])
  case (failed e)
  then show ?thesis using assms(2) by (simp add: commentStep_def)
next
  case (published w a)
  then show ?thesis using commentTx_row [OF published(1) assms] by simp
qed

text \<open>
  C36: A comment belongs to its author: over any series of requests to post, reword and
  withdraw comments no comment ever disappears or moves to another author, entity or
  thread; its text changes only if its author reworded it, and it is withdrawn
  only by its author or an administrator.
\<close>

theorem comments_owned:
  assumes "dbInv (committed m)" and "byId i (comments (committed m)) = Some r"
  shows "\<exists>r'. byId i (comments (committed (commenting.serve flagged qs m))) = Some r' \<and> commentKey r' = commentKey r
    \<and> (cm_content r' \<noteq> cm_content r \<longrightarrow>
         (\<exists>(c, q) \<in> set qs. (\<exists>s. q = Reword i s) \<and> ctx_user c = Some (cm_user_id r)))
    \<and> (status r' \<noteq> status r \<longrightarrow> (\<exists>(c, q) \<in> set qs. q = Withdraw i
         \<and> (ctx_user c = Some (cm_user_id r) \<or> defaultUserRoleNo ROLE_ADMIN \<in> set (ctx_roles c))))"
  using assms
proof (induction qs arbitrary: m r)
  case (Cons cq qs)
  let ?m1 = "snd (withTx (commentTx flagged cq) m)"
  obtain r1 where r1: "byId i (comments (committed ?m1)) = Some r1" "commentStep cq i r r1"
    using commenting_row [OF Cons.prems] by blast
  have "dbInv (committed ?m1)"
    using commenting.serve_good [OF Cons.prems(1), of flagged "[cq]"] by simp
  then obtain r' where r': "byId i (comments (committed (commenting.serve flagged qs ?m1))) = Some r'"
      "commentKey r' = commentKey r1"
      "cm_content r' \<noteq> cm_content r1 \<longrightarrow> (\<exists>(c, q) \<in> set qs. (\<exists>s. q = Reword i s) \<and> ctx_user c = Some (cm_user_id r1))"
      "status r' \<noteq> status r1 \<longrightarrow> (\<exists>(c, q) \<in> set qs. q = Withdraw i
         \<and> (ctx_user c = Some (cm_user_id r1) \<or> defaultUserRoleNo ROLE_ADMIN \<in> set (ctx_roles c)))"
    using Cons.IH [OF _ r1(1)] by blast
  have u: "cm_user_id r1 = cm_user_id r" using r1(2) by (simp add: commentStep_def commentKey_def)
  have "cm_content r' \<noteq> cm_content r \<longrightarrow>
      (\<exists>(c, q) \<in> set (cq # qs). (\<exists>s. q = Reword i s) \<and> ctx_user c = Some (cm_user_id r))"
    using r'(3) r1(2) unfolding u commentStep_def by (cases "cm_content r' = cm_content r1") (auto simp: case_prod_beta)
  moreover have "status r' \<noteq> status r \<longrightarrow> (\<exists>(c, q) \<in> set (cq # qs). q = Withdraw i
      \<and> (ctx_user c = Some (cm_user_id r) \<or> defaultUserRoleNo ROLE_ADMIN \<in> set (ctx_roles c)))"
    using r'(4) r1(2) unfolding u commentStep_def by (cases "status r' = status r1") (auto simp: case_prod_beta)
  ultimately show ?case using r'(1,2) r1(2) by (simp add: commentStep_def)
qed simp

text \<open>The text of every removed comment overwritten.\<close>

definition masked :: "comment \<Rightarrow> comment" where
  "masked r = (if status r = DELETED then r\<lparr>cm_content := DELETED_COMMENT_CONTENT\<rparr> else r)"

lemma masked_fields [simp]:
  "rowId (masked r) = rowId r" "status (masked r) = status r" "cm_entity_id (masked r) = cm_entity_id r"
  "cm_entityType (masked r) = cm_entityType r" "cm_user_id (masked r) = cm_user_id r"
  "cm_parent_comment_id (masked r) = cm_parent_comment_id r" "cm_reply_user_id (masked r) = cm_reply_user_id r"
  by (simp_all add: masked_def)

definition maskedDb :: "db \<Rightarrow> db" where
  "maskedDb d = d\<lparr>comments := (comments d)\<lparr>rows := map masked (rows (comments d))\<rparr>\<rparr>"

lemma commentView_masked: "commentView (maskedDb d) (masked r) = commentView d r"
  by (simp add: commentView_def joinedUser_def maskedDb_def) (simp add: masked_def)

lemma roots_masked: "rootComments e ty (maskedDb d) = map masked (rootComments e ty d)"
  by (simp add: rootComments_def maskedDb_def filter_map comp_def)

lemma replies_masked: "repliesTo i (maskedDb d) = map masked (repliesTo i d)"
  by (simp add: repliesTo_def maskedDb_def filter_map comp_def)

lemma replies_views:
  "v = commentView d r \<Longrightarrow> w \<in> commentView d ` set (repliesTo (rowId r) d) \<Longrightarrow>
   cv_parent_comment_id w = Some (cv_id v) \<and> (cv_status w = DELETED \<longrightarrow> cv_content w = DELETED_COMMENT_CONTENT)"
  by (auto simp: repliesTo_def commentView_def)

text \<open>
  The text of a removed comment is never shown: the list of an entity, replies
  included, is the same as if the text of every removed comment had been
  overwritten in the table, for every page and every order that does not itself
  look at that text; each thread shows exactly the direct replies of its root.
\<close>

theorem removed_text_hidden:
  assumes "\<And>rs. orderBy (map masked rs) = map masked (orderBy rs)"
  shows "getCommentList orderBy limit offset e ty (maskedDb d) = getCommentList orderBy limit offset e ty d
    \<and> (\<forall>(v, replies) \<in> set (fst (getCommentList orderBy limit offset e ty d)).
          \<forall>w \<in> set replies. cv_parent_comment_id w = Some (cv_id v)
            \<and> (cv_status w = DELETED \<longrightarrow> cv_content w = DELETED_COMMENT_CONTENT))"
proof
  show "getCommentList orderBy limit offset e ty (maskedDb d) = getCommentList orderBy limit offset e ty d"
    unfolding getCommentList_def roots_masked assms
    by (simp add: take_map drop_map comp_def commentView_masked replies_masked)
next
  show "\<forall>(v, replies) \<in> set (fst (getCommentList orderBy limit offset e ty d)).
          \<forall>w \<in> set replies. cv_parent_comment_id w = Some (cv_id v)
            \<and> (cv_status w = DELETED \<longrightarrow> cv_content w = DELETED_COMMENT_CONTENT)"
    unfolding getCommentList_def fst_conv
  proof (intro ballI, clarify, intro conjI)
    fix v replies w
    assume "(v, replies) \<in> set (map (\<lambda>r. (commentView d r, map (commentView d) (repliesTo (rowId r) d)))
        (take limit (drop offset (orderBy (rootComments e ty d)))))" and w: "w \<in> set replies"
    then obtain r where "v = commentView d r" "replies = map (commentView d) (repliesTo (rowId r) d)"
      by (auto simp only: set_map)
    then show "cv_parent_comment_id w = Some (cv_id v)" "cv_status w = DELETED \<longrightarrow> cv_content w = DELETED_COMMENT_CONTENT"
      using replies_views [of v d r w] w by auto
  qed
qed

end
