(* ===== verification/Sql_Utils.thy ===== *)
theory Sql_Utils
  imports Types_Config Js_String
begin

text \<open>
  Query helpers (\<open>lib/database/sql-utils.ts\<close>) and the paging filter every list
  takes (\<open>lib/base-models/base-query-filter.model.ts\<close>): limit, offset and order of a
  request, the text of search and comparison conditions, and the pair of queries
  that answers a page with its total.  The escaping of sqlstring and the
  execution of a query are parameters.
\<close>

section \<open>The filter of a request\<close>

text \<open>\<open>n || d\<close> on numbers: null, NaN and 0 give way.\<close>

fun orElse :: "int option \<Rightarrow> int \<Rightarrow> int" where
  "orElse None d = d"
| "orElse (Some n) d = (if n = 0 then d else n)"

definition defaultPageSize :: "int option \<Rightarrow> int" where
  "defaultPageSize env = orElse env 20"

text \<open>The setters of the filter; null is below 1 but not below 0.\<close>

definition pageSetter :: "int option \<Rightarrow> int option" where
  "pageSetter v = (case v of None \<Rightarrow> None | Some n \<Rightarrow> if n < 0 then Some 1 else Some n)"

definition limitSetter :: "int option \<Rightarrow> int option \<Rightarrow> int option" where
  "limitSetter env v = (case v of None \<Rightarrow> Some (defaultPageSize env)
     | Some n \<Rightarrow> if n < 1 then Some (defaultPageSize env) else Some n)"

datatype limit_arg = No_limit | Limit "int option"
datatype 'a arg = Absent | One 'a | Many "'a list"

record url_query =
  uq_page :: "int option"
  uq_limit :: limit_arg
  uq_skip :: "int option"
  uq_orderBy :: "string arg"
  uq_desc :: "string arg"

text \<open>
  The serialized filter of a request: page and limit after their setters, the two
  arrays, and no \<open>skip\<close>, which is not a property of the filter.
\<close>

definition baseQueryFilter ::
  "int option \<Rightarrow> int option \<Rightarrow> int option \<Rightarrow> string list \<Rightarrow> string list \<Rightarrow> url_query" where
  "baseQueryFilter env page limit orderBy desc =
     \<lparr>uq_page = pageSetter page, uq_limit = Limit (limitSetter env limit), uq_skip = None,
      uq_orderBy = Many orderBy, uq_desc = Many desc\<rparr>"

section \<open>Limit, offset and order\<close>

text \<open>
  \<open>map[name]\<close> also finds what every object inherits: a request may name one of these
  built-in functions, whose text then stands in the order.
\<close>

definition getOrderField ::
  "(string \<Rightarrow> string) \<Rightarrow> (string \<Rightarrow> string) \<Rightarrow> string \<Rightarrow> (string \<times> string) list \<Rightarrow> string \<Rightarrow> string" where
  "getOrderField escapeId builtin alias fieldMap name =
    (let name = (if name = [] then ''id'' else name) in
     case map_of fieldMap name of
       Some col \<Rightarrow> if col = [] then escapeId ((if alias = [] then [] else alias @ ''.'') @ name) else col
     | None \<Rightarrow> if name \<in> set inheritedNames then builtin name
               else escapeId ((if alias = [] then [] else alias @ ''.'') @ name))"

text \<open>\<open>desc[i] == 'true'\<close>, which a missing entry is not.\<close>

fun descAt :: "string arg \<Rightarrow> nat \<Rightarrow> bool" where
  "descAt (Many ds) i = (i < length ds \<and> ds ! i = ''true'')"
| "descAt d i = False"

fun descOne :: "string arg \<Rightarrow> bool" where
  "descOne (One s) = (s = ''true'')"
| "descOne (Many ds) = (joinWith '','' ds = ''true'')"
| "descOne Absent = False"

definition orderList ::
  "(string \<Rightarrow> string) \<Rightarrow> string arg \<Rightarrow> string arg \<Rightarrow> (string \<times> bool) list" where
  "orderList field orderBy desc = (case orderBy of
      Absent \<Rightarrow> []
    | Many names \<Rightarrow> map (\<lambda>(i, n). (field n, descAt desc i)) (zip [0..<length names] names)
    | One n \<Rightarrow> if n = [] then [] else [(field n, descOne desc)])"

fun appendOrder :: "(string \<times> bool) \<Rightarrow> string option \<Rightarrow> string option" where
  "appendOrder (col, desc) acc = Some ((case acc of None \<Rightarrow> [] | Some s \<Rightarrow> if s = [] then [] else s @ '', '')
     @ col @ '' '' @ (if desc then ''DESC'' else ''ASC''))"

definition orderStr :: "(string \<times> bool) list \<Rightarrow> string option" where
  "orderStr order = fold appendOrder order None"

record query_filters =
  qf_limit :: "int option"
  qf_offset :: int
  qf_order :: "(string \<times> bool) list"
  qf_orderStr :: "string option"

definition getQueryParams ::
  "int option \<Rightarrow> (string \<Rightarrow> string) \<Rightarrow> url_query \<Rightarrow> query_filters" where
  "getQueryParams env field q =
    (let limit = (case uq_limit q of No_limit \<Rightarrow> None | Limit n \<Rightarrow> Some (orElse n (defaultPageSize env)));
         offset = orElse (uq_skip q) ((orElse (uq_page q) 1 - 1) * (case limit of None \<Rightarrow> 0 | Some l \<Rightarrow> l));
         order = orderList field (uq_orderBy q) (uq_desc q)
     in \<lparr>qf_limit = limit, qf_offset = offset, qf_order = order, qf_orderStr = orderStr order\<rparr>)"

section \<open>Conditions\<close>

text \<open>
  The line breaks the code adds for its logs are single spaces here.  \<open>split(/\s+/)\<close>: a run of white space separates, and a leading one leaves an empty word.
\<close>

definition likeClause :: "string \<Rightarrow> string \<Rightarrow> string" where
  "likeClause col word = col @ '' LIKE CONCAT('%', '' @ word @ '', '%')''"

definition searchClause :: "string list \<Rightarrow> string \<Rightarrow> string" where
  "searchClause cols word =
     (if cols = [] then [] else ''('' @ joinWith '' OR '' (map (\<lambda>f. likeClause f word) cols)) @ '')''"

definition buildSearchParameter :: "(string \<Rightarrow> string) \<Rightarrow> string \<Rightarrow> string list \<Rightarrow> string option" where
  "buildSearchParameter escape search cols =
    (if search = [] then None
     else Some (joinWith '' AND '' (map (\<lambda>w. searchClause cols (escape w))
            (filter (\<lambda>w. 2 \<le> length w) (splitSpaces search)))))"

datatype WhereQueryComparator = EQUAL | LESS_THAN | LESS_THAN_OR_EQUAL | MORE_THAN
  | MORE_THAN_OR_EQUAL | NOT_EQUAL | IN_LIST | NOT_IN_LIST | HAS_TEXT | IN_TEXT

fun buildWhereCondition :: "WhereQueryComparator \<Rightarrow> string \<Rightarrow> string \<Rightarrow> string" where
  "buildWhereCondition EQUAL col param = col @ '' = @'' @ param"
| "buildWhereCondition LESS_THAN col param = col @ '' < @'' @ param"
| "buildWhereCondition LESS_THAN_OR_EQUAL col param = col @ '' <= @'' @ param"
| "buildWhereCondition MORE_THAN col param = col @ '' > @'' @ param"
| "buildWhereCondition MORE_THAN_OR_EQUAL col param = col @ '' >= @'' @ param"
| "buildWhereCondition NOT_EQUAL col param = col @ '' <> @'' @ param"
| "buildWhereCondition IN_LIST col param = col @ '' IN (@'' @ param @ '')''"
| "buildWhereCondition NOT_IN_LIST col param = col @ '' NOT IN (@'' @ param @ '')''"
| "buildWhereCondition HAS_TEXT col param = col @ '' LIKE '%' + @'' @ param @ '' + '%'' @ [CHR 0x27]"
| "buildWhereCondition IN_TEXT col param = ''@'' @ param @ '' LIKE CONCAT('%', '' @ col @ '', '%')''"

section \<open>A page and its total\<close>

record sql_query =
  sq_select :: string
  sq_from :: string
  sq_group :: "string option"
  sq_filter :: string

definition joinLines :: "string list \<Rightarrow> string" where
  "joinLines = joinWith [CHR 0x0A]"

definition textOf :: "string option \<Rightarrow> string" where
  "textOf s = (case s of None \<Rightarrow> [] | Some t \<Rightarrow> t)"

definition querySelect :: "sql_query \<Rightarrow> string" where
  "querySelect q = joinLines [sq_select q, sq_from q, textOf (sq_group q), sq_filter q]"

definition groupedBy :: "string option \<Rightarrow> string \<Rightarrow> string" where
  "groupedBy grp countBy = (if textOf grp = [] then [] else ''GROUP BY '' @ countBy)"

definition countField :: "string \<Rightarrow> string" where
  "countField f = (if f = [] then ''id'' else f)"

definition countSource :: "string \<Rightarrow> sql_query \<Rightarrow> string" where
  "countSource countBy q =
     joinLines [''SELECT '' @ countField countBy, sq_from q, groupedBy (sq_group q) (countField countBy)]"

definition queryCount :: "string \<Rightarrow> string" where
  "queryCount source = joinLines [''SELECT COUNT(*) as total'', ''FROM ('', source, '') AS T;'']"

text \<open>
  Both queries run side by side; either failing is thrown as a plain error.  A
  count without a row counts nothing.
\<close>

definition selectPair ::
  "(string \<Rightarrow> (exn, 'i list) res) \<Rightarrow> (string \<Rightarrow> (exn, nat list) res) \<Rightarrow> string \<Rightarrow> string
    \<Rightarrow> (exn, 'i list \<times> nat) res" where
  "selectPair rowsOf totalsOf select count =
    (case (rowsOf select, totalsOf count) of
       (Inr items, Inr totals) \<Rightarrow> Inr (items, case totals of [] \<Rightarrow> 0 | n # ns \<Rightarrow> n)
     | r \<Rightarrow> Inl (JsError ''Error''))"

definition selectAndCountQuery ::
  "(string \<Rightarrow> (exn, 'i list) res) \<Rightarrow> (string \<Rightarrow> (exn, nat list) res) \<Rightarrow> sql_query \<Rightarrow> string
    \<Rightarrow> (exn, 'i list \<times> nat) res" where
  "selectAndCountQuery rowsOf totalsOf q countBy =
     selectPair rowsOf totalsOf (querySelect q) (queryCount (countSource countBy q))"

definition unionOf :: "string list \<Rightarrow> string" where
  "unionOf = joinWith ([CHR 0x0A, CHR 0x0A] @ ''UNION'' @ [CHR 0x0A, CHR 0x0A])"

definition unionSelectAndCountQuery ::
  "(string \<Rightarrow> (exn, 'i list) res) \<Rightarrow> (string \<Rightarrow> (exn, nat list) res) \<Rightarrow> sql_query list \<Rightarrow> string
    \<Rightarrow> string \<Rightarrow> (exn, 'i list \<times> nat) res" where
  "unionSelectAndCountQuery rowsOf totalsOf qs filt countBy =
     selectPair rowsOf totalsOf (joinLines [unionOf (map querySelect qs), filt])
       (queryCount (unionOf (map (countSource countBy) qs)))"

text \<open>What MySQL answers to \<open>LIMIT l OFFSET o\<close>.\<close>

definition pageOf :: "query_filters \<Rightarrow> 'r list \<Rightarrow> 'r list" where
  "pageOf f xs = take (case qf_limit f of None \<Rightarrow> 0 | Some l \<Rightarrow> nat l) (drop (nat (qf_offset f)) xs)"

section \<open>Orders\<close>

lemma getOrderField_source:
  "getOrderField escapeId builtin alias fieldMap name \<in> snd ` set fieldMap
   \<or> (\<exists>s. getOrderField escapeId builtin alias fieldMap name = escapeId s)
   \<or> (\<exists>n \<in> set inheritedNames. getOrderField escapeId builtin alias fieldMap name = builtin n)"
proof -
  have "col \<in> snd ` set fieldMap" if "map_of fieldMap n = Some col" for n col
    using map_of_SomeD [OF that] by force
  then show ?thesis by (auto simp: getOrderField_def Let_def split: option.split)
qed

lemma orderList_source:
  "(col, desc) \<in> set (orderList field orderBy d) \<Longrightarrow> \<exists>n. col = field n"
  by (auto simp: orderList_def split: arg.splits if_splits)

lemma appendOrder_Some: "\<exists>s. appendOrder x acc = Some s \<and> s \<noteq> []"
  by (cases x) simp

lemma orderStr_join:
  "orderStr order = (if order = [] then None else Some (joinWith '', ''
     (map (\<lambda>(col, desc). col @ '' '' @ (if desc then ''DESC'' else ''ASC'')) order)))"
proof -
  let ?f = "\<lambda>(col, desc). col @ '' '' @ (if desc then ''DESC'' else ''ASC'')"
  have "s \<noteq> [] \<Longrightarrow> fold appendOrder xs (Some s) =
      Some (s @ concat (map (\<lambda>x. '', '' @ ?f x) xs))" for xs s
    by (induction xs arbitrary: s) auto
  then show ?thesis by (cases order) (auto simp: orderStr_def joinWith_Cons case_prod_beta comp_def)
qed

section \<open>Paging\<close>

lemma baseQueryFilter_limit:
  "qf_limit (getQueryParams env field (baseQueryFilter env page limit ob ds))
     = Some (case limit of Some n \<Rightarrow> if 1 \<le> n then n else defaultPageSize env | None \<Rightarrow> defaultPageSize env)"
  by (auto simp: getQueryParams_def baseQueryFilter_def limitSetter_def defaultPageSize_def Let_def split: option.split)

lemma baseQueryFilter_offset:
  "qf_offset (getQueryParams env field (baseQueryFilter env page limit ob ds))
     = (case page of Some n \<Rightarrow> if 1 \<le> n then n - 1 else 0 | None \<Rightarrow> 0)
       * the (qf_limit (getQueryParams env field (baseQueryFilter env page limit ob ds)))"
  by (auto simp: getQueryParams_def baseQueryFilter_def pageSetter_def Let_def split: option.split)

lemma take_pages: "concat (map (\<lambda>k. take l (drop (k * l) xs)) [0..<n]) = take (n * l) xs"
proof (induction n)
  case (Suc n)
  have "take (n * l) xs @ take l (drop (n * l) xs) = take (Suc n * l) xs"
    by (simp add: take_add [symmetric] add.commute)
  then show ?case using Suc by simp
qed simp

text \<open>
  Paging is exact: whatever page, limit and order a request asks for, its window
  has a positive size and starts at or after the first row, and walking through
  pages 1 to n with the same limit shows the first n windows of the result, every
  row exactly once and in order, until no row is left.
\<close>

theorem pages_cover_result:
  assumes "0 < defaultPageSize env"
  shows "\<exists>l > 0. (\<forall>page. qf_limit (getQueryParams env field (baseQueryFilter env page limit ob ds)) = Some l
          \<and> 0 \<le> qf_offset (getQueryParams env field (baseQueryFilter env page limit ob ds)))
    \<and> (\<forall>n. concat (map (\<lambda>k. pageOf (getQueryParams env field
              (baseQueryFilter env (Some (int k)) limit ob ds)) xs) [1..<Suc n]) = take (n * nat l) xs)
    \<and> (\<forall>n. length xs \<le> n * nat l \<longrightarrow> pageOf (getQueryParams env field
              (baseQueryFilter env (Some (int (Suc n))) limit ob ds)) xs = [])"
proof -
  define l where "l = (case limit of Some n \<Rightarrow> if 1 \<le> n then n else defaultPageSize env
     | None \<Rightarrow> defaultPageSize env)"
  let ?q = "\<lambda>page. getQueryParams env field (baseQueryFilter env page limit ob ds)"
  have l: "0 < l" using assms by (auto simp: l_def split: option.split)
  have lim: "qf_limit (?q page) = Some l" for page unfolding baseQueryFilter_limit l_def ..
  have page: "pageOf (?q (Some (int (Suc k)))) xs = take (nat l) (drop (k * nat l) xs)" for k
    using l unfolding pageOf_def baseQueryFilter_offset lim by (simp add: nat_mult_distrib)
  have shift: "[1..<Suc n] = map Suc [0..<n]" for n by (simp add: map_Suc_upt)
  have walk: "concat (map (\<lambda>k. pageOf (?q (Some (int k))) xs) [1..<Suc n]) = take (n * nat l) xs" for n
    unfolding shift map_map comp_def page by (rule take_pages)
  have start: "0 \<le> qf_offset (?q page)" for page
    using l unfolding baseQueryFilter_offset lim by (auto split: option.split)
  show ?thesis
  proof (intro exI [of _ l] conjI allI impI)
    fix n assume "length xs \<le> n * nat l"
    then show "pageOf (?q (Some (int (Suc n)))) xs = []" unfolding page by simp
  qed (use l lim start walk in auto)
qed

end
