(* ===== verification/User_Service.thy ===== *)
theory User_Service
  imports Users Proposals
begin

text \<open>
  Accounts (\<open>modules/user/user.service.ts\<close>), the request context
  (\<open>context.ts\<close>) and the guard of protected endpoints (\<open>guards/auth.guard.ts\<close>):
  login with a wallet signature, which signs up an unknown wallet, the profile,
  the change of an e-mail address, and who may call what.  The recovery of a
  signer, tokens, generated ids, the validator of addresses and the mailer are
  parameters.
\<close>

section \<open>The context of a request\<close>

record session =
  ss_user :: "user option"
  ss_roles :: "nat list"

text \<open>
  \<open>readToken\<close> answers the id a login token was signed for, or throws.  The user is
  read as every live row is; a missing or deleted one leaves an empty model.
\<close>

definition authenticate ::
  "(string \<Rightarrow> (exn, nat) res) \<Rightarrow> (nat \<Rightarrow> bool) \<Rightarrow> string \<Rightarrow> db \<Rightarrow> (exn, session) res" where
  "authenticate readToken live token d =
    (if token = [] then Inr \<lparr>ss_user = None, ss_roles = []\<rparr>
     else bindR (readToken token) (\<lambda>i.
       if i = 0 then Inr \<lparr>ss_user = None, ss_roles = []\<rparr>
       else bindR (populateById i (users d)) (\<lambda>u.
         Inr \<lparr>ss_user = u, ss_roles = (case u of None \<Rightarrow> [] | Some r \<Rightarrow> populateRoles live (rowId r) d)\<rparr>)))"

definition isAuthenticated :: "session \<Rightarrow> bool" where
  "isAuthenticated s \<longleftrightarrow> (case ss_user s of None \<Rightarrow> False | Some u \<Rightarrow> exists u \<and> isEnabled u)"

definition sessionHasRole :: "session \<Rightarrow> nat list \<Rightarrow> bool" where
  "sessionHasRole s roles \<longleftrightarrow> ss_user s \<noteq> None \<and> list_ex (\<lambda>r. r \<in> set (ss_roles s)) roles"

definition authGuard :: "nat list \<Rightarrow> session \<Rightarrow> (exn, bool) res" where
  "authGuard required s =
    (if \<not> isAuthenticated s then Inl (CodeException 401 UNAUTHORIZED)
     else if required \<noteq> [] \<and> \<not> sessionHasRole s required then Inl (CodeException 403 INSUFFICIENT_ROLES)
     else Inr True)"

section \<open>Login\<close>

record wallet_login =
  wl_address :: string
  wl_signature :: string
  wl_timestamp :: int
  wl_referralId :: "string option"

definition getWalletAuthMessage :: "int \<Rightarrow> string" where
  "getWalletAuthMessage timestamp = ''Please sign this message.'' @ [CHR 0x0A] @ jsInt timestamp"

definition verifyWalletSignature ::
  "(string \<Rightarrow> string \<Rightarrow> (exn, string) res) \<Rightarrow> string \<Rightarrow> string \<Rightarrow> string \<Rightarrow> bool" where
  "verifyWalletSignature recover message signature address =
    (case recover message signature of
       Inl e \<Rightarrow> False
     | Inr a \<Rightarrow> toLowerCase a = toLowerCase address)"

definition shortAddress :: "string \<Rightarrow> string" where
  "shortAddress a = take 6 a @ ''...'' @ sliceEnd 4 a"

definition newUser :: "string \<Rightarrow> string \<Rightarrow> user" where
  "newUser address refId = \<lparr>rowId = 0, status = ACTIVE, createTime = 0, updateTime = 0, createUser = None,
     updateUser = None, us_username = Some (shortAddress address), us_email = None,
     us_emailStatus = EMAIL_PENDING, us_walletAddress = address, us_referralId = refId\<rparr>"

definition validateUser :: "(string \<Rightarrow> bool) \<Rightarrow> user \<Rightarrow> ValidatorErrorCode list" where
  "validateUser validEmail u = (case us_email u of None \<Rightarrow> []
     | Some e \<Rightarrow> if validEmail e then [] else [USER_EMAIL_NOT_VALID])"

definition referralAward :: "ctx \<Rightarrow> string option \<Rightarrow> db \<Rightarrow> (exn, db) res" where
  "referralAward c refId d = (case refId of
      None \<Rightarrow> Inr d
    | Some r \<Rightarrow> if r = [] then Inr d
        else bindR (populateByUUID us_referralId r (users d)) (\<lambda>ru.
          case ru of None \<Rightarrow> Inr d | Some u \<Rightarrow> awardPoints c (rowId u) USER_REFERRAL 1 d))"

text \<open>
  The transaction of a sign-up.  The model is validated after the transaction was
  opened and outside its \<open>try\<close>: a refusal there would leave the connection open.
\<close>

definition signUpTx ::
  "ctx \<Rightarrow> (string \<Rightarrow> bool) \<Rightarrow> string \<Rightarrow> wallet_login \<Rightarrow> db \<Rightarrow> (abort, db \<times> nat) res" where
  "signUpTx c validEmail refId q d =
    (let u = newUser (wl_address q) refId in
     if validateUser validEmail u \<noteq> [] then Inl (Escaped (ValidationException (validateUser validEmail u)))
     else aborting (bindR (insertRow c userClash u (users d)) (\<lambda>(i, t).
       bindR (referralAward c (wl_referralId q) (addRole i (defaultUserRoleNo ROLE_USER) (d\<lparr>users := t\<rparr>)))
         (\<lambda>d'. Inr (d', i)))))"

text \<open>
  \<open>recover\<close> is the signer of a message, \<open>refId\<close> the generated referral id.  The
  answer is the id the login token is signed for.
\<close>

definition loginWithWallet ::
  "ctx \<Rightarrow> (string \<Rightarrow> string \<Rightarrow> (exn, string) res) \<Rightarrow> (string \<Rightarrow> bool) \<Rightarrow> string \<Rightarrow> wallet_login
    \<Rightarrow> db mysql \<Rightarrow> (exn, nat) res \<times> db mysql" where
  "loginWithWallet c recover validEmail refId q m =
    (if ctx_now c - wl_timestamp q > 60 * 60 * 1000 then (Inl (CodeException 401 INVALID_SIGNATURE), m)
     else if \<not> verifyWalletSignature recover (getWalletAuthMessage (wl_timestamp q)) (wl_signature q) (wl_address q)
     then (Inl (CodeException 401 INVALID_SIGNATURE), m)
     else (case populateByWalletAddress (wl_address q) (committed m) of
         Some u \<Rightarrow> if exists u then (Inr (rowId u), m) else withTxA (signUpTx c validEmail refId q) m
       | None \<Rightarrow> withTxA (signUpTx c validEmail refId q) m))"

section \<open>Profile and e-mail\<close>

text \<open>The columns an update of a user writes, from the model to its row.\<close>

definition writeUser :: "user \<Rightarrow> user \<Rightarrow> user" where
  "writeUser u r = r\<lparr>status := status u, us_username := us_username u, us_email := us_email u,
     us_emailStatus := us_emailStatus u, us_referralId := us_referralId u\<rparr>"

definition updateUserRow :: "ctx \<Rightarrow> user \<Rightarrow> db \<Rightarrow> (exn, db) res" where
  "updateUserRow c u d = bindR (updateUnique c userClash (rowId u) (writeUser u) (users d))
     (\<lambda>t. Inr (d\<lparr>users := t\<rparr>))"

text \<open>
  The verification mail carries a token signed for the address and the account;
  \<open>sign\<close> and \<open>mail\<close> are the token library and the mailer.
\<close>

definition sendEmailVerification ::
  "(string \<Rightarrow> nat \<Rightarrow> string) \<Rightarrow> (string \<Rightarrow> string \<Rightarrow> (exn, unit) res) \<Rightarrow> string \<Rightarrow> user \<Rightarrow> string
    \<Rightarrow> (exn, unit) res" where
  "sendEmailVerification sign mail appUrl me email =
    (if email = [] then Inl (ValidatorCodeException 422 DEFAULT_VALIDATION_ERROR)
     else mail email (appUrl @ ''/confirm-email/?token='' @ sign email (rowId me)))"

text \<open>
  \<open>sendMail\<close> is \<open>sendEmailVerification\<close> for the account of the request.  The address of the same account in the
  table answers an object without an \<open>email\<close> field: \<open>None\<close>.
\<close>

definition updateEmail ::
  "ctx \<Rightarrow> (string \<Rightarrow> bool) \<Rightarrow> (string \<Rightarrow> (exn, unit) res) \<Rightarrow> user \<Rightarrow> string \<Rightarrow> db
    \<Rightarrow> (exn, db \<times> string option) res" where
  "updateEmail c validEmail sendMail me email d =
    bindR (populateByEmail email d) (\<lambda>ex.
      case ex of
        Some r \<Rightarrow> if rowId r \<noteq> rowId me then Inl (ValidatorCodeException 422 USER_EMAIL_ALREADY_TAKEN)
                  else Inr (d, None)
      | None \<Rightarrow>
         (let me = me\<lparr>us_email := Some email, us_emailStatus := EMAIL_PENDING\<rparr> in
          if validateUser validEmail me \<noteq> [] then Inl (ValidationException (validateUser validEmail me))
          else bindR (rethrowR (CodeException 500 SQL_SYSTEM_ERROR)
                 (bindR (updateUserRow c me d) (\<lambda>d'. bindR (sendMail email) (\<lambda>u. Inr d'))))
               (\<lambda>d'. Inr (d', Some email))))"

record profile_data =
  pd_username :: string
  pd_email :: "string option"

text \<open>
  The first UPDATE and its validation share a \<open>catch\<close> that throws only for
  validation errors: any other failure of the UPDATE is dropped.
\<close>

definition updateProfileTx ::
  "ctx \<Rightarrow> (string \<Rightarrow> bool) \<Rightarrow> (string \<Rightarrow> (exn, unit) res) \<Rightarrow> user \<Rightarrow> profile_data \<Rightarrow> db
    \<Rightarrow> (exn, db \<times> user) res" where
  "updateProfileTx c validEmail sendMail me b d =
    (let me = me\<lparr>us_username := Some (pd_username b)\<rparr> in
     if validateUser validEmail me \<noteq> [] then Inl (ValidationException (validateUser validEmail me))
     else let d1 = attemptR d (updateUserRow c me d) in
       case pd_email b of
         None \<Rightarrow> Inr (d1, me)
       | Some e \<Rightarrow> if e = [] \<or> us_email me = Some e then Inr (d1, me)
           else bindR (updateEmail c validEmail sendMail me e d1) (\<lambda>(d2, r).
             Inr (d2, me\<lparr>us_email := r, us_emailStatus := (if r = None then us_emailStatus me else EMAIL_PENDING)\<rparr>)))"

definition updateProfile ::
  "ctx \<Rightarrow> (string \<Rightarrow> (exn, bool) res) \<Rightarrow> (string \<Rightarrow> bool) \<Rightarrow> (string \<Rightarrow> (exn, unit) res) \<Rightarrow> user
    \<Rightarrow> profile_data \<Rightarrow> db mysql \<Rightarrow> (exn, user) res \<times> db mysql" where
  "updateProfile c flagged validEmail sendMail me b m =
    (if \<not> isTextSafe flagged (pd_username b) then (Inl (CodeException 400 TEXT_CONTENT_NOT_SAFE), m)
     else withTx (updateProfileTx c validEmail sendMail me b) m)"

text \<open>\<open>readMailToken\<close> answers the id and the address a verification token was signed for.\<close>

definition changeEmailTx ::
  "ctx \<Rightarrow> (string \<Rightarrow> bool) \<Rightarrow> (string \<Rightarrow> (exn, nat \<times> string) res) \<Rightarrow> string \<Rightarrow> db \<Rightarrow> (exn, db \<times> user) res" where
  "changeEmailTx c validEmail readMailToken token d =
    bindR (guardR (token \<noteq> []) (ValidatorCodeException 422 DEFAULT_VALIDATION_ERROR)) (\<lambda>x.
    bindR (rethrowR (CodeException 401 INVALID_TOKEN) (readMailToken token)) (\<lambda>(i, email).
    bindR (populateById i (users d)) (\<lambda>r.
    bindR (requireR (CodeException 401 INVALID_TOKEN) r) (\<lambda>u.
      let u = u\<lparr>us_email := Some email, us_emailStatus := EMAIL_VERIFIED\<rparr> in
      if validateUser validEmail u \<noteq> [] then Inl (ModelValidationException (validateUser validEmail u))
      else bindR (updateUserRow c u d) (\<lambda>d'. Inr (d', u))))))"

definition changeEmail ::
  "ctx \<Rightarrow> (string \<Rightarrow> bool) \<Rightarrow> (string \<Rightarrow> (exn, nat \<times> string) res) \<Rightarrow> string \<Rightarrow> db mysql
    \<Rightarrow> (exn, user) res \<times> db mysql" where
  "changeEmail c validEmail readMailToken token = withTx (changeEmailTx c validEmail readMailToken token)"

section \<open>Who may call\<close>

text \<open>
  The guard of an endpoint lets a request through only if its token was signed
  for a user who is in the table and not deleted, and, where the endpoint names
  roles, only if that user holds one of them and the role itself is not deleted.
\<close>

theorem guard_admits_only_roles:
  assumes "authenticate readToken live token d = Inr s" and "authGuard required s = Inr b"
  shows "b \<and> token \<noteq> [] \<and> (\<exists>u \<in> set (rows (users d)). readToken token = Inr (rowId u) \<and> ss_user s = Some u
    \<and> status u \<noteq> DELETED \<and> (required \<noteq> [] \<longrightarrow>
         (\<exists>r \<in> set required. (rowId u, r) \<in> set (user_roles d) \<and> live r)))"
proof -
  have auth: "isAuthenticated s" and b
    and roles: "required \<noteq> [] \<longrightarrow> sessionHasRole s required"
    using assms(2) by (auto simp: authGuard_def split: if_splits)
  then obtain u where u: "ss_user s = Some u" by (auto simp: isAuthenticated_def split: option.splits)
  then obtain i where i: "token \<noteq> []" "readToken token = Inr i" "i \<noteq> 0" "populateById i (users d) = Inr (Some u)"
    "ss_roles s = populateRoles live (rowId u) d"
    using assms(1) by (auto simp: authenticate_def res_simps split: if_splits)
  then have row: "u \<in> set (rows (users d))" "rowId u = i" "status u \<noteq> DELETED"
    using populateById_SomeD by blast+
  have "\<exists>r \<in> set required. (rowId u, r) \<in> set (user_roles d) \<and> live r" if "required \<noteq> []"
    using roles that i(5) by (auto simp: sessionHasRole_def list_ex_iff populateRoles_def split: if_splits)
  then show ?thesis using \<open>b\<close> i row u by blast
qed

section \<open>Sign-up\<close>

definition referredBy :: "string option \<Rightarrow> db \<Rightarrow> user option" where
  "referredBy refId d = (case refId of None \<Rightarrow> None
     | Some r \<Rightarrow> if r = [] then None
         else find (\<lambda>u. us_referralId u = r \<and> status u \<noteq> DELETED) (rows (users d)))"

lemma referredBy_cong: "users d' = users d \<Longrightarrow> referredBy refId d' = referredBy refId d"
  by (simp only: referredBy_def)

lemma referralAward_cases:
  assumes "referralAward c refId d = Inr d'"
  obtains (nobody) "referredBy refId d = None" "d' = d"
  | (somebody) u where "referredBy refId d = Some u" "awardPoints c (rowId u) USER_REFERRAL 1 d = Inr d'"
  using assms by (auto simp: referralAward_def referredBy_def populateByUUID_def split: option.splits if_splits)

lemma validateUser_new [simp]: "validateUser validEmail (newUser a r) = []"
  by (simp add: validateUser_def newUser_def)

lemma signUpTx_Inr:
  assumes "signUpTx c validEmail refId q d = Inr (d', i)"
  obtains t where "insertRow c userClash (newUser (wl_address q) refId) (users d) = Inr (i, t)"
    "referralAward c (wl_referralId q) (addRole i (defaultUserRoleNo ROLE_USER) (d\<lparr>users := t\<rparr>)) = Inr d'"
  using assms by (auto simp: signUpTx_def Let_def res_simps)

lemma signUpTx_never_escapes: "signUpTx c validEmail refId q d \<noteq> Inl (Escaped e)"
proof -
  have "aborting r \<noteq> Inl (Escaped e)" for r :: "(exn, 'a) res" by (cases r) auto
  then show ?thesis by (simp add: signUpTx_def)
qed

lemma addRole_frame [simp]:
  "users (addRole i r d) = users d" "reward_transactions (addRole i r d) = reward_transactions d"
  "reward_pointss (addRole i r d) = reward_pointss d"
  by (simp_all add: addRole_def)

lemma dbInv_addRole [simp]: "dbInv (addRole i r d) = dbInv d"
  by (simp add: addRole_def dbInv_def)

lemma dbInv_users: "dbInv d \<Longrightarrow> tblInv t \<Longrightarrow> dbInv (d\<lparr>users := t\<rparr>)"
  by (simp add: dbInv_def)

text \<open>How a login can end.\<close>

lemma loginWithWallet_cases:
  obtains (refused) "loginWithWallet c recover validEmail refId q m = (Inl (CodeException 401 INVALID_SIGNATURE), m)"
  | (known) u where "populateByWalletAddress (wl_address q) (committed m) = Some u" "exists u"
      "loginWithWallet c recover validEmail refId q m = (Inr (rowId u), m)"
  | (aborted) e where "loginWithWallet c recover validEmail refId q m = (Inl e, m)"
  | (signed_up) i d' where "\<forall>u. populateByWalletAddress (wl_address q) (committed m) = Some u \<longrightarrow> \<not> exists u"
      "signUpTx c validEmail refId q (committed m) = Inr (d', i)"
      "loginWithWallet c recover validEmail refId q m = (Inr i, m\<lparr>committed := d'\<rparr>)"
proof (cases "ctx_now c - wl_timestamp q > 60 * 60 * 1000 \<or>
    \<not> verifyWalletSignature recover (getWalletAuthMessage (wl_timestamp q)) (wl_signature q) (wl_address q)")
  case True
  then show thesis using refused by (auto simp: loginWithWallet_def)
next
  case ok: False
  show thesis
  proof (cases "\<exists>u. populateByWalletAddress (wl_address q) (committed m) = Some u \<and> exists u")
    case True
    then show thesis using known ok by (auto simp: loginWithWallet_def)
  next
    case False
    then have run: "loginWithWallet c recover validEmail refId q m = withTxA (signUpTx c validEmail refId q) m"
      using ok by (auto simp: loginWithWallet_def split: option.split)
    show thesis
    proof (cases rule: withTxA_cases [of "signUpTx c validEmail refId q" m])
      case (published w a)
      then show thesis using signed_up run False by auto
    qed (use aborted run signUpTx_never_escapes in auto)
  qed
qed

lemma referralAward_frame:
  assumes "referralAward c refId d = Inr d'"
  shows "users d' = users d \<and> user_roles d' = user_roles d \<and> (dbInv d \<longrightarrow> dbInv d')"
  using assms
proof (cases rule: referralAward_cases)
  case (somebody u)
  then show ?thesis using awardPoints_frame awardPoints_dbInv by fastforce
qed simp

lemma pointsOf_cong: "reward_transactions d' = reward_transactions d \<Longrightarrow> pointsOf v d' = pointsOf v d"
  by (simp add: pointsOf_def getUserPoints_def userRows_def)

lemma rewardValue_cong: "reward_pointss d' = reward_pointss d \<Longrightarrow> rewardValue ty d' = rewardValue ty d"
  by (simp add: rewardValue_def populateByType_def)

text \<open>What a sign-up leaves: one more row, its role, and the award of the one who referred it.\<close>

lemma signUpTx_effect:
  assumes "signUpTx c validEmail refId q d = Inr (d', i)"
  shows "rows (users d') = rows (users d) @ [(newUser (wl_address q) refId)\<lparr>rowId := i, createUser := ctx_user c,
          updateUser := ctx_user c, createTime := ctx_now c, updateTime := ctx_now c\<rparr>]"
    and "set (user_roles d') = insert (i, defaultUserRoleNo ROLE_USER) (set (user_roles d))"
    and "pointsOf v d' = pointsOf v d
          + (if map_option rowId (referredBy (wl_referralId q) d') = Some v then rewardValue USER_REFERRAL d else 0)"
    and "dbInv d \<Longrightarrow> dbInv d'"
proof -
  let ?role = "addRole i (defaultUserRoleNo ROLE_USER)"
  from assms obtain t where ins: "insertRow c userClash (newUser (wl_address q) refId) (users d) = Inr (i, t)"
    and aw: "referralAward c (wl_referralId q) (?role (d\<lparr>users := t\<rparr>)) = Inr d'"
    by (rule signUpTx_Inr)
  note fr = referralAward_frame [OF aw]
  show "rows (users d') = rows (users d) @ [(newUser (wl_address q) refId)\<lparr>rowId := i, createUser := ctx_user c,
          updateUser := ctx_user c, createTime := ctx_now c, updateTime := ctx_now c\<rparr>]"
    using fr insertRow_Inr(1) [OF ins] by simp
  show "set (user_roles d') = insert (i, defaultUserRoleNo ROLE_USER) (set (user_roles d))"
    using fr by (auto simp: addRole_def)
  show "dbInv d'" if "dbInv d"
    using fr dbInv_users [OF that tblInv_insertRow [OF _ ins]] that by (simp add: dbInv_def [of d])
  have r: "referredBy (wl_referralId q) d' = referredBy (wl_referralId q) (?role (d\<lparr>users := t\<rparr>))"
    by (rule referredBy_cong) (use fr in simp)
  have p: "pointsOf v (?role (d\<lparr>users := t\<rparr>)) = pointsOf v d" by (rule pointsOf_cong) simp
  have w: "rewardValue USER_REFERRAL (?role (d\<lparr>users := t\<rparr>)) = rewardValue USER_REFERRAL d"
    by (rule rewardValue_cong) simp
  from aw show "pointsOf v d' = pointsOf v d
          + (if map_option rowId (referredBy (wl_referralId q) d') = Some v then rewardValue USER_REFERRAL d else 0)"
  proof (cases rule: referralAward_cases)
    case nobody
    then show ?thesis using r p by simp
  next
    case (somebody u)
    then show ?thesis using r p w ledger.balance_credit [OF somebody(2), of v] by auto
  qed
qed


text \<open>
  A wallet can be locked out for good: the user name of a new account is the
  first six and last four characters of its address and user names are unique, so
  while another account has that name every login of the wallet, with whatever
  signature, time and referral, fails and changes nothing.
\<close>

theorem lookalike_wallet_locked_out:
  assumes "populateByWalletAddress (wl_address q) (committed m) = None"
    and "u \<in> set (rows (users (committed m)))" and "us_username u = Some (shortAddress (wl_address q))"
  shows "\<exists>e. loginWithWallet c recover validEmail refId q m = (Inl e, m)"
proof -
  have "insertRow c userClash (newUser (wl_address q) refId') (users (committed m)) = Inl (JsError ''Duplicate entry'')"
    for refId'
    using assms(2,3) by (auto simp: insertRow_def Let_def list_ex_iff userClash_def newUser_def intro!: bexI [of _ u])
  then have "signUpTx c validEmail refId q (committed m) = Inl (Aborted (JsError ''Duplicate entry''))"
    by (simp add: signUpTx_def)
  then show ?thesis
    using assms(1) by (cases rule: loginWithWallet_cases [of c recover validEmail refId q m]) auto
qed

section \<open>Accounts over time\<close>

text \<open>Wallets, user names and e-mail addresses belong to one account each.\<close>

definition accountsOk :: "db \<Rightarrow> bool" where
  "accountsOk d \<longleftrightarrow> dbInv d \<and> distinct (map us_walletAddress (rows (users d)))
     \<and> (\<forall>r \<in> set (rows (users d)). \<forall>s \<in> set (rows (users d)). rowId r \<noteq> rowId s \<longrightarrow> \<not> userClash r s)"

lemma userClash_sym: "userClash r s \<longleftrightarrow> userClash s r"
  unfolding userClash_def by metis

text \<open>The parameters of the environment: the signer, the validator of addresses, the mailer, the tokens.\<close>

record account_env =
  ae_recover :: "string \<Rightarrow> string \<Rightarrow> (exn, string) res"
  ae_flagged :: "string \<Rightarrow> (exn, bool) res"
  ae_validEmail :: "string \<Rightarrow> bool"
  ae_sendMail :: "string \<Rightarrow> (exn, unit) res"
  ae_readMailToken :: "string \<Rightarrow> (exn, nat \<times> string) res"

datatype account_request =
  Login string wallet_login
  | Profile user profile_data
  | Confirm string

fun serveAccount :: "account_env \<Rightarrow> ctx \<times> account_request \<Rightarrow> db mysql \<Rightarrow> (exn, unit) res \<times> db mysql" where
  "serveAccount e (c, Login refId q) m =
     apfst (\<lambda>r. bindR r (\<lambda>x. Inr ())) (loginWithWallet c (ae_recover e) (ae_validEmail e) refId q m)"
| "serveAccount e (c, Profile me b) m =
     apfst (\<lambda>r. bindR r (\<lambda>x. Inr ())) (updateProfile c (ae_flagged e) (ae_validEmail e) (ae_sendMail e) me b m)"
| "serveAccount e (c, Confirm token) m =
     apfst (\<lambda>r. bindR r (\<lambda>x. Inr ())) (changeEmail c (ae_validEmail e) (ae_readMailToken e) token m)"

lemma accountsOk_signUp:
  assumes "signUpTx c validEmail refId q d = Inr (d', i)" and "accountsOk d"
    and "\<forall>u \<in> set (rows (users d)). us_walletAddress u \<noteq> wl_address q"
  shows "accountsOk d'"
proof -
  let ?u = "(newUser (wl_address q) refId)\<lparr>rowId := i, createUser := ctx_user c,
          updateUser := ctx_user c, createTime := ctx_now c, updateTime := ctx_now c\<rparr>"
  note eff = signUpTx_effect [OF assms(1)]
  have inv: "dbInv d" using assms(2) by (simp add: accountsOk_def)
  obtain t where ins: "insertRow c userClash (newUser (wl_address q) refId) (users d) = Inr (i, t)"
    using assms(1) by (rule signUpTx_Inr)
  then have no: "\<forall>s \<in> set (rows (users d)). \<not> userClash ?u s"
    by (auto simp: insertRow_def Let_def list_ex_iff split: if_splits)
  have "distinct (map us_walletAddress (rows (users d')))"
    using assms(2,3) by (auto simp: eff(1) accountsOk_def newUser_def)
  moreover have "\<forall>r \<in> set (rows (users d')). \<forall>s \<in> set (rows (users d')). rowId r \<noteq> rowId s \<longrightarrow> \<not> userClash r s"
    using assms(2) no userClash_sym by (auto simp: eff(1) accountsOk_def)
  ultimately show ?thesis using eff(4) [OF inv] by (simp add: accountsOk_def)
qed

lemma writeUser_frame [simp]:
  "rowId (writeUser u r) = rowId r" "us_walletAddress (writeUser u r) = us_walletAddress r"
  by (simp_all add: writeUser_def)

lemma accountsOk_updateUserRow:
  assumes "updateUserRow c u d = Inr d'" and "accountsOk d"
  shows "accountsOk d'"
proof -
  obtain t where t: "updateUnique c userClash (rowId u) (writeUser u) (users d) = Inr t" "d' = d\<lparr>users := t\<rparr>"
    using assms(1) by (auto simp: updateUserRow_def res_simps)
  consider "t = users d" | r where "byId (rowId u) (users d) = Some r"
      "t = updateRow c (rowId u) (writeUser u) (users d)"
      "\<forall>s \<in> set (rows (users d)). rowId s \<noteq> rowId u \<longrightarrow> \<not> userClash (writeUser u r) s"
    using t(1) by (auto simp: updateUnique_def list_ex_iff split: option.splits if_splits)
  then show ?thesis
  proof cases
    case 1
    then show ?thesis using assms(2) t(2) by simp
  next
    case (2 r)
    let ?f = "\<lambda>r. (writeUser u r)\<lparr>rowId := rowId u, updateUser := ctx_user c, updateTime := ctx_now c\<rparr>"
    have rows: "rows t = upd_where (\<lambda>r. rowId r = rowId u) ?f (rows (users d))"
      using 2(2) by (simp add: updateRow_def)
    have clash: "userClash (?f x) s = userClash (writeUser u r) s" for x s
      by (simp add: userClash_def writeUser_def)
    have "dbInv d'" using assms(2) t(2) 2(2) by (simp add: accountsOk_def dbInv_users dbInv_def)
    moreover have "distinct (map us_walletAddress (rows t))"
      using assms(2) unfolding rows by (subst map_upd_where) (simp_all add: accountsOk_def)
    moreover have "\<not> userClash x y" if "x \<in> set (rows t)" "y \<in> set (rows t)" "rowId x \<noteq> rowId y" for x y
    proof -
      from that(1) consider (old) "x \<in> set (rows (users d))" "rowId x \<noteq> rowId u" | (new) x' where "x = ?f x'"
        unfolding rows set_upd_where by blast
      then show ?thesis
      proof cases
        case old
        then show ?thesis using that 2(3) assms(2) clash userClash_sym [of x y]
          unfolding rows set_upd_where accountsOk_def by auto
      next
        case (new x')
        then have "y \<in> set (rows (users d))" "rowId y \<noteq> rowId u"
          using that unfolding rows set_upd_where by auto
        then show ?thesis using new 2(3) clash by simp
      qed
    qed
    ultimately show ?thesis using t(2) by (simp add: accountsOk_def)
  qed
qed

lemma updateEmail_Inr:
  assumes "updateEmail c validEmail sendMail me email d = Inr (d', r)"
  shows "d' = d \<or> (\<exists>u. updateUserRow c u d = Inr d')"
  using assms by (auto simp: updateEmail_def Let_def res_simps split: option.splits if_splits)

lemma accountsOk_profile:
  assumes "updateProfileTx c validEmail sendMail me b d = Inr (d', u)" and "accountsOk d"
  shows "accountsOk d'"
proof -
  let ?d1 = "attemptR d (updateUserRow c (me\<lparr>us_username := Some (pd_username b)\<rparr>) d)"
  have ok: "accountsOk ?d1"
    using accountsOk_updateUserRow [OF _ assms(2)] assms(2)
    by (cases "updateUserRow c (me\<lparr>us_username := Some (pd_username b)\<rparr>) d") auto
  have "d' = ?d1 \<or> (\<exists>v. updateUserRow c v ?d1 = Inr d')"
    using assms(1) updateEmail_Inr
    by (auto simp: updateProfileTx_def Let_def res_simps split: option.splits if_splits) blast+
  then show ?thesis using ok accountsOk_updateUserRow by blast
qed

lemma accountsOk_changeEmail:
  assumes "changeEmailTx c validEmail readMailToken token d = Inr (d', u)" and "accountsOk d"
  shows "accountsOk d'"
  using assms accountsOk_updateUserRow
  by (auto simp: changeEmailTx_def Let_def res_simps split: if_splits)

lemma serveAccount_effect:
  assumes "serveAccount e cq m = (r, m')"
  shows "(accountsOk (committed m) \<longrightarrow> accountsOk (committed m')) \<and> openTx m' = openTx m
    \<and> (\<forall>x. r = Inl x \<longrightarrow> committed m' = committed m)"
proof -
  obtain c q where cq: "cq = (c, q)" by (cases cq)
  show ?thesis
  proof (cases q)
    case (Login refId l)
    have m': "m' = snd (loginWithWallet c (ae_recover e) (ae_validEmail e) refId l m)"
      and r: "r = bindR (fst (loginWithWallet c (ae_recover e) (ae_validEmail e) refId l m)) (\<lambda>x. Inr ())"
      using assms(1) by (auto simp: cq Login apfst_def map_prod_def split: prod.splits)
    show ?thesis
    proof (cases rule: loginWithWallet_cases [of c "ae_recover e" "ae_validEmail e" refId l m])
      case (signed_up i d')
      have "populateByWalletAddress (wl_address l) (committed m) = None" if "accountsOk (committed m)"
        using signed_up(1) that
        by (cases "populateByWalletAddress (wl_address l) (committed m)")
          (auto simp: accountsOk_def dbInv_def tblInv_def exists_def populateByWalletAddress_def dest!: find_SomeD)
      then have "\<forall>u \<in> set (rows (users (committed m))). us_walletAddress u \<noteq> wl_address l"
        if "accountsOk (committed m)"
        using that by (simp add: populateByWalletAddress_def find_None_iff)
      then show ?thesis using accountsOk_signUp [OF signed_up(2)] signed_up(3) m' r by auto
    qed (use m' r in auto)
  next
    case (Profile me b)
    then show ?thesis
      using assms accountsOk_profile
      by (cases rule: withTx_cases [of "updateProfileTx c (ae_validEmail e) (ae_sendMail e) me b" m])
        (auto simp: cq updateProfile_def split: if_splits)
  next
    case (Confirm token)
    then show ?thesis
      using assms accountsOk_changeEmail
      by (cases rule: withTx_cases [of "changeEmailTx c (ae_validEmail e) (ae_readMailToken e) token" m])
        (auto simp: cq changeEmail_def)
  qed
qed

interpretation accounts: tx_handler "serveAccount e" accountsOk for e :: account_env
  by unfold_locales (use serveAccount_effect in blast)+


text \<open>
  A profile change can be reported and not made: where the requested user name
  belongs to another account, the UPDATE fails, the failure is dropped, the empty
  transaction is committed and the answer shows the requested name.
\<close>

theorem taken_name_reported_as_saved:
  assumes "isTextSafe flagged (pd_username b)" and "validateUser validEmail me = []"
    and "byId (rowId me) (users (committed m)) = Some r"
    and "s \<in> set (rows (users (committed m)))" and "rowId s \<noteq> rowId me" and "us_username s = Some (pd_username b)"
    and "pd_email b = None \<or> pd_email b = us_email me"
  shows "updateProfile c flagged validEmail sendMail me b m
    = (Inr (me\<lparr>us_username := Some (pd_username b)\<rparr>), m)"
proof -
  let ?me = "me\<lparr>us_username := Some (pd_username b)\<rparr>"
  have "updateUserRow c ?me (committed m) = Inl (JsError ''Duplicate entry'')"
    using assms(3-6)
    by (auto simp: updateUserRow_def updateUnique_def list_ex_iff userClash_def writeUser_def intro!: bexI [of _ s])
  then have "updateProfileTx c validEmail sendMail me b (committed m) = Inr (committed m, ?me)"
    using assms(2,7) by (auto simp: updateProfileTx_def Let_def validateUser_def split: option.splits)
  then show ?thesis using assms(1) by (simp add: updateProfile_def withTx_Inr)
qed

end
