(* ===== verification/Jobs.thy ===== *)
theory Jobs
  imports Schema Js_String
begin

text \<open>
  The worker framework (\<open>lib/worker/serverless-workers/\<close>, \<open>modules/job/job.model.ts\<close>):
  the fixed order of a worker's run, the lock a single-thread worker takes in the
  row of its job, the schedule, and what is pending.  Times are milliseconds; the
  cron library is a parameter that answers the next time, or nothing when the
  expression does not parse.
\<close>

section \<open>The run of a worker\<close>

text \<open>A step answers or throws, and leaves a state either way.\<close>

type_synonym 's act = "'s \<Rightarrow> (exn, unit) res \<times> 's"

definition andThen :: "'s act \<Rightarrow> 's act \<Rightarrow> 's act" where
  "andThen f g s = (case f s of (Inl e, s') \<Rightarrow> (Inl e, s') | (Inr u, s') \<Rightarrow> g s')"

text \<open>
  \<open>ServerlessWorker.run\<close>: after an error \<open>onError\<close> is awaited outside any \<open>try\<close>, so
  what it throws replaces the error and skips \<open>updateOnError\<close>.
\<close>

definition serverlessRun ::
  "'s act \<Rightarrow> 's act \<Rightarrow> 's act \<Rightarrow> 's act \<Rightarrow> 's act \<Rightarrow> (exn \<Rightarrow> 's act) \<Rightarrow> (exn \<Rightarrow> 's act) \<Rightarrow> 's act" where
  "serverlessRun before onStarted execute onSuccess onCompleted onError onFailed s =
    (case andThen before (andThen onStarted (andThen execute (andThen onSuccess onCompleted))) s of
       (Inr u, s') \<Rightarrow> (Inr u, s')
     | (Inl e, s') \<Rightarrow> (case onError e s' of
           (Inl e', s2) \<Rightarrow> (Inl e', s2)
         | (Inr u, s2) \<Rightarrow> (Inl e, snd (onFailed e s2))))"

section \<open>The definition a worker is started with\<close>

text \<open>
  \<open>None\<close> in the last four fields is a property the object does not have yet, which
  a later \<open>populate\<close> leaves alone.
\<close>

record worker_def =
  wd_name :: string
  wd_id :: nat
  wd_interval :: string
  wd_lastRun :: "int option"
  wd_nextRun :: "int option"
  wd_timeout :: int
  wd_input :: "string option"
  wd_retries :: int
  wd_parameters :: "(string \<times> string) list"
  wd_autoRemove :: bool
  wd_lastCompleted :: "int option"
  wd_lastFailed :: "int option"
  wd_lastDuration :: "int option"
  wd_lastError :: "string option option"

text \<open>\<open>getWorkerDefinition\<close> stores the channel among the parameters of the job.\<close>

definition setParameter :: "string \<Rightarrow> string \<Rightarrow> (string \<times> string) list \<Rightarrow> (string \<times> string) list" where
  "setParameter k v ps = (if k \<in> set (map fst ps) then map (\<lambda>(a, b). (a, if a = k then v else b)) ps
     else ps @ [(k, v)])"

definition workerParameters :: "job \<Rightarrow> (string \<times> string) list" where
  "workerParameters j = setParameter ''channel'' (decimal (jb_channel j)) (jb_parameters j)"

definition defaultTimeout :: int where "defaultTimeout = 15 * 60"

text \<open>A definition from a job's row, as the constructor fills it.\<close>

definition jobDefinition :: "job \<Rightarrow> worker_def" where
  "jobDefinition j = \<lparr>wd_name = jb_name j, wd_id = jb_id j, wd_interval = jb_interval j, wd_lastRun = jb_lastRun j,
     wd_nextRun = jb_nextRun j, wd_timeout = (if jb_timeout j = 0 then defaultTimeout else jb_timeout j),
     wd_input = jb_input j, wd_retries = jb_retries j, wd_parameters = workerParameters j,
     wd_autoRemove = jb_autoRemove j, wd_lastCompleted = None, wd_lastFailed = None, wd_lastDuration = None,
     wd_lastError = None\<rparr>"

definition setNextRun :: "(string \<Rightarrow> int \<Rightarrow> int option) \<Rightarrow> int \<Rightarrow> worker_def \<Rightarrow> worker_def" where
  "setNextRun cron now w = w\<lparr>wd_nextRun := (if wd_interval w = [] then None
     else cron (wd_interval w) (case wd_lastRun w of None \<Rightarrow> now | Some t \<Rightarrow> t))\<rparr>"

definition setStarted :: "int \<Rightarrow> worker_def \<Rightarrow> worker_def" where
  "setStarted now w = w\<lparr>wd_nextRun := Some (now + 1000 * wd_timeout w), wd_lastRun := Some now,
     wd_retries := wd_retries w + 1\<rparr>"

definition lastDuration :: "int \<Rightarrow> worker_def \<Rightarrow> int" where
  "lastDuration now w = now - (case wd_lastRun w of None \<Rightarrow> now | Some t \<Rightarrow> t)"

definition setCompleted :: "(string \<Rightarrow> int \<Rightarrow> int option) \<Rightarrow> int \<Rightarrow> worker_def \<Rightarrow> worker_def" where
  "setCompleted cron now w = setNextRun cron now (w\<lparr>wd_lastCompleted := Some now,
     wd_lastDuration := Some (lastDuration now w), wd_retries := 0, wd_lastError := Some None\<rparr>)"

definition setFailed :: "(string \<Rightarrow> int \<Rightarrow> int option) \<Rightarrow> int \<Rightarrow> string \<Rightarrow> worker_def \<Rightarrow> worker_def" where
  "setFailed cron now msg w = setNextRun cron now (w\<lparr>wd_lastError := Some (Some msg),
     wd_lastFailed := Some now, wd_lastDuration := Some (lastDuration now w)\<rparr>)"

section \<open>The rows\<close>

definition findJob :: "nat \<Rightarrow> job list \<Rightarrow> job option" where
  "findJob i js = find (\<lambda>j. jb_id j = i \<and> jb_status j \<noteq> JOB_DEACTIVATED) js"

definition findJobByName :: "string \<Rightarrow> job list \<Rightarrow> job option" where
  "findJobByName name js = (if name = [] then None else find (\<lambda>j. jb_name j = name) js)"

text \<open>An UPDATE writes every column of the model into the row of its id.\<close>

definition saveJob :: "job \<Rightarrow> job list \<Rightarrow> job list" where
  "saveJob j js = map (\<lambda>r. if jb_id r = jb_id j then j else r) js"

definition removeJob :: "nat \<Rightarrow> job list \<Rightarrow> job list" where
  "removeJob i js = filter (\<lambda>j. jb_id j \<noteq> i) js"

definition populateDef :: "worker_def \<Rightarrow> job \<Rightarrow> job" where
  "populateDef w j = j\<lparr>jb_interval := wd_interval w, jb_lastRun := wd_lastRun w, jb_nextRun := wd_nextRun w,
     jb_timeout := wd_timeout w, jb_input := wd_input w, jb_retries := wd_retries w,
     jb_parameters := wd_parameters w, jb_autoRemove := wd_autoRemove w,
     jb_lastCompleted := (case wd_lastCompleted w of None \<Rightarrow> jb_lastCompleted j | Some t \<Rightarrow> Some t),
     jb_lastFailed := (case wd_lastFailed w of None \<Rightarrow> jb_lastFailed j | Some t \<Rightarrow> Some t),
     jb_lastDuration := (case wd_lastDuration w of None \<Rightarrow> jb_lastDuration j | Some t \<Rightarrow> t),
     jb_lastError := (case wd_lastError w of None \<Rightarrow> jb_lastError j | Some e \<Rightarrow> e)\<rparr>"

definition updateWorkerDefinition :: "worker_def \<Rightarrow> job list \<Rightarrow> job list" where
  "updateWorkerDefinition w js = (case findJob (wd_id w) js of
      None \<Rightarrow> js
    | Some j \<Rightarrow> saveJob (populateDef w j) js)"

definition getPendingJobs :: "int \<Rightarrow> job list \<Rightarrow> job list" where
  "getPendingJobs now js = filter (\<lambda>j. jb_status j \<in> {JOB_ACTIVE, JOB_LOCKED}
     \<and> (case jb_nextRun j of None \<Rightarrow> False | Some next \<Rightarrow> next \<le> now
          \<and> (case jb_lastRun j of None \<Rightarrow> True
             | Some prev \<Rightarrow> prev \<le> next \<or> prev + 1000 * jb_timeout j < now))) js"

section \<open>The lock\<close>

text \<open>\<open>dayjs().diff(lastRun, 'second')\<close>, which truncates.\<close>

definition elapsedSeconds :: "int \<Rightarrow> int \<Rightarrow> int" where
  "elapsedSeconds now prev = sgn (now - prev) * (\<bar>now - prev\<bar> div 1000)"

text \<open>
  Every single-thread worker throws on the alerts for a missing and for a locked
  job, and ignores the third.  A locked job alerts once its timeout has passed.
\<close>

definition lockAlert :: "int \<Rightarrow> job \<Rightarrow> bool" where
  "lockAlert now j \<longleftrightarrow> (case jb_lastRun j of None \<Rightarrow> False
     | Some prev \<Rightarrow> prev + 1000 * (if jb_timeout j = 0 then defaultTimeout else jb_timeout j) < now)"

definition checkLockedStatus :: "int \<Rightarrow> job option \<Rightarrow> (exn, job option) res" where
  "checkLockedStatus now jo = (case jo of
      None \<Rightarrow> Inl (JsError ''MISSING JOB ALERT HAS BEEN CALLED'')
    | Some j \<Rightarrow>
        if jb_lastRun j \<noteq> None \<and> jb_timeout j \<noteq> 0 \<and> jb_status j = JOB_LOCKED
           \<and> elapsedSeconds now (the (jb_lastRun j)) \<ge> jb_timeout j
        then Inr (Some (j\<lparr>jb_executorCount := 0, jb_lastError := Some ''TIMEOUT EXCEEDED'',
                          jb_lastFailed := jb_nextRun j\<rparr>))
        else if jb_executorCount j \<ge> 1 \<or> jb_status j = JOB_LOCKED
        then (if lockAlert now j then Inl (JsError ''LOCK ALERT HAS BEEN CALLED'') else Inr None)
        else if jb_status j \<noteq> JOB_ACTIVE then Inl (JsError ''Job in invalid status!'')
        else Inr (Some j))"

text \<open>
  \<open>before\<close>: the row is read and written under one lock.  \<open>None\<close> is a run that is
  discarded.
\<close>

definition lockJob :: "job \<Rightarrow> job" where
  "lockJob j = j\<lparr>jb_executorCount := (if jb_executorCount j \<noteq> 0 then jb_executorCount j + 1 else 1),
     jb_status := JOB_LOCKED, jb_parameters := workerParameters j\<rparr>"

definition beforeRun :: "int \<Rightarrow> nat \<Rightarrow> string \<Rightarrow> job list \<Rightarrow> (exn, job list \<times> worker_def option) res" where
  "beforeRun now i name js =
    bindR (checkLockedStatus now (if i \<noteq> 0 then findJob i js else findJobByName name js)) (\<lambda>jo.
      case jo of
        None \<Rightarrow> Inr (js, None)
      | Some j \<Rightarrow> Inr (saveJob (lockJob j) js, Some (jobDefinition (lockJob j))))"

text \<open>\<open>updateJobState\<close> after a success.\<close>

definition unlockJob :: "job \<Rightarrow> job" where
  "unlockJob j = j\<lparr>jb_status := (if jb_status j = JOB_LOCKED then JOB_ACTIVE else jb_status j),
     jb_executorCount := (if jb_executorCount j \<noteq> 0 then jb_executorCount j - 1 else 0)\<rparr>"

definition updateJobState :: "nat \<Rightarrow> job list \<Rightarrow> job list" where
  "updateJobState i js = (case findJob i js of None \<Rightarrow> js | Some j \<Rightarrow> saveJob (unlockJob j) js)"

section \<open>A single-thread worker\<close>

text \<open>\<open>sr_def\<close> is \<open>None\<close> while or because the run must not go on.\<close>

record single_run =
  sr_jobs :: "job list"
  sr_def :: "worker_def option"

definition onRun :: "(worker_def \<Rightarrow> job list \<Rightarrow> worker_def \<times> job list) \<Rightarrow> single_run act" where
  "onRun f s = (case sr_def s of
      None \<Rightarrow> (Inr (), s)
    | Some w \<Rightarrow> (let (w', js') = f w (sr_jobs s) in (Inr (), s\<lparr>sr_jobs := js', sr_def := Some w'\<rparr>)))"

definition stepBefore :: "int \<Rightarrow> nat \<Rightarrow> string \<Rightarrow> single_run act" where
  "stepBefore now i name s = (case beforeRun now i name (sr_jobs s) of
      Inl e \<Rightarrow> (Inl e, s)
    | Inr (js, w) \<Rightarrow> (Inr (), \<lparr>sr_jobs = js, sr_def = w\<rparr>))"

definition stepStarted :: "int \<Rightarrow> single_run act" where
  "stepStarted now = onRun (\<lambda>w js. (setStarted now w, updateWorkerDefinition (setStarted now w) js))"

definition stepExecute :: "(exn, unit) res \<Rightarrow> single_run act" where
  "stepExecute body s = (if sr_def s = None then (Inr (), s) else (body, s))"

definition stepSuccess :: "single_run act" where
  "stepSuccess = onRun (\<lambda>w js. (w, updateJobState (wd_id w) js))"

definition stepCompleted :: "(string \<Rightarrow> int \<Rightarrow> int option) \<Rightarrow> int \<Rightarrow> single_run act" where
  "stepCompleted cron now = onRun (\<lambda>w js.
     (let w' = setCompleted cron now w; js1 = (if wd_autoRemove w' then removeJob (wd_id w') js else js)
      in (w', updateWorkerDefinition w' js1)))"

definition stepFailed ::
  "(string \<Rightarrow> int \<Rightarrow> int option) \<Rightarrow> int \<Rightarrow> (exn \<Rightarrow> string) \<Rightarrow> exn \<Rightarrow> single_run act" where
  "stepFailed cron now msg e = onRun (\<lambda>w js.
     (setFailed cron now (msg e) w, updateWorkerDefinition (setFailed cron now (msg e) w) js))"

text \<open>\<open>body\<close> is what the worker's \<open>runExecutor\<close> does; \<open>onError\<close> logs and throws again.\<close>

definition runSingleThread ::
  "(string \<Rightarrow> int \<Rightarrow> int option) \<Rightarrow> (exn \<Rightarrow> string) \<Rightarrow> int \<Rightarrow> int \<Rightarrow> int \<Rightarrow> nat \<Rightarrow> string
    \<Rightarrow> (exn, unit) res \<Rightarrow> single_run act" where
  "runSingleThread cron msg t0 t1 t2 i name body =
     serverlessRun (stepBefore t0 i name) (stepStarted t1) (stepExecute body) stepSuccess
       (stepCompleted cron t2) (\<lambda>e s. (Inl e, s)) (stepFailed cron t2 msg)"

section \<open>The scheduler\<close>

definition getWorkerDefinitions :: "int \<Rightarrow> job list \<Rightarrow> worker_def list" where
  "getWorkerDefinitions now js = map jobDefinition (filter (\<lambda>j. jb_name j \<noteq> []) (getPendingJobs now js))"

section \<open>Rows under an update\<close>

definition jobsOk :: "job list \<Rightarrow> bool" where
  "jobsOk js \<longleftrightarrow> distinct (map jb_id js) \<and> (\<forall>j \<in> set js. 0 < jb_id j \<and> 0 \<le> jb_timeout j)"

lemma findJob_SomeD: "findJob i js = Some j \<Longrightarrow> j \<in> set js \<and> jb_id j = i \<and> jb_status j \<noteq> JOB_DEACTIVATED"
  by (auto simp: findJob_def dest: find_SomeD)

lemma findJob_saveJob:
  assumes "j \<in> set js" and "distinct (map jb_id js)" and "jb_id j' = jb_id j" and "jb_status j' \<noteq> JOB_DEACTIVATED"
  shows "findJob (jb_id j) (saveJob j' js) = Some j'"
  using assms
proof (induction js)
  case (Cons a js)
  show ?case
  proof (cases "jb_id a = jb_id j")
    case True
    then show ?thesis using Cons.prems(3,4) by (simp add: findJob_def saveJob_def)
  next
    case False
    then have "j \<in> set js" using Cons.prems(1) by auto
    then show ?thesis using Cons False by (simp add: findJob_def saveJob_def)
  qed
qed simp

lemma saveJob_ids [simp]: "map jb_id (saveJob j js) = map jb_id js"
  by (auto simp: saveJob_def)

lemma jobsOk_saveJob: "jobsOk js \<Longrightarrow> 0 < jb_id j \<Longrightarrow> 0 \<le> jb_timeout j \<Longrightarrow> jobsOk (saveJob j js)"
  unfolding jobsOk_def saveJob_ids by (auto simp: saveJob_def)

lemma saveJob_twice: "jb_id j' = jb_id j \<Longrightarrow> saveJob j' (saveJob j js) = saveJob j' js"
  by (auto simp: saveJob_def)

lemma elapsed_less:
  assumes "0 \<le> now - prev" and "now - prev < 1000 * t"
  shows "elapsedSeconds now prev < t"
proof -
  have "elapsedSeconds now prev = (now - prev) div 1000"
    using assms(1) by (cases "now = prev") (simp_all add: elapsedSeconds_def)
  then show ?thesis using assms(2) by linarith
qed

lemma elapsed_reached: "0 \<le> t \<Longrightarrow> 1000 * t \<le> now - prev \<Longrightarrow> t \<le> elapsedSeconds now prev"
  by (cases "now = prev") (auto simp: elapsedSeconds_def)

text \<open>The parts of a job's row that the lock is made of.\<close>

lemma lockJob_fields [simp]:
  "jb_id (lockJob j) = jb_id j" "jb_status (lockJob j) = JOB_LOCKED" "jb_lastRun (lockJob j) = jb_lastRun j"
  "jb_timeout (lockJob j) = jb_timeout j" "jb_nextRun (lockJob j) = jb_nextRun j"
  "jb_lastError (lockJob j) = jb_lastError j"
  by (simp_all add: lockJob_def)

lemma populateDef_fields [simp]:
  "jb_id (populateDef w j) = jb_id j" "jb_status (populateDef w j) = jb_status j"
  "jb_lastRun (populateDef w j) = wd_lastRun w" "jb_nextRun (populateDef w j) = wd_nextRun w"
  "jb_timeout (populateDef w j) = wd_timeout w" "jb_executorCount (populateDef w j) = jb_executorCount j"
  by (simp_all add: populateDef_def)

lemma setStarted_fields [simp]:
  "wd_id (setStarted t w) = wd_id w" "wd_lastRun (setStarted t w) = Some t" "wd_timeout (setStarted t w) = wd_timeout w"
  "wd_nextRun (setStarted t w) = Some (t + 1000 * wd_timeout w)" "wd_lastError (setStarted t w) = wd_lastError w"
  by (simp_all add: setStarted_def)

text \<open>A run that is admitted was read by id or by name and is locked in its row.\<close>

lemma beforeRun_Some:
  assumes "beforeRun now i name js = Inr (js', Some w)"
  obtains j0 j where "(if i \<noteq> 0 then findJob i js else findJobByName name js) = Some j0"
    "checkLockedStatus now (Some j0) = Inr (Some j)" "js' = saveJob (lockJob j) js" "w = jobDefinition (lockJob j)"
    "j0 \<in> set js" "jb_id j = jb_id j0" "jb_timeout j = jb_timeout j0" "jb_lastRun j = jb_lastRun j0"
    "jb_lastError j = jb_lastError j0 \<or> jb_lastError j = Some ''TIMEOUT EXCEEDED''"
proof -
  let ?jo = "if i \<noteq> 0 then findJob i js else findJobByName name js"
  obtain j where j: "checkLockedStatus now ?jo = Inr (Some j)" "js' = saveJob (lockJob j) js"
      "w = jobDefinition (lockJob j)"
    using assms by (auto simp: beforeRun_def res_simps split: option.splits)
  then obtain j0 where j0: "?jo = Some j0" by (cases ?jo) (auto simp: checkLockedStatus_def)
  then have "j0 \<in> set js"
    by (auto simp: findJob_def findJobByName_def dest: find_SomeD split: if_splits)
  moreover have "jb_id j = jb_id j0" "jb_timeout j = jb_timeout j0" "jb_lastRun j = jb_lastRun j0"
    "jb_lastError j = jb_lastError j0 \<or> jb_lastError j = Some ''TIMEOUT EXCEEDED''"
    using j(1) unfolding j0 by (auto simp: checkLockedStatus_def split: if_splits)
  ultimately show thesis using that [OF j0 _ j(2,3)] j(1) j0 by auto
qed

text \<open>The row of a run that has begun.\<close>

lemma started_row:
  assumes "beforeRun t0 i name js = Inr (js', Some w)" and "jobsOk js"
  shows "\<exists>j. findJob (wd_id w) (updateWorkerDefinition (setStarted t1 w) js') = Some j \<and> jb_status j = JOB_LOCKED
     \<and> jb_lastRun j = Some t1 \<and> jb_timeout j = wd_timeout w \<and> 0 < wd_timeout w
     \<and> jb_nextRun j = Some (t1 + 1000 * wd_timeout w)
     \<and> jobsOk (updateWorkerDefinition (setStarted t1 w) js')"
  using assms(1)
proof (rule beforeRun_Some)
  fix j0 j
  assume js': "js' = saveJob (lockJob j) js" and w: "w = jobDefinition (lockJob j)"
    and mem: "j0 \<in> set js" and eq: "jb_id j = jb_id j0" "jb_timeout j = jb_timeout j0"
  have ids: "distinct (map jb_id js)" and pos: "0 < jb_id j0" "0 \<le> jb_timeout j0"
    using assms(2) mem by (auto simp: jobsOk_def)
  have row: "findJob (jb_id j0) js' = Some (lockJob j)"
    unfolding js' by (rule findJob_saveJob [OF mem ids]) (simp_all add: eq)
  have wd: "wd_id w = jb_id j0" "wd_timeout w = (if jb_timeout j0 = 0 then defaultTimeout else jb_timeout j0)"
    by (simp_all add: w jobDefinition_def eq)
  let ?j = "populateDef (setStarted t1 w) (lockJob j)"
  have upd: "updateWorkerDefinition (setStarted t1 w) js' = saveJob ?j js"
    using row wd(1) by (simp add: updateWorkerDefinition_def js' saveJob_twice)
  have "findJob (jb_id j0) (saveJob ?j js) = Some ?j"
    by (rule findJob_saveJob [OF mem ids]) (simp_all add: eq)
  moreover have "0 < wd_timeout w" using pos(2) by (auto simp: wd(2) defaultTimeout_def)
  ultimately show ?thesis
    using upd wd(1) pos jobsOk_saveJob [OF assms(2), of ?j] by (auto simp: eq)
qed

text \<open>A locked row admits nobody before its timeout, and everybody after it.\<close>

lemma locked_refuses:
  assumes "findJob i js = Some j" and "jb_status j = JOB_LOCKED" and "jb_lastRun j = Some t" and "i \<noteq> 0"
    and "0 \<le> now - t" and "now - t < 1000 * jb_timeout j"
  shows "\<forall>js' w. beforeRun now i name js \<noteq> Inr (js', Some w)"
  using assms elapsed_less [OF assms(5,6)]
  by (auto simp: beforeRun_def checkLockedStatus_def res_simps split: option.splits)

lemma timed_out_admits:
  assumes "findJob i js = Some j" and "jb_status j = JOB_LOCKED" and "jb_lastRun j = Some t" and "i \<noteq> 0"
    and "0 < jb_timeout j" and "1000 * jb_timeout j \<le> now - t"
  shows "\<exists>js' w. beforeRun now i name js = Inr (js', Some w)"
  using assms elapsed_reached [of "jb_timeout j" now t]
  by (auto simp: beforeRun_def checkLockedStatus_def)

section \<open>Properties\<close>

text \<open>
  C37: A run that fails is retried, after its timeout and not before: whatever the
  worker throws is thrown on, the job is left locked with its next run set to the
  end of the timeout (the step that records a failure is never reached), every
  attempt until then is discarded or refused, and from then on the job is pending
  and the next attempt is admitted.
\<close>

theorem failed_run_is_retried:
  assumes "jobsOk js" and "beforeRun t0 i name js = Inr (js', Some w)"
    and "runSingleThread cron msg t0 t1 t2 i name (Inl e) \<lparr>sr_jobs = js, sr_def = d\<rparr> = (r, s)"
  shows "r = Inl e \<and> sr_jobs s = updateWorkerDefinition (setStarted t1 w) js' \<and> wd_id w \<noteq> 0
    \<and> (\<forall>now n. t1 \<le> now \<longrightarrow> now < t1 + 1000 * wd_timeout w \<longrightarrow>
          (\<forall>js2 v. beforeRun now (wd_id w) n (sr_jobs s) \<noteq> Inr (js2, Some v)))
    \<and> (\<forall>now n. t1 + 1000 * wd_timeout w \<le> now \<longrightarrow>
          wd_id w \<in> jb_id ` set (getPendingJobs now (sr_jobs s))
          \<and> (\<exists>js2 v. beforeRun now (wd_id w) n (sr_jobs s) = Inr (js2, Some v)))"
proof -
  have run: "r = Inl e" "sr_jobs s = updateWorkerDefinition (setStarted t1 w) js'"
    using assms(2,3)
    by (auto simp: runSingleThread_def serverlessRun_def andThen_def stepBefore_def stepStarted_def onRun_def
        stepExecute_def)
  obtain j where j: "findJob (wd_id w) (sr_jobs s) = Some j" "jb_status j = JOB_LOCKED" "jb_lastRun j = Some t1"
      "jb_timeout j = wd_timeout w" "0 < wd_timeout w" "jb_nextRun j = Some (t1 + 1000 * wd_timeout w)"
      "jobsOk (sr_jobs s)"
    using started_row [OF assms(2,1), of t1] run(2) by auto
  then have mem: "j \<in> set (sr_jobs s)" "jb_id j = wd_id w" using findJob_SomeD by blast+
  then have id: "wd_id w \<noteq> 0" using j(7) by (auto simp: jobsOk_def)
  have "wd_id w \<in> jb_id ` set (getPendingJobs now (sr_jobs s))" if "t1 + 1000 * wd_timeout w \<le> now" for now
    using mem j(2-6) that by (auto simp: getPendingJobs_def intro!: image_eqI [of _ _ j])
  moreover have "\<exists>js2 v. beforeRun now (wd_id w) n (sr_jobs s) = Inr (js2, Some v)"
    if "t1 + 1000 * wd_timeout w \<le> now" for now n
    using timed_out_admits [OF j(1-3) id, of now n] j(4,5) that by simp
  moreover have "\<forall>js2 v. beforeRun now (wd_id w) n (sr_jobs s) \<noteq> Inr (js2, Some v)"
    if "t1 \<le> now" "now < t1 + 1000 * wd_timeout w" for now n
    using locked_refuses [OF j(1-3) id, of now n] j(4) that by simp
  ultimately show ?thesis using run id by blast
qed

text \<open>
  The lock has a gap: \<open>before\<close> locks the row and only the next step stamps
  \<open>lastRun\<close>, so a second run that reads the row between the two still sees the
  time of the previous run.  If that is older than the timeout, as for every job
  whose interval is at least its timeout, the second run takes the first for timed
  out and both execute.
\<close>

theorem two_runs_pass_the_lock:
  assumes "jobsOk js" and "findJob i js = Some j" and "jb_status j = JOB_ACTIVE" and "jb_executorCount j = 0"
    and "jb_lastRun j = Some t" and "jb_timeout j \<noteq> 0" and "t + 1000 * jb_timeout j \<le> now" and "i \<noteq> 0"
  shows "\<exists>js1 js2 v w. beforeRun now i name js = Inr (js1, Some v) \<and> beforeRun now i name js1 = Inr (js2, Some w)"
proof -
  have mem: "j \<in> set js" "jb_id j = i" using findJob_SomeD [OF assms(2)] by auto
  then have ids: "distinct (map jb_id js)" "0 < jb_timeout j"
    using assms(1,6) by (force simp: jobsOk_def)+
  have first: "beforeRun now i name js = Inr (saveJob (lockJob j) js, Some (jobDefinition (lockJob j)))"
    using assms by (simp add: beforeRun_def checkLockedStatus_def)
  have "findJob i (saveJob (lockJob j) js) = Some (lockJob j)"
    using findJob_saveJob [OF mem(1) ids(1), of "lockJob j"] mem(2) by simp
  then have "\<exists>js2 w. beforeRun now i name (saveJob (lockJob j) js) = Inr (js2, Some w)"
    using assms(5,7,8) ids(2) by (intro timed_out_admits [of _ _ "lockJob j" t]) simp_all
  then show ?thesis using first by blast
qed

section \<open>Runs over time\<close>

text \<open>
  The clock, the rows and the runs of one job that are in progress, each with the
  definition it was started with.  A start is \<open>before\<close> and \<open>updateOnStarted\<close> without
  another run between them.  With \<open>prompt\<close> the environment ends every run before its
  timeout, as the limit of a function's duration does.
\<close>

record job_system =
  js_now :: int
  js_rows :: "job list"
  js_running :: "worker_def list"

definition finishRun :: "(string \<Rightarrow> int \<Rightarrow> int option) \<Rightarrow> int \<Rightarrow> worker_def \<Rightarrow> job list \<Rightarrow> job list" where
  "finishRun cron now w js =
     sr_jobs (snd (andThen stepSuccess (stepCompleted cron now) \<lparr>sr_jobs = js, sr_def = Some w\<rparr>))"

definition withinTimeout :: "int \<Rightarrow> worker_def \<Rightarrow> bool" where
  "withinTimeout now w \<longleftrightarrow> (case wd_lastRun w of None \<Rightarrow> False | Some t \<Rightarrow> t \<le> now \<and> now < t + 1000 * wd_timeout w)"

inductive job_step :: "(string \<Rightarrow> int \<Rightarrow> int option) \<Rightarrow> bool \<Rightarrow> nat \<Rightarrow> job_system \<Rightarrow> job_system \<Rightarrow> bool"
  for cron :: "string \<Rightarrow> int \<Rightarrow> int option" and prompt :: bool and i :: nat where
  start: "beforeRun now i name js = Inr (js', Some w) \<Longrightarrow>
    job_step cron prompt i \<lparr>js_now = now, js_rows = js, js_running = ws\<rparr>
      \<lparr>js_now = now, js_rows = updateWorkerDefinition (setStarted now w) js', js_running = setStarted now w # ws\<rparr>"
| succeed: "job_step cron prompt i \<lparr>js_now = now, js_rows = js, js_running = vs @ w # ws\<rparr>
      \<lparr>js_now = now, js_rows = finishRun cron now w js, js_running = vs @ ws\<rparr>"
| fail: "job_step cron prompt i \<lparr>js_now = now, js_rows = js, js_running = vs @ w # ws\<rparr>
      \<lparr>js_now = now, js_rows = js, js_running = vs @ ws\<rparr>"
| tick: "now \<le> t \<Longrightarrow> (prompt \<longrightarrow> (\<forall>w \<in> set ws. withinTimeout t w)) \<Longrightarrow>
    job_step cron prompt i \<lparr>js_now = now, js_rows = js, js_running = ws\<rparr>
      \<lparr>js_now = t, js_rows = js, js_running = ws\<rparr>"

definition inProgress :: "nat \<Rightarrow> job_system \<Rightarrow> worker_def \<Rightarrow> bool" where
  "inProgress i s w \<longleftrightarrow> wd_id w = i \<and> 0 < wd_timeout w \<and> withinTimeout (js_now s) w
     \<and> (\<exists>j. findJob i (js_rows s) = Some j \<and> jb_status j = JOB_LOCKED \<and> jb_lastRun j = wd_lastRun w
            \<and> jb_timeout j = wd_timeout w)"

definition oneRun :: "nat \<Rightarrow> job_system \<Rightarrow> bool" where
  "oneRun i s \<longleftrightarrow> jobsOk (js_rows s) \<and> length (js_running s) \<le> 1 \<and> (\<forall>w \<in> set (js_running s). inProgress i s w)"

lemma jobsOk_replace:
  assumes "jobsOk js" and "findJob i js = Some j" and "jb_id j' = jb_id j" and "0 \<le> jb_timeout j'"
  shows "jobsOk (saveJob j' js)"
  using assms findJob_SomeD [OF assms(2)] by (intro jobsOk_saveJob) (auto simp: jobsOk_def)

lemma jobsOk_updateDef:
  assumes "jobsOk js" and "0 \<le> wd_timeout w"
  shows "jobsOk (updateWorkerDefinition w js)"
proof (cases "findJob (wd_id w) js")
  case (Some j)
  then show ?thesis using jobsOk_replace [OF assms(1) Some, of "populateDef w j"] assms(2)
    by (simp add: updateWorkerDefinition_def)
qed (simp add: updateWorkerDefinition_def assms(1))

lemma jobsOk_finishRun:
  assumes "jobsOk js" and "0 < wd_timeout w"
  shows "jobsOk (finishRun cron now w js)"
proof -
  have "jobsOk (updateJobState (wd_id w) js)"
  proof (cases "findJob (wd_id w) js")
    case (Some j)
    then have "0 \<le> jb_timeout j" using assms(1) findJob_SomeD by (fastforce simp: jobsOk_def)
    then show ?thesis using jobsOk_replace [OF assms(1) Some, of "unlockJob j"] Some
      by (simp add: updateJobState_def unlockJob_def)
  qed (simp add: updateJobState_def assms(1))
  moreover have "jobsOk (removeJob k rs)" if "jobsOk rs" for k rs
    using that by (auto simp: jobsOk_def removeJob_def distinct_map_filter)
  ultimately show ?thesis
    using assms(2) jobsOk_updateDef [of _ "setCompleted cron now w"]
    by (simp add: finishRun_def andThen_def stepSuccess_def stepCompleted_def onRun_def Let_def
        setCompleted_def setNextRun_def)
qed

lemma oneRun_step:
  assumes "job_step cron True i s s'" and "oneRun i s" and "i \<noteq> 0"
  shows "oneRun i s'"
  using assms(1,2)
proof cases
  case (start now name js js' w ws)
  have "ws = []"
  proof (cases ws)
    case (Cons v vs)
    then obtain j t where "findJob i js = Some j" "jb_status j = JOB_LOCKED" "jb_lastRun j = Some t"
      "t \<le> now" "now < t + 1000 * jb_timeout j"
      using assms(2) start(1) by (auto simp: oneRun_def inProgress_def withinTimeout_def split: option.splits)
    then show ?thesis using locked_refuses [of i js j t now name] assms(3) start(3) by auto
  qed simp
  moreover have "wd_id w = i"
    using start(3) assms(3) by (rule_tac beforeRun_Some) (auto simp: jobDefinition_def dest: findJob_SomeD)
  ultimately show ?thesis
    using started_row [OF start(3), of now] assms(2) start(1,2)
    by (auto simp: oneRun_def inProgress_def withinTimeout_def)
next
  case (succeed now js vs w ws)
  then have "vs = [] \<and> ws = []" using assms(2) by (cases vs; cases ws) (auto simp: oneRun_def)
  then show ?thesis using succeed assms(2) jobsOk_finishRun by (auto simp: oneRun_def inProgress_def)
next
  case (fail now js vs w ws)
  then have "vs = [] \<and> ws = []" using assms(2) by (cases vs; cases ws) (auto simp: oneRun_def)
  then show ?thesis using fail assms(2) by (simp add: oneRun_def)
next
  case (tick now t ws js)
  then show ?thesis using assms(2) by (auto simp: oneRun_def inProgress_def)
qed

text \<open>
  C17: One run at a time: where the environment ends every run before its timeout and
  no other start comes between the two halves of a start, there is never more than
  one run of a job in progress, over any interleaving of attempts, successes,
  failures, crashes and waiting, from any state in which none is.
\<close>

theorem one_run_at_a_time:
  assumes "(job_step cron True i)\<^sup>*\<^sup>* s s'" and "jobsOk (js_rows s)" and "js_running s = []" and "i \<noteq> 0"
  shows "length (js_running s') \<le> 1"
proof -
  have "oneRun i s'"
    using assms(1)
  proof induction
    case base
    show ?case using assms(2,3) by (simp add: oneRun_def)
  next
    case (step y z)
    then show ?case using oneRun_step assms(4) by blast
  qed
  then show ?thesis by (simp add: oneRun_def)
qed

end
