(* ===== verification/Worker_Executor.thy ===== *)
theory Worker_Executor
  imports Jobs
begin

text \<open>
  The entry point of the workers (\<open>workers/worker-executor.ts\<close>), the scheduler
  (\<open>workers/scheduler.ts\<close>), and the queue workers with their two halves
  (\<open>base-queue-worker.ts\<close>, \<open>lib/aws/aws-sqs.ts\<close>).  What a worker does is a
  parameter; the queue answers each message with success or an error text.
\<close>

section \<open>Names\<close>

datatype WorkerName = SCHEDULER | CREATE_PREDICTION_SET | FINALIZE_MANUAL_PREDICTION_SET
  | FINALIZE_AUTOMATIC_PREDICTION_SET | PREDICTION_SET_FINALIZED_PARSER | PREDICTION_SETS_FACTORY_PARSER
  | REFRESH_OUTCOME_CHANCES | REQUEST_ATTESTATION_PROOF | REQUEST_ATTESTATION | VOTING_PARSER
  | FINALIZE_PROPOSAL_ROUNDS | CLAIMS_PARSER | COLLATERAL_TOKEN_USD_PRICE | INDEXER_HEALTH_CHECK
  | GENERATE_API_KEYS

fun workerNameText :: "WorkerName \<Rightarrow> string" where
  "workerNameText SCHEDULER = ''Scheduler''"
| "workerNameText CREATE_PREDICTION_SET = ''CreatePredictionSet''"
| "workerNameText FINALIZE_MANUAL_PREDICTION_SET = ''FinalizeManualPredictionSet''"
| "workerNameText FINALIZE_AUTOMATIC_PREDICTION_SET = ''FinalizeAutomaticPredictionSet''"
| "workerNameText PREDICTION_SET_FINALIZED_PARSER = ''PredictionSetFinalizedParser''"
| "workerNameText PREDICTION_SETS_FACTORY_PARSER = ''PredictionSetsFactoryParser''"
| "workerNameText REFRESH_OUTCOME_CHANCES = ''RefreshOutcomeChances''"
| "workerNameText REQUEST_ATTESTATION_PROOF = ''RequestAttestationProof''"
| "workerNameText REQUEST_ATTESTATION = ''RequestAttestation''"
| "workerNameText VOTING_PARSER = ''VotingParser''"
| "workerNameText FINALIZE_PROPOSAL_ROUNDS = ''FinalizeProposalRounds''"
| "workerNameText CLAIMS_PARSER = ''ClaimsParser''"
| "workerNameText COLLATERAL_TOKEN_USD_PRICE = ''CollateralTokenUsdPrice''"
| "workerNameText INDEXER_HEALTH_CHECK = ''IndexerHealthCheck''"
| "workerNameText GENERATE_API_KEYS = ''GenerateApiKeys''"

definition allWorkers :: "WorkerName list" where
  "allWorkers = [SCHEDULER, CREATE_PREDICTION_SET, FINALIZE_MANUAL_PREDICTION_SET,
     FINALIZE_AUTOMATIC_PREDICTION_SET, PREDICTION_SET_FINALIZED_PARSER, PREDICTION_SETS_FACTORY_PARSER,
     REFRESH_OUTCOME_CHANCES, REQUEST_ATTESTATION_PROOF, REQUEST_ATTESTATION, VOTING_PARSER,
     FINALIZE_PROPOSAL_ROUNDS, CLAIMS_PARSER, COLLATERAL_TOKEN_USD_PRICE, INDEXER_HEALTH_CHECK,
     GENERATE_API_KEYS]"

definition workerByText :: "string \<Rightarrow> WorkerName option" where
  "workerByText s = find (\<lambda>n. workerNameText n = s) allWorkers"

lemma workerByText_text [simp]: "workerByText (workerNameText n) = Some n"
  by (cases n) (simp_all add: workerByText_def allWorkers_def)

lemma workerByText_SomeD: "workerByText s = Some n \<Longrightarrow> s = workerNameText n"
  by (auto simp: workerByText_def dest: find_SomeD)

section \<open>Dispatch\<close>

datatype QueueWorkerType = PLANNER | EXECUTOR

text \<open>
  What a worker is made with by the dispatcher: the id of its job, if the event
  has one, and its parameters.  Only two workers look at the mode, and a body comes
  with a message of the queue.
\<close>

record 'p call =
  cl_id :: "int option"
  cl_parameters :: "'p option"

type_synonym ('p, 's) workers = "WorkerName \<Rightarrow> QueueWorkerType \<Rightarrow> 'p call \<Rightarrow> string option \<Rightarrow> 's act"

text \<open>An event without a name is the scheduler's; an unknown name is logged.\<close>

definition handleLambdaEvent :: "('p, 's) workers \<Rightarrow> string \<Rightarrow> 'p call \<Rightarrow> 's act" where
  "handleLambdaEvent run name c s =
    (case workerByText (if name = [] then workerNameText SCHEDULER else name) of
       None \<Rightarrow> (Inr (), s)
     | Some n \<Rightarrow> run n PLANNER (if name = [] then \<lparr>cl_id = None, cl_parameters = None\<rparr> else c) None s)"

text \<open>The attributes of a message are texts, empty where the message has none.\<close>

record sqs_message =
  sm_messageId :: string
  sm_workerName :: string
  sm_jobId :: string
  sm_parameters :: string
  sm_body :: string

definition messageCall :: "(string \<Rightarrow> (exn, 'p) res) \<Rightarrow> sqs_message \<Rightarrow> (exn, 'p call) res" where
  "messageCall parse m = bindR (if sm_parameters m = [] then Inr None else bindR (parse (sm_parameters m)) (\<lambda>p. Inr (Some p)))
     (\<lambda>ps. Inr \<lparr>cl_id = (if sm_jobId m = [] then None else parseInt (sm_jobId m)), cl_parameters = ps\<rparr>)"

text \<open>The queue's switch has no case for the scheduler.\<close>

definition handleMessage :: "(string \<Rightarrow> (exn, 'p) res) \<Rightarrow> ('p, 's) workers \<Rightarrow> sqs_message \<Rightarrow> 's act" where
  "handleMessage parse run m s = (case messageCall parse m of
      Inl e \<Rightarrow> (Inl e, s)
    | Inr c \<Rightarrow> (case workerByText (sm_workerName m) of
          None \<Rightarrow> (Inr (), s)
        | Some n \<Rightarrow> if n = SCHEDULER then (Inr (), s) else run n EXECUTOR c (Some (sm_body m)) s))"

fun handleSqsMessages ::
  "(string \<Rightarrow> (exn, 'p) res) \<Rightarrow> ('p, 's) workers \<Rightarrow> sqs_message list \<Rightarrow> 's \<Rightarrow> string list \<times> 's" where
  "handleSqsMessages parse run [] s = ([], s)"
| "handleSqsMessages parse run (m # ms) s =
    (let (r, s1) = handleMessage parse run m s; (failures, s2) = handleSqsMessages parse run ms s1
     in (if okR r then failures else sm_messageId m # failures, s2))"

section \<open>Queue workers\<close>

text \<open>The message of one piece of work: a job id of nothing or zero is left out, as are missing parameters.\<close>

definition queueMessage :: "('p \<Rightarrow> string) \<Rightarrow> string \<Rightarrow> WorkerName \<Rightarrow> 'p call \<Rightarrow> string \<Rightarrow> sqs_message" where
  "queueMessage stringify mid name c body = \<lparr>sm_messageId = mid, sm_workerName = workerNameText name,
     sm_jobId = (case cl_id c of None \<Rightarrow> [] | Some i \<Rightarrow> if i = 0 then [] else jsInt i),
     sm_parameters = (case cl_parameters c of None \<Rightarrow> [] | Some p \<Rightarrow> stringify p), sm_body = body\<rparr>"

text \<open>
  \<open>sendToQueue\<close> sends every message and collects the errors; outside the deployed
  environments it returns without an answer, which its caller cannot read.
\<close>

definition sendToQueue :: "bool \<Rightarrow> ('m \<Rightarrow> (string, unit) res) \<Rightarrow> 'm list \<Rightarrow> (exn, nat \<times> string list) res" where
  "sendToQueue local send msgs =
    (if local then Inl (JsError ''TypeError'')
     else (let errs = concat (map (\<lambda>m. case send m of Inl e \<Rightarrow> [e] | Inr u \<Rightarrow> []) msgs)
           in Inr (length errs, errs)))"

text \<open>The planner's half: what it plans goes to the queue, errors of single messages are only logged.\<close>

definition executePlannerHalf ::
  "bool \<Rightarrow> ('m \<Rightarrow> (string, unit) res) \<Rightarrow> (exn, 'm list) res \<Rightarrow> (exn, unit) res" where
  "executePlannerHalf local send planned =
     bindR planned (\<lambda>msgs. if msgs = [] then Inr () else bindR (sendToQueue local send msgs) (\<lambda>r. Inr ()))"

text \<open>The executor's half: a message without data is logged and dropped.\<close>

definition executeExecutorHalf ::
  "(string \<Rightarrow> (exn, 'v) res) \<Rightarrow> ('v \<Rightarrow> (exn, unit) res) \<Rightarrow> string option \<Rightarrow> (exn, unit) res" where
  "executeExecutorHalf parse runExecutor data = (case data of
      None \<Rightarrow> Inr ()
    | Some d \<Rightarrow> if d = [] then Inr () else bindR (parse d) runExecutor)"

section \<open>Launching\<close>

text \<open>
  \<open>launchWorkers\<close> starts them all before it waits: every definition is invoked,
  and the first rejection is thrown.
\<close>

fun firstError :: "(exn, unit) res list \<Rightarrow> (exn, unit) res" where
  "firstError [] = Inr ()"
| "firstError (r # rs) = (case r of Inl e \<Rightarrow> Inl e | Inr u \<Rightarrow> firstError rs)"

definition launchWorkers :: "(worker_def \<Rightarrow> (exn, unit) res) \<Rightarrow> worker_def list \<Rightarrow> (exn, unit) res" where
  "launchWorkers invoke defs = firstError (map invoke defs)"

definition executeScheduler :: "(worker_def \<Rightarrow> (exn, unit) res) \<Rightarrow> int \<Rightarrow> job list \<Rightarrow> (exn, unit) res" where
  "executeScheduler invoke now js = launchWorkers invoke (getWorkerDefinitions now js)"

section \<open>Properties\<close>

lemma handleSqsMessages_split:
  "handleSqsMessages parse run (xs @ ys) s = (let (f1, s1) = handleSqsMessages parse run xs s;
      (f2, s2) = handleSqsMessages parse run ys s1 in (f1 @ f2, s2))"
  by (induction xs arbitrary: s) (auto simp: Let_def split: prod.splits)

lemma handleSqsMessages_ids:
  "set (fst (handleSqsMessages parse run qs t)) \<subseteq> sm_messageId ` set qs"
proof (induction qs arbitrary: t)
  case (Cons q qs)
  obtain r s1 where h: "handleMessage parse run q t = (r, s1)" by fastforce
  obtain f s2 where f: "handleSqsMessages parse run qs s1 = (f, s2)" by fastforce
  from Cons.IH [of s1] have "set f \<subseteq> sm_messageId ` set qs" by (simp add: f)
  then show ?case by (auto simp: h f)
qed simp

lemma handleSqsMessages_state:
  "snd (handleSqsMessages parse run qs t) = fold (\<lambda>q t. snd (handleMessage parse run q t)) qs t"
proof (induction qs arbitrary: t)
  case (Cons q qs)
  obtain r s1 where h: "handleMessage parse run q t = (r, s1)" by fastforce
  obtain f s2 where f: "handleSqsMessages parse run qs s1 = (f, s2)" by fastforce
  from Cons.IH [of s1] show ?case by (simp add: h f)
qed simp

text \<open>
  C40: Work that one worker puts on the queue arrives: the dispatcher starts the
  worker of the same name as an executor, with the job id, the parameters and the
  body that were sent, as long as the parameters survive their own encoding.
\<close>

theorem queued_work_arrives:
  assumes "n \<noteq> SCHEDULER" and "cl_id c \<noteq> Some 0"
    and "\<And>p. cl_parameters c = Some p \<Longrightarrow> stringify p \<noteq> [] \<and> parse (stringify p) = Inr p"
  shows "handleMessage parse run (queueMessage stringify mid n c body) s = run n EXECUTOR c (Some body) s"
proof -
  have "messageCall parse (queueMessage stringify mid n c body) = Inr c"
    using assms(2,3) by (cases c) (auto simp: messageCall_def queueMessage_def res_simps split: option.splits)
  then show ?thesis using assms(1) by (simp add: handleMessage_def) (simp add: queueMessage_def)
qed

text \<open>
  A batch from the queue is worked off message by message: every message is
  handled once and in order whatever happens to the others, and a message is
  reported back as failed exactly if its own handling threw, so that the queue
  delivers that message again and no other.
\<close>

theorem batch_reports_its_failures:
  assumes "distinct (map sm_messageId (xs @ m # ys))"
  shows "(sm_messageId m \<in> set (fst (handleSqsMessages parse run (xs @ m # ys) s))
          \<longleftrightarrow> \<not> okR (fst (handleMessage parse run m (snd (handleSqsMessages parse run xs s)))))
    \<and> snd (handleSqsMessages parse run (xs @ m # ys) s)
        = fold (\<lambda>q t. snd (handleMessage parse run q t)) (xs @ m # ys) s"
proof -
  note ids = handleSqsMessages_ids [of parse run]
  note st = handleSqsMessages_state [of parse run]
  let ?s1 = "snd (handleSqsMessages parse run xs s)"
  have "fst (handleSqsMessages parse run (xs @ m # ys) s) = fst (handleSqsMessages parse run xs s)
      @ (if okR (fst (handleMessage parse run m ?s1)) then [] else [sm_messageId m])
      @ fst (handleSqsMessages parse run ys (snd (handleMessage parse run m ?s1)))"
    by (simp add: handleSqsMessages_split Let_def split: prod.splits)
  moreover have "sm_messageId m \<notin> sm_messageId ` set xs" "sm_messageId m \<notin> sm_messageId ` set ys"
    using assms by auto
  moreover from this have "sm_messageId m \<notin> set (fst (handleSqsMessages parse run xs s))"
    "sm_messageId m \<notin> set (fst (handleSqsMessages parse run ys (snd (handleMessage parse run m ?s1))))"
    using ids by blast+
  ultimately show ?thesis using st by simp
qed

end
