(* ===== verification/Witnesses_Services.thy ===== *)
theory Witnesses_Services
  imports Examples Comments Sql_Utils User_Service Worker_Executor
begin

text \<open>
  Closed instances of the properties about comments, accounts, lists and the worker
  framework, as \<open>Witnesses\<close> gives them for the markets.
\<close>

section \<open>Comments\<close>

definition exComment :: comment where
  "exComment = \<lparr>rowId = 1, status = ACTIVE, createTime = 1, updateTime = 1, createUser = Some 2,
     updateUser = Some 2, cm_entity_id = 3, cm_entityType = CE_PREDICTION_SET, cm_user_id = 2,
     cm_parent_comment_id = None, cm_reply_user_id = None, cm_content = ''old''\<rparr>"

definition exCommented :: "db mysql" where
  "exCommented = \<lparr>committed = exDb\<lparr>comments := tblOf [exComment]\<rparr>, openTx = 0\<rparr>"

lemma exCommented_inv: "dbInv (committed exCommented)"
  using exDb_inv by (simp add: exCommented_def exComment_def tblOf_def dbInv_def tblInv_def)

theorem comments_owned_witness:
  "\<exists>r'. byId 1 (comments (committed (commenting.serve (\<lambda>s. Inr False) [(exCtx, Withdraw 1), (exCtx, Reword 1 ''new'')]
        exCommented))) = Some r'
    \<and> commentKey r' = commentKey exComment \<and> cm_content r' = ''old'' \<and> status r' = ACTIVE"
proof -
  have b: "byId 1 (comments (committed exCommented)) = Some exComment" by code_simp
  have h: "cm_user_id exComment = 2" "cm_content exComment = ''old''" "status exComment = ACTIVE"
    "ctx_user exCtx = Some 1" "defaultUserRoleNo ROLE_ADMIN \<notin> set (ctx_roles exCtx)" by code_simp+
  show ?thesis
    using comments_owned [OF exCommented_inv b, of "\<lambda>s. Inr False" "[(exCtx, Withdraw 1), (exCtx, Reword 1 ''new'')]"] h
    by auto
qed

theorem removed_text_hidden_witness:
  "getCommentList rev 10 0 3 CE_PREDICTION_SET (maskedDb (committed exCommented))
     = getCommentList rev 10 0 3 CE_PREDICTION_SET (committed exCommented)"
proof -
  have "rev (map masked rs) = map masked (rev rs)" for rs by (simp add: rev_map)
  then show ?thesis using removed_text_hidden [of rev] by blast
qed

section \<open>Lists\<close>

theorem pages_cover_result_witness:
  "\<exists>l > 0. concat (map (\<lambda>k. pageOf (getQueryParams (Some 7) (\<lambda>s. s)
        (baseQueryFilter (Some 7) (Some (int k)) None [] [])) [1, 2, 3::nat]) [1..<Suc 4]) = take (4 * nat l) [1, 2, 3]"
proof -
  have "0 < defaultPageSize (Some 7)" by code_simp
  from pages_cover_result [OF this] show ?thesis by blast
qed

section \<open>Accounts\<close>

definition exSession :: session where
  "exSession = \<lparr>ss_user = Some (exUser 1 ''w1''), ss_roles = [2]\<rparr>"

definition exAdmin :: db where
  "exAdmin = exDb\<lparr>user_roles := [(1, 2)]\<rparr>"

theorem guard_admits_only_roles_witness:
  "\<exists>u \<in> set (rows (users exAdmin)). rowId u = 1 \<and> (1, 2) \<in> set (user_roles exAdmin)"
proof -
  have a: "authenticate (\<lambda>t. Inr 1) (\<lambda>r. True) ''t'' exAdmin = Inr exSession"
    "authGuard [2] exSession = Inr True" by code_simp+
  from guard_admits_only_roles [OF a] show ?thesis by auto
qed

definition exLogin :: wallet_login where
  "exLogin = \<lparr>wl_address = ''0xaBcdefgh1234'', wl_signature = ''s'', wl_timestamp = 864000000 - 5, wl_referralId = Some ''r''\<rparr>"

definition exSigner :: "string \<Rightarrow> string \<Rightarrow> (exn, string) res" where
  "exSigner message signature = Inr ''0xABcdefgh1234''"

definition exReferring :: "db mysql" where
  "exReferring = \<lparr>committed = exDb\<lparr>reward_pointss := tblOf [exReward 1 USER_REFERRAL 5]\<rparr>, openTx = 0\<rparr>"


lemma exUsers: "rows (users exDb) = [exUser 1 ''w1'', exUser 2 ''w2'']"
  by code_simp


definition exNamesake :: user where
  "exNamesake = (exUser 1 ''w1'')\<lparr>us_username := Some (shortAddress (wl_address exLogin))\<rparr>"

definition exTaken :: "db mysql" where
  "exTaken = \<lparr>committed = exDb\<lparr>users := tblOf [exNamesake]\<rparr>, openTx = 0\<rparr>"

theorem lookalike_wallet_locked_out_witness:
  "\<exists>e. loginWithWallet exCtx exSigner (\<lambda>e. True) ''n'' exLogin exTaken = (Inl e, exTaken)"
proof -
  have "populateByWalletAddress (wl_address exLogin) (committed exTaken) = None"
    "us_username exNamesake = Some (shortAddress (wl_address exLogin))" by code_simp+
  moreover have "exNamesake \<in> set (rows (users (committed exTaken)))" by (simp add: exTaken_def tblOf_def)
  ultimately show ?thesis using lookalike_wallet_locked_out by blast
qed

section \<open>Jobs\<close>

definition exJob :: job where
  "exJob = \<lparr>jb_id = 1, jb_status = JOB_ACTIVE, jb_name = ''VotingParser'', jb_channel = 0, jb_interval = ''m'',
     jb_lastRun = Some 1000, jb_nextRun = Some 900000, jb_timeout = 60, jb_input = None, jb_retries = 0,
     jb_lastDuration = 0, jb_lastError = None, jb_lastCompleted = None, jb_lastFailed = None,
     jb_parameters = [], jb_autoRemove = False, jb_executorCount = 0\<rparr>"

lemma exJob_ok: "jobsOk [exJob]"
  by (simp add: jobsOk_def exJob_def)

definition exCron :: "string \<Rightarrow> int \<Rightarrow> int option" where
  "exCron s t = Some (t + 900000)"

theorem failed_run_is_retried_witness:
  "\<exists>s. runSingleThread exCron (\<lambda>e. ''m'') 900000 900001 900002 1 ''VotingParser'' (Inl (JsError ''x''))
        \<lparr>sr_jobs = [exJob], sr_def = None\<rparr> = (Inl (JsError ''x''), s)
    \<and> (\<exists>js v. beforeRun 960001 1 ''VotingParser'' (sr_jobs s) = Inr (js, Some v))"
proof -
  let ?w = "jobDefinition (lockJob exJob)"
  have b: "beforeRun 900000 1 ''VotingParser'' [exJob] = Inr ([lockJob exJob], Some ?w)" by code_simp
  have k: "wd_id ?w = 1" "wd_timeout ?w = 60" by code_simp+
  obtain r s where r: "runSingleThread exCron (\<lambda>e. ''m'') 900000 900001 900002 1 ''VotingParser'' (Inl (JsError ''x''))
        \<lparr>sr_jobs = [exJob], sr_def = None\<rparr> = (r, s)" by (cases "runSingleThread exCron (\<lambda>e. ''m'') 900000 900001
          900002 1 ''VotingParser'' (Inl (JsError ''x'')) \<lparr>sr_jobs = [exJob], sr_def = None\<rparr>")
  from failed_run_is_retried [OF exJob_ok b r] k r show ?thesis by auto
qed

theorem one_run_at_a_time_witness:
  "\<exists>s. (job_step exCron True 1)\<^sup>*\<^sup>* \<lparr>js_now = 900000, js_rows = [exJob], js_running = []\<rparr> s
    \<and> length (js_running s) = 1"
proof -
  let ?s0 = "\<lparr>js_now = 900000, js_rows = [exJob], js_running = []\<rparr>"
  let ?w = "setStarted 900000 (jobDefinition (lockJob exJob))"
  let ?s1 = "\<lparr>js_now = 900000, js_rows = updateWorkerDefinition ?w [lockJob exJob], js_running = [?w]\<rparr>"
  have b: "beforeRun 900000 1 ''VotingParser'' [exJob] = Inr ([lockJob exJob], Some (jobDefinition (lockJob exJob)))"
    by code_simp
  have run: "(job_step exCron True 1)\<^sup>*\<^sup>* ?s0 ?s1"
    by (rule r_into_rtranclp, rule job_step.start [OF b])
  have "length (js_running ?s1) \<le> 1" by (rule one_run_at_a_time [OF run]) (simp_all add: exJob_ok)
  then show ?thesis using run by (intro exI [of _ ?s1] conjI) simp_all
qed

section \<open>The queue\<close>

theorem queued_work_arrives_witness:
  "handleMessage (\<lambda>s. Inr s) (\<lambda>n mode c body s. (Inr (), (n, cl_id c, body) # s))
      (queueMessage (\<lambda>p. p) ''m'' VOTING_PARSER \<lparr>cl_id = Some 7, cl_parameters = Some ''p''\<rparr> ''b'') []
    = (Inr (), [(VOTING_PARSER, Some 7, Some ''b'')])"
  by (subst queued_work_arrives) simp_all

end
