(* ===== verification/Local_Cache.thy ===== *)
theory Local_Cache
  imports Js_String "HOL-Library.AList" "HOL-Library.Multiset"
begin

text \<open>
  The cache that an instance of the API proxy keeps in its memory
  (\<open>proxy/local-cache.mjs\<close>): answers with a time to live, evicted by least recent
  use when there are too many or they take too much memory.  A JavaScript
  \<open>Map\<close> is an association list in the order of first insertion (\<open>AList.update\<close>
  keeps that order, \<open>AList.delete\<close> drops a key); times are milliseconds.
\<close>

section \<open>Answers and their size\<close>

record response =
  pr_statusCode :: int
  pr_body :: string

text \<open>\<open>JSON.stringify\<close> of an answer, as far as its length needs it: what a string escapes to.\<close>

definition jsonChar :: "char \<Rightarrow> string" where
  "jsonChar ch = (let n = of_char ch :: nat in
     if ch = CHR 0x22 \<or> ch = CHR 0x5C then [CHR 0x5C, ch]
     else if ch = CHR 0x08 then [CHR 0x5C, CHR ''b''] else if ch = CHR 0x09 then [CHR 0x5C, CHR ''t'']
     else if ch = CHR 0x0A then [CHR 0x5C, CHR ''n''] else if ch = CHR 0x0C then [CHR 0x5C, CHR ''f'']
     else if ch = CHR 0x0D then [CHR 0x5C, CHR ''r'']
     else if n < 32 then CHR 0x5C # ''u00'' @ [''0123456789abcdef'' ! (n div 16), ''0123456789abcdef'' ! (n mod 16)]
     else [ch])"

definition jsonString :: "string \<Rightarrow> string" where
  "jsonString s = [CHR 0x22] @ concat (map jsonChar s) @ [CHR 0x22]"

definition jsonResponse :: "response \<Rightarrow> string" where
  "jsonResponse r = ''{'' @ jsonString ''statusCode'' @ '':'' @ jsInt (pr_statusCode r) @ '',''
     @ jsonString ''body'' @ '':'' @ jsonString (pr_body r) @ ''}''"

definition estimateResponseSize :: "response \<Rightarrow> int" where
  "estimateResponseSize r = int (length (jsonResponse r))"

lemma estimateResponseSize_pos: "0 < estimateResponseSize r"
  by (simp add: estimateResponseSize_def jsonResponse_def)

section \<open>Limits\<close>

text \<open>\<open>parseInt(process.env.X) || d\<close>.\<close>

definition envInt :: "string \<Rightarrow> int \<Rightarrow> int" where
  "envInt s d = (case parseInt s of None \<Rightarrow> d | Some n \<Rightarrow> if n = 0 then d else n)"

record cache_limits =
  li_ttl :: int
  li_maxEntries :: int
  li_maxResponse :: int
  li_maxMemory :: int

definition cacheLimits :: "(string \<Rightarrow> string) \<Rightarrow> cache_limits" where
  "cacheLimits env = \<lparr>li_ttl = envInt (env ''API_PROXY_CACHE_TTL'') 30,
     li_maxEntries = envInt (env ''API_PROXY_MAX_CACHE_ENTRIES'') 50,
     li_maxResponse = envInt (env ''API_PROXY_MAX_CACHE_SIZE'') (2 * 1024 * 1024),
     li_maxMemory = envInt (env ''API_PROXY_MAX_TOTAL_CACHE_MEMORY'') (30 * 1024 * 1024)\<rparr>"

section \<open>The cache\<close>

type_synonym entries = "(string \<times> response \<times> int) list"

record local_cache =
  lc_entries :: entries
  lc_order :: "string list"
  lc_memory :: int
  lc_operations :: nat

definition emptyCache :: local_cache where
  "emptyCache = \<lparr>lc_entries = [], lc_order = [], lc_memory = 0, lc_operations = 0\<rparr>"

definition sizeOf :: "string \<Rightarrow> entries \<Rightarrow> int" where
  "sizeOf k es = (case map_of es k of None \<Rightarrow> 0 | Some (r, t) \<Rightarrow> estimateResponseSize r)"

text \<open>The removal of an expired entry, in \<open>cleanupExpiredEntries\<close> and in \<open>getCachedResponse\<close>.\<close>

definition dropEntry :: "string \<Rightarrow> local_cache \<Rightarrow> local_cache" where
  "dropEntry k s = s\<lparr>lc_memory := lc_memory s - sizeOf k (lc_entries s),
     lc_entries := AList.delete k (lc_entries s), lc_order := remove1 k (lc_order s)\<rparr>"

definition expired :: "int \<Rightarrow> string \<times> response \<times> int \<Rightarrow> bool" where
  "expired now e \<longleftrightarrow> now > snd (snd e)"

definition cleanupExpiredEntries :: "int \<Rightarrow> local_cache \<Rightarrow> local_cache" where
  "cleanupExpiredEntries now s = fold dropEntry (map fst (filter (expired now) (lc_entries s))) s"

definition cleanupFrequency :: nat where "cleanupFrequency = 10"

definition getCachedResponse :: "int \<Rightarrow> string \<Rightarrow> local_cache \<Rightarrow> response option \<times> local_cache" where
  "getCachedResponse now k s =
    (let s1 = s\<lparr>lc_operations := lc_operations s + 1\<rparr>;
         s2 = (if lc_operations s1 mod cleanupFrequency = 0 then cleanupExpiredEntries now s1 else s1)
     in case map_of (lc_entries s2) k of
          None \<Rightarrow> (None, s2)
        | Some (r, t) \<Rightarrow>
            if expired now (k, r, t) then (None, dropEntry k s2)
            else (Some r, s2\<lparr>lc_order := remove1 k (lc_order s2) @ [k]\<rparr>))"

definition tooFull :: "cache_limits \<Rightarrow> int \<Rightarrow> nat \<Rightarrow> int \<Rightarrow> bool" where
  "tooFull l est entries memory \<longleftrightarrow> int entries \<ge> li_maxEntries l \<or> (memory + est > li_maxMemory l \<and> entries > 0)"

text \<open>The loop that evicts: the front of the order goes, and an empty key or an empty order ends it.\<close>

fun evict :: "cache_limits \<Rightarrow> int \<Rightarrow> string list \<Rightarrow> entries \<Rightarrow> int \<Rightarrow> string list \<times> entries \<times> int" where
  "evict l est [] es memory = ([], es, memory)"
| "evict l est (k # ks) es memory =
    (if tooFull l est (length es) memory
     then if k = [] then (ks, es, memory)
          else evict l est ks (AList.delete k es) (memory - sizeOf k es)
     else (k # ks, es, memory))"

definition setCachedResponse :: "cache_limits \<Rightarrow> int \<Rightarrow> string \<Rightarrow> response \<Rightarrow> local_cache \<Rightarrow> local_cache" where
  "setCachedResponse l now k r s =
    (let est = estimateResponseSize r in
     if est > li_maxResponse l then s
     else (case evict l est (lc_order s) (lc_entries s) (lc_memory s) of
         (order, es, memory) \<Rightarrow>
           if memory + est > li_maxMemory l then s\<lparr>lc_order := order, lc_entries := es, lc_memory := memory\<rparr>
           else s\<lparr>lc_order := order @ [k], lc_entries := AList.update k (r, now + li_ttl l * 1000) es,
                  lc_memory := memory + est\<rparr>))"

section \<open>What the cache never exceeds\<close>

definition totalSize :: "entries \<Rightarrow> int" where
  "totalSize es = sum_list (map (\<lambda>e. estimateResponseSize (fst (snd e))) es)"

text \<open>
  The books are never below what is held.  They may be above: a key that is set
  again while it is cached is counted twice.
\<close>

definition cacheOk :: "cache_limits \<Rightarrow> local_cache \<Rightarrow> bool" where
  "cacheOk l s \<longleftrightarrow> distinct (map fst (lc_entries s)) \<and> fst ` set (lc_entries s) \<subseteq> set (lc_order s)
     \<and> [] \<notin> set (lc_order s) \<and> totalSize (lc_entries s) \<le> lc_memory s \<and> lc_memory s \<le> li_maxMemory l
     \<and> int (length (lc_entries s)) \<le> li_maxEntries l"

lemma totalSize_simps [simp]:
  "totalSize [] = 0" "totalSize (e # es) = estimateResponseSize (fst (snd e)) + totalSize es"
  by (simp_all add: totalSize_def)

lemma totalSize_nonneg [simp]: "0 \<le> totalSize es"
  by (auto simp: totalSize_def estimateResponseSize_def intro!: sum_list_nonneg)

lemma delete_absent: "k \<notin> fst ` set es \<Longrightarrow> AList.delete k es = es"
  by (induction es) auto

lemma totalSize_delete:
  "distinct (map fst es) \<Longrightarrow> totalSize (AList.delete k es) = totalSize es - sizeOf k es"
proof (induction es)
  case (Cons e es)
  show ?case
  proof (cases "fst e = k")
    case True
    then have "k \<notin> fst ` set es" using Cons.prems by auto
    then show ?thesis using True by (cases e) (simp add: sizeOf_def delete_absent)
  next
    case False
    then show ?thesis using Cons by (cases e) (simp add: sizeOf_def)
  qed
qed (simp add: sizeOf_def)

lemma distinct_delete: "distinct (map fst es) \<Longrightarrow> distinct (map fst (AList.delete k es))"
  by (induction es) (auto simp: AList.delete_eq)

lemma keys_delete: "fst ` set (AList.delete k es) = fst ` set es - {k}"
  by (auto simp: AList.delete_eq)

lemma length_delete: "length (AList.delete k es) \<le> length es"
  by (simp add: AList.delete_eq)

lemma sizeOf_nonneg: "0 \<le> sizeOf k es"
  by (simp add: sizeOf_def estimateResponseSize_def split: option.split)

lemma keys_remove1: "K \<subseteq> set ks \<Longrightarrow> K - {k} \<subseteq> set (remove1 k ks)"
  using in_set_remove1 [of _ k ks] by fast

lemma cacheOk_drop [intro]:
  assumes "cacheOk l s"
  shows "cacheOk l (dropEntry k s)"
proof -
  have "[] \<notin> set (remove1 k (lc_order s))"
    using assms notin_set_remove1 by (force simp: cacheOk_def)
  moreover have "lc_memory s - sizeOf k (lc_entries s) \<le> li_maxMemory l"
    using assms sizeOf_nonneg [of k "lc_entries s"] by (simp add: cacheOk_def)
  ultimately show ?thesis
    using assms length_delete [of k "lc_entries s"] keys_remove1 [of "fst ` set (lc_entries s)" "lc_order s" k]
    by (simp add: cacheOk_def dropEntry_def totalSize_delete distinct_delete keys_delete)
qed

lemma cacheOk_cleanup [intro]: "cacheOk l s \<Longrightarrow> cacheOk l (cleanupExpiredEntries now s)"
proof -
  have "cacheOk l s \<Longrightarrow> cacheOk l (fold dropEntry ks s)" for ks
    by (induction ks arbitrary: s) auto
  then show "cacheOk l s \<Longrightarrow> cacheOk l (cleanupExpiredEntries now s)" by (simp add: cleanupExpiredEntries_def)
qed

lemma cacheOk_operations [simp]: "cacheOk l (s\<lparr>lc_operations := n\<rparr>) = cacheOk l s"
  by (simp add: cacheOk_def)

text \<open>A lookup: the state after the periodic cleaning, and one of three ends.\<close>

definition afterCleanup :: "int \<Rightarrow> local_cache \<Rightarrow> local_cache" where
  "afterCleanup now s = (let s1 = s\<lparr>lc_operations := lc_operations s + 1\<rparr> in
     if lc_operations s1 mod cleanupFrequency = 0 then cleanupExpiredEntries now s1 else s1)"

lemma cacheOk_afterCleanup: "cacheOk l s \<Longrightarrow> cacheOk l (afterCleanup now s)"
  by (auto simp: afterCleanup_def Let_def)

lemma getCachedResponse_cases:
  obtains (miss) "map_of (lc_entries (afterCleanup now s)) k = None"
      "getCachedResponse now k s = (None, afterCleanup now s)"
  | (stale) r t where "map_of (lc_entries (afterCleanup now s)) k = Some (r, t)" "t < now"
      "getCachedResponse now k s = (None, dropEntry k (afterCleanup now s))"
  | (hit) r t where "map_of (lc_entries (afterCleanup now s)) k = Some (r, t)" "now \<le> t"
      "getCachedResponse now k s = (Some r, (afterCleanup now s)
          \<lparr>lc_order := remove1 k (lc_order (afterCleanup now s)) @ [k]\<rparr>)"
proof (cases "map_of (lc_entries (afterCleanup now s)) k")
  case None
  then show thesis using miss by (simp add: getCachedResponse_def afterCleanup_def Let_def)
next
  case (Some e)
  obtain r t where e: "e = (r, t)" by (cases e)
  show thesis
  proof (cases "t < now")
    case True
    then show thesis using stale Some e
      by (simp add: getCachedResponse_def afterCleanup_def Let_def expired_def)
  next
    case False
    then show thesis using hit Some e
      by (simp add: getCachedResponse_def afterCleanup_def Let_def expired_def)
  qed
qed

lemma cacheOk_get:
  assumes "cacheOk l s" and "k \<noteq> []"
  shows "cacheOk l (snd (getCachedResponse now k s))"
proof (cases rule: getCachedResponse_cases [of now s k])
  case (hit r t)
  have "set (remove1 k ks @ [k]) = insert k (set ks)" for ks :: "string list"
    by (induction ks) auto
  then show ?thesis
    using hit cacheOk_afterCleanup [OF assms(1), of now] assms(2) by (auto simp: cacheOk_def)
qed (use cacheOk_afterCleanup [OF assms(1)] in auto)

text \<open>Eviction ends with room for one more, or with nothing left.\<close>

lemma evict_ok:
  assumes "evict l n ks es m = (ks', es', m')" and "distinct (map fst es)" and "fst ` set es \<subseteq> set ks"
    and "[] \<notin> set ks" and "totalSize es \<le> m"
  shows "distinct (map fst es') \<and> fst ` set es' \<subseteq> set ks' \<and> [] \<notin> set ks' \<and> totalSize es' \<le> m' \<and> m' \<le> m
    \<and> length es' \<le> length es \<and> (es' = [] \<or> \<not> tooFull l n (length es') m')"
  using assms
proof (induction l n ks es m arbitrary: ks' es' m' rule: evict.induct)
  case (2 l n k ks es m)
  show ?case
  proof (cases "tooFull l n (length es) m")
    case True
    then have e: "evict l n ks (AList.delete k es) (m - sizeOf k es) = (ks', es', m')"
      using "2.prems" by auto
    have p: "distinct (map fst es)" "fst ` set es - {k} \<subseteq> set ks" "k \<noteq> []" "[] \<notin> set ks" "totalSize es \<le> m"
      using "2.prems" by auto
    then show ?thesis
      using "2.IH" [OF True p(3) e] length_delete [of k es] sizeOf_nonneg [of k es]
      by (simp add: distinct_delete keys_delete totalSize_delete)
  next
    case False
    then show ?thesis using "2.prems" by simp
  qed
qed simp

lemma evict_entries: "evict l n ks es m = (ks', es', m') \<Longrightarrow> set es' \<subseteq> set es"
proof (induction l n ks es m arbitrary: ks' es' m' rule: evict.induct)
  case (2 l n k ks es m)
  have "set (AList.delete k es) \<subseteq> set es" by (auto simp: AList.delete_eq)
  then show ?case using 2 by (fastforce split: if_splits)
qed simp

lemma update_new: "k \<notin> fst ` set es \<Longrightarrow> AList.update k v es = es @ [(k, v)]"
  by (induction es) auto

lemma set_update: "set (AList.update k v es) \<subseteq> insert (k, v) (set es)"
  by (induction es) auto

lemma length_update: "length (AList.update k v es) = (if k \<in> fst ` set es then length es else Suc (length es))"
  by (induction es) auto

lemma totalSize_update: "totalSize (AList.update k v es) \<le> totalSize es + estimateResponseSize (fst v)"
proof (induction es)
  case (Cons e es)
  then show ?case using estimateResponseSize_pos [of "fst (snd e)"] by simp
qed simp

text \<open>How a store can end.\<close>

lemma setCachedResponse_cases:
  obtains (large) "li_maxResponse l < estimateResponseSize r" "setCachedResponse l now k r s = s"
  | (dropped) ks es m where "evict l (estimateResponseSize r) (lc_order s) (lc_entries s) (lc_memory s) = (ks, es, m)"
      "li_maxMemory l < m + estimateResponseSize r" "estimateResponseSize r \<le> li_maxResponse l"
      "setCachedResponse l now k r s = s\<lparr>lc_order := ks, lc_entries := es, lc_memory := m\<rparr>"
  | (stored) ks es m where "evict l (estimateResponseSize r) (lc_order s) (lc_entries s) (lc_memory s) = (ks, es, m)"
      "m + estimateResponseSize r \<le> li_maxMemory l" "estimateResponseSize r \<le> li_maxResponse l"
      "setCachedResponse l now k r s = s\<lparr>lc_order := ks @ [k],
         lc_entries := AList.update k (r, now + li_ttl l * 1000) es, lc_memory := m + estimateResponseSize r\<rparr>"
proof (cases "li_maxResponse l < estimateResponseSize r")
  case True
  then show thesis using large by (simp add: setCachedResponse_def)
next
  case False
  obtain ks es m where e: "evict l (estimateResponseSize r) (lc_order s) (lc_entries s) (lc_memory s) = (ks, es, m)"
    by (metis prod_cases3)
  show thesis
  proof (cases "li_maxMemory l < m + estimateResponseSize r")
    case True
    then show thesis using dropped [OF e] e False by (simp add: setCachedResponse_def)
  next
    case fits: False
    then show thesis using stored [OF e] e False by (simp add: setCachedResponse_def)
  qed
qed

lemma cacheOk_set:
  assumes "cacheOk l s" and "k \<noteq> []" and "1 \<le> li_maxEntries l"
  shows "cacheOk l (setCachedResponse l now k r s)"
proof (cases rule: setCachedResponse_cases [of l r now k s])
  case large
  then show ?thesis using assms by simp
next
  case (dropped ks es m)
  then show ?thesis using evict_ok [OF dropped(1)] assms(1) by (simp add: cacheOk_def)
next
  case (stored ks es m)
  have e: "distinct (map fst es)" "fst ` set es \<subseteq> set ks" "[] \<notin> set ks" "totalSize es \<le> m"
    "es = [] \<or> \<not> tooFull l (estimateResponseSize r) (length es) m" "length es \<le> length (lc_entries s)"
    using evict_ok [OF stored(1)] assms(1) by (simp_all add: cacheOk_def)
  let ?es = "AList.update k (r, now + li_ttl l * 1000) es"
  have "int (length ?es) \<le> li_maxEntries l"
    using e(5,6) assms(1,3) by (auto simp: length_update cacheOk_def tooFull_def)
  moreover have "fst ` set ?es \<subseteq> set (ks @ [k])"
    using e(2) set_update [of k "(r, now + li_ttl l * 1000)" es] by fastforce
  moreover have "totalSize ?es \<le> m + estimateResponseSize r"
    using e(4) totalSize_update [of k "(r, now + li_ttl l * 1000)" es] by simp
  ultimately show ?thesis
    using stored e(1,3) assms(2) by (simp add: cacheOk_def AList.distinct_update)
qed

section \<open>The operations over time\<close>

datatype cache_op = Lookup int string | Store int string response

fun opKey :: "cache_op \<Rightarrow> string" where
  "opKey (Lookup now k) = k"
| "opKey (Store now k r) = k"

fun cacheOp :: "cache_limits \<Rightarrow> cache_op \<Rightarrow> local_cache \<Rightarrow> local_cache" where
  "cacheOp l (Lookup now k) s = snd (getCachedResponse now k s)"
| "cacheOp l (Store now k r) s = setCachedResponse l now k r s"

definition cacheRun :: "cache_limits \<Rightarrow> cache_op list \<Rightarrow> local_cache" where
  "cacheRun l ops = fold (cacheOp l) ops emptyCache"

lemma cacheOk_run:
  assumes "0 \<le> li_maxMemory l" and "1 \<le> li_maxEntries l" and "\<forall>q \<in> set ops. opKey q \<noteq> []"
  shows "cacheOk l (cacheRun l ops)"
proof -
  have "cacheOk l (cacheOp l q s)" if "cacheOk l s" "opKey q \<noteq> []" for q s
    using that assms(2) cacheOk_get cacheOk_set by (cases q) auto
  then have "cacheOk l s \<Longrightarrow> \<forall>q \<in> set ops. opKey q \<noteq> [] \<Longrightarrow> cacheOk l (fold (cacheOp l) ops s)" for s ops
    by (induction ops arbitrary: s) auto
  moreover have "cacheOk l emptyCache" using assms by (simp add: cacheOk_def emptyCache_def)
  ultimately show ?thesis using assms(3) by (simp add: cacheRun_def)
qed

text \<open>Every entry is some earlier store's, with the time to live counted from that store.\<close>

lemma lookup_entries: "set (lc_entries (snd (getCachedResponse now k s))) \<subseteq> set (lc_entries s)"
proof -
  have drop: "set (lc_entries (dropEntry k s)) \<subseteq> set (lc_entries s)" for k s
    by (auto simp: dropEntry_def AList.delete_eq)
  have fold_drop: "set (lc_entries (fold dropEntry ks s)) \<subseteq> set (lc_entries s)" for ks s
    by (induction ks arbitrary: s) (use drop in force)+
  have "set (lc_entries (afterCleanup now s)) \<subseteq> set (lc_entries s)"
    using fold_drop [of _ "s\<lparr>lc_operations := lc_operations s + 1\<rparr>"]
    by (simp add: afterCleanup_def cleanupExpiredEntries_def Let_def)
  then show ?thesis
    by (cases rule: getCachedResponse_cases [of now s k]) (use drop in force)+
qed

lemma store_entries:
  "set (lc_entries (setCachedResponse l now k r s)) \<subseteq> insert (k, r, now + li_ttl l * 1000) (set (lc_entries s))"
proof (cases rule: setCachedResponse_cases [of l r now k s])
  case (stored ks es m)
  then show ?thesis
    using evict_entries [OF stored(1)] set_update [of k "(r, now + li_ttl l * 1000)" es] by auto
next
  case (dropped ks es m)
  then show ?thesis using evict_entries [OF dropped(1)] by auto
qed auto

lemma run_entries:
  assumes "(k, r, e) \<in> set (lc_entries (cacheRun l ops))"
  shows "\<exists>t. Store t k r \<in> set ops \<and> e = t + li_ttl l * 1000"
  using assms
proof (induction ops rule: rev_induct)
  case (snoc q ops)
  then show ?case
  proof (cases q)
    case (Lookup t k')
    then show ?thesis using snoc lookup_entries [of t k' "cacheRun l ops"] by (auto simp: cacheRun_def)
  next
    case (Store t k' r')
    then show ?thesis using snoc store_entries [of l t k' r' "cacheRun l ops"] by (auto simp: cacheRun_def)
  qed
qed (simp add: cacheRun_def emptyCache_def)

text \<open>
  The cache of an instance stays within its limits and never answers with old
  data: after any sequence of lookups and stores, at any times and of any
  answers, it holds at most the allowed number of entries and bytes, and what a
  lookup finds was stored for that key no longer ago than the time to live.
\<close>

theorem local_cache_bounded:
  assumes "0 \<le> li_maxMemory l" and "1 \<le> li_maxEntries l" and "\<forall>q \<in> set ops. opKey q \<noteq> []"
  shows "int (length (lc_entries (cacheRun l ops))) \<le> li_maxEntries l
    \<and> totalSize (lc_entries (cacheRun l ops)) \<le> li_maxMemory l
    \<and> (\<forall>now k r. fst (getCachedResponse now k (cacheRun l ops)) = Some r
         \<longrightarrow> (\<exists>t. Store t k r \<in> set ops \<and> now \<le> t + li_ttl l * 1000))"
proof -
  have "\<exists>t. Store t k r \<in> set ops \<and> now \<le> t + li_ttl l * 1000"
    if "fst (getCachedResponse now k (cacheRun l ops)) = Some r" for now k r
  proof (cases rule: getCachedResponse_cases [of now "cacheRun l ops" k])
    case (hit r' t)
    then have "(k, r, t) \<in> set (lc_entries (cacheRun l ops))"
      using that lookup_entries [of now k "cacheRun l ops"] map_of_SomeD by fastforce
    then show ?thesis using run_entries hit(2) by blast
  qed (use that in simp_all)
  then show ?thesis using cacheOk_run [OF assms] by (simp add: cacheOk_def)
qed

section \<open>Least recent use\<close>

text \<open>
  What the four variables are meant to be: one list of entries, the least recently
  used first.
\<close>

definition lruClean :: "int \<Rightarrow> entries \<Rightarrow> entries" where
  "lruClean now xs = filter (\<lambda>e. \<not> expired now e) xs"

definition lruLookup :: "int \<Rightarrow> string \<Rightarrow> entries \<Rightarrow> response option \<times> entries" where
  "lruLookup now k xs = (case map_of xs k of
      None \<Rightarrow> (None, xs)
    | Some (r, t) \<Rightarrow> if expired now (k, r, t) then (None, AList.delete k xs)
                     else (Some r, AList.delete k xs @ [(k, r, t)]))"

fun lruFit :: "cache_limits \<Rightarrow> int \<Rightarrow> entries \<Rightarrow> entries" where
  "lruFit l n [] = []"
| "lruFit l n (x # xs) = (if tooFull l n (length (x # xs)) (totalSize (x # xs)) then lruFit l n xs else x # xs)"

definition lruStore :: "cache_limits \<Rightarrow> int \<Rightarrow> string \<Rightarrow> response \<Rightarrow> entries \<Rightarrow> entries" where
  "lruStore l now k r xs =
    (if estimateResponseSize r > li_maxResponse l then xs
     else (let ys = lruFit l (estimateResponseSize r) xs in
       if totalSize ys + estimateResponseSize r > li_maxMemory l then ys
       else ys @ [(k, r, now + li_ttl l * 1000)]))"

definition byRecency :: "string list \<Rightarrow> entries \<Rightarrow> entries" where
  "byRecency ks es = map (\<lambda>k. (k, the (map_of es k))) ks"

definition keyed :: "string list \<Rightarrow> entries \<Rightarrow> bool" where
  "keyed ks es \<longleftrightarrow> distinct ks \<and> set ks = fst ` set es \<and> distinct (map fst es) \<and> [] \<notin> set ks"

definition exact :: "local_cache \<Rightarrow> bool" where
  "exact s \<longleftrightarrow> keyed (lc_order s) (lc_entries s) \<and> lc_memory s = totalSize (lc_entries s)"

definition recency :: "local_cache \<Rightarrow> entries" where
  "recency s = byRecency (lc_order s) (lc_entries s)"

lemma map_of_delete_other: "k' \<noteq> k \<Longrightarrow> map_of (AList.delete k es) k' = map_of es k'"
  by (induction es) auto

lemma byRecency_delete: "k \<notin> set ks \<Longrightarrow> byRecency ks (AList.delete k es) = byRecency ks es"
  unfolding byRecency_def by (rule map_cong [OF refl]) (metis map_of_delete_other)

lemma byRecency_mset:
  assumes "keyed ks es"
  shows "mset (byRecency ks es) = mset es"
proof -
  have m: "map_of es k = Some v \<longleftrightarrow> (k, v) \<in> set es" for k v
    using assms by (simp add: keyed_def map_of_eq_Some_iff)
  have "distinct es" using assms by (auto simp: keyed_def distinct_map)
  moreover have "distinct (byRecency ks es)"
    using assms by (auto simp: keyed_def byRecency_def distinct_map intro: inj_onI)
  moreover have "set (byRecency ks es) = set es"
  proof (intro set_eqI iffI)
    fix e assume "e \<in> set (byRecency ks es)"
    then obtain k where k: "k \<in> fst ` set es" "e = (k, the (map_of es k))"
      using assms by (auto simp: byRecency_def keyed_def)
    then obtain v where "(k, v) \<in> set es" by auto
    moreover from this have "map_of es k = Some v" using m by simp
    ultimately show "e \<in> set es" using k by simp
  next
    fix e assume "e \<in> set es"
    then have "map_of es (fst e) = Some (snd e)" "fst e \<in> set ks"
      using m assms by (auto simp: keyed_def)
    then show "e \<in> set (byRecency ks es)"
      unfolding byRecency_def set_map by (intro image_eqI [of _ _ "fst e"]) simp_all
  qed
  ultimately show ?thesis by (simp add: set_eq_iff_mset_eq_distinct)
qed

lemma byRecency_size:
  assumes "keyed ks es"
  shows "length (byRecency ks es) = length es" and "totalSize (byRecency ks es) = totalSize es"
proof -
  show "length (byRecency ks es) = length es"
    using byRecency_mset [OF assms] by (metis size_mset)
  have "totalSize xs = sum_mset (image_mset (\<lambda>e. estimateResponseSize (fst (snd e))) (mset xs))" for xs
    by (simp add: totalSize_def sum_mset_sum_list flip: mset_map)
  then show "totalSize (byRecency ks es) = totalSize es" using byRecency_mset [OF assms] by simp
qed

lemma map_of_byRecency:
  assumes "keyed ks es"
  shows "map_of (byRecency ks es) k = map_of es k"
proof -
  have "distinct (map fst (byRecency ks es))" using assms by (simp add: keyed_def byRecency_def comp_def)
  moreover have "set (byRecency ks es) = set es" using byRecency_mset [OF assms] by (rule mset_eq_setD)
  ultimately have "map_of (byRecency ks es) k = Some v \<longleftrightarrow> map_of es k = Some v" for v
    using assms by (simp add: keyed_def map_of_eq_Some_iff)
  then show ?thesis by (cases "map_of es k"; cases "map_of (byRecency ks es) k") auto
qed

lemma keyed_delete: "keyed ks es \<Longrightarrow> keyed (remove1 k ks) (AList.delete k es)"
  by (auto simp: keyed_def keys_delete distinct_delete set_remove1_eq)

lemma byRecency_drop:
  assumes "distinct ks"
  shows "byRecency (remove1 k ks) (AList.delete k es) = AList.delete k (byRecency ks es)"
proof -
  have "byRecency (remove1 k ks) (AList.delete k es) = byRecency (remove1 k ks) es"
    using assms by (intro byRecency_delete) simp
  also have "\<dots> = AList.delete k (byRecency ks es)"
    using assms
    by (simp add: distinct_remove1_removeAll removeAll_filter_not_eq byRecency_def AList.delete_eq filter_map
        comp_def)
  finally show ?thesis .
qed

lemma exact_drop:
  assumes "exact s"
  shows "exact (dropEntry k s) \<and> recency (dropEntry k s) = AList.delete k (recency s)"
proof -
  have k: "keyed (lc_order s) (lc_entries s)" using assms by (simp add: exact_def)
  then have d: "distinct (lc_order s)" "distinct (map fst (lc_entries s))" by (simp_all add: keyed_def)
  show ?thesis
    using assms keyed_delete [OF k, of k] byRecency_drop [OF d(1), of k] totalSize_delete [OF d(2), of k]
    by (simp add: exact_def dropEntry_def recency_def)
qed

lemma exact_drops:
  "exact s \<Longrightarrow> exact (fold dropEntry ks s) \<and> recency (fold dropEntry ks s) = filter (\<lambda>e. fst e \<notin> set ks) (recency s)"
proof (induction ks arbitrary: s)
  case (Cons k ks)
  note d = exact_drop [OF Cons.prems, of k]
  then show ?case using Cons.IH [of "dropEntry k s"] by (auto simp: AList.delete_eq intro: filter_cong)
qed simp

lemma exact_clean:
  assumes "exact s"
  shows "exact (cleanupExpiredEntries now s) \<and> recency (cleanupExpiredEntries now s) = lruClean now (recency s)"
proof -
  let ?dead = "map fst (filter (expired now) (lc_entries s))"
  have k: "keyed (lc_order s) (lc_entries s)" using assms by (simp add: exact_def)
  have "fst e \<in> set ?dead \<longleftrightarrow> expired now e" if "e \<in> set (recency s)" for e
  proof -
    have e: "e \<in> set (lc_entries s)"
      using that mset_eq_setD [OF byRecency_mset [OF k]] by (simp add: recency_def)
    have "inj_on fst (set (lc_entries s))" using k by (simp add: keyed_def distinct_map)
    then show ?thesis using e by (auto dest: inj_onD)
  qed
  then have "filter (\<lambda>e. fst e \<notin> set ?dead) (recency s) = lruClean now (recency s)"
    unfolding lruClean_def by (intro filter_cong) simp_all
  then show ?thesis using exact_drops [OF assms, of ?dead] by (simp add: cleanupExpiredEntries_def)
qed

lemma evict_lru:
  assumes "evict l n ks es (totalSize es) = (ks', es', m')" and "keyed ks es"
  shows "keyed ks' es' \<and> m' = totalSize es' \<and> byRecency ks' es' = lruFit l n (byRecency ks es)"
  using assms
proof (induction ks arbitrary: es)
  case (Cons k ks)
  note size = byRecency_size [OF Cons.prems(2)]
  have x: "byRecency (k # ks) es = (k, the (map_of es k)) # byRecency ks es" by (simp add: byRecency_def)
  show ?case
  proof (cases "tooFull l n (length es) (totalSize es)")
    case True
    have k: "keyed ks (AList.delete k es)" using keyed_delete [OF Cons.prems(2), of k] by simp
    have "evict l n ks (AList.delete k es) (totalSize (AList.delete k es)) = (ks', es', m')"
      using Cons.prems True by (auto simp: keyed_def totalSize_delete)
    note IH = Cons.IH [OF this k]
    have "lruFit l n (byRecency (k # ks) es) = lruFit l n (byRecency ks es)"
      using True size unfolding x by simp
    also have "byRecency ks es = byRecency ks (AList.delete k es)"
      using Cons.prems(2) by (simp add: keyed_def byRecency_delete)
    finally show ?thesis using IH by simp
  next
    case False
    then have "lruFit l n (byRecency (k # ks) es) = byRecency (k # ks) es" using size unfolding x by simp
    then show ?thesis using Cons.prems False by auto
  qed
qed (simp add: byRecency_def keyed_def)

text \<open>A lookup on the meant list, with the periodic cleaning when it is due.\<close>

definition lruGet :: "nat \<Rightarrow> int \<Rightarrow> string \<Rightarrow> entries \<Rightarrow> response option \<times> entries" where
  "lruGet operations now k xs =
     lruLookup now k (if Suc operations mod cleanupFrequency = 0 then lruClean now xs else xs)"

lemma exact_afterCleanup:
  assumes "exact s"
  shows "exact (afterCleanup now s) \<and> recency (afterCleanup now s)
    = (if Suc (lc_operations s) mod cleanupFrequency = 0 then lruClean now (recency s) else recency s)"
proof -
  have s: "exact (s\<lparr>lc_operations := n\<rparr>)" "recency (s\<lparr>lc_operations := n\<rparr>) = recency s" for n
    using assms by (simp_all add: exact_def recency_def)
  show ?thesis
    using exact_clean [OF s(1), of now "lc_operations s + 1"] s by (simp add: afterCleanup_def Let_def)
qed

lemma exact_get:
  assumes "exact s"
  shows "exact (snd (getCachedResponse now k s))
    \<and> (fst (getCachedResponse now k s), recency (snd (getCachedResponse now k s)))
        = lruGet (lc_operations s) now k (recency s)"
proof -
  let ?a = "afterCleanup now s"
  have a: "exact ?a" "lruGet (lc_operations s) now k (recency s) = lruLookup now k (recency ?a)"
    using exact_afterCleanup [OF assms, of now] by (simp_all add: lruGet_def)
  then have keyed: "keyed (lc_order ?a) (lc_entries ?a)" by (simp add: exact_def)
  have m: "map_of (recency ?a) k = map_of (lc_entries ?a) k"
    unfolding recency_def by (rule map_of_byRecency [OF keyed])
  show ?thesis unfolding a(2)
  proof (cases rule: getCachedResponse_cases [of now s k])
    case miss
    then show "exact (snd (getCachedResponse now k s)) \<and> (fst (getCachedResponse now k s),
        recency (snd (getCachedResponse now k s))) = lruLookup now k (recency ?a)"
      using a m by (simp add: lruLookup_def)
  next
    case (stale r t)
    then show "exact (snd (getCachedResponse now k s)) \<and> (fst (getCachedResponse now k s),
        recency (snd (getCachedResponse now k s))) = lruLookup now k (recency ?a)"
      using a m exact_drop [OF a(1), of k] by (simp add: lruLookup_def expired_def)
  next
    case (hit r t)
    have "k \<in> fst ` set (lc_entries ?a)" using map_of_SomeD [OF hit(1)] by (rule rev_image_eqI) simp
    then have k: "k \<in> set (lc_order ?a)" using keyed by (simp add: keyed_def)
    have "byRecency (remove1 k (lc_order ?a) @ [k]) (lc_entries ?a) = AList.delete k (recency ?a) @ [(k, r, t)]"
      using keyed hit(1) byRecency_drop [of "lc_order ?a" k "lc_entries ?a"]
        byRecency_delete [of k "remove1 k (lc_order ?a)" "lc_entries ?a"]
      by (simp add: keyed_def recency_def byRecency_def)
    moreover have "keyed (remove1 k (lc_order ?a) @ [k]) (lc_entries ?a)"
      using keyed k by (auto simp: keyed_def)
    ultimately show "exact (snd (getCachedResponse now k s)) \<and> (fst (getCachedResponse now k s),
        recency (snd (getCachedResponse now k s))) = lruLookup now k (recency ?a)"
      using hit m a(1) by (simp add: lruLookup_def expired_def exact_def recency_def)
  qed
qed

lemma exact_set:
  assumes "exact s" and "k \<noteq> []" and "k \<notin> fst ` set (lc_entries s)"
  shows "exact (setCachedResponse l now k r s) \<and> recency (setCachedResponse l now k r s) = lruStore l now k r (recency s)"
proof -
  have evict: "keyed ks es \<and> m = totalSize es \<and> byRecency ks es = lruFit l n (recency s)"
    if "evict l n (lc_order s) (lc_entries s) (lc_memory s) = (ks, es, m)" for n ks es m
    using evict_lru that assms(1) unfolding exact_def recency_def by metis
  show ?thesis
proof (cases rule: setCachedResponse_cases [of l r now k s])
  case large
  then show ?thesis using assms(1) by (simp add: lruStore_def)
next
  case (dropped ks es m)
  have e: "keyed ks es" "m = totalSize es" "byRecency ks es = lruFit l (estimateResponseSize r) (recency s)"
    using evict [OF dropped(1)] by blast+
  have "totalSize (lruFit l (estimateResponseSize r) (recency s)) = m"
    using byRecency_size(2) [OF e(1)] e by simp
  then show ?thesis using dropped(2-4) e by (simp add: exact_def recency_def lruStore_def Let_def)
next
  case (stored ks es m)
  have e: "keyed ks es" "m = totalSize es" "byRecency ks es = lruFit l (estimateResponseSize r) (recency s)"
    using evict [OF stored(1)] by blast+
  have total: "totalSize (lruFit l (estimateResponseSize r) (recency s)) = m"
    using byRecency_size(2) [OF e(1)] e by simp
  have k: "k \<notin> fst ` set es" using assms(3) evict_entries [OF stored(1)] by auto
  then have kk: "k \<notin> set ks" using e(1) by (simp add: keyed_def)
  let ?e = "(k, r, now + li_ttl l * 1000)"
  have "keyed (ks @ [k]) (es @ [?e])" using e(1) k kk assms(2) by (auto simp: keyed_def)
  moreover have "byRecency (ks @ [k]) (es @ [?e]) = byRecency ks es @ [?e]"
  proof -
    have "map_of (es @ [?e]) k' = map_of es k'" if "k' \<in> set ks" for k'
      using that kk by (auto simp: map_of_append map_add_def split: option.split)
    moreover have "map_of es k = None" using k by (simp add: map_of_eq_None_iff)
    ultimately show ?thesis by (simp add: byRecency_def map_add_def)
  qed
  moreover have "totalSize (es @ [?e]) = m + estimateResponseSize r" using e(2) by (simp add: totalSize_def)
  ultimately show ?thesis
    using stored e(3) total k by (simp add: exact_def recency_def lruStore_def Let_def update_new)
qed
qed

text \<open>
  C29: The cache is a least-recently-used cache: the map, the order, the byte count
  and the operation counter together behave as one list of entries from the least
  to the most recently used, where a lookup answers and moves its entry to the end
  (or drops it once expired) and a store drops entries from the front until the
  new one fits.  The representation stays exact as long as a key is stored only
  while it is not cached.
\<close>

theorem local_cache_is_lru:
  assumes "exact s" and "k \<noteq> []"
  shows "exact (snd (getCachedResponse now k s))
    \<and> (fst (getCachedResponse now k s), recency (snd (getCachedResponse now k s)))
        = lruGet (lc_operations s) now k (recency s)
    \<and> (k \<notin> fst ` set (lc_entries s) \<longrightarrow> exact (setCachedResponse l now k r s)
        \<and> recency (setCachedResponse l now k r s) = lruStore l now k r (recency s))"
  using exact_get [OF assms(1)] exact_set [OF assms] by blast

text \<open>
  Without that proviso the byte count runs away from what is held: storing a cached
  key again counts it twice, and nothing ever takes the difference back.
\<close>

lemma second_store_leaks:
  assumes "k \<noteq> []" and "li_maxEntries l > 1" and "estimateResponseSize r \<le> li_maxResponse l"
    and "2 * estimateResponseSize r \<le> li_maxMemory l"
  shows "totalSize (lc_entries (cacheRun l [Store t k r, Store t k r])) = estimateResponseSize r
    \<and> lc_memory (cacheRun l [Store t k r, Store t k r]) = 2 * estimateResponseSize r
    \<and> lc_order (cacheRun l [Store t k r, Store t k r]) = [k, k]"
  using assms estimateResponseSize_pos [of r]
  by (simp add: cacheRun_def emptyCache_def setCachedResponse_def tooFull_def)

lemma leak_refuses:
  assumes "lc_entries s = []" and "lc_order s = []" and "li_maxMemory l < lc_memory s + estimateResponseSize r"
  shows "setCachedResponse l now k r s = s"
  using assms by (simp add: setCachedResponse_def Let_def)

end
