(* ===== verification/Proxy_Lock.thy ===== *)
theory Proxy_Lock
  imports Local_Cache Prelude
begin

text \<open>
  The cache that the instances of the API proxy share, and the lock that lets one of
  them fetch while the others wait (\<open>proxy/mysql-cache.mjs\<close>).  A row is the lock and
  the answer of one cache key.  Statements run one after the other; each may also
  fail, which is an argument.  The clock is in milliseconds, \<open>NOW()\<close> and the columns
  are in seconds.
\<close>

section \<open>Rows\<close>

datatype ApiProxyCacheStatus = IN_FLIGHT | COMPLETED

text \<open>\<open>cr_response\<close> is the answer whose JSON text the column holds.\<close>

record cache_row =
  cr_status :: ApiProxyCacheStatus
  cr_response :: "response option"
  cr_expires_at :: int
  cr_locked_at :: int
  cr_lock_token :: string
  cr_created_at :: int
  cr_completed_at :: "int option"

type_synonym proxy_table = "string \<Rightarrow> cache_row option"

definition seconds :: "int \<Rightarrow> int" where
  "seconds ms = ms div 1000"

text \<open>A date that is written to a DATETIME column is rounded to the second.\<close>

definition roundedSeconds :: "int \<Rightarrow> int" where
  "roundedSeconds ms = (ms + 500) div 1000"

definition lockTimeoutSeconds :: int where "lockTimeoutSeconds = 60"

section \<open>The lock\<close>

text \<open>
  \<open>ON DUPLICATE KEY UPDATE\<close> assigns from left to right, and a condition reads the
  columns that were assigned before it.
\<close>

definition whenExpired :: "int \<Rightarrow> (cache_row \<Rightarrow> cache_row) \<Rightarrow> cache_row \<Rightarrow> cache_row" where
  "whenExpired now f r = (if cr_expires_at r < now then f r else r)"

definition stealRow :: "int \<Rightarrow> string \<Rightarrow> cache_row \<Rightarrow> cache_row" where
  "stealRow now token r =
     whenExpired now (\<lambda>r. r\<lparr>cr_locked_at := now\<rparr>)
    (whenExpired now (\<lambda>r. r\<lparr>cr_expires_at := now + lockTimeoutSeconds\<rparr>)
    (whenExpired now (\<lambda>r. r\<lparr>cr_status := IN_FLIGHT\<rparr>)
    (whenExpired now (\<lambda>r. r\<lparr>cr_lock_token := token\<rparr>) r)))"

definition lockRow :: "int \<Rightarrow> string \<Rightarrow> cache_row option \<Rightarrow> cache_row" where
  "lockRow now token row = (case row of
      None \<Rightarrow> \<lparr>cr_status = IN_FLIGHT, cr_response = None, cr_expires_at = now + lockTimeoutSeconds,
        cr_locked_at = now, cr_lock_token = token, cr_created_at = now, cr_completed_at = None\<rparr>
    | Some r \<Rightarrow> stealRow now token r)"

datatype db_error = Db_Error string string

definition isRetryableError :: "db_error \<Rightarrow> bool" where
  "isRetryableError e = (case e of Db_Error code message \<Rightarrow>
     code \<in> {''ER_CON_COUNT_ERROR'', ''ECONNREFUSED'', ''ETIMEDOUT'', ''PROTOCOL_CONNECTION_LOST'',
             ''PROTOCOL_ENQUEUE_AFTER_QUIT''}
     \<or> includesText message ''Too many connections'' \<or> includesText message ''Connection lost'')"

datatype lock_result = No_Lock | Acquired string | Held

text \<open>One attempt: the time, the token, and what becomes of its two statements.\<close>

record lock_attempt =
  la_now :: int
  la_token :: string
  la_insert :: "db_error option"
  la_select :: "db_error option"

definition attemptLock :: "lock_attempt \<Rightarrow> string \<Rightarrow> proxy_table \<Rightarrow> (db_error, lock_result) res \<times> proxy_table" where
  "attemptLock a k t = (case la_insert a of
      Some e \<Rightarrow> (Inl e, t)
    | None \<Rightarrow>
        (let row = lockRow (seconds (la_now a)) (la_token a) (t k); t' = t(k \<mapsto> row) in
         case la_select a of
           Some e \<Rightarrow> (Inl e, t')
         | None \<Rightarrow> (Inr (if cr_lock_token row = la_token a then Acquired (la_token a) else Held), t')))"

text \<open>\<open>acquireCacheLock\<close>, with the attempt that is made once more after a connection error.\<close>

definition acquireCacheLock ::
  "bool \<Rightarrow> lock_attempt \<Rightarrow> lock_attempt \<Rightarrow> string \<Rightarrow> proxy_table \<Rightarrow> lock_result \<times> proxy_table" where
  "acquireCacheLock configured a1 a2 k t =
    (if \<not> configured then (No_Lock, t)
     else (case attemptLock a1 k t of
         (Inr r, t1) \<Rightarrow> (r, t1)
       | (Inl e, t1) \<Rightarrow>
           if isRetryableError e
           then (case attemptLock a2 k t1 of (Inr r, t2) \<Rightarrow> (r, t2) | (Inl e', t2) \<Rightarrow> (No_Lock, t2))
           else (No_Lock, t1)))"

section \<open>The answers\<close>

definition completeRow :: "int \<Rightarrow> int \<Rightarrow> response \<Rightarrow> cache_row \<Rightarrow> cache_row" where
  "completeRow now ttl r row = row\<lparr>cr_status := COMPLETED, cr_response := Some r,
     cr_expires_at := roundedSeconds (now + ttl * 1000), cr_completed_at := Some (seconds now)\<rparr>"

text \<open>An error of the statement is only logged.\<close>

definition storeResultInMysql ::
  "bool \<Rightarrow> db_error option \<Rightarrow> int \<Rightarrow> int \<Rightarrow> string \<Rightarrow> response \<Rightarrow> string \<Rightarrow> proxy_table \<Rightarrow> proxy_table" where
  "storeResultInMysql configured err now ttl k r token t =
    (if \<not> configured \<or> err \<noteq> None then t
     else (case t k of
         None \<Rightarrow> t
       | Some row \<Rightarrow> if cr_lock_token row = token then t(k \<mapsto> completeRow now ttl r row) else t))"

definition getResultFromMysql :: "bool \<Rightarrow> db_error option \<Rightarrow> int \<Rightarrow> string \<Rightarrow> proxy_table \<Rightarrow> response option" where
  "getResultFromMysql configured err now k t =
    (if \<not> configured \<or> err \<noteq> None then None
     else (case t k of
         None \<Rightarrow> None
       | Some row \<Rightarrow> if cr_status row = COMPLETED \<and> cr_expires_at row > seconds now then cr_response row else None))"

definition cleanupInFlightEntry :: "bool \<Rightarrow> db_error option \<Rightarrow> string \<Rightarrow> string \<Rightarrow> proxy_table \<Rightarrow> proxy_table" where
  "cleanupInFlightEntry configured err k token t =
    (if \<not> configured \<or> err \<noteq> None then t
     else (case t k of
         None \<Rightarrow> t
       | Some row \<Rightarrow> if cr_lock_token row = token then t(k := None) else t))"

section \<open>Waiting\<close>

text \<open>
  The wait of those that did not get the lock.  \<open>we_shared\<close> and \<open>we_local\<close> are what the
  two caches answer at a time, \<open>we_random\<close> the random numbers below 1 and \<open>we_late\<close>
  how much longer than asked a timer took; \<open>setTimeout\<close> cuts its delay to whole
  milliseconds and waits at least one.
\<close>

record wait_env =
  we_shared :: "int \<Rightarrow> response option"
  we_local :: "int \<Rightarrow> response option"
  we_random :: "nat \<Rightarrow> rat"
  we_late :: "nat \<Rightarrow> nat"

definition we_poll :: "wait_env \<Rightarrow> int \<Rightarrow> response option" where
  "we_poll e t = (case we_shared e t of Some r \<Rightarrow> Some r | None \<Rightarrow> we_local e t)"

definition maxWaitTime :: int where "maxWaitTime = 5000"
definition maxPollInterval :: rat where "maxPollInterval = 1000"
definition initialDelay :: int where "initialDelay = 500"

definition timerDelay :: "rat \<Rightarrow> int" where
  "timerDelay d = max 1 \<lfloor>d\<rfloor>"

definition pollDelay :: "rat \<Rightarrow> rat \<Rightarrow> int" where
  "pollDelay interval random = timerDelay (interval + interval * (1/5) * (random * 2 - 1))"

function waitLoop :: "wait_env \<Rightarrow> int \<Rightarrow> nat \<Rightarrow> rat \<Rightarrow> (string, response) res \<times> int \<times> nat" where
  "waitLoop e elapsed n interval =
    (if elapsed < maxWaitTime
     then (case we_poll e elapsed of
         Some r \<Rightarrow> (Inr r, elapsed, Suc n)
       | None \<Rightarrow> waitLoop e (elapsed + pollDelay interval (we_random e n) + int (we_late e n)) (Suc n)
                   (min (interval * (3/2)) maxPollInterval))
     else (Inl ''Timeout waiting for in-flight request to complete'', elapsed, n))"
  by pat_completeness auto
termination
  by (relation "measure (\<lambda>(e, elapsed, n, interval). nat (maxWaitTime - elapsed))")
    (auto simp: pollDelay_def timerDelay_def)

declare waitLoop.simps [simp del]

text \<open>The answer, the time it took, and the number of polls.\<close>

definition waitForInFlightRequest :: "wait_env \<Rightarrow> nat \<Rightarrow> (string, response) res \<times> int \<times> nat" where
  "waitForInFlightRequest e late = waitLoop e (initialDelay + int late) 0 200"

text \<open>How one turn of the loop can go on.\<close>

lemma waitLoop_cases:
  assumes "waitLoop e elapsed n interval = (r, stop, polls)"
  obtains (timeout) "maxWaitTime \<le> elapsed" "r = Inl ''Timeout waiting for in-flight request to complete''"
      "stop = elapsed" "polls = n"
  | (answer) x where "elapsed < maxWaitTime" "we_poll e elapsed = Some x" "r = Inr x" "stop = elapsed" "polls = Suc n"
  | (again) "elapsed < maxWaitTime" "we_poll e elapsed = None"
      "waitLoop e (elapsed + pollDelay interval (we_random e n) + int (we_late e n)) (Suc n)
         (min (interval * (3/2)) maxPollInterval) = (r, stop, polls)"
  using assms waitLoop.simps [of e elapsed n interval]
  by (cases "elapsed < maxWaitTime"; cases "we_poll e elapsed") auto

lemma pollDelay_ge:
  assumes "0 \<le> random" and "0 \<le> interval"
  shows "\<lfloor>interval * (4/5)\<rfloor> \<le> pollDelay interval random"
proof -
  have "0 \<le> interval * random" using assms by simp
  then have "interval * (4/5) \<le> interval + interval * (1/5) * (random * 2 - 1)" by (simp add: algebra_simps)
  then have "\<lfloor>interval * (4/5)\<rfloor> \<le> \<lfloor>interval + interval * (1/5) * (random * 2 - 1)\<rfloor>" by (rule floor_mono)
  then show ?thesis by (simp add: pollDelay_def timerDelay_def)
qed

text \<open>The polls that are left once the interval has reached its cap, and on the way there.\<close>

lemma capped_polls:
  assumes "waitLoop e elapsed n 1000 = (r, stop, polls)" and "\<forall>i. 0 \<le> we_random e i"
    and "maxWaitTime - 800 * int j \<le> elapsed"
  shows "polls \<le> n + j"
  using assms
proof (induction j arbitrary: elapsed n)
  case 0
  from 0(1) show ?case
    by (cases rule: waitLoop_cases) (use 0 in \<open>simp_all\<close>)
next
  case (Suc j)
  from Suc.prems(1) show ?case
  proof (cases rule: waitLoop_cases)
    case again
    have "800 \<le> pollDelay 1000 (we_random e n)" using pollDelay_ge [of "we_random e n" 1000] Suc.prems(2) by simp
    then show ?thesis using Suc.IH [OF _ Suc.prems(2)] again(3) Suc.prems(3) by (fastforce simp: maxPollInterval_def)
  qed simp_all
qed

lemma growing_polls:
  assumes "waitLoop e elapsed n interval = (r, stop, polls)" and "\<forall>i. 0 \<le> we_random e i" and "0 \<le> interval"
    and "\<And>elapsed' n'. elapsed + \<lfloor>interval * (4/5)\<rfloor> \<le> elapsed' \<Longrightarrow>
       waitLoop e elapsed' n' (min (interval * (3/2)) maxPollInterval) = (r, stop, polls) \<Longrightarrow> polls \<le> n' + k"
  shows "polls \<le> n + Suc k"
  using assms(1)
proof (cases rule: waitLoop_cases)
  case again
  have "\<lfloor>interval * (4/5)\<rfloor> \<le> pollDelay interval (we_random e n)"
    using pollDelay_ge assms(2,3) by blast
  then show ?thesis using assms(4) [OF _ again(3)] by simp
qed simp_all

lemma wait_polls:
  assumes "waitLoop e elapsed n 200 = (r, stop, polls)" and "\<forall>i. 0 \<le> we_random e i" and "500 \<le> elapsed"
  shows "polls \<le> n + 8"
proof -
  note grow = growing_polls [OF _ assms(2), of _ _ _ r stop polls]
  have p1: "polls \<le> n + 5" if "waitLoop e elapsed n 675 = (r, stop, polls)" "1260 \<le> elapsed" for elapsed n
    using grow [OF that(1), of 4] capped_polls [OF _ assms(2), of _ _ r stop polls 4] that(2)
    by (simp add: maxPollInterval_def maxWaitTime_def)
  have p2: "polls \<le> n + 6" if "waitLoop e elapsed n 450 = (r, stop, polls)" "900 \<le> elapsed" for elapsed n
    using grow [OF that(1), of 5] p1 that(2) by (simp add: maxPollInterval_def)
  have p3: "polls \<le> n + 7" if "waitLoop e elapsed n 300 = (r, stop, polls)" "660 \<le> elapsed" for elapsed n
    using grow [OF that(1), of 6] p2 that(2) by (simp add: maxPollInterval_def)
  show ?thesis using grow [OF assms(1), of 7] p3 assms(3) by (simp add: maxPollInterval_def)
qed

lemma wait_result:
  assumes "waitLoop e elapsed n interval = (r, stop, polls)"
  shows "case r of Inr x \<Rightarrow> stop < maxWaitTime \<and> we_poll e stop = Some x | Inl m \<Rightarrow> maxWaitTime \<le> stop"
  using assms
proof (induction e elapsed n interval rule: waitLoop.induct)
  case (1 e elapsed n interval)
  from 1(2) show ?case
  proof (cases rule: waitLoop_cases)
    case again
    then show ?thesis using 1(1) by blast
  qed simp_all
qed

lemma pollDelay_le:
  assumes "random \<le> 1" and "0 \<le> interval" and "interval \<le> 1000"
  shows "pollDelay interval random \<le> 1200"
proof -
  have "interval * random \<le> interval" using assms mult_left_le by blast
  then have "interval + interval * (1/5) * (random * 2 - 1) \<le> 1200" using assms by (simp add: algebra_simps)
  then have "\<lfloor>interval + interval * (1/5) * (random * 2 - 1)\<rfloor> \<le> \<lfloor>1200 :: rat\<rfloor>" by (rule floor_mono)
  then show ?thesis by (simp add: pollDelay_def timerDelay_def)
qed

lemma wait_time:
  assumes "waitLoop e elapsed n interval = (r, stop, polls)" and "\<forall>i. we_random e i \<le> 1" and "\<forall>i. int (we_late e i) \<le> d"
    and "0 \<le> interval" and "interval \<le> 1000" and "elapsed \<le> 6200 + d"
  shows "stop \<le> 6200 + d"
  using assms
proof (induction e elapsed n interval rule: waitLoop.induct)
  case (1 e elapsed n interval)
  from 1(2) show ?case
  proof (cases rule: waitLoop_cases)
    case again
    have "pollDelay interval (we_random e n) \<le> 1200" "int (we_late e n) \<le> d"
      using pollDelay_le 1(3-6) by blast+
    then have "elapsed + pollDelay interval (we_random e n) + int (we_late e n) \<le> 6200 + d"
      using again(1) by (simp add: maxWaitTime_def)
    then show ?thesis using 1(1) [OF again(1,2,3)] 1(3-5) by (simp add: maxPollInterval_def)
  qed (use 1(7) in simp_all)
qed


section \<open>The lock over time\<close>

text \<open>
  One cache key: the clock, its row, the instances that hold the lock (token and
  second of acquisition), and the answers that were stored with their times.  An
  instance that acquired the lock stores its answer, gives the lock back, or
  vanishes; any statement may fail.
\<close>

record lock_system =
  ls_now :: int
  ls_row :: "cache_row option"
  ls_holders :: "(string \<times> int) list"
  ls_stored :: "(response \<times> int) list"

definition tableOf :: "cache_row option \<Rightarrow> proxy_table" where
  "tableOf row = (\<lambda>k. row)"

definition takeLock :: "string \<Rightarrow> (db_error, lock_result) res \<Rightarrow> lock_system \<Rightarrow> lock_system" where
  "takeLock token r s = (if r = Inr (Acquired token)
     then s\<lparr>ls_holders := (token, seconds (ls_now s)) # ls_holders s\<rparr> else s)"

inductive lock_step :: "int \<Rightarrow> string \<Rightarrow> lock_system \<Rightarrow> lock_system \<Rightarrow> bool" for ttl :: int and k :: string where
  attempt: "token \<notin> fst ` set (ls_holders s) \<Longrightarrow> (\<forall>row. ls_row s = Some row \<longrightarrow> cr_lock_token row \<noteq> token) \<Longrightarrow>
    attemptLock \<lparr>la_now = ls_now s, la_token = token, la_insert = e, la_select = e'\<rparr> k (tableOf (ls_row s)) = (r, t) \<Longrightarrow>
    lock_step ttl k s ((takeLock token r s)\<lparr>ls_row := t k\<rparr>)"
| store: "ls_holders s = xs @ (token, since) # ys \<Longrightarrow>
    lock_step ttl k s (s\<lparr>ls_row := storeResultInMysql True e (ls_now s) ttl k r token (tableOf (ls_row s)) k,
      ls_holders := xs @ ys, ls_stored := (r, ls_now s) # ls_stored s\<rparr>)"
| cleanup: "ls_holders s = xs @ (token, since) # ys \<Longrightarrow>
    lock_step ttl k s (s\<lparr>ls_row := cleanupInFlightEntry True e k token (tableOf (ls_row s)) k,
      ls_holders := xs @ ys\<rparr>)"
| vanish: "ls_holders s = xs @ h # ys \<Longrightarrow> lock_step ttl k s (s\<lparr>ls_holders := xs @ ys\<rparr>)"
| tick: "ls_now s \<le> now \<Longrightarrow> lock_step ttl k s (s\<lparr>ls_now := now\<rparr>)"

text \<open>The lock of a holder is in force, and the row says so.\<close>

definition inForce :: "int \<Rightarrow> string \<times> int \<Rightarrow> bool" where
  "inForce now h \<longleftrightarrow> seconds now \<le> snd h + lockTimeoutSeconds"

definition lockedBy :: "cache_row option \<Rightarrow> string \<times> int \<Rightarrow> bool" where
  "lockedBy row h \<longleftrightarrow> (\<exists>r. row = Some r \<and> cr_lock_token r = fst h \<and> cr_expires_at r = snd h + lockTimeoutSeconds)"

definition apart :: "string \<times> int \<Rightarrow> string \<times> int \<Rightarrow> bool" where
  "apart h h' \<longleftrightarrow> snd h + lockTimeoutSeconds < snd h' \<or> snd h' + lockTimeoutSeconds < snd h"

definition answered :: "int \<Rightarrow> (response \<times> int) list \<Rightarrow> cache_row option \<Rightarrow> bool" where
  "answered ttl stored row \<longleftrightarrow> (\<forall>r. row = Some r \<longrightarrow> cr_status r = COMPLETED \<longrightarrow>
     (\<exists>(x, t) \<in> set stored. cr_response r = Some x \<and> cr_expires_at r = roundedSeconds (t + ttl * 1000)))"

definition lockOk :: "int \<Rightarrow> lock_system \<Rightarrow> bool" where
  "lockOk ttl s \<longleftrightarrow> distinct (map fst (ls_holders s)) \<and> (\<forall>h \<in> set (ls_holders s). snd h \<le> seconds (ls_now s))
     \<and> (\<forall>h \<in> set (ls_holders s). inForce (ls_now s) h \<longrightarrow> lockedBy (ls_row s) h)
     \<and> (\<forall>h \<in> set (ls_holders s). \<forall>h' \<in> set (ls_holders s). h \<noteq> h' \<longrightarrow> apart h h')
     \<and> answered ttl (ls_stored s) (ls_row s)"

text \<open>A row in force keeps its lock; taking the lock leaves a row in force from now on.\<close>

lemma stealRow_simps:
  "now \<le> cr_expires_at r \<Longrightarrow> stealRow now token r = r"
  "cr_expires_at r < now \<Longrightarrow> stealRow now token r
     = r\<lparr>cr_lock_token := token, cr_status := IN_FLIGHT, cr_expires_at := now + lockTimeoutSeconds\<rparr>"
  by (simp_all add: stealRow_def whenExpired_def lockTimeoutSeconds_def)

lemma attemptLock_cases:
  assumes "attemptLock \<lparr>la_now = now, la_token = token, la_insert = e, la_select = e'\<rparr> k t = (r, t')"
    and "\<forall>row. t k = Some row \<longrightarrow> cr_lock_token row \<noteq> token"
  obtains (unchanged) "t' k = t k" "r \<noteq> Inr (Acquired token)"
  | (taken) row where "t' k = Some row" "cr_status row = IN_FLIGHT" "cr_lock_token row = token"
      "cr_expires_at row = seconds now + lockTimeoutSeconds"
      "\<forall>old. t k = Some old \<longrightarrow> cr_expires_at old < seconds now"
proof (cases e)
  case (Some x)
  then have "t = t'" "r = Inl x" using assms(1) by (simp_all add: attemptLock_def)
  then show thesis using unchanged by simp
next
  case None
  then have t': "t' k = Some (lockRow (seconds now) token (t k))"
    and r: "r = Inr (Acquired token) \<Longrightarrow> cr_lock_token (lockRow (seconds now) token (t k)) = token"
    using assms(1) by (auto simp: attemptLock_def Let_def split: option.splits if_splits)
  show thesis
  proof (cases "t k")
    case None
    then show thesis using taken t' by (simp add: lockRow_def)
  next
    case (Some old)
    show thesis
    proof (cases "cr_expires_at old < seconds now")
      case True
      then show thesis using taken t' Some by (simp add: lockRow_def stealRow_simps)
    next
      case False
      then have old: "lockRow (seconds now) token (t k) = old" using Some by (simp add: lockRow_def stealRow_simps)
      then have "r \<noteq> Inr (Acquired token)" using r Some assms(2) by auto
      then show thesis using unchanged t' old Some by simp
    qed
  qed
qed

lemma lockOk_attempt:
  assumes "lockOk ttl s" and "token \<notin> fst ` set (ls_holders s)"
    and "\<forall>row. ls_row s = Some row \<longrightarrow> cr_lock_token row \<noteq> token"
    and "attemptLock \<lparr>la_now = ls_now s, la_token = token, la_insert = e, la_select = e'\<rparr> k (tableOf (ls_row s)) = (r, t)"
  shows "lockOk ttl ((takeLock token r s)\<lparr>ls_row := t k\<rparr>)"
proof -
  have "\<forall>row. tableOf (ls_row s) k = Some row \<longrightarrow> cr_lock_token row \<noteq> token" using assms(3) by (simp add: tableOf_def)
  from assms(4) this show ?thesis
  proof (cases rule: attemptLock_cases)
    case unchanged
    then show ?thesis using assms(1) by (simp add: takeLock_def tableOf_def)
  next
    case (taken row)
    have over: "\<not> inForce (ls_now s) h" if "h \<in> set (ls_holders s)" for h
    proof
      assume "inForce (ls_now s) h"
      then have "lockedBy (ls_row s) h" using that assms(1) by (simp add: lockOk_def)
      then show False using taken(5) \<open>inForce (ls_now s) h\<close>
        by (auto simp: lockedBy_def inForce_def tableOf_def)
    qed
    have ans: "answered ttl (ls_stored s) (t k)" using taken(1,2) by (simp add: answered_def)
    show ?thesis
    proof (cases "r = Inr (Acquired token)")
      case True
      have "lockedBy (t k) (token, seconds (ls_now s))" using taken by (simp add: lockedBy_def)
      moreover have "apart h (token, seconds (ls_now s)) \<and> apart (token, seconds (ls_now s)) h"
        if "h \<in> set (ls_holders s)" for h
        using over [OF that] by (simp add: apart_def inForce_def)
      ultimately show ?thesis using assms(1,2) over ans True by (auto simp: lockOk_def takeLock_def)
    next
      case False
      then show ?thesis using assms(1) over ans by (simp add: lockOk_def takeLock_def)
    qed
  qed
qed

lemma lockOk_fewer:
  assumes "lockOk ttl s" and "ls_holders s = xs @ h # ys"
    and "\<forall>h' \<in> set (xs @ ys). lockedBy (ls_row s) h' \<longrightarrow> lockedBy row h'" and "answered ttl stored row"
  shows "lockOk ttl (s\<lparr>ls_row := row, ls_holders := xs @ ys, ls_stored := stored\<rparr>)"
  using assms by (simp add: lockOk_def ball_Un)

lemma lockedBy_other:
  assumes "lockOk ttl s" and "ls_holders s = xs @ (token, since) # ys" and "h' \<in> set (xs @ ys)" and "lockedBy (ls_row s) h'"
  shows "\<exists>row. ls_row s = Some row \<and> cr_lock_token row \<noteq> token"
proof -
  have "fst h' \<noteq> token" using assms(1-3) by (auto simp: lockOk_def image_iff)
  then show ?thesis using assms(4) by (auto simp: lockedBy_def)
qed

lemma lockOk_step:
  assumes "lock_step ttl k s s'" and "lockOk ttl s"
  shows "lockOk ttl s'"
  using assms(1)
proof cases
  case (attempt token e e' r t)
  then show ?thesis using lockOk_attempt assms(2) by simp
next
  case (store xs token since ys r e)
  let ?row = "storeResultInMysql True e (ls_now s) ttl k r token (tableOf (ls_row s)) k"
  have "lockedBy ?row h'" if "h' \<in> set (xs @ ys)" "lockedBy (ls_row s) h'" for h'
    using lockedBy_other [OF assms(2) store(2) that] that(2)
    by (auto simp: storeResultInMysql_def tableOf_def)
  moreover have "answered ttl ((r, ls_now s) # ls_stored s) ?row"
    using assms(2)
    by (auto simp: storeResultInMysql_def tableOf_def completeRow_def lockOk_def answered_def split: option.split)
  ultimately show ?thesis using lockOk_fewer [OF assms(2) store(2)] store(1) by simp
next
  case (cleanup xs token since ys e)
  let ?row = "cleanupInFlightEntry True e k token (tableOf (ls_row s)) k"
  have "lockedBy ?row h'" if "h' \<in> set (xs @ ys)" "lockedBy (ls_row s) h'" for h'
    using lockedBy_other [OF assms(2) cleanup(2) that] that(2)
    by (auto simp: cleanupInFlightEntry_def tableOf_def)
  moreover have "answered ttl (ls_stored s) ?row"
    using assms(2) by (auto simp: cleanupInFlightEntry_def tableOf_def lockOk_def answered_def split: option.split)
  ultimately show ?thesis using lockOk_fewer [OF assms(2) cleanup(2), of ?row "ls_stored s"] cleanup(1) by simp
next
  case (vanish xs h ys)
  then show ?thesis
    using lockOk_fewer [OF assms(2) vanish(2), of "ls_row s" "ls_stored s"] assms(2) by (simp add: lockOk_def)
next
  case (tick now)
  have "seconds (ls_now s) \<le> seconds now" using tick(2) by (simp add: seconds_def zdiv_mono1)
  then show ?thesis using assms(2) tick(1) by (auto simp: lockOk_def inForce_def)
qed

text \<open>
  C21: One fetch at a time, and no stale answers: over any interleaving of attempts,
  stored answers, failures, crashes and failing statements, two instances hold the
  lock of a key at once only if one took it more than 60 seconds before the other,
  and an answer that the shared cache gives was stored under the lock less than
  the time to live (and half a second of rounding) ago.
\<close>

theorem shared_cache_protocol:
  assumes "(lock_step ttl k)\<^sup>*\<^sup>* s s'" and "ls_row s = None" and "ls_holders s = []" and "ls_stored s = []"
  shows "distinct (map fst (ls_holders s'))
    \<and> (\<forall>h \<in> set (ls_holders s'). \<forall>h' \<in> set (ls_holders s'). h \<noteq> h' \<longrightarrow> snd h + 60 < snd h' \<or> snd h' + 60 < snd h)
    \<and> (\<forall>r. getResultFromMysql True None (ls_now s') k (tableOf (ls_row s')) = Some r
         \<longrightarrow> (\<exists>t. (r, t) \<in> set (ls_stored s') \<and> ls_now s' < t + ttl * 1000 + 500))"
proof -
  have ok: "lockOk ttl s'"
    using assms(1)
  proof induction
    case base
    show ?case using assms(2-4) by (simp add: lockOk_def answered_def)
  qed (rule lockOk_step)
  have "\<exists>t. (r, t) \<in> set (ls_stored s') \<and> ls_now s' < t + ttl * 1000 + 500"
    if "getResultFromMysql True None (ls_now s') k (tableOf (ls_row s')) = Some r" for r
  proof -
    note hit = that
    obtain row where row: "ls_row s' = Some row" "cr_status row = COMPLETED" "seconds (ls_now s') < cr_expires_at row"
        "cr_response row = Some r"
      using hit by (cases "ls_row s'") (auto simp: getResultFromMysql_def tableOf_def split: if_splits)
    then obtain t where t: "(r, t) \<in> set (ls_stored s')" "cr_expires_at row = roundedSeconds (t + ttl * 1000)"
      using ok by (auto simp: lockOk_def answered_def)
    then have "ls_now s' div 1000 < (t + ttl * 1000 + 500) div 1000"
      using row(3) by (simp add: seconds_def roundedSeconds_def)
    then have "ls_now s' < t + ttl * 1000 + 500" by linarith
    then show ?thesis using t(1) by blast
  qed
  then show ?thesis using ok by (simp add: lockOk_def apart_def lockTimeoutSeconds_def)
qed

text \<open>
  \<open>locked_at\<close> keeps the time of the first lock: when a lock is stolen, its condition
  reads the \<open>expires_at\<close> that the assignment before it has just moved ahead.
\<close>

lemma stolen_lock_keeps_time: "cr_locked_at (stealRow now token r) = cr_locked_at r"
  by (cases "cr_expires_at r < now") (simp_all add: stealRow_simps)

end
