(* ===== verification/Api_Proxy.thy ===== *)
theory Api_Proxy
  imports Proxy_Lock Types_Config
begin

text \<open>
  The API proxy (\<open>proxy/api-proxy.mjs\<close>): who may call it, which API a path means,
  and a GET request's way through the local cache, the shared cache, the lock and
  the wait to the API itself.  The key store, URLs, the hash and the APIs are
  parameters.
\<close>

section \<open>Who may call\<close>

text \<open>The decrypted keys: an old object of keys by name, or an array of entries.\<close>

datatype api_keys = Key_Object "(string \<times> string) list" | Key_Array "string option list"

record keys_cache =
  kc_keys :: "api_keys option"
  kc_time :: int

definition apiKeysCacheTtl :: int where "apiKeysCacheTtl = 5 * 60 * 1000"

text \<open>Any failure to load falls back to no keys, and leaves what was cached.\<close>

definition loadApiKeysFromS3 ::
  "bool \<Rightarrow> (exn, api_keys) res \<Rightarrow> int \<Rightarrow> keys_cache \<Rightarrow> api_keys option \<times> keys_cache" where
  "loadApiKeysFromS3 bucket loaded now c =
    (if kc_keys c \<noteq> None \<and> now - kc_time c < apiKeysCacheTtl then (kc_keys c, c)
     else if \<not> bucket then (None, c)
     else (case loaded of
         Inl e \<Rightarrow> (None, c)
       | Inr ks \<Rightarrow> (Some ks, \<lparr>kc_keys = Some ks, kc_time = now\<rparr>)))"

fun keyValues :: "api_keys \<Rightarrow> string list" where
  "keyValues (Key_Object kvs) = map snd kvs"
| "keyValues (Key_Array es) = concat (map (\<lambda>e. case e of None \<Rightarrow> [] | Some k \<Rightarrow> if k = [] then [] else [k]) es)"

definition verifyApiKey :: "string \<Rightarrow> string \<Rightarrow> api_keys option \<Rightarrow> bool" where
  "verifyApiKey envKey provided keys =
    (if provided = [] then False
     else (case keys of
         None \<Rightarrow> envKey \<noteq> [] \<and> provided = envKey
       | Some ks \<Rightarrow> provided \<in> set (keyValues ks)))"

section \<open>Which API\<close>

text \<open>An own property \<open>__proto__\<close> cannot be made by assigning a text.\<close>

definition addMapping :: "string \<Rightarrow> (string \<times> string) list \<Rightarrow> (string \<times> string) list" where
  "addMapping mapping ms = (case splitOn CHR '':'' (trim mapping) of
      name # host # rest \<Rightarrow> if name \<noteq> [] \<and> host \<noteq> [] \<and> name \<noteq> ''__proto__'' then AList.update name host ms else ms
    | _ \<Rightarrow> ms)"

definition parseApiMappings :: "string \<Rightarrow> (string \<times> string) list" where
  "parseApiMappings s = (if s = [] then [] else fold addMapping (splitOn CHR '','' s) [])"

definition pathParts :: "string \<Rightarrow> string list" where
  "pathParts path = filter (\<lambda>p. p \<noteq> []) (splitOn CHR ''/'' path)"

definition apiPath :: "string list \<Rightarrow> string" where
  "apiPath parts = ''/'' @ joinWith ''/'' (tl parts)"

section \<open>Requests\<close>

record proxy_event =
  ev_apiKeyHeader :: string
  ev_apiKeyHeader2 :: string
  ev_query :: "(string \<times> string) list"
  ev_rawPath :: string
  ev_method :: string
  ev_body :: string

definition providedKey :: "proxy_event \<Rightarrow> string" where
  "providedKey ev = (if ev_apiKeyHeader ev \<noteq> [] then ev_apiKeyHeader ev
     else if ev_apiKeyHeader2 ev \<noteq> [] then ev_apiKeyHeader2 ev
     else (case map_of (ev_query ev) ''api_key'' of None \<Rightarrow> [] | Some k \<Rightarrow> k))"

text \<open>
  The environment of an instance.  \<open>pe_newUrl\<close> answers the address of a path at a
  host without its query, \<open>pe_fullUrl\<close> adds the query.
\<close>

record proxy_env =
  pe_mappings :: string
  pe_proxyKey :: string
  pe_rapidKey :: string
  pe_pandascoreKey :: string
  pe_bucket :: bool
  pe_limits :: cache_limits
  pe_mysql :: bool
  pe_newUrl :: "string \<Rightarrow> string \<Rightarrow> (exn, string) res"
  pe_fullUrl :: "string \<Rightarrow> (string \<times> string) list \<Rightarrow> string"
  pe_hash :: "string \<Rightarrow> string"
  pe_loadJson :: "string \<Rightarrow> (exn, string) res"

definition jsonObject :: "(string \<times> string) list \<Rightarrow> string" where
  "jsonObject kvs = ''{'' @ joinWith '','' (map (\<lambda>(k, v). jsonString k @ '':'' @ jsonString v) kvs) @ ''}''"

definition generateCacheKey :: "(string \<Rightarrow> string) \<Rightarrow> string \<Rightarrow> string \<Rightarrow> (string \<times> string) list \<Rightarrow> string" where
  "generateCacheKey hash httpMethod url query = hash (httpMethod @ '':'' @ url @ '':'' @ jsonObject query)"

definition requestHeaders :: "proxy_env \<Rightarrow> string \<Rightarrow> (string, (string \<times> string) list) res" where
  "requestHeaders e host =
    (let base = [(''User-Agent'', ''Ignite-Market-Proxy/1.0'')] in
     if includesText host ''rapidapi.com''
     then (if pe_rapidKey e = [] then Inl ''RAPID_API_KEY not configured in environment''
           else Inr (base @ [(''x-rapidapi-host'', host), (''x-rapidapi-key'', pe_rapidKey e)]))
     else if includesText host ''pandascore.co''
     then (if pe_pandascoreKey e = [] then Inl ''PANDASCORE_API_KEY not configured in environment''
           else Inr (base @ [(''Authorization'', ''Bearer '' @ pe_pandascoreKey e)]))
     else Inr base)"

record upstream =
  up_url :: string
  up_method :: string
  up_headers :: "(string \<times> string) list"
  up_body :: string

text \<open>An error answer; its further texts are left out.\<close>

definition failure :: "int \<Rightarrow> string \<Rightarrow> response" where
  "failure code message = \<lparr>pr_statusCode = code, pr_body = jsonObject [(''error'', message)]\<rparr>"

text \<open>
  What a request is answered without calling an API, or the call that answers it
  and the key it is cached under.  An API named like an inherited property finds
  something that is not a text and throws.
\<close>

datatype plan = Answer response | Call upstream string

definition planCall :: "proxy_env \<Rightarrow> proxy_event \<Rightarrow> string \<Rightarrow> string list \<Rightarrow> (exn, plan) res" where
  "planCall e ev host parts = (case requestHeaders e host of
      Inl message \<Rightarrow> Inr (Answer (failure 500 message))
    | Inr headers \<Rightarrow> bindR (pe_newUrl e (apiPath parts) host) (\<lambda>base.
        Inr (Call \<lparr>up_url = pe_fullUrl e base (ev_query ev), up_method = ev_method ev,
             up_headers = headers @ (if ev_method ev \<noteq> ''GET'' \<and> ev_body ev \<noteq> []
                 \<and> ev_method ev \<in> {''POST'', ''PUT'', ''PATCH''} then [(''Content-Type'', ''application/json'')] else []),
             up_body = ev_body ev\<rparr>
           (generateCacheKey (pe_hash e) (ev_method ev) base (ev_query ev)))))"

definition planRequest :: "proxy_env \<Rightarrow> api_keys option \<Rightarrow> proxy_event \<Rightarrow> (exn, plan) res" where
  "planRequest e keys ev =
    (if \<not> verifyApiKey (pe_proxyKey e) (providedKey ev) keys then Inr (Answer (failure 401 ''Unauthorized''))
     else (case pathParts (ev_rawPath ev) of
         [] \<Rightarrow> Inr (Answer (failure 400 ''Invalid path. Use format: /{apiName}/{path}''))
       | name # rest \<Rightarrow>
           if name = ''dummy''
           then (let key = ''dummy/'' @ (case map_of (ev_query ev) ''s3_key'' of
                     None \<Rightarrow> joinWith ''/'' rest | Some k \<Rightarrow> if k = [] then joinWith ''/'' rest else k)
                 in Inr (Answer (case pe_loadJson e key of
                     Inl x \<Rightarrow> failure 404 ''Dummy data not found''
                   | Inr json \<Rightarrow> \<lparr>pr_statusCode = 200, pr_body = json\<rparr>)))
           else (case map_of (parseApiMappings (pe_mappings e)) name of
               Some host \<Rightarrow> planCall e ev host (name # rest)
             | None \<Rightarrow> if name \<in> set inheritedNames then Inl (JsError ''TypeError'')
                       else Inr (Answer (failure 400 (''Unknown API: '' @ name))))))"

section \<open>A GET request\<close>

text \<open>An instance's cache beside the table that all share.\<close>

record proxy_state =
  px_local :: local_cache
  px_table :: proxy_table

text \<open>
  What a request meets on its way: the times of its steps, the statements that
  fail, the wait, and what the API answers.  While it waits and while the API
  works, others change the state.
\<close>

record meeting =
  me_lookup :: int
  me_read :: "int \<times> db_error option"
  me_first :: lock_attempt
  me_second :: lock_attempt
  me_wait :: "wait_env \<times> nat"
  me_waited :: "proxy_state \<Rightarrow> proxy_state"
  me_fetch :: "upstream \<Rightarrow> (exn, response) res"
  me_fetched :: "proxy_state \<Rightarrow> proxy_state"
  me_done :: int
  me_write :: "int \<times> db_error option"

definition storeLocal :: "cache_limits \<Rightarrow> int \<Rightarrow> string \<Rightarrow> response \<Rightarrow> proxy_state \<Rightarrow> proxy_state" where
  "storeLocal l now k r s = s\<lparr>px_local := setCachedResponse l now k r (px_local s)\<rparr>"

definition succeeded :: "response \<Rightarrow> bool" where
  "succeeded r \<longleftrightarrow> pr_statusCode r \<ge> 200 \<and> pr_statusCode r < 300"

text \<open>The lock is given back after every failure, and only by the one who holds it.\<close>

definition giveBack :: "proxy_env \<Rightarrow> meeting \<Rightarrow> string \<Rightarrow> lock_result \<Rightarrow> proxy_state \<Rightarrow> proxy_state" where
  "giveBack e m k lock s = (case lock of
      Acquired token \<Rightarrow> s\<lparr>px_table := cleanupInFlightEntry (pe_mysql e) (snd (me_write m)) k token (px_table s)\<rparr>
    | _ \<Rightarrow> s)"

definition fetchAndStore ::
  "proxy_env \<Rightarrow> meeting \<Rightarrow> string \<Rightarrow> upstream \<Rightarrow> lock_result \<Rightarrow> proxy_state \<Rightarrow> (exn, response) res \<times> proxy_state" where
  "fetchAndStore e m k up lock s =
    (let s1 = me_fetched m s in
     case me_fetch m up of
       Inl x \<Rightarrow> (Inl x, giveBack e m k lock s1)
     | Inr r \<Rightarrow>
         if succeeded r
         then (let s2 = storeLocal (pe_limits e) (me_done m) k r s1 in
           (Inr r, case lock of
              Acquired token \<Rightarrow> s2\<lparr>px_table := storeResultInMysql (pe_mysql e) (snd (me_write m)) (fst (me_write m))
                (li_ttl (pe_limits e)) k r token (px_table s2)\<rparr>
            | _ \<Rightarrow> s2))
         else (Inr r, giveBack e m k lock s1))"

text \<open>The wait keeps what it finds in the shared cache; when it fails the request is made all the same.\<close>

definition waitOrFetch ::
  "proxy_env \<Rightarrow> meeting \<Rightarrow> string \<Rightarrow> upstream \<Rightarrow> proxy_state \<Rightarrow> (exn, response) res \<times> upstream list \<times> proxy_state" where
  "waitOrFetch e m k up s =
    (let s1 = me_waited m s in
     case waitForInFlightRequest (fst (me_wait m)) (snd (me_wait m)) of
       (Inr r, elapsed, polls) \<Rightarrow>
         (Inr r, [], if we_shared (fst (me_wait m)) elapsed = Some r
            then storeLocal (pe_limits e) (me_done m) k r s1 else s1)
     | (Inl message, elapsed, polls) \<Rightarrow> (let (r, s2) = fetchAndStore e m k up Held s1 in (r, [up], s2)))"

definition getRequest ::
  "proxy_env \<Rightarrow> meeting \<Rightarrow> string \<Rightarrow> upstream \<Rightarrow> proxy_state \<Rightarrow> (exn, response) res \<times> upstream list \<times> proxy_state" where
  "getRequest e m k up s =
    (let (hit, lc) = getCachedResponse (me_lookup m) k (px_local s); s1 = s\<lparr>px_local := lc\<rparr> in
     case hit of
       Some r \<Rightarrow> (Inr r, [], s1)
     | None \<Rightarrow>
        (case getResultFromMysql (pe_mysql e) (snd (me_read m)) (fst (me_read m)) k (px_table s1) of
           Some r \<Rightarrow> (Inr r, [], storeLocal (pe_limits e) (me_done m) k r s1)
         | None \<Rightarrow>
            (case acquireCacheLock (pe_mysql e) (me_first m) (me_second m) k (px_table s1) of
               (lock, t) \<Rightarrow>
                 (let s2 = s1\<lparr>px_table := t\<rparr> in
                  if lock = Held then waitOrFetch e m k up s2
                  else (let (r, s3) = fetchAndStore e m k up lock s2 in (r, [up], s3))))))"

text \<open>The handler: its answer, the calls it made, and the state; whatever is thrown is a 500.\<close>

definition answerOf :: "(exn, response) res \<Rightarrow> response" where
  "answerOf r = (case r of Inr x \<Rightarrow> x | Inl e \<Rightarrow> failure 500 ''Internal server error'')"

definition handler ::
  "proxy_env \<Rightarrow> (exn, api_keys) res \<Rightarrow> meeting \<Rightarrow> proxy_event \<Rightarrow> keys_cache \<times> proxy_state
    \<Rightarrow> response \<times> upstream list \<times> keys_cache \<times> proxy_state" where
  "handler e loaded m ev cs =
    (case cs of (c, s) \<Rightarrow>
     (case (if providedKey ev = [] then (None, c) else loadApiKeysFromS3 (pe_bucket e) loaded (me_lookup m) c) of
       (keys, c') \<Rightarrow>
     (case planRequest e keys ev of
       Inl x \<Rightarrow> (answerOf (Inl x), [], c', s)
     | Inr (Answer r) \<Rightarrow> (r, [], c', s)
     | Inr (Call up k) \<Rightarrow>
         if ev_method ev = ''GET''
         then (case getRequest e m k up s of (r, calls, s') \<Rightarrow> (answerOf r, calls, c', s'))
         else (answerOf (me_fetch m up), [up], c', s))))"

section \<open>Who reaches an API\<close>

lemma getRequest_calls: "getRequest e m k up s = (r, calls, s') \<Longrightarrow> calls = [] \<or> calls = [up]"
  by (auto simp: getRequest_def waitOrFetch_def Let_def split: prod.splits option.splits sum.splits if_splits)

lemma planRequest_Call:
  assumes "planRequest e keys ev = Inr (Call up k)"
  obtains name rest host base headers where "verifyApiKey (pe_proxyKey e) (providedKey ev) keys"
    "pathParts (ev_rawPath ev) = name # rest" "map_of (parseApiMappings (pe_mappings e)) name = Some host"
    "requestHeaders e host = Inr headers" "pe_newUrl e (apiPath (name # rest)) host = Inr base"
    "up_url up = pe_fullUrl e base (ev_query ev)" "up_method up = ev_method ev"
    "set (up_headers up) \<subseteq> insert (''Content-Type'', ''application/json'') (set headers)"
    "k = generateCacheKey (pe_hash e) (ev_method ev) base (ev_query ev)"
proof -
  obtain name rest where parts: "pathParts (ev_rawPath ev) = name # rest"
    using assms by (cases "pathParts (ev_rawPath ev)") (auto simp: planRequest_def split: if_splits)
  then obtain host where host: "map_of (parseApiMappings (pe_mappings e)) name = Some host"
      "planCall e ev host (name # rest) = Inr (Call up k)" "verifyApiKey (pe_proxyKey e) (providedKey ev) keys"
    using assms by (auto simp: planRequest_def Let_def split: if_splits option.splits)
  from host(2) obtain headers base where "requestHeaders e host = Inr headers"
      "pe_newUrl e (apiPath (name # rest)) host = Inr base"
      "up = \<lparr>up_url = pe_fullUrl e base (ev_query ev), up_method = ev_method ev,
         up_headers = headers @ (if ev_method ev \<noteq> ''GET'' \<and> ev_body ev \<noteq> []
             \<and> ev_method ev \<in> {''POST'', ''PUT'', ''PATCH''} then [(''Content-Type'', ''application/json'')] else []),
         up_body = ev_body ev\<rparr>"
      "k = generateCacheKey (pe_hash e) (ev_method ev) base (ev_query ev)"
    by (auto simp: planCall_def res_simps split: sum.splits)
  then show thesis by (intro that [OF host(3) parts host(1)]) (auto simp del: insert_subset)
qed

lemma verifyApiKey_iff:
  "verifyApiKey envKey provided keys \<longleftrightarrow> provided \<noteq> []
     \<and> (case keys of None \<Rightarrow> provided = envKey | Some ks \<Rightarrow> provided \<in> set (keyValues ks))"
  by (auto simp: verifyApiKey_def split: option.split)


section \<open>Answers are shared\<close>

text \<open>
  A fetch under the lock serves everyone: the instance that got the lock calls
  the API once; if that succeeds, any other instance that asks within the time to
  live is given the same answer without a call, and if it fails in any way the row
  is gone, so that the next one to ask gets the lock.
\<close>

theorem fetched_answer_is_shared:
  assumes "pe_mysql e" and "fst (getCachedResponse (me_lookup m) k (px_local s)) = None"
    and "getResultFromMysql True (snd (me_read m)) (fst (me_read m)) k (px_table s) = None"
    and "acquireCacheLock True (me_first m) (me_second m) k (px_table s) = (Acquired token, t)"
    and "\<And>lc. \<exists>row. px_table (me_fetched m (s\<lparr>px_local := lc, px_table := t\<rparr>)) k = Some row \<and> cr_lock_token row = token"
    and "snd (me_write m) = None" and "getRequest e m k up s = (r, calls, s')"
  shows "calls = [up] \<and> r = me_fetch m up
    \<and> (case r of
         Inl x \<Rightarrow> px_table s' k = None
       | Inr x \<Rightarrow> if \<not> succeeded x then px_table s' k = None
           else (\<forall>m2 s2. px_table s2 k = px_table s' k \<longrightarrow> fst (getCachedResponse (me_lookup m2) k (px_local s2)) = None
             \<longrightarrow> snd (me_read m2) = None
             \<longrightarrow> seconds (fst (me_read m2)) < roundedSeconds (fst (me_write m) + li_ttl (pe_limits e) * 1000)
             \<longrightarrow> (\<exists>s3. getRequest e m2 k up s2 = (Inr x, [], s3))))"
proof -
  obtain lc where lc: "getCachedResponse (me_lookup m) k (px_local s) = (None, lc)"
    using assms(2) by (cases "getCachedResponse (me_lookup m) k (px_local s)") auto
  let ?s2 = "s\<lparr>px_local := lc, px_table := t\<rparr>"
  have run: "(r, s') = fetchAndStore e m k up (Acquired token) ?s2" "calls = [up]"
    using assms(1,3,4,7) lc by (auto simp: getRequest_def Let_def split: prod.splits)
  obtain row where row: "px_table (me_fetched m ?s2) k = Some row" "cr_lock_token row = token"
    using assms(5) by blast
  have gone: "px_table (giveBack e m k (Acquired token) (me_fetched m ?s2)) k = None"
    using assms(1,6) row by (simp add: giveBack_def cleanupInFlightEntry_def)
  show ?thesis
  proof (cases "me_fetch m up")
    case (Inl x)
    then show ?thesis using run gone by (simp add: fetchAndStore_def Let_def)
  next
    case (Inr x)
    show ?thesis
    proof (cases "succeeded x")
      case False
      then show ?thesis using run gone Inr by (simp add: fetchAndStore_def Let_def)
    next
      case True
      have k: "px_table s' k = Some (completeRow (fst (me_write m)) (li_ttl (pe_limits e)) x row)"
        using run Inr True assms(1,6) row by (simp add: fetchAndStore_def Let_def storeLocal_def storeResultInMysql_def)
      have "\<exists>s3. getRequest e m2 k up s2 = (Inr x, [], s3)"
        if "px_table s2 k = px_table s' k" "fst (getCachedResponse (me_lookup m2) k (px_local s2)) = None"
          "snd (me_read m2) = None"
          "seconds (fst (me_read m2)) < roundedSeconds (fst (me_write m) + li_ttl (pe_limits e) * 1000)" for m2 s2
        using that k assms(1)
        by (cases "getCachedResponse (me_lookup m2) k (px_local s2)")
          (simp add: getRequest_def getResultFromMysql_def completeRow_def)
      then show ?thesis using run Inr True by (simp add: fetchAndStore_def Let_def)
    qed
  qed
qed

text \<open>
  A key that is given in the query is part of the call: the third party sees it, and
  callers with different keys never share an answer.
\<close>

lemma query_key_is_forwarded:
  assumes "planRequest e keys ev = Inr (Call up k)"
  shows "\<exists>base. up_url up = pe_fullUrl e base (ev_query ev)
    \<and> k = generateCacheKey (pe_hash e) (ev_method ev) base (ev_query ev)"
  using assms by (rule planRequest_Call) blast

end
