(* ===== verification/Api_Keys.thy ===== *)
theory Api_Keys
  imports Api_Proxy Blockchain
begin

text \<open>
  The keys to the API proxy: the worker that makes a key for every new signer of the
  Flare and Songbird networks (\<open>workers/generate-api-keys.worker.ts\<close>), the generation
  and encryption (\<open>lib/generate-api-keys.ts\<close>), the two files that keep the keys
  (\<open>lib/api-keys-storage.ts\<close>), and their readers: the proxy, which takes the keys of
  the decrypted file, and the base service, which publishes the encrypted ones.
  Randomness, elliptic curves and ciphers are parameters.
\<close>

section \<open>Signers and entries\<close>

datatype network = Flare_Net | Songbird_Net

text \<open>An absent, null or empty text is the empty text: the code only asks whether it is truthy.\<close>

record flare_entity =
  en_signing_policy_address :: string
  en_signing_policy_public_key :: string

record signer =
  sg_signing_address :: string
  sg_voter_signing_address :: string
  sg_pubkey :: string
  sg_network :: "network option"

record generated =
  gk_signing_address :: string
  gk_encrypted :: string
  gk_api_key :: string
  gk_network :: network

record key_entry =
  ke_signing_address :: string
  ke_encrypted :: "string option"
  ke_api_key :: "string option"
  ke_network :: "network option"

definition hexOf :: "string \<Rightarrow> string" where
  "hexOf s = (let h = toLowerCase (trim s) in if startsWith h ''0x'' then drop 2 h else h)"

definition toSigners :: "flare_entity list \<Rightarrow> network \<Rightarrow> signer list" where
  "toSigners es net = map (\<lambda>e. \<lparr>sg_signing_address = en_signing_policy_address e, sg_voter_signing_address = [],
       sg_pubkey = en_signing_policy_public_key e, sg_network = Some net\<rparr>)
     (filter (\<lambda>e. en_signing_policy_address e \<noteq> [] \<and> en_signing_policy_public_key e \<noteq> []
        \<and> length (hexOf (en_signing_policy_public_key e)) \<ge> 64) es)"

section \<open>Generation\<close>

text \<open>\<open>Buffer.from(hex, 'hex')\<close> stops at the first pair that is not hexadecimal.\<close>

definition isHex :: "char \<Rightarrow> bool" where
  "isHex ch \<longleftrightarrow> isDigit ch \<or> ch \<in> set ''abcdef''"

fun hexBytes :: "string \<Rightarrow> nat list" where
  "hexBytes (a # b # s) = (if isHex a \<and> isHex b then (16 * hexValue a + hexValue b) # hexBytes s else [])"
| "hexBytes s = []"

definition loadSecp256k1PublicKey :: "string \<Rightarrow> (exn, nat list) res" where
  "loadSecp256k1PublicKey s = (let h = hexOf s; data = hexBytes h in
     if length h < 64 then Inl (JsError ''Invalid public key: hex string too short'')
     else if length data = 65 \<and> hd data = 4 then Inr data
     else if length data = 64 then Inr (4 # data)
     else if length data = 65 then Inr (4 # tl data)
     else Inl (JsError ''Invalid public key format''))"

text \<open>The payload for a public key, a text and an address; a point off the curve throws.\<close>

record key_crypto =
  kp_random :: "nat \<Rightarrow> string"
  kp_seal :: "nat \<Rightarrow> nat list \<Rightarrow> string \<Rightarrow> string \<Rightarrow> (exn, string) res"

definition encryptApiKey :: "key_crypto \<Rightarrow> nat \<Rightarrow> string \<Rightarrow> string \<Rightarrow> string \<Rightarrow> (exn, string) res" where
  "encryptApiKey e i recipient apiKey address =
    bindR (loadSecp256k1PublicKey recipient) (\<lambda>pub. kp_seal e i pub apiKey address)"

definition addressOf :: "signer \<Rightarrow> string" where
  "addressOf s = (if sg_signing_address s \<noteq> [] then sg_signing_address s else sg_voter_signing_address s)"

definition networkOf :: "signer \<Rightarrow> network" where
  "networkOf s = (case sg_network s of None \<Rightarrow> Flare_Net | Some n \<Rightarrow> n)"

definition usable :: "signer \<Rightarrow> bool" where
  "usable s \<longleftrightarrow> trim (addressOf s) \<noteq> [] \<and> trim (sg_pubkey s) \<noteq> []"

text \<open>The counter numbers the random keys, one for every signer that gets one.\<close>

fun generateApiKeys :: "key_crypto \<Rightarrow> nat \<Rightarrow> signer list \<Rightarrow> (exn, generated list) res" where
  "generateApiKeys e i [] = Inr []"
| "generateApiKeys e i (s # ss) =
    (if \<not> usable s then generateApiKeys e i ss
     else bindR (encryptApiKey e i (trim (sg_pubkey s)) (kp_random e i) (trim (addressOf s))) (\<lambda>enc.
          bindR (generateApiKeys e (Suc i) ss) (\<lambda>gs.
          Inr (\<lparr>gk_signing_address = trim (addressOf s), gk_encrypted = enc, gk_api_key = kp_random e i,
                gk_network = networkOf s\<rparr> # gs))))"

section \<open>Storage\<close>

text \<open>What a file's text parses to, or that it does not parse.\<close>

datatype keys_file = Keys_Array "key_entry list" | Keys_Record "(string \<times> string) list" | Keys_Scalar | Keys_Broken

text \<open>
  The bucket with its two files, and the requests that fail for another reason than
  a missing file.
\<close>

record bucket =
  bu_encrypted :: "keys_file option"
  bu_decrypted :: "keys_file option"

datatype which = Encrypted | Decrypted

definition fileOf :: "which \<Rightarrow> bucket \<Rightarrow> keys_file option" where
  "fileOf w b = (case w of Encrypted \<Rightarrow> bu_encrypted b | Decrypted \<Rightarrow> bu_decrypted b)"

definition oldEntry :: "which \<Rightarrow> string \<times> string \<Rightarrow> key_entry" where
  "oldEntry w kv = \<lparr>ke_signing_address = fst kv, ke_encrypted = (if w = Encrypted then Some (snd kv) else None),
     ke_api_key = (if w = Decrypted then Some (snd kv) else None), ke_network = Some Flare_Net\<rparr>"

definition loadKeys :: "exn option \<Rightarrow> which \<Rightarrow> bucket \<Rightarrow> (exn, key_entry list) res" where
  "loadKeys readError w b = (case readError of
      Some e \<Rightarrow> Inl e
    | None \<Rightarrow> (case fileOf w b of
         None \<Rightarrow> Inr []
       | Some (Keys_Array es) \<Rightarrow> Inr es
       | Some (Keys_Record kvs) \<Rightarrow> Inr (map (oldEntry w) kvs)
       | Some Keys_Scalar \<Rightarrow> Inr []
       | Some Keys_Broken \<Rightarrow> Inl (JsError ''SyntaxError'')))"

text \<open>\<open>loadExistingKeys\<close> of both files; the encrypted one is read first.\<close>

definition loadExistingKeys ::
  "exn option \<Rightarrow> exn option \<Rightarrow> bucket \<Rightarrow> (exn, key_entry list \<times> key_entry list) res" where
  "loadExistingKeys e1 e2 b = bindR (loadKeys e1 Encrypted b) (\<lambda>encrypted.
     bindR (loadKeys e2 Decrypted b) (\<lambda>decrypted. Inr (encrypted, decrypted)))"

text \<open>The encrypted file is written first; when the second upload fails the first one stays.\<close>

definition saveKeys ::
  "exn option \<Rightarrow> exn option \<Rightarrow> key_entry list \<Rightarrow> key_entry list \<Rightarrow> bucket \<Rightarrow> (exn, unit) res \<times> bucket" where
  "saveKeys e1 e2 encrypted decrypted b = (case e1 of
      Some e \<Rightarrow> (Inl e, b)
    | None \<Rightarrow> (let b1 = b\<lparr>bu_encrypted := Some (Keys_Array encrypted)\<rparr> in
        case e2 of
          Some e \<Rightarrow> (Inl e, b1)
        | None \<Rightarrow> (Inr (), b1\<lparr>bu_decrypted := Some (Keys_Array decrypted)\<rparr>)))"

section \<open>The worker\<close>

record keys_env =
  kw_flare :: "(exn, flare_entity list) res"
  kw_songbird :: "(exn, flare_entity list) res"
  kw_dev :: bool
  kw_configured :: bool
  kw_readErrors :: "exn option \<times> exn option"
  kw_writeErrors :: "exn option \<times> exn option"
  kw_crypto :: key_crypto

definition testSigner :: signer where
  "testSigner = \<lparr>sg_signing_address = ''0xaCe3587D87d3717c2FEA66e59A3126467f3E2C4c'', sg_voter_signing_address = [],
     sg_pubkey = ''0xe324f9f0a0e18eb4d896ac49f9f502cfd0345a46d38304be5494a764f9adb914''
       @ ''6b8ecb1dd4b59abd1b96fffc9a044d44798d15c0062e25671113fe20573421be'', sg_network = Some Flare_Net\<rparr>"

definition fetchedSigners :: "keys_env \<Rightarrow> (exn, signer list) res" where
  "fetchedSigners e = bindR (kw_flare e) (\<lambda>flare. bindR (kw_songbird e) (\<lambda>songbird.
     Inr (toSigners flare Flare_Net @ toSigners songbird Songbird_Net @ (if kw_dev e then [testSigner] else []))))"

definition networkText :: "network option \<Rightarrow> string" where
  "networkText n = (case n of None \<Rightarrow> ''undefined'' | Some Flare_Net \<Rightarrow> ''flare'' | Some Songbird_Net \<Rightarrow> ''songbird'')"

definition addressKey :: "string \<Rightarrow> network option \<Rightarrow> string" where
  "addressKey address n = address @ '':'' @ networkText n"

definition newSigners :: "key_entry list \<Rightarrow> signer list \<Rightarrow> signer list" where
  "newSigners decrypted signers = filter (\<lambda>s. addressKey (addressOf s) (Some (networkOf s))
     \<notin> (\<lambda>k. addressKey (ke_signing_address k) (ke_network k)) ` set decrypted) signers"

definition encryptedEntry :: "generated \<Rightarrow> key_entry" where
  "encryptedEntry g = \<lparr>ke_signing_address = gk_signing_address g, ke_encrypted = Some (gk_encrypted g),
     ke_api_key = None, ke_network = Some (gk_network g)\<rparr>"

definition decryptedEntry :: "generated \<Rightarrow> key_entry" where
  "decryptedEntry g = \<lparr>ke_signing_address = gk_signing_address g, ke_encrypted = None,
     ke_api_key = Some (gk_api_key g), ke_network = Some (gk_network g)\<rparr>"

definition runKeysExecutor :: "keys_env \<Rightarrow> bucket \<Rightarrow> (exn, unit) res \<times> bucket" where
  "runKeysExecutor e b = (case fetchedSigners e of
      Inl x \<Rightarrow> (Inl x, b)
    | Inr signers \<Rightarrow>
        if signers = [] then (Inr (), b)
        else if \<not> kw_configured e then (Inl (JsError ''API_KEYS_S3_BUCKET environment variable is not set''), b)
        else (case loadExistingKeys (fst (kw_readErrors e)) (snd (kw_readErrors e)) b of
            Inl x \<Rightarrow> (Inl x, b)
          | Inr (encrypted, decrypted) \<Rightarrow>
              if newSigners decrypted signers = [] then (Inr (), b)
              else (case generateApiKeys (kw_crypto e) 0 (newSigners decrypted signers) of
                  Inl x \<Rightarrow> (Inl x, b)
                | Inr gs \<Rightarrow>
                    if gs = [] then (Inr (), b)
                    else saveKeys (fst (kw_writeErrors e)) (snd (kw_writeErrors e))
                      (encrypted @ map encryptedEntry gs) (decrypted @ map decryptedEntry gs) b)))"

text \<open>What the readers make of the files.\<close>

definition proxyKeys :: "keys_file \<Rightarrow> api_keys option" where
  "proxyKeys f = (case f of
      Keys_Array es \<Rightarrow> Some (Key_Array (map ke_api_key es))
    | Keys_Record kvs \<Rightarrow> Some (Key_Object kvs)
    | _ \<Rightarrow> None)"

definition getEncryptedApiKeys :: "bool \<Rightarrow> exn option \<Rightarrow> network \<Rightarrow> bucket \<Rightarrow> (exn, (string \<times> string) list) res" where
  "getEncryptedApiKeys configured readError net b =
    (if \<not> configured then Inl (JsError ''environment variable is not set'')
     else bindR (loadKeys readError Encrypted b) (\<lambda>es.
       Inr (concat (map (\<lambda>k. case ke_encrypted k of
           Some x \<Rightarrow> if x \<noteq> [] \<and> ke_network k = Some net then [(ke_signing_address k, x)] else []
         | None \<Rightarrow> []) es))))"

section \<open>What a run adds\<close>

lemma generateApiKeys_signers:
  "generateApiKeys e i ss = Inr gs \<Longrightarrow>
   map (\<lambda>g. (gk_signing_address g, gk_network g)) gs = map (\<lambda>s. (trim (addressOf s), networkOf s)) (filter usable ss)"
  by (induction e i ss arbitrary: gs rule: generateApiKeys.induct) (auto simp: res_simps split: if_splits)

lemma generateApiKeys_key:
  assumes "generateApiKeys e i ss = Inr gs" and "s \<in> set ss" and "usable s"
  shows "\<exists>j g. g \<in> set gs \<and> gk_signing_address g = trim (addressOf s) \<and> gk_network g = networkOf s
    \<and> gk_api_key g = kp_random e j
    \<and> encryptApiKey e j (trim (sg_pubkey s)) (gk_api_key g) (gk_signing_address g) = Inr (gk_encrypted g)"
  using assms
proof (induction e i ss arbitrary: gs rule: generateApiKeys.induct)
  case (2 e i t ss)
  show ?case
  proof (cases "usable t")
    case False
    then show ?thesis using 2 by auto
  next
    case True
    then obtain enc gs' where g: "encryptApiKey e i (trim (sg_pubkey t)) (kp_random e i) (trim (addressOf t)) = Inr enc"
        "generateApiKeys e (Suc i) ss = Inr gs'"
        "gs = \<lparr>gk_signing_address = trim (addressOf t), gk_encrypted = enc, gk_api_key = kp_random e i,
            gk_network = networkOf t\<rparr> # gs'"
      using 2(3) by (auto simp: res_simps)
    show ?thesis
    proof (cases "s = t")
      case True
      then show ?thesis using g(1,3) by (intro exI [of _ i] exI [of _ "hd gs"]) simp
    next
      case False
      then have "s \<in> set ss" using 2(4) by simp
      then show ?thesis using "2.IH"(2) True g(1,2) 2(5) unfolding g(3) by (meson list.set_intros(2))
    qed
  qed
qed simp

text \<open>How a run without an error ends: nothing to add, or the new entries behind the old ones.\<close>

lemma runKeysExecutor_cases:
  assumes "runKeysExecutor e b = (Inr (), b')" and "fetchedSigners e = Inr signers" and "signers \<noteq> []"
  obtains encrypted decrypted gs where "loadExistingKeys None None b = Inr (encrypted, decrypted)"
    "generateApiKeys (kw_crypto e) 0 (newSigners decrypted signers) = Inr gs"
    "loadExistingKeys None None b' = Inr (encrypted @ map encryptedEntry gs, decrypted @ map decryptedEntry gs)"
    "b' = (if gs = [] then b else b\<lparr>bu_encrypted := Some (Keys_Array (encrypted @ map encryptedEntry gs)),
       bu_decrypted := Some (Keys_Array (decrypted @ map decryptedEntry gs))\<rparr>)"
proof -
  have conf: "kw_configured e" using assms by (auto simp: runKeysExecutor_def split: if_splits)
  obtain encrypted decrypted where l: "loadExistingKeys (fst (kw_readErrors e)) (snd (kw_readErrors e)) b = Inr (encrypted, decrypted)"
    using assms conf
    by (cases "loadExistingKeys (fst (kw_readErrors e)) (snd (kw_readErrors e)) b") (auto simp: runKeysExecutor_def)
  then have none: "loadExistingKeys None None b = Inr (encrypted, decrypted)"
    by (auto simp: loadExistingKeys_def loadKeys_def res_simps split: option.splits)
  show thesis
  proof (cases "newSigners decrypted signers = []")
    case True
    then have "b' = b" using assms conf l by (simp add: runKeysExecutor_def)
    then show thesis using that [OF none, of "[]"] none True by simp
  next
    case False
    then obtain gs where gs: "generateApiKeys (kw_crypto e) 0 (newSigners decrypted signers) = Inr gs"
      using assms conf l by (cases "generateApiKeys (kw_crypto e) 0 (newSigners decrypted signers)") (auto simp: runKeysExecutor_def)
    show thesis
    proof (cases "gs = []")
      case True
      then have "b' = b" using assms conf l False gs by (simp add: runKeysExecutor_def)
      then show thesis using that [OF none gs] none True by simp
    next
      case ne: False
      have "b' = b\<lparr>bu_encrypted := Some (Keys_Array (encrypted @ map encryptedEntry gs)),
          bu_decrypted := Some (Keys_Array (decrypted @ map decryptedEntry gs))\<rparr>"
        using assms conf l False gs ne
        by (auto simp: runKeysExecutor_def saveKeys_def Let_def split: option.splits)
      then show thesis using that [OF none gs] ne by (simp add: loadExistingKeys_def loadKeys_def fileOf_def)
    qed
  qed
qed

definition listed :: "key_entry list \<Rightarrow> signer \<Rightarrow> bool" where
  "listed es s \<longleftrightarrow> addressKey (addressOf s) (Some (networkOf s)) \<in> (\<lambda>k. addressKey (ke_signing_address k) (ke_network k)) ` set es"

lemma newSigners_iff: "s \<in> set (newSigners es ss) \<longleftrightarrow> s \<in> set ss \<and> \<not> listed es s"
  by (simp add: newSigners_def listed_def)

lemma listed_append: "listed (es @ es') s \<longleftrightarrow> listed es s \<or> listed es' s"
  by (auto simp: listed_def)

definition accepted :: "bucket \<Rightarrow> string \<Rightarrow> bool" where
  "accepted b k = verifyApiKey [] k (Option.bind (bu_decrypted b) proxyKeys)"

lemma accepted_iff:
  "accepted b k \<longleftrightarrow> k \<noteq> [] \<and> (\<exists>f ks. bu_decrypted b = Some f \<and> proxyKeys f = Some ks \<and> k \<in> set (keyValues ks))"
  by (cases "bu_decrypted b"; cases "proxyKeys (the (bu_decrypted b))") (auto simp: accepted_def verifyApiKey_iff)

lemma keyValues_entries:
  "set (keyValues (Key_Array (map ke_api_key es))) = {k. k \<noteq> [] \<and> Some k \<in> ke_api_key ` set es}"
proof -
  have "Some k = ke_api_key x" if "ke_api_key x = Some k" for k x using that by simp
  then show ?thesis by (auto simp: image_iff split: option.splits if_splits)
qed

text \<open>For a file that parses, the proxy's keys are those of the entries that the worker reads.\<close>

lemma accepted_entries:
  assumes "loadKeys None Decrypted b = Inr es"
  shows "accepted b k \<longleftrightarrow> k \<noteq> [] \<and> Some k \<in> ke_api_key ` set es"
proof (cases "bu_decrypted b")
  case None
  then show ?thesis using assms by (simp add: accepted_iff loadKeys_def fileOf_def)
next
  case (Some f)
  then show ?thesis
  proof (cases f)
    case (Keys_Array xs)
    then show ?thesis using assms Some keyValues_entries [of es]
      by (auto simp: accepted_iff loadKeys_def fileOf_def proxyKeys_def simp del: keyValues.simps)
  next
    case (Keys_Record kvs)
    then show ?thesis using assms Some
      by (auto simp: accepted_iff loadKeys_def fileOf_def proxyKeys_def oldEntry_def image_iff) force+
  qed (use assms Some in \<open>auto simp: accepted_iff loadKeys_def fileOf_def proxyKeys_def\<close>)
qed


text \<open>
  C30: A signer gets one key: the entries that were there stay where they are, the
  run adds one entry for each usable signer without a key, in the order of the
  fetch, and when the addresses carry no blanks at their ends a further run on the
  same signers changes nothing.
\<close>

theorem one_key_per_signer:
  assumes "runKeysExecutor e b = (Inr (), b')" and "fetchedSigners e = Inr signers"
    and "loadExistingKeys None None b = Inr (encrypted, decrypted)"
  shows "\<exists>gs. loadExistingKeys None None b' = Inr (encrypted @ map encryptedEntry gs, decrypted @ map decryptedEntry gs)
    \<and> map (\<lambda>g. (gk_signing_address g, gk_network g)) gs
        = map (\<lambda>s. (trim (addressOf s), networkOf s)) (filter (\<lambda>s. usable s \<and> \<not> listed decrypted s) signers)
    \<and> ((\<forall>s \<in> set signers. usable s \<and> trim (addressOf s) = addressOf s) \<longrightarrow> snd (runKeysExecutor e b') = b')"
proof (cases "signers = []")
  case True
  then show ?thesis using assms by (auto simp: runKeysExecutor_def intro!: exI [of _ "[]"])
next
  case False
  obtain gs where gs: "generateApiKeys (kw_crypto e) 0 (newSigners decrypted signers) = Inr gs"
    and after: "loadExistingKeys None None b' = Inr (encrypted @ map encryptedEntry gs, decrypted @ map decryptedEntry gs)"
    using runKeysExecutor_cases [OF assms(1,2) False] assms(3) by (metis Inr_inject prod.inject)
  have added: "map (\<lambda>g. (gk_signing_address g, gk_network g)) gs
      = map (\<lambda>s. (trim (addressOf s), networkOf s)) (filter (\<lambda>s. usable s \<and> \<not> listed decrypted s) signers)"
    using generateApiKeys_signers [OF gs] by (simp add: newSigners_def listed_def conj_commute)
  have "snd (runKeysExecutor e b') = b'" if clean: "\<forall>s \<in> set signers. usable s \<and> trim (addressOf s) = addressOf s"
  proof -
    have "listed (decrypted @ map decryptedEntry gs) s" if s: "s \<in> set signers" for s
    proof (cases "listed decrypted s")
      case True
      then show ?thesis by (simp add: listed_append)
    next
      case f: False
      then have "s \<in> set (newSigners decrypted signers)" "usable s" using s clean by (simp_all add: newSigners_iff)
      then obtain g where "g \<in> set gs" "gk_signing_address g = trim (addressOf s)" "gk_network g = networkOf s"
        using generateApiKeys_key [OF gs] by blast
      then show ?thesis using clean s by (force simp: listed_append listed_def decryptedEntry_def)
    qed
    then have "newSigners (decrypted @ map decryptedEntry gs) signers = []"
      using newSigners_iff by (metis list.set_intros(1) neq_Nil_conv)
    moreover have "loadExistingKeys e1 e2 b' = Inr (encrypted @ map encryptedEntry gs, decrypted @ map decryptedEntry gs)
        \<or> (\<exists>x. loadExistingKeys e1 e2 b' = Inl x)" for e1 e2
      using after by (cases e1; cases e2) (auto simp: loadExistingKeys_def loadKeys_def res_simps split: option.splits)
    then have "loadExistingKeys (fst (kw_readErrors e)) (snd (kw_readErrors e)) b'
        = Inr (encrypted @ map encryptedEntry gs, decrypted @ map decryptedEntry gs)
        \<or> (\<exists>x. loadExistingKeys (fst (kw_readErrors e)) (snd (kw_readErrors e)) b' = Inl x)" .
    ultimately show ?thesis using assms(2)
      by (elim disjE) (auto simp: runKeysExecutor_def)
  qed
  then show ?thesis using after added by blast
qed

section \<open>What blocks the keys\<close>

lemma generateApiKeys_bad:
  assumes "s \<in> set ss" and "usable s" and "loadSecp256k1PublicKey (trim (sg_pubkey s)) = Inl x"
  shows "\<exists>y. generateApiKeys e i ss = Inl y"
  using assms(1)
proof (induction ss arbitrary: i)
  case (Cons t ss)
  show ?case
  proof (cases "s = t")
    case True
    then show ?thesis using assms(2,3) by (simp add: encryptApiKey_def)
  next
    case False
    then have rest: "\<exists>y. generateApiKeys e j ss = Inl y" for j using Cons by simp
    show ?thesis
      by (cases "encryptApiKey e i (trim (sg_pubkey t)) (kp_random e i) (trim (addressOf t))")
        (use rest [of i] rest [of "Suc i"] in auto)
  qed
qed simp

lemma trim_trim [simp]: "trim (trim s) = trim s"
proof (cases "dropWhile isSpace s")
  case Nil
  then have "trim s = []" unfolding trim_def Nil by simp
  moreover have "trim [] = []" by (simp add: trim_def)
  ultimately show ?thesis by metis
next
  case (Cons c cs)
  then have c: "\<not> isSpace c" using hd_dropWhile [of isSpace s] by auto
  have "\<exists>zs. rev (dropWhile isSpace (rev cs @ [c])) = c # zs" using c by (simp add: dropWhile_append) (metis rev_rev_ident)
  then obtain zs where zs: "trim s = c # zs" using Cons by (auto simp: trim_def)
  have "trim (trim s) = rev (dropWhile isSpace (rev (trim s)))" using zs c by (simp add: trim_def)
  also have "\<dots> = trim s" by (simp add: trim_def)
  finally show ?thesis .
qed

text \<open>
  One public key of a wrong length holds up everyone: as long as a signer with
  such a key is among those fetched and has no key, no run succeeds in giving any
  signer a key, and the files stay as they are.
\<close>

theorem bad_public_key_blocks_keys:
  assumes "fetchedSigners e = Inr signers" and "s \<in> set signers" and "usable s"
    and "\<And>encrypted decrypted. loadExistingKeys None None b = Inr (encrypted, decrypted) \<Longrightarrow> \<not> listed decrypted s"
    and "length (hexBytes (hexOf (sg_pubkey s))) \<notin> {64, 65}"
  shows "\<exists>x. runKeysExecutor e b = (Inl x, b)"
proof -
  have "hexOf (trim t) = hexOf t" for t by (simp add: hexOf_def)
  then have bad: "\<exists>x. loadSecp256k1PublicKey (trim (sg_pubkey s)) = Inl x"
    using assms(5) by (simp add: loadSecp256k1PublicKey_def Let_def)
  show ?thesis
  proof (cases "kw_configured e")
    case True
    show ?thesis
    proof (cases "loadExistingKeys (fst (kw_readErrors e)) (snd (kw_readErrors e)) b")
      case (Inl x)
      then show ?thesis using True assms(1,2) by (auto simp: runKeysExecutor_def)
    next
      case (Inr p)
      obtain encrypted decrypted where p: "p = (encrypted, decrypted)" by (cases p)
      then have "loadExistingKeys None None b = Inr (encrypted, decrypted)"
        using Inr by (auto simp: loadExistingKeys_def loadKeys_def res_simps split: option.splits)
      then have new: "s \<in> set (newSigners decrypted signers)" using assms(2,4) by (simp add: newSigners_iff)
      then obtain y where "generateApiKeys (kw_crypto e) 0 (newSigners decrypted signers) = Inl y"
        using generateApiKeys_bad assms(3) bad by blast
      moreover have "signers \<noteq> []" "newSigners decrypted signers \<noteq> []" using new assms(2) by auto
      ultimately show ?thesis using True Inr p assms(1) by (simp add: runKeysExecutor_def)
    qed
  qed (use assms(1,2) in \<open>auto simp: runKeysExecutor_def\<close>)
qed

text \<open>
  A failure between the two uploads: the encrypted entries stay without their keys,
  which no file holds; the next run makes new ones and lists the signer twice.
\<close>

lemma half_saved_keys:
  assumes "saveKeys None (Some x) encrypted decrypted b = (r, b')"
  shows "r = Inl x \<and> loadKeys None Encrypted b' = Inr encrypted \<and> bu_decrypted b' = bu_decrypted b
    \<and> (\<forall>k. accepted b' k = accepted b k)"
  using assms by (auto simp: saveKeys_def loadKeys_def fileOf_def accepted_def)

text \<open>An address with a blank at its end is stored without it, so its signer is new to every run.\<close>

lemma blank_address_stays_new:
  assumes "generateApiKeys e 0 (newSigners decrypted [s]) = Inr gs" and "\<not> listed decrypted s"
    and "trim (addressOf s) \<noteq> addressOf s" and "CHR '':'' \<notin> set (addressOf s)"
  shows "newSigners (decrypted @ map decryptedEntry gs) [s] = [s]"
proof -
  have "\<not> listed (map decryptedEntry gs) s"
  proof
    assume "listed (map decryptedEntry gs) s"
    then obtain g where g: "g \<in> set gs"
        "addressKey (addressOf s) (Some (networkOf s)) = addressKey (gk_signing_address g) (Some (gk_network g))"
      by (auto simp: listed_def decryptedEntry_def)
    have "(gk_signing_address g, gk_network g) \<in> set (map (\<lambda>g. (gk_signing_address g, gk_network g)) gs)"
      using g(1) by force
    then have "gk_signing_address g = trim (addressOf s)" "gk_network g = networkOf s"
      unfolding generateApiKeys_signers [OF assms(1)] by (auto simp: newSigners_def split: if_splits)
    then show False using g(2) assms(3) by (simp add: addressKey_def)
  qed
  then show ?thesis using assms(2) by (simp add: newSigners_def listed_append [unfolded listed_def] listed_def image_Un)
qed

end
