(* ===== verification/Market_Workers.thy ===== *)
theory Market_Workers
  imports Chain_Parsers Blockchain Js_Number Js_String
begin

text \<open>
  Three workers that keep markets up to date: the chance of every outcome
  (\<open>workers/refresh-outcome-chances.worker.ts\<close>), the USD price of the collateral
  tokens (\<open>workers/collateral-token-usd-price.worker.ts\<close>) and the alarm about
  markets the indexer has fallen behind on (\<open>workers/indexer-health-check.worker.ts\<close>).
\<close>

section \<open>Outcome chances\<close>

text \<open>The planner's join has a row for every outcome, so a market is listed once per outcome.\<close>

definition refreshPlanner :: "int \<Rightarrow> db \<Rightarrow> nat list" where
  "refreshPlanner now d = concat (map (\<lambda>ps.
     map (\<lambda>oc. rowId ps) (filter (\<lambda>oc. oc_prediction_set_id oc = rowId ps \<and> status oc = ACTIVE
         \<and> oc_positionId oc \<noteq> None) (rows (outcomes d))))
     (filter (\<lambda>ps. ps_setStatus ps = PS_ACTIVE \<and> status ps = ACTIVE \<and> ps_endTime ps > now)
       (rows (prediction_sets d))))"

text \<open>\<open>BigInt\<close> of a text: decimal digits with a sign, or hexadecimal digits after \<open>0x\<close>.\<close>

definition bigIntText :: "string \<Rightarrow> (exn, int) res" where
  "bigIntText s = (let t = trim s; neg = (take 1 t = ''-'');
       u = (if neg \<or> take 1 t = ''+'' then drop 1 t else t); h = toLowerCase (drop 2 t)
     in if t = [] then Inr 0
        else if toLowerCase (take 2 t) = ''0x'' then
          (if h \<noteq> [] \<and> list_all (\<lambda>ch. isDigit ch \<or> ch \<in> set ''abcdef'') h then Inr (int (fromHexString h))
           else Inl (JsError ''Cannot convert to a BigInt''))
        else if u \<noteq> [] \<and> list_all isDigit u
        then Inr (if neg then - int (fromDecimal u) else int (fromDecimal u))
        else Inl (JsError ''Cannot convert to a BigInt''))"

fun mapR :: "('a \<Rightarrow> ('e, 'b) res) \<Rightarrow> 'a list \<Rightarrow> ('e, 'b list) res" where
  "mapR f [] = Inr []"
| "mapR f (x # xs) = bindR (f x) (\<lambda>y. bindR (mapR f xs) (\<lambda>ys. Inr (y # ys)))"

definition bigIntColumn :: "string option \<Rightarrow> (exn, int) res" where
  "bigIntColumn v = (case v of None \<Rightarrow> Inl (JsError ''Cannot convert null to a BigInt'') | Some s \<Rightarrow> bigIntText s)"

text \<open>
  \<open>Number\<close> of a BigInt is rounded to a binary64 value and overflows to infinity; the
  numbers of this worker are not negative.
\<close>

datatype number = Finite rat | Infinity | NaN

definition toNumber :: "int \<Rightarrow> number" where
  "toNumber n = (let x = double (of_int n) in if \<bar>x\<bar> < 2 ^ 1024 then Finite x else Infinity)"

fun divNumber :: "number \<Rightarrow> number \<Rightarrow> number" where
  "divNumber (Finite x) (Finite y) =
     (if y = 0 then (if x = 0 then NaN else Infinity) else Finite (divD x y))"
| "divNumber (Finite x) Infinity = Finite 0"
| "divNumber Infinity (Finite y) = Infinity"
| "divNumber _ _ = NaN"

text \<open>
  The fixed product market maker: the price of an outcome is the product of the
  other balances over the sum of these products.  A zero balance is a division by
  zero, which throws.
\<close>

definition numeratorsOf :: "int list \<Rightarrow> int list" where
  "numeratorsOf balances = map (\<lambda>b. prod_list balances div b) balances"

definition probabilities :: "int list \<Rightarrow> (exn, number list) res" where
  "probabilities balances =
    (if list_ex (\<lambda>b. b = 0) balances then Inl (JsError ''Division by zero'')
     else let ns = numeratorsOf balances in
       Inr (map (\<lambda>n. divNumber (toNumber n) (toNumber (sum_list ns))) ns))"

text \<open>
  What the worker asks: the balances of the market's contract for the positions, and
  the value that the column \<open>DECIMAL(8, 4)\<close> holds after a number went through the
  model's parser and the driver.
\<close>

record refresh_env =
  re_balanceOfBatch :: "string option list \<Rightarrow> int list \<Rightarrow> (exn, int list) res"
  re_column :: "number \<Rightarrow> (exn, rat option) res"

definition recordChance ::
  "ctx \<Rightarrow> refresh_env \<Rightarrow> nat \<Rightarrow> int \<Rightarrow> outcome \<times> (int \<times> number) option \<Rightarrow> db \<Rightarrow> (exn, db) res" where
  "recordChance c e psId supply x d = (case snd x of
      None \<Rightarrow> Inl (JsError ''Cannot read properties of undefined'')
    | Some (balance, chance) \<Rightarrow>
        bindR (re_column e chance) (\<lambda>v.
        bindR (insertRow c noClash \<lparr>rowId = 0, status = ACTIVE, createTime = 0, updateTime = 0,
            createUser = None, updateUser = None, ch_outcome_id = rowId (fst x), ch_prediction_set_id = psId,
            ch_chance = v, ch_supply = balance, ch_totalSupply = supply\<rparr> (outcome_chances d)) (\<lambda>(i, t).
        Inr (d\<lparr>outcome_chances := t\<rparr>))))"

text \<open>The rows written before a throw stay: the worker opens no transaction and logs the error.\<close>

fun recordChances ::
  "ctx \<Rightarrow> refresh_env \<Rightarrow> nat \<Rightarrow> int \<Rightarrow> (outcome \<times> (int \<times> number) option) list \<Rightarrow> db \<Rightarrow> db \<times> bool" where
  "recordChances c e psId supply [] d = (d, True)"
| "recordChances c e psId supply (x # xs) d = (case recordChance c e psId supply x d of
      Inl err \<Rightarrow> (d, False)
    | Inr d' \<Rightarrow> recordChances c e psId supply xs d')"

definition withAnswers :: "'a list \<Rightarrow> 'b list \<Rightarrow> ('a \<times> 'b option) list" where
  "withAnswers xs ys = map (\<lambda>i. (xs ! i, if i < length ys then Some (ys ! i) else None)) [0..<length xs]"

text \<open>The second component tells whether the run ended without an error in the log.\<close>

definition refreshExecutor :: "ctx \<Rightarrow> refresh_env \<Rightarrow> nat \<Rightarrow> db \<Rightarrow> db \<times> bool" where
  "refreshExecutor c e psId d = (case populateById psId (prediction_sets d) of
      Inl err \<Rightarrow> (d, False)
    | Inr None \<Rightarrow> (d, False)
    | Inr (Some ps) \<Rightarrow>
        (let ocs = map fst (getOutcomes psId d);
             owners = map (\<lambda>oc. Option.bind (populateByPredictionSetId psId d) cd_contractAddress) ocs
         in case bindR (mapR (\<lambda>oc. bigIntColumn (oc_positionId oc)) ocs) (re_balanceOfBatch e owners) of
              Inl err \<Rightarrow> (d, False)
            | Inr balances \<Rightarrow>
                if balances = [] then (d, True)
                else (case probabilities balances of
                    Inl err \<Rightarrow> (d, False)
                  | Inr chances \<Rightarrow> recordChances c e psId (sum_list balances)
                      (withAnswers ocs (zip balances chances)) d)))"

section \<open>Chances are prices\<close>

definition price :: "int list \<Rightarrow> nat \<Rightarrow> rat" where
  "price balances k = 1 / of_int (balances ! k) / (\<Sum>b\<leftarrow>balances. 1 / of_int b)"

lemma roundEven_near: "\<bar>of_int (roundEven x) - x\<bar> \<le> 1 / 2"
proof -
  have "of_int \<lfloor>x\<rfloor> \<le> x" "x < of_int \<lfloor>x\<rfloor> + 1" by linarith+
  then show ?thesis by (auto simp: roundEven_def Let_def)
qed

text \<open>Rounding moves a number by at most one part in \<open>2 ^ 53\<close>.\<close>

lemma double_near:
  assumes "0 < x"
  shows "\<bar>double x - x\<bar> \<le> x * (1 / 2 ^ 53)"
proof -
  let ?y = "x / ulp x"
  have u: "0 < ulp x" by simp
  have "double x - x = (of_int (roundEven ?y) - ?y) * ulp x"
    using u less_imp_neq [OF u] by (simp add: double_pos [OF assms] left_diff_distrib)
  then have "\<bar>double x - x\<bar> = \<bar>of_int (roundEven ?y) - ?y\<bar> * ulp x"
    using u abs_of_pos [OF u] by (simp only: abs_mult)
  also have "\<dots> \<le> 1 / 2 * ulp x"
    by (rule mult_right_mono [OF roundEven_near less_imp_le [OF u]])
  also have "\<dots> \<le> x * (1 / 2 ^ 53)"
    using significand(1) [OF assms] u by (simp add: pos_le_divide_eq)
  finally show ?thesis .
qed

lemma near_bounds:
  fixes x x' e :: rat
  assumes "\<bar>x' - x\<bar> \<le> x * e"
  shows "x * (1 - e) \<le> x'" and "x' \<le> x * (1 + e)"
  using assms by (simp_all add: abs_le_iff algebra_simps)

lemma factor_bounds:
  fixes e :: rat
  assumes "0 \<le> e" and "e \<le> 1 / 10"
  shows "(1 + e) / (1 - e) \<le> 1 + 5 / 2 * e" and "1 - 2 * e \<le> (1 - e) / (1 + e)"
    and "(1 + 5 / 2 * e) * (1 + e) \<le> 1 + 4 * e" and "1 - 4 * e \<le> (1 - 2 * e) * (1 - e)"
proof -
  have "e * e \<le> 1 / 10 * e" using assms by (intro mult_right_mono) simp_all
  moreover have "0 \<le> e * e" by simp
  ultimately have ee: "0 \<le> e * e" "e * e \<le> 1 / 10 * e" by simp_all
  have "1 + e \<le> (1 + 5 / 2 * e) * (1 - e)" using ee assms by (simp add: algebra_simps)
  then show "(1 + e) / (1 - e) \<le> 1 + 5 / 2 * e" using assms by (simp add: pos_divide_le_eq)
  have "(1 - 2 * e) * (1 + e) \<le> 1 - e" using ee assms by (simp add: algebra_simps)
  then show "1 - 2 * e \<le> (1 - e) / (1 + e)" using assms by (simp add: pos_le_divide_eq)
  show "(1 + 5 / 2 * e) * (1 + e) \<le> 1 + 4 * e" using ee assms by (simp add: algebra_simps)
  show "1 - 4 * e \<le> (1 - 2 * e) * (1 - e)" using ee assms by (simp add: algebra_simps)
qed

lemma quotient_near:
  fixes n d n' d' r e :: rat
  assumes "0 < n" "0 < d" and e: "0 \<le> e" "e \<le> 1 / 10"
    and "\<bar>n' - n\<bar> \<le> n * e" and "\<bar>d' - d\<bar> \<le> d * e" and "\<bar>r - n' / d'\<bar> \<le> n' / d' * e"
  shows "\<bar>r - n / d\<bar> \<le> n / d * (4 * e)"
proof -
  let ?p = "n / d" and ?q = "n' / d'"
  note nd = near_bounds [OF assms(5)] near_bounds [OF assms(6)] and r = near_bounds [OF assms(7)]
  note f = factor_bounds [OF e]
  have p: "0 \<le> ?p" using assms(1,2) by simp
  have d1: "0 < d * (1 - e)" using assms(2) e by simp
  then have d': "0 < d'" using nd(3) by linarith
  have "0 \<le> n * (1 - e)" using assms(1) e by simp
  then have n': "0 \<le> n'" using nd(1) by linarith
  have "?q \<le> n * (1 + e) / (d * (1 - e))"
    using nd(2,3) d1 assms(1) e(1) by (intro frac_le) simp_all
  also have "\<dots> = ?p * ((1 + e) / (1 - e))" by simp
  also have "\<dots> \<le> ?p * (1 + 5 / 2 * e)" using f(1) p by (rule mult_left_mono)
  finally have hi: "?q \<le> ?p * (1 + 5 / 2 * e)" .
  have "?p * (1 - 2 * e) \<le> ?p * ((1 - e) / (1 + e))" using f(2) p by (rule mult_left_mono)
  also have "\<dots> = n * (1 - e) / (d * (1 + e))" by simp
  also have "\<dots> \<le> ?q" using nd(1,4) d' n' by (intro frac_le) simp_all
  finally have lo: "?p * (1 - 2 * e) \<le> ?q" .
  have "?q * (1 + e) \<le> ?p * (1 + 5 / 2 * e) * (1 + e)" using hi by (rule mult_right_mono) (use e in simp)
  also have "\<dots> \<le> ?p * (1 + 4 * e)" using mult_left_mono [OF f(3) p] by (simp only: mult.assoc)
  finally have "r \<le> ?p * (1 + 4 * e)" using r(2) by linarith
  moreover have "?p * (1 - 4 * e) \<le> ?p * (1 - 2 * e) * (1 - e)"
    using mult_left_mono [OF f(4) p] by (simp only: mult.assoc)
  then have "?p * (1 - 4 * e) \<le> ?q * (1 - e)"
    using mult_right_mono [OF lo, of "1 - e"] e by linarith
  then have "?p * (1 - 4 * e) \<le> r" using r(1) by linarith
  ultimately show ?thesis by (simp only: abs_le_iff right_diff_distrib distrib_left) linarith
qed

lemma double_gt: "0 < x \<Longrightarrow> 0 < double x"
  using double_binade(1) [of x] zero_less_power_int [of "2::rat" "exponent x"] by linarith

lemma toNumber_small:
  assumes "0 \<le> n" and "n < 2 ^ 1023"
  shows "toNumber n = Finite (double (of_int n))"
proof -
  have rep: "double (2 powi 1023) = 2 powi 1023" using double_exact [of 1 1023] by simp
  have pw: "(2::rat) powi 1023 = of_int (2 ^ 1023)" by (simp add: power_int_def)
  have "of_int n \<le> (2::rat) powi 1023"
    unfolding pw using assms(2) by (simp only: of_int_le_iff)
  then have "double (of_int n) \<le> 2 powi 1023" using double_le_rep [OF _ _ rep] assms(1) by simp
  also have "(2::rat) powi 1023 < 2 powi 1024" by (intro power_int_strict_increasing) auto
  also have "(2::rat) powi 1024 = 2 ^ 1024" by (simp only: power_int_def) simp
  finally have "double (of_int n) < 2 ^ 1024" .
  moreover have "0 \<le> double (of_int n)" using assms(1) by (intro double_nonneg) simp
  ultimately show ?thesis by (simp only: toNumber_def Let_def abs_of_nonneg if_True)
qed

text \<open>The exact price, from the integers of the source.\<close>

lemma numerators:
  assumes "\<forall>b \<in> set bs. 0 < b"
  shows "k < length bs \<Longrightarrow> of_int (numeratorsOf bs ! k) = (of_int (prod_list bs) / of_int (bs ! k) :: rat)"
    and "of_int (sum_list (numeratorsOf bs)) = (of_int (prod_list bs) * (\<Sum>b\<leftarrow>bs. 1 / of_int b) :: rat)"
    and "0 < prod_list bs"
    and "n \<in> set (numeratorsOf bs) \<Longrightarrow> 0 < n"
proof -
  have dv: "b dvd prod_list bs" if "b \<in> set bs" for b using that by (rule prod_list_dvd)
  have q: "of_int (prod_list bs div b) = (of_int (prod_list bs) / of_int b :: rat)" if "b \<in> set bs" for b
    using dv [OF that] assms that by (auto elim!: dvdE)
  then show "k < length bs \<Longrightarrow> of_int (numeratorsOf bs ! k) = (of_int (prod_list bs) / of_int (bs ! k) :: rat)"
    by (simp add: numeratorsOf_def)
  have "of_int (sum_list (map (\<lambda>b. P div b) xs)) = (of_int P * (\<Sum>b\<leftarrow>xs. 1 / of_int b) :: rat)"
    if "\<forall>b \<in> set xs. of_int (P div b) = (of_int P / of_int b :: rat)" for xs P
    using that by (induction xs) (simp_all add: distrib_left)
  then show "of_int (sum_list (numeratorsOf bs)) = (of_int (prod_list bs) * (\<Sum>b\<leftarrow>bs. 1 / of_int b) :: rat)"
    using q by (simp add: numeratorsOf_def)
  show P: "0 < prod_list bs" using assms by (induction bs) auto
  show "n \<in> set (numeratorsOf bs) \<Longrightarrow> 0 < n"
    using dv P assms by (auto simp: numeratorsOf_def pos_imp_zdiv_pos_iff zdvd_imp_le)
qed

lemma price_quotient:
  assumes "\<forall>b \<in> set bs. 0 < b" and "k < length bs"
  shows "price bs k = of_int (numeratorsOf bs ! k) / of_int (sum_list (numeratorsOf bs))"
  using numerators [OF assms(1)] assms(2) by (simp add: price_def)

lemma price_le_one:
  assumes "\<forall>b \<in> set bs. 0 < b" and "k < length bs"
  shows "price bs k \<le> 1"
proof -
  have n: "numeratorsOf bs ! k \<in> set (numeratorsOf bs)" using assms(2) by (simp add: numeratorsOf_def)
  then have "numeratorsOf bs ! k \<le> sum_list (numeratorsOf bs)"
    using numerators(4) [OF assms(1)] by (intro member_le_sum_list) (auto simp: less_imp_le)
  moreover have "0 < numeratorsOf bs ! k" using numerators(4) [OF assms(1) n] .
  ultimately show ?thesis unfolding price_quotient [OF assms] by simp
qed

lemma probabilities_near:
  assumes pos: "\<forall>b \<in> set bs. 0 < b" and "sum_list (numeratorsOf bs) < 2 ^ 1023"
  obtains cs where "probabilities bs = Inr cs" "length cs = length bs"
    and "\<And>k. k < length bs \<Longrightarrow> \<exists>x. cs ! k = Finite x \<and> 0 \<le> x \<and> x \<le> 1
           \<and> \<bar>x - price bs k\<bar> \<le> price bs k * (4 * (1 / 2 ^ 53))"
proof
  let ?ns = "numeratorsOf bs" and ?D = "sum_list (numeratorsOf bs)"
  let ?cs = "map (\<lambda>n. divNumber (toNumber n) (toNumber ?D)) ?ns"
  have len: "length ?ns = length bs" by (simp add: numeratorsOf_def)
  show "probabilities bs = Inr ?cs"
    using pos by (auto simp: probabilities_def list_ex_iff Let_def)
  show "length ?cs = length bs" by (simp add: len)
  fix k
  assume k: "k < length bs"
  let ?n = "?ns ! k"
  have n: "0 < ?n" "?n \<le> ?D"
    using numerators(4) [OF pos, of ?n] member_le_sum_list [of ?n ?ns] numerators(4) [OF pos] k len
    by (auto simp: less_imp_le)
  let ?x = "double (of_int ?n)" and ?y = "double (of_int ?D)"
  have r: "0 < (of_int ?n :: rat)" "(of_int ?n :: rat) \<le> of_int ?D" "0 < (of_int ?D :: rat)"
    using n by simp_all
  have y: "0 < ?y" "?x \<le> ?y" "0 < ?x"
    using double_gt [OF r(3)] double_gt [OF r(1)] double_mono_nonneg [of "of_int ?n" "of_int ?D"] r
    by simp_all
  have e: "?cs ! k = Finite (divD ?x ?y)"
    using toNumber_small [of ?n] toNumber_small [of ?D] n assms(2) k len y by simp
  have q: "0 < ?x / ?y" "?x / ?y \<le> 1" using y by simp_all
  have "0 \<le> divD ?x ?y" "divD ?x ?y \<le> 1"
    using double_nonneg [of "?x / ?y"] double_le_rep [of "?x / ?y" 1] q by (simp_all add: divD_def)
  moreover have "\<bar>divD ?x ?y - price bs k\<bar> \<le> price bs k * (4 * (1 / 2 ^ 53))"
    unfolding price_quotient [OF pos k] divD_def
    by (rule quotient_near [OF r(1) r(3) _ _ double_near [OF r(1)] double_near [OF r(3)] double_near [OF q(1)]])
      simp_all
  ultimately show "\<exists>x. ?cs ! k = Finite x \<and> 0 \<le> x \<and> x \<le> 1
      \<and> \<bar>x - price bs k\<bar> \<le> price bs k * (4 * (1 / 2 ^ 53))" using e by blast
qed

section \<open>The recorded chances are the ones shown\<close>

lemma latestOf_newest: "\<forall>x \<in> set xs. laterChance y x \<Longrightarrow> latestOf (xs @ [y]) = Some y"
  by (induction xs) simp_all

lemma insertRow_free:
  assumes "tblInv t" and "rowId r = 0"
  shows "\<exists>t'. insertRow c noClash r t = Inr (auto_increment t, t')"
  using assms by (auto simp: insertRow_def Let_def list_ex_iff noClash_def tblInv_def)

definition chancesUpTo :: "int \<Rightarrow> db \<Rightarrow> bool" where
  "chancesUpTo now d \<longleftrightarrow> tblInv (outcome_chances d) \<and> (\<forall>r \<in> set (rows (outcome_chances d)). createTime r \<le> now)"

lemma recordChance_ok:
  assumes "chancesUpTo (ctx_now c) d" and "re_column e ch = Inr v"
  obtains d' where "recordChance c e psId supply (oc, Some (b, ch)) d = Inr d'" "chancesUpTo (ctx_now c) d'"
    and "latestChance (rowId oc) d' = v" and "\<And>i. i \<noteq> rowId oc \<Longrightarrow> latestChance i d' = latestChance i d"
proof -
  let ?r = "\<lparr>rowId = 0, status = ACTIVE, createTime = 0, updateTime = 0, createUser = None, updateUser = None,
      ch_outcome_id = rowId oc, ch_prediction_set_id = psId, ch_chance = v, ch_supply = b, ch_totalSupply = supply\<rparr>"
  let ?t = "outcome_chances d" and ?i = "auto_increment (outcome_chances d)"
  have inv: "tblInv ?t" using assms(1) by (simp add: chancesUpTo_def)
  obtain t where t: "insertRow c noClash ?r ?t = Inr (?i, t)"
    using insertRow_free [OF inv, of ?r c] by auto
  let ?n = "?r\<lparr>rowId := ?i, createUser := ctx_user c, updateUser := ctx_user c,
      createTime := ctx_now c, updateTime := ctx_now c\<rparr>"
  have rows: "rows t = rows ?t @ [?n]" by (rule insertRow_Inr(1) [OF t])
  have later: "\<forall>x \<in> set (filter P (rows ?t)). laterChance ?n x" for P
    using assms(1) by (auto simp: chancesUpTo_def tblInv_def laterChance_def)
  show thesis
  proof (rule that)
    show "recordChance c e psId supply (oc, Some (b, ch)) d = Inr (d\<lparr>outcome_chances := t\<rparr>)"
      using assms(2) t by (simp add: recordChance_def)
    show "chancesUpTo (ctx_now c) (d\<lparr>outcome_chances := t\<rparr>)"
      using assms(1) tblInv_insertRow [OF inv t] rows by (auto simp: chancesUpTo_def)
    show "latestChance (rowId oc) (d\<lparr>outcome_chances := t\<rparr>) = v"
      using latestOf_newest [OF later] by (simp add: latestChance_def rows)
    show "latestChance i (d\<lparr>outcome_chances := t\<rparr>) = latestChance i d" if "i \<noteq> rowId oc" for i
      using that by (simp add: latestChance_def rows)
  qed
qed

lemma recordChances_ok:
  assumes "chancesUpTo (ctx_now c) d" and "distinct (map (\<lambda>x. rowId (fst x)) xs)"
    and "\<forall>x \<in> set xs. \<exists>b ch. snd x = Some (b, ch) \<and> re_column e ch = Inr (shown x)"
  obtains d' where "recordChances c e psId supply xs d = (d', True)"
    and "\<And>x. x \<in> set xs \<Longrightarrow> latestChance (rowId (fst x)) d' = shown x"
    and "\<And>i. i \<notin> (\<lambda>x. rowId (fst x)) ` set xs \<Longrightarrow> latestChance i d' = latestChance i d"
  using assms
proof (induction xs arbitrary: d thesis)
  case Nil
  show ?case by (rule Nil.prems(1) [of d]) simp_all
next
  case (Cons x xs)
  obtain oc b ch where x: "x = (oc, Some (b, ch))" "re_column e ch = Inr (shown x)"
    using Cons.prems(4) by (cases x) auto
  obtain d1 where d1: "recordChance c e psId supply x d = Inr d1" "chancesUpTo (ctx_now c) d1"
      "latestChance (rowId oc) d1 = shown x" "\<And>i. i \<noteq> rowId oc \<Longrightarrow> latestChance i d1 = latestChance i d"
    using recordChance_ok [OF Cons.prems(2) x(2)] x(1) by metis
  obtain d' where d': "recordChances c e psId supply xs d1 = (d', True)"
      "\<And>y. y \<in> set xs \<Longrightarrow> latestChance (rowId (fst y)) d' = shown y"
      "\<And>i. i \<notin> (\<lambda>x. rowId (fst x)) ` set xs \<Longrightarrow> latestChance i d' = latestChance i d1"
    by (rule Cons.IH [OF _ d1(2)]) (use Cons.prems(3,4) in auto)
  show ?case
  proof (rule Cons.prems(1))
    show "recordChances c e psId supply (x # xs) d = (d', True)" using d1(1) d'(1) by simp
    have "latestChance (rowId oc) d' = shown x" using d'(3) [of "rowId oc"] d1(3) Cons.prems(3) x(1) by auto
    then show "latestChance (rowId (fst y)) d' = shown y" if "y \<in> set (x # xs)" for y
      using that d'(2) [of y] x(1) by (cases "y = x") auto
    show "latestChance i d' = latestChance i d" if "i \<notin> (\<lambda>x. rowId (fst x)) ` set (x # xs)" for i
      using that d'(3) [of i] d1(4) [of i] x(1) by auto
  qed
qed

lemma withAnswers_zip:
  assumes "length ys = length xs" and "length zs = length xs"
  shows "set (withAnswers xs (zip ys zs)) = {(xs ! k, Some (ys ! k, zs ! k)) | k. k < length xs}"
    and "map (\<lambda>x. f (fst x)) (withAnswers xs (zip ys zs)) = map f xs"
proof -
  show "set (withAnswers xs (zip ys zs)) = {(xs ! k, Some (ys ! k, zs ! k)) | k. k < length xs}"
    using assms by (auto simp: withAnswers_def)
  show "map (\<lambda>x. f (fst x)) (withAnswers xs (zip ys zs)) = map f xs"
    by (rule nth_equalityI) (simp_all add: withAnswers_def)
qed

lemma stored_near:
  fixes x y p a b h m :: rat
  assumes "\<bar>x - p\<bar> \<le> p * a" and "p \<le> 1" and "\<bar>y - x\<bar> \<le> h + b" and "0 \<le> a" and "a + b \<le> m"
  shows "\<bar>y - p\<bar> \<le> h + m"
  using mult_right_mono [OF assms(2,4)] assms(1,3,5) by simp

text \<open>
  C24: After a run of the chances worker every outcome of the market shows the price
  of the market maker: the stored chance differs from the exact quotient of the
  inverse balances by less than half a unit of the column's fourth decimal plus the
  rounding of the floating point arithmetic, whatever chances were stored before.
\<close>

theorem refreshed_chances_are_prices:
  assumes "populateById psId (prediction_sets d) = Inr (Some ps)"
    and "populateByPredictionSetId psId d = Some cd" and "cd_contractAddress cd = Some a"
    and "ocs = map fst (getOutcomes psId d)"
    and "mapR (\<lambda>oc. bigIntColumn (oc_positionId oc)) ocs = Inr ids"
    and "re_balanceOfBatch e (map (\<lambda>oc. Some a) ocs) ids = Inr bs" and "length bs = length ocs"
    and "\<forall>b \<in> set bs. 0 < b" and "sum_list (numeratorsOf bs) < 2 ^ 1023"
    and "\<And>x. 0 \<le> x \<Longrightarrow> x \<le> 1 \<Longrightarrow> \<exists>y. re_column e (Finite x) = Inr (Some y) \<and> \<bar>y - x\<bar> \<le> 1 / 20000 + 1 / 2 ^ 53"
    and "chancesUpTo (ctx_now c) d" and "tblInv (outcomes d)"
  shows "\<exists>d'. refreshExecutor c e psId d = (d', True) \<and> (\<forall>k < length ocs. \<exists>y.
    latestChance (rowId (ocs ! k)) d' = Some y \<and> \<bar>y - price bs k\<bar> \<le> 1 / 20000 + 1 / 2 ^ 50)"
proof (cases "bs = []")
  case True
  then show ?thesis using assms(1-7) by (simp add: refreshExecutor_def)
next
  case False
  obtain cs where cs: "probabilities bs = Inr cs" "length cs = length bs"
    and near: "\<And>k. k < length bs \<Longrightarrow> \<exists>x. cs ! k = Finite x \<and> 0 \<le> x \<and> x \<le> 1
           \<and> \<bar>x - price bs k\<bar> \<le> price bs k * (4 * (1 / 2 ^ 53))"
    using probabilities_near [OF assms(8,9)] by blast
  let ?xs = "withAnswers ocs (zip bs cs)"
  let ?shown = "\<lambda>x. case re_column e (snd (the (snd x))) of Inr v \<Rightarrow> v | Inl _ \<Rightarrow> None"
  have stored: "\<exists>y. re_column e (cs ! k) = Inr (Some y) \<and> \<bar>y - price bs k\<bar> \<le> 1 / 20000 + 1 / 2 ^ 50"
    if k: "k < length bs" for k
  proof -
    obtain x where x: "cs ! k = Finite x" "0 \<le> x" "x \<le> 1" "\<bar>x - price bs k\<bar> \<le> price bs k * (4 * (1 / 2 ^ 53))"
      using near [OF k] by blast
    obtain y where y: "re_column e (Finite x) = Inr (Some y)" "\<bar>y - x\<bar> \<le> 1 / 20000 + 1 / 2 ^ 53"
      using assms(10) [OF x(2,3)] by blast
    have "\<bar>y - price bs k\<bar> \<le> 1 / 20000 + 1 / 2 ^ 50"
      by (rule stored_near [OF x(4) price_le_one [OF assms(8) k] y(2)]) simp_all
    then show ?thesis using x(1) y(1) by auto
  qed
  have ids: "distinct (map rowId ocs)" using getOutcomes_ids(1) [OF assms(12)] assms(4) by simp
  have dist: "distinct (map (\<lambda>x. rowId (fst x)) ?xs)"
    using ids withAnswers_zip(2) [of bs ocs cs rowId] assms(7) cs(2) by simp
  have good: "\<forall>x \<in> set ?xs. \<exists>b ch. snd x = Some (b, ch) \<and> re_column e ch = Inr (?shown x)"
    using withAnswers_zip(1) [of bs ocs cs] assms(7) cs(2) stored by fastforce
  obtain d' where d': "recordChances c e psId (sum_list bs) ?xs d = (d', True)"
      "\<And>x. x \<in> set ?xs \<Longrightarrow> latestChance (rowId (fst x)) d' = ?shown x"
    using recordChances_ok [OF assms(11) dist good] by blast
  have "latestChance (rowId (ocs ! k)) d' = ?shown (ocs ! k, Some (bs ! k, cs ! k))" if "k < length ocs" for k
    using d'(2) [of "(ocs ! k, Some (bs ! k, cs ! k))"] withAnswers_zip(1) [of bs ocs cs] assms(7) cs(2) that by auto
  then have "\<forall>k < length ocs. \<exists>y. latestChance (rowId (ocs ! k)) d' = Some y \<and> \<bar>y - price bs k\<bar> \<le> 1 / 20000 + 1 / 2 ^ 50"
    using stored assms(7) by fastforce
  moreover have "refreshExecutor c e psId d = (d', True)"
    using assms(1-6) False cs(1) d'(1) by (simp add: refreshExecutor_def Let_def)
  ultimately show ?thesis by blast
qed

text \<open>A balance of zero, and an answer without balances, leave every stored chance as it is.\<close>

lemma refresh_zero_balance:
  assumes "populateById psId (prediction_sets d) = Inr (Some ps)"
    and "\<And>owners ids bs. re_balanceOfBatch e owners ids = Inr bs \<Longrightarrow> 0 \<in> set bs \<or> bs = []"
  shows "fst (refreshExecutor c e psId d) = d"
proof -
  have "list_ex (\<lambda>b. b = 0) bs \<or> bs = []" if "bindR x (re_balanceOfBatch e owners) = Inr bs" for x owners bs
    using that assms(2) by (auto simp: res_simps list_ex_iff)
  then show ?thesis using assms(1)
    by (auto simp: refreshExecutor_def Let_def probabilities_def split: sum.split)
qed

section \<open>Prices of the collateral tokens\<close>

text \<open>
  The price service answers with the entry of the token, if it knows the token; the
  column \<open>DECIMAL(16, 6)\<close> takes a price or throws.  A missing price stands as 0, the
  number that NULL counts as where prices are used.
\<close>

record price_env =
  pr_get :: "string \<Rightarrow> (exn, rat option option) res"
  pr_column :: "rat option \<Rightarrow> (exn, rat) res"
  pr_prod :: bool

definition getTokenPrice :: "price_env \<Rightarrow> string \<Rightarrow> (exn, rat option) res" where
  "getTokenPrice e tokenId = bindR (pr_get e tokenId) (\<lambda>data.
     requireR (JsError ''Token not found.'') data)"

definition usdToken :: "collateral_token \<Rightarrow> bool" where
  "usdToken t \<longleftrightarrow> startsWith (toLowerCase (co_symbol t)) ''usd''"

text \<open>The state keeps the database and the ids of the tokens that were reported.\<close>

definition checkLastUpdate :: "ctx \<Rightarrow> price_env \<Rightarrow> collateral_token \<Rightarrow> nat list" where
  "checkLastUpdate c e t = (if pr_prod e \<and> ctx_now c - updateTime t > 1 * 60 * 60 * 1000 then [rowId t] else [])"

definition updatePrice :: "ctx \<Rightarrow> price_env \<Rightarrow> collateral_token \<Rightarrow> db \<times> nat list \<Rightarrow> db \<times> nat list" where
  "updatePrice c e t s =
    (if usdToken t then s
     else (case bindR (getTokenPrice e (co_usdPriceId t)) (pr_column e) of
         Inr v \<Rightarrow> ((fst s)\<lparr>collateral_tokens := updateRow c (rowId t)
             (\<lambda>r. r\<lparr>status := status t, co_usdPrice := v, co_requiredVotingAmount := co_requiredVotingAmount t\<rparr>)
             (collateral_tokens (fst s))\<rparr>, snd s)
       | Inl err \<Rightarrow> (fst s, snd s @ checkLastUpdate c e t)))"

definition updateCollateralTokenUsdPrices :: "ctx \<Rightarrow> price_env \<Rightarrow> db \<Rightarrow> db \<times> nat list" where
  "updateCollateralTokenUsdPrices c e d = fold (updatePrice c e)
     (filter (\<lambda>t. status t \<noteq> DELETED) (rows (collateral_tokens d))) (d, [])"

definition priced :: "ctx \<Rightarrow> price_env \<Rightarrow> collateral_token \<Rightarrow> collateral_token" where
  "priced c e t = (if usdToken t \<or> status t = DELETED then t
     else (case bindR (getTokenPrice e (co_usdPriceId t)) (pr_column e) of
         Inr v \<Rightarrow> t\<lparr>co_usdPrice := v, updateUser := ctx_user c, updateTime := ctx_now c\<rparr>
       | Inl err \<Rightarrow> t))"

lemma rows_updatePrice:
  assumes "byId (rowId t) (collateral_tokens (fst s)) = Some t" and "status t \<noteq> DELETED"
  shows "byId i (collateral_tokens (fst (updatePrice c e t s)))
    = (if i = rowId t then Some (priced c e t) else byId i (collateral_tokens (fst s)))"
  using assms by (auto simp: updatePrice_def priced_def byId_updateRow split: sum.split)

text \<open>A token whose price is not answered keeps its price, and the others are still updated.\<close>

lemma token_prices:
  assumes "tblInv (collateral_tokens d)" and "t \<in> set (rows (collateral_tokens d))"
  shows "byId (rowId t) (collateral_tokens (fst (updateCollateralTokenUsdPrices c e d))) = Some (priced c e t)"
proof -
  have fold: "byId i (collateral_tokens (fst (fold (updatePrice c e) ts s)))
      = (case find (\<lambda>t. rowId t = i) ts of None \<Rightarrow> byId i (collateral_tokens (fst s)) | Some t \<Rightarrow> Some (priced c e t))"
    if "distinct (map rowId ts)" "\<forall>t \<in> set ts. byId (rowId t) (collateral_tokens (fst s)) = Some t \<and> status t \<noteq> DELETED"
    for ts s i
    using that
  proof (induction ts arbitrary: s)
    case (Cons t ts)
    let ?s = "updatePrice c e t s"
    have step: "byId j (collateral_tokens (fst ?s))
        = (if j = rowId t then Some (priced c e t) else byId j (collateral_tokens (fst s)))" for j
      using Cons.prems(2) by (intro rows_updatePrice) auto
    have ne: "rowId x \<noteq> rowId t" if "x \<in> set ts" for x
      using Cons.prems(1) that by (auto simp: image_iff)
    then have none: "find (\<lambda>x. rowId x = rowId t) ts = None" by (simp add: find_None_iff)
    have d: "distinct (map rowId ts)" using Cons.prems(1) by simp
    have rest: "\<forall>x \<in> set ts. byId (rowId x) (collateral_tokens (fst ?s)) = Some x \<and> status x \<noteq> DELETED"
      using Cons.prems(2) ne by (simp add: step)
    show ?case
    proof (cases "rowId t = i")
      case True
      then show ?thesis using Cons.IH [OF d rest] none step [of i] by simp
    next
      case False
      then show ?thesis using Cons.IH [OF d rest] step [of i] by (simp split: option.split)
    qed
  qed simp
  let ?live = "filter (\<lambda>t. status t \<noteq> DELETED) (rows (collateral_tokens d))"
  have live: "distinct (map rowId ?live)" "\<forall>t \<in> set ?live. byId (rowId t) (collateral_tokens d) = Some t \<and> status t \<noteq> DELETED"
    using assms(1) byId_distinct [OF assms(1)] by (auto simp: tblInv_def distinct_map_filter)
  have found: "find (\<lambda>x. rowId x = rowId t) ?live = (if status t = DELETED then None else Some t)"
  proof (cases "status t = DELETED")
    case True
    have "x = t" if "x \<in> set (rows (collateral_tokens d))" "rowId x = rowId t" for x
      using byId_distinct [OF assms(1) that(1)] byId_distinct [OF assms]
      unfolding that(2) by (rule option.inject [THEN iffD1, OF trans [OF sym]])
    then have "\<forall>x \<in> set ?live. rowId x \<noteq> rowId t"
      using True unfolding set_filter by blast
    then show ?thesis unfolding find_None_iff if_P [OF True] by blast
  next
    case False
    have "find (\<lambda>x. rowId x = rowId t) ?live = Some t"
      using assms False by (intro find_distinct_key [where k = rowId]) (simp_all add: tblInv_def distinct_map_filter)
    then show ?thesis using False by simp
  qed
  have "byId (rowId t) (collateral_tokens (fst (updateCollateralTokenUsdPrices c e d)))
      = (if status t = DELETED then byId (rowId t) (collateral_tokens d) else Some (priced c e t))"
    unfolding updateCollateralTokenUsdPrices_def fold [OF live(1), of "(d, [])", unfolded fst_conv, OF live(2)] found
    by (cases "status t = DELETED") (simp_all only: refl if_True if_False option.case)
  moreover have "priced c e t = t" if "status t = DELETED" using that by (simp add: priced_def)
  ultimately show ?thesis using byId_distinct [OF assms] by presburger
qed

section \<open>Markets the indexer is behind on\<close>

definition MAX_ALLOWED_BLOCK_DIFFERENCE :: int where "MAX_ALLOWED_BLOCK_DIFFERENCE = 50"

record behind =
  be_id :: nat
  be_lastProcessedBlock :: int
  be_difference :: int
  be_updateTime :: int

text \<open>One alarm and one log entry for every row of the query; the Slack call does not throw.\<close>

definition checkPredictionSets :: "int \<Rightarrow> db \<Rightarrow> behind list" where
  "checkPredictionSets currentBlock d = concat (map (\<lambda>ps.
     map (\<lambda>cd. \<lparr>be_id = rowId ps, be_lastProcessedBlock = cd_lastProcessedBlock cd,
         be_difference = currentBlock - cd_lastProcessedBlock cd, be_updateTime = updateTime cd\<rparr>)
       (filter (\<lambda>cd. cd_prediction_set_id cd = rowId ps \<and> status cd = ACTIVE \<and> cd_contractAddress cd \<noteq> None
           \<and> currentBlock - cd_lastProcessedBlock cd > MAX_ALLOWED_BLOCK_DIFFERENCE) (rows (chain_datas d))))
     (filter (\<lambda>ps. ps_setStatus ps \<in> {PS_ACTIVE, PS_FUNDING} \<and> status ps = ACTIVE) (rows (prediction_sets d))))"

text \<open>A market in voting or finalized is never reported, however far behind it is.\<close>

lemma alarms:
  "x \<in> set (checkPredictionSets currentBlock d) \<longleftrightarrow> (\<exists>ps cd. ps \<in> set (rows (prediction_sets d))
     \<and> cd \<in> set (rows (chain_datas d)) \<and> cd_prediction_set_id cd = rowId ps
     \<and> ps_setStatus ps \<in> {PS_ACTIVE, PS_FUNDING} \<and> status ps = ACTIVE \<and> status cd = ACTIVE
     \<and> cd_contractAddress cd \<noteq> None \<and> currentBlock - cd_lastProcessedBlock cd > MAX_ALLOWED_BLOCK_DIFFERENCE
     \<and> x = \<lparr>be_id = rowId ps, be_lastProcessedBlock = cd_lastProcessedBlock cd,
         be_difference = currentBlock - cd_lastProcessedBlock cd, be_updateTime = updateTime cd\<rparr>)"
  unfolding checkPredictionSets_def by (simp del: not_None_eq) blast

end
