(* ===== verification/Sql_Params.thy ===== *)
theory Sql_Params
  imports Local_Cache Types_Config
begin

text \<open>
  Named parameters of SQL statements (\<open>paramExecute\<close> of \<open>lib/database/mysql.ts\<close>): the
  query is cut into words, every word is searched for every name to find the order
  of the values, and every name is then replaced by a question mark.  Names are
  made of the characters of identifiers, as everywhere in the program, so the
  regular expressions match them as they are; \<open>i\<close> ignores the case of letters.
\<close>

section \<open>Values\<close>

text \<open>\<open>Sql_Object\<close> is a plain object, by its JSON text.\<close>

datatype sql_value =
  Sql_Null | Sql_Text string | Sql_Number int | Sql_Bool bool | Sql_Object string | Sql_Array "sql_value list"

definition boolText :: "bool \<Rightarrow> string" where
  "boolText b = (if b then ''true'' else ''false'')"

fun jsonValue :: "sql_value \<Rightarrow> string" where
  "jsonValue Sql_Null = ''null''"
| "jsonValue (Sql_Text s) = jsonString s"
| "jsonValue (Sql_Number n) = jsInt n"
| "jsonValue (Sql_Bool b) = boolText b"
| "jsonValue (Sql_Object json) = json"
| "jsonValue (Sql_Array vs) = ''['' @ joinWith '','' (map jsonValue vs) @ '']''"

fun joinValue :: "sql_value \<Rightarrow> string" where
  "joinValue Sql_Null = []"
| "joinValue (Sql_Text s) = s"
| "joinValue (Sql_Number n) = jsInt n"
| "joinValue (Sql_Bool b) = boolText b"
| "joinValue (Sql_Object json) = ''[object Object]''"
| "joinValue (Sql_Array vs) = joinWith '','' (map joinValue vs)"

definition sqlParamValue :: "sql_value \<Rightarrow> sql_value" where
  "sqlParamValue v = (case v of
      Sql_Object json \<Rightarrow> Sql_Text json
    | Sql_Array vs \<Rightarrow>
        (case vs of
           Sql_Object json # rest \<Rightarrow> Sql_Text (jsonValue (Sql_Array vs))
         | _ \<Rightarrow> if joinWith '','' (map joinValue vs) = [] then Sql_Null
               else Sql_Text (joinWith '','' (map joinValue vs)))
    | _ \<Rightarrow> v)"

section \<open>Matching\<close>

definition isWord :: "char \<Rightarrow> bool" where
  "isWord c \<longleftrightarrow> (let n = of_char c :: nat in 48 \<le> n \<and> n \<le> 57 \<or> 65 \<le> n \<and> n \<le> 90 \<or> n = 95 \<or> 97 \<le> n \<and> n \<le> 122)"

text \<open>\<open>split(/\n|\s/)\<close> cuts at every single blank.\<close>

fun splitBlanks :: "string \<Rightarrow> string list" where
  "splitBlanks [] = [[]]"
| "splitBlanks (c # cs) = (if isSpace c then [] # splitBlanks cs
     else (case splitBlanks cs of [] \<Rightarrow> [[c]] | w # ws \<Rightarrow> (c # w) # ws))"

text \<open>\<open>/@.*\b/\<close>: an at sign, and somewhere behind it the edge of a run of word characters.\<close>

definition mayHaveParam :: "string \<Rightarrow> bool" where
  "mayHaveParam w = list_ex isWord (dropWhile (\<lambda>c. c \<noteq> CHR ''@'') w)"

definition queryArray :: "string \<Rightarrow> string list" where
  "queryArray query = filter (\<lambda>w. w \<noteq> [] \<and> mayHaveParam w) (splitBlanks query)"

text \<open>\<open>@key\b\<close> at the front of a text, and anywhere in a word.\<close>

definition keyAt :: "string \<Rightarrow> string \<Rightarrow> bool" where
  "keyAt key s \<longleftrightarrow> startsWith (toLowerCase s) (toLowerCase (CHR ''@'' # key))
     \<and> (case drop (Suc (length key)) s of [] \<Rightarrow> True | c # _ \<Rightarrow> \<not> isWord c)"

fun wordMatches :: "string \<Rightarrow> string \<Rightarrow> bool" where
  "wordMatches key [] = False"
| "wordMatches key (c # cs) = (keyAt key (c # cs) \<or> wordMatches key cs)"

definition sqlParamValues :: "string \<Rightarrow> (string \<times> sql_value) list \<Rightarrow> sql_value list" where
  "sqlParamValues query values = concat (map (\<lambda>w.
     concat (map (\<lambda>(key, v). if wordMatches key w then [sqlParamValue v] else []) values)) (queryArray query))"

function replaceKey :: "string \<Rightarrow> string \<Rightarrow> string" where
  "replaceKey key [] = []"
| "replaceKey key (c # cs) =
    (if keyAt key (c # cs) then CHR ''?'' # replaceKey key (drop (length key) cs) else c # replaceKey key cs)"
  by pat_completeness auto
termination by (relation "measure (\<lambda>(key, s). length s)") auto

definition prepare :: "string \<Rightarrow> (string \<times> sql_value) list \<Rightarrow> string \<times> sql_value list" where
  "prepare query values = (fold (\<lambda>(key, v). replaceKey key) values query, sqlParamValues query values)"

text \<open>
  The execution.  Without a connection of its own a statement takes one from the
  pool and gives it back when it has succeeded.
\<close>

definition paramExecute ::
  "(string \<times> sql_value list \<Rightarrow> (exn, 'r list) res) \<Rightarrow> bool \<Rightarrow> string \<Rightarrow> (string \<times> sql_value) list option \<Rightarrow> nat
    \<Rightarrow> (exn, 'r list) res \<times> nat" where
  "paramExecute execute connection query values free =
    (case execute (case values of None \<Rightarrow> (query, []) | Some vs \<Rightarrow> prepare query vs) of
       Inr rs \<Rightarrow> (Inr rs, free)
     | Inl e \<Rightarrow> (Inl e, if connection then free else free - 1))"

section \<open>One scan\<close>

text \<open>
  What it is meant to compute: read the query once from left to right; an at sign
  with a run of word characters behind it is a parameter.
\<close>

datatype token = Chr char | Par string

function scan :: "string \<Rightarrow> token list" where
  "scan [] = []"
| "scan (c # cs) = (if c = CHR ''@'' \<and> takeWhile isWord cs \<noteq> []
     then Par (takeWhile isWord cs) # scan (dropWhile isWord cs) else Chr c # scan cs)"
  by pat_completeness auto
termination by (relation "measure length") (auto simp: le_imp_less_Suc length_dropWhile_le)

lemma scan_par: "c = CHR ''@'' \<and> takeWhile isWord cs \<noteq> [] \<Longrightarrow>
    scan (c # cs) = Par (takeWhile isWord cs) # scan (dropWhile isWord cs)"
  by (subst scan.simps) (rule if_P)

lemma scan_chr: "\<not> (c = CHR ''@'' \<and> takeWhile isWord cs \<noteq> []) \<Longrightarrow> scan (c # cs) = Chr c # scan cs"
  by (subst scan.simps) (rule if_not_P)

definition textOfTokens :: "token list \<Rightarrow> string" where
  "textOfTokens ts = concat (map (\<lambda>t. case t of Chr c \<Rightarrow> [c] | Par n \<Rightarrow> CHR ''@'' # n) ts)"

definition parNames :: "token list \<Rightarrow> string list" where
  "parNames ts = concat (map (\<lambda>t. case t of Chr c \<Rightarrow> [] | Par n \<Rightarrow> [n]) ts)"

definition valueOf :: "(string \<times> sql_value) list \<Rightarrow> string \<Rightarrow> sql_value option" where
  "valueOf values n = map_of (map (\<lambda>(key, v). (toLowerCase key, v)) values) (toLowerCase n)"

definition bindOnce :: "string \<Rightarrow> (string \<times> sql_value) list \<Rightarrow> string \<times> sql_value list" where
  "bindOnce query values =
    (textOfTokens (map (\<lambda>t. case t of Par n \<Rightarrow> if valueOf values n = None then t else Chr CHR ''?'' | _ \<Rightarrow> t) (scan query)),
     map sqlParamValue (List.map_filter (valueOf values) (parNames (scan query))))"

section \<open>Names and tokens\<close>

definition wordKey :: "string \<Rightarrow> bool" where
  "wordKey key \<longleftrightarrow> key \<noteq> [] \<and> list_all isWord key"

lemma lowerChar_at [simp]: "lowerChar c = CHR ''@'' \<longleftrightarrow> c = CHR ''@''"
proof -
  have "char_of (of_char c + 32 :: nat) \<noteq> CHR ''@''" if "65 \<le> (of_char c :: nat)" "(of_char c :: nat) \<le> 90"
  proof
    assume "char_of (of_char c + 32 :: nat) = CHR ''@''"
    then have "of_char (char_of (of_char c + 32 :: nat)) = (64::nat)" by simp
    then show False using that by simp
  qed
  moreover have "lowerChar CHR ''@'' = CHR ''@''" by code_simp
  ultimately show ?thesis by (auto simp: lowerChar_def Let_def split: if_splits)
qed

lemma isWord_lowerChar [simp]: "isWord (lowerChar c) = isWord c"
proof (cases "65 \<le> (of_char c :: nat) \<and> (of_char c :: nat) \<le> 90")
  case True
  then have "of_char (lowerChar c) = (of_char c + 32 :: nat)" by (simp add: lowerChar_def)
  then show ?thesis using True by (auto simp: isWord_def Let_def)
next
  case False
  then have "lowerChar c = c" by (auto simp: lowerChar_def Let_def)
  then show ?thesis by simp
qed

lemma not_word [simp]: "\<not> isWord CHR ''@''" "\<not> isWord CHR ''?''"
  by code_simp+

lemma isSpace_not_word: "isSpace c \<Longrightarrow> \<not> isWord c \<and> c \<noteq> CHR ''@''"
  by (auto simp: isSpace_def isWord_def)

lemma length_toLowerCase [simp]: "length (toLowerCase s) = length s"
  by (simp add: toLowerCase_def)

lemma words_toLowerCase: "toLowerCase s = toLowerCase t \<Longrightarrow> list_all isWord s = list_all isWord t"
proof -
  have "list_all isWord (toLowerCase u) = list_all isWord u" for u by (simp add: toLowerCase_def list.pred_map comp_def)
  then show "toLowerCase s = toLowerCase t \<Longrightarrow> list_all isWord s = list_all isWord t" by metis
qed

text \<open>The pattern of a name matches at an at sign whose run of word characters is the name.\<close>

lemma keyAt_iff:
  assumes "wordKey key"
  shows "keyAt key (c # cs) \<longleftrightarrow> c = CHR ''@'' \<and> toLowerCase (takeWhile isWord cs) = toLowerCase key"
proof
  let ?n = "length key"
  assume k: "keyAt key (c # cs)"
  then obtain t where t: "toLowerCase (c # cs) = toLowerCase (CHR ''@'' # key) @ t"
    by (auto simp: keyAt_def startsWith_iff)
  have c: "c = CHR ''@''" using t lowerChar_at [of c] lowerChar_at [of "CHR ''@''"] by (simp add: toLowerCase_def)
  have "toLowerCase cs = toLowerCase key @ t" using t by (simp add: toLowerCase_def)
  then have "take ?n (toLowerCase cs) = toLowerCase key" by (metis append_eq_conv_conj length_toLowerCase)
  then have k': "toLowerCase (take ?n cs) = toLowerCase key" by (simp add: toLowerCase_def take_map)
  then have w: "list_all isWord (take ?n cs)" using assms words_toLowerCase by (metis wordKey_def)
  have "case drop ?n cs of [] \<Rightarrow> True | x # _ \<Rightarrow> \<not> isWord x" using k by (simp add: keyAt_def)
  then have "takeWhile isWord (drop ?n cs) = []" by (cases "drop ?n cs") auto
  then have "takeWhile isWord (take ?n cs @ drop ?n cs) = take ?n cs"
    using w by (simp add: takeWhile_append2 list_all_iff del: append_take_drop_id)
  then have "takeWhile isWord cs = take ?n cs" by simp
  then show "c = CHR ''@'' \<and> toLowerCase (takeWhile isWord cs) = toLowerCase key" using c k' by simp
next
  assume a: "c = CHR ''@'' \<and> toLowerCase (takeWhile isWord cs) = toLowerCase key"
  let ?w = "takeWhile isWord cs"
  have len: "length ?w = length key" using a length_toLowerCase by metis
  have "cs = ?w @ dropWhile isWord cs" by simp
  then have "toLowerCase cs = toLowerCase key @ toLowerCase (dropWhile isWord cs)"
    using a by (metis map_append toLowerCase_def)
  then have "startsWith (toLowerCase (c # cs)) (toLowerCase (CHR ''@'' # key))"
    using a by (auto simp: startsWith_iff toLowerCase_def)
  moreover have "drop (length key) cs = dropWhile isWord cs" using len by (metis dropWhile_eq_drop)
  then have "case drop (Suc (length key)) (c # cs) of [] \<Rightarrow> True | x # _ \<Rightarrow> \<not> isWord x"
    using hd_dropWhile [of isWord cs] by (cases "dropWhile isWord cs") auto
  ultimately show "keyAt key (c # cs)" by (simp add: keyAt_def)
qed

lemma keyAt_word: "wordKey key \<Longrightarrow> isWord c \<Longrightarrow> \<not> keyAt key (c # cs)"
  by (auto simp: keyAt_iff)

fun normal :: "token list \<Rightarrow> bool" where
  "normal [] = True"
| "normal (Par n # ts) = (wordKey n \<and> (case ts of Chr c # _ \<Rightarrow> \<not> isWord c | _ \<Rightarrow> True) \<and> normal ts)"
| "normal (Chr c # ts) = ((c = CHR ''@'' \<longrightarrow> (case ts of Chr c' # _ \<Rightarrow> \<not> isWord c' | _ \<Rightarrow> True)) \<and> normal ts)"

lemma textOfTokens_simps [simp]:
  "textOfTokens [] = []" "textOfTokens (Chr c # ts) = c # textOfTokens ts"
  "textOfTokens (Par n # ts) = CHR ''@'' # n @ textOfTokens ts"
  by (simp_all add: textOfTokens_def)

lemma parNames_simps [simp]:
  "parNames [] = []" "parNames (Chr c # ts) = parNames ts" "parNames (Par n # ts) = n # parNames ts"
  by (simp_all add: parNames_def)

lemma textOfTokens_scan [simp]: "textOfTokens (scan s) = s"
  by (induction s rule: scan.induct) simp_all

lemma scan_front:
  assumes "takeWhile isWord s = []"
  shows "case scan s of Chr c # _ \<Rightarrow> \<not> isWord c | _ \<Rightarrow> True"
proof (cases s)
  case (Cons c cs)
  then have "\<not> isWord c" using assms by (auto split: if_splits)
  then show ?thesis using Cons by simp
qed simp

lemma takeWhile_dropWhile: "takeWhile P (dropWhile P xs) = []"
  by (induction xs) simp_all

lemma normal_scan: "normal (scan s)"
proof (induction s rule: scan.induct)
  case (2 c cs)
  show ?case
  proof (cases "c = CHR ''@'' \<and> takeWhile isWord cs \<noteq> []")
    case True
    then show ?thesis
      using 2(1) [OF True] scan_front [OF takeWhile_dropWhile] set_takeWhileD [of _ isWord cs]
      by (auto simp: wordKey_def list_all_iff)
  next
    case False
    then show ?thesis using 2(2) [OF False] scan_front [of cs] by auto
  qed
qed simp

text \<open>Replacing a name replaces its tokens.\<close>

definition marked :: "string \<Rightarrow> token \<Rightarrow> token" where
  "marked key t = (case t of Par n \<Rightarrow> if toLowerCase n = toLowerCase key then Chr CHR ''?'' else t | _ \<Rightarrow> t)"

lemma marked_simps [simp]:
  "marked key (Chr c) = Chr c"
  "marked key (Par n) = (if toLowerCase n = toLowerCase key then Chr CHR ''?'' else Par n)"
  by (simp_all add: marked_def)

lemma replaceKey_words:
  assumes "wordKey key" and "list_all isWord w"
  shows "replaceKey key (w @ s) = w @ replaceKey key s"
  using assms(2) by (induction w) (simp_all add: keyAt_word [OF assms(1)])

lemma normal_front:
  assumes "normal ts" and "case ts of Chr c # _ \<Rightarrow> \<not> isWord c | _ \<Rightarrow> True"
  shows "takeWhile isWord (textOfTokens ts) = []"
  using assms by (cases ts rule: normal.cases) auto

lemma normal_marked: "normal ts \<Longrightarrow> normal (map (marked key) ts)"
proof -
  have front: "case map (marked key) ts of Chr c # _ \<Rightarrow> \<not> isWord c | _ \<Rightarrow> True"
    if "case ts of Chr c # _ \<Rightarrow> \<not> isWord c | _ \<Rightarrow> True" for ts
    using that by (cases ts rule: normal.cases) auto
  show "normal ts \<Longrightarrow> normal (map (marked key) ts)"
  proof (induction ts rule: normal.induct)
    case (2 n ts)
    then show ?case using front [of ts] by (cases "map (marked key) ts" rule: normal.cases) auto
  next
    case (3 c ts)
    then show ?case using front [of ts] by (cases "map (marked key) ts" rule: normal.cases) auto
  qed simp
qed

lemma replaceKey_tokens:
  assumes "wordKey key" and "normal ts"
  shows "replaceKey key (textOfTokens ts) = textOfTokens (map (marked key) ts)"
  using assms(2)
proof (induction ts rule: normal.induct)
  case (2 n ts)
  have n: "list_all isWord n" "n \<noteq> []" using 2(2) by (simp_all add: wordKey_def)
  have "takeWhile isWord (textOfTokens ts) = []" using 2(2) by (intro normal_front) auto
  then have w: "takeWhile isWord (n @ textOfTokens ts) = n" using n(1) by (simp add: takeWhile_append2 list_all_iff)
  show ?case
  proof (cases "toLowerCase n = toLowerCase key")
    case True
    then have "length n = length key" by (metis length_toLowerCase)
    then show ?thesis using True 2 w by (simp add: keyAt_iff [OF assms(1)])
  next
    case False
    then show ?thesis using 2 w by (simp add: keyAt_iff [OF assms(1)] replaceKey_words [OF assms(1) n(1)])
  qed
next
  case (3 c ts)
  have "\<not> keyAt key (c # textOfTokens ts)"
  proof
    assume k: "keyAt key (c # textOfTokens ts)"
    then have "c = CHR ''@''" by (simp add: keyAt_iff [OF assms(1)])
    then have "takeWhile isWord (textOfTokens ts) = []" using 3(2) by (intro normal_front) auto
    then have "toLowerCase [] = toLowerCase key" using k by (simp add: keyAt_iff [OF assms(1)])
    then have "key = []" by (simp add: toLowerCase_def)
    then show False using assms(1) by (simp add: wordKey_def)
  qed
  then show ?case using 3 by simp
qed simp

definition known :: "(string \<times> sql_value) list \<Rightarrow> string \<Rightarrow> bool" where
  "known vs n \<longleftrightarrow> (\<exists>x \<in> set vs. toLowerCase n = toLowerCase (fst x))"

definition markedAll :: "(string \<times> sql_value) list \<Rightarrow> token \<Rightarrow> token" where
  "markedAll vs t = (case t of Par n \<Rightarrow> if known vs n then Chr CHR ''?'' else t | _ \<Rightarrow> t)"

lemma markedAll_Cons: "markedAll vs (marked (fst x) t) = markedAll (x # vs) t"
  by (cases t) (simp_all add: markedAll_def known_def)

lemma replaceKeys_tokens:
  assumes "\<forall>x \<in> set vs. wordKey (fst x)" and "normal ts"
  shows "fold (\<lambda>(key, v). replaceKey key) vs (textOfTokens ts) = textOfTokens (map (markedAll vs) ts)"
  using assms
proof (induction vs arbitrary: ts)
  case Nil
  have "markedAll [] t = t" for t by (cases t) (simp_all add: markedAll_def known_def)
  then show ?case by simp
next
  case (Cons x vs)
  have "fold (\<lambda>(key, v). replaceKey key) (x # vs) (textOfTokens ts)
      = fold (\<lambda>(key, v). replaceKey key) vs (textOfTokens (map (marked (fst x)) ts))"
    using Cons.prems by (cases x) (simp add: replaceKey_tokens)
  also have "\<dots> = textOfTokens (map (markedAll vs) (map (marked (fst x)) ts))"
    using Cons.prems by (intro Cons.IH) (simp_all add: normal_marked)
  also have "\<dots> = textOfTokens (map (markedAll (x # vs)) ts)" by (simp add: comp_def markedAll_Cons)
  finally show ?case .
qed

section \<open>Names and words\<close>

lemma wordMatches_words:
  assumes "wordKey key" and "list_all isWord w"
  shows "wordMatches key (w @ s) = wordMatches key s"
  using assms(2) by (induction w) (simp_all add: keyAt_word [OF assms(1)])

lemma wordMatches_iff:
  assumes "wordKey key"
  shows "wordMatches key w \<longleftrightarrow> (\<exists>n \<in> set (parNames (scan w)). toLowerCase n = toLowerCase key)"
proof (induction w rule: scan.induct)
  case (2 c cs)
  show ?case
  proof (cases "c = CHR ''@'' \<and> takeWhile isWord cs \<noteq> []")
    case True
    have "list_all isWord (takeWhile isWord cs)" by (auto simp: list_all_iff dest: set_takeWhileD)
    then have "wordMatches key cs = wordMatches key (dropWhile isWord cs)"
      using wordMatches_words [OF assms, of "takeWhile isWord cs" "dropWhile isWord cs"] by simp
    then show ?thesis using True 2(1) [OF True] by (auto simp: keyAt_iff [OF assms])
  next
    case False
    have "toLowerCase key \<noteq> []" using assms by (simp add: toLowerCase_def wordKey_def)
    then have "\<not> keyAt key (c # cs)" using False by (auto simp: keyAt_iff [OF assms] toLowerCase_def)
    then show ?thesis using False 2(2) [OF False] by auto
  qed
qed simp

lemma parNames_blank:
  assumes "isSpace c"
  shows "parNames (scan (w @ c # s)) = parNames (scan w) @ parNames (scan s)"
proof (induction w rule: scan.induct)
  case 1
  then show ?case using isSpace_not_word [OF assms] by simp
next
  case (2 x xs)
  have t: "takeWhile isWord (xs @ c # s) = takeWhile isWord xs" "dropWhile isWord (xs @ c # s) = dropWhile isWord xs @ c # s"
    using isSpace_not_word [OF assms] by (induction xs) simp_all
  show ?case
  proof (cases "x = CHR ''@'' \<and> takeWhile isWord xs \<noteq> []")
    case True
    then show ?thesis using 2(1) [OF True] t scan_par [OF True] scan_par [of x "xs @ c # s"] by simp
  next
    case False
    then have f: "\<not> (x = CHR ''@'' \<and> takeWhile isWord (xs @ c # s) \<noteq> [])" using t by simp
    show ?thesis using 2(2) [OF False] scan_chr [OF False] scan_chr [OF f] by simp
  qed
qed

lemma splitBlanks_Nil [simp]: "splitBlanks s \<noteq> []"
  by (cases s) (auto split: list.split)

lemma parNames_split:
  "parNames (scan (p @ s)) = concat (map (\<lambda>w. parNames (scan w)) ((p @ hd (splitBlanks s)) # tl (splitBlanks s)))"
proof (induction s arbitrary: p)
  case (Cons c s)
  show ?case
  proof (cases "isSpace c")
    case True
    have "parNames (scan s) = concat (map (\<lambda>w. parNames (scan w)) (hd (splitBlanks s) # tl (splitBlanks s)))"
      using Cons [of "[]"] by simp
    moreover have "hd (splitBlanks s) # tl (splitBlanks s) = splitBlanks s" by simp
    ultimately show ?thesis using True by (simp add: parNames_blank)
  next
    case False
    then show ?thesis using Cons [of "p @ [c]"] by (cases "splitBlanks s") simp_all
  qed
qed simp

lemma mayHaveParam_names: "parNames (scan w) \<noteq> [] \<Longrightarrow> mayHaveParam w"
proof (induction w rule: scan.induct)
  case (2 c cs)
  show ?case
  proof (cases "c = CHR ''@'' \<and> takeWhile isWord cs \<noteq> []")
    case True
    then have "list_ex isWord cs" by (cases cs) (auto split: if_splits)
    then show ?thesis using True by (simp add: mayHaveParam_def)
  next
    case False
    then have "mayHaveParam cs" using 2(2) [OF False] 2(3) scan_chr [OF False] by simp
    then show ?thesis
      by (auto simp: mayHaveParam_def list_ex_iff dest: set_dropWhileD)
  qed
qed simp

section \<open>Every placeholder gets its value\<close>

lemma valueOf_known: "valueOf vs n = None \<longleftrightarrow> \<not> known vs n"
  by (induction vs) (auto simp: valueOf_def known_def)

lemma pushed_values:
  assumes "distinct (map (\<lambda>x. toLowerCase (fst x)) vs)"
  shows "concat (map (\<lambda>(key, v). if toLowerCase n = toLowerCase key then [sqlParamValue v] else []) vs)
    = (case valueOf vs n of None \<Rightarrow> [] | Some v \<Rightarrow> [sqlParamValue v])"
  using assms
proof (induction vs)
  case (Cons x vs)
  show ?case
  proof (cases "toLowerCase n = toLowerCase (fst x)")
    case True
    then have "\<not> known vs n" using Cons.prems by (force simp: known_def)
    then have "concat (map (\<lambda>(key, v). if toLowerCase n = toLowerCase key then [sqlParamValue v] else []) vs) = []"
      using Cons valueOf_known [of vs n] by simp
    then show ?thesis using True by (cases x) (simp add: valueOf_def)
  next
    case False
    then show ?thesis using Cons by (cases x) (simp add: valueOf_def)
  qed
qed (simp add: valueOf_def)

lemma word_values:
  assumes "\<forall>x \<in> set vs. wordKey (fst x)" and "distinct (map (\<lambda>x. toLowerCase (fst x)) vs)"
    and "length (parNames (scan w)) \<le> 1"
  shows "concat (map (\<lambda>(key, v). if wordMatches key w then [sqlParamValue v] else []) vs)
    = map sqlParamValue (List.map_filter (valueOf vs) (parNames (scan w)))"
proof -
  have m: "wordMatches (fst x) w \<longleftrightarrow> (\<exists>n \<in> set (parNames (scan w)). toLowerCase n = toLowerCase (fst x))" if "x \<in> set vs" for x
    using that assms(1) wordMatches_iff by blast
  have c: "concat (map (\<lambda>(key, v). if wordMatches key w then [sqlParamValue v] else []) vs)
      = concat (map (\<lambda>(key, v). if \<exists>n \<in> set (parNames (scan w)). toLowerCase n = toLowerCase key then [sqlParamValue v] else []) vs)"
    by (intro arg_cong [of _ _ concat] map_cong refl) (use m in auto)
  consider "parNames (scan w) = []" | n where "parNames (scan w) = [n]"
    using assms(3) by (cases "parNames (scan w)") auto
  then show ?thesis
  proof cases
    case 1
    have "concat (map (\<lambda>(key, v). []) xs) = []" for xs :: "(string \<times> sql_value) list" by (induction xs) auto
    then show ?thesis using 1 unfolding c by (simp add: List.map_filter_def)
  next
    case 2
    then show ?thesis using pushed_values [OF assms(2)] unfolding c
      by (simp add: List.map_filter_def split: option.split)
  qed
qed

text \<open>
  C26: Every parameter of a statement gets its own value: when no two parameters
  stand in one word and the names differ in more than their case, cutting the query
  into words and replacing one name after the other gives the text and the values
  that one scan from left to right gives, so the values are in the order of the
  question marks, whatever the order of the names and the values, and a text inside
  a value is never read as a parameter.
\<close>

theorem parameters_bound_in_order:
  assumes "\<forall>x \<in> set vs. wordKey (fst x)" and "distinct (map (\<lambda>x. toLowerCase (fst x)) vs)"
    and "\<forall>w \<in> set (splitBlanks query). length (parNames (scan w)) \<le> 1"
  shows "prepare query vs = bindOnce query vs"
proof -
  have "fold (\<lambda>(key, v). replaceKey key) vs query = textOfTokens (map (markedAll vs) (scan query))"
    using replaceKeys_tokens [OF assms(1) normal_scan, of query] by simp
  moreover have "markedAll vs = (\<lambda>t. case t of Par n \<Rightarrow> if valueOf vs n = None then t else Chr CHR ''?'' | _ \<Rightarrow> t)"
    by (rule ext) (simp add: markedAll_def valueOf_known split: token.split)
  ultimately have rewritten: "fst (prepare query vs) = fst (bindOnce query vs)"
    by (simp add: prepare_def bindOnce_def)
  let ?f = "\<lambda>w. concat (map (\<lambda>(key, v). if wordMatches key w then [sqlParamValue v] else []) vs)"
  have skip: "?f w = []" if "w \<in> set (splitBlanks query)" "\<not> (w \<noteq> [] \<and> mayHaveParam w)" for w
  proof -
    have "parNames (scan w) = []" using that(2) mayHaveParam_names by (cases "w = []") auto
    then show ?thesis using word_values [OF assms(1,2)] assms(3) that(1) by (simp add: List.map_filter_def)
  qed
  have filt: "concat (map ?f (filter P ws)) = concat (map ?f ws)" if "\<forall>w \<in> set ws. \<not> P w \<longrightarrow> ?f w = []" for P ws
    using that by (induction ws) auto
  have "sqlParamValues query vs = concat (map ?f (splitBlanks query))"
    unfolding sqlParamValues_def queryArray_def using skip by (intro filt) blast
  also have "\<dots> = concat (map (\<lambda>w. map sqlParamValue (List.map_filter (valueOf vs) (parNames (scan w)))) (splitBlanks query))"
    using word_values [OF assms(1,2)] assms(3) by (intro arg_cong [of _ _ concat] map_cong refl) blast
  also have "\<dots> = map sqlParamValue (List.map_filter (valueOf vs) (concat (map (\<lambda>w. parNames (scan w)) (splitBlanks query))))"
    by (simp add: map_concat List.map_filter_def filter_concat comp_def)
  also have "concat (map (\<lambda>w. parNames (scan w)) (splitBlanks query)) = parNames (scan query)"
    using parNames_split [of "[]" query] by (metis append_Nil list.collapse splitBlanks_Nil)
  finally have "snd (prepare query vs) = snd (bindOnce query vs)" by (simp add: prepare_def bindOnce_def)
  with rewritten show ?thesis by (simp add: prod_eq_iff)
qed

text \<open>
  Two parameters in one word are pushed in the order of the names, and a name that
  stands twice in a word is pushed once: the values then miss their question marks.
\<close>

lemma swapped_in_a_word:
  "prepare ''(@b,@a)'' [(''a'', Sql_Number 1), (''b'', Sql_Number 2)] = (''(?,?)'', [Sql_Number 1, Sql_Number 2])"
  "prepare ''(@a,@a)'' [(''a'', Sql_Number 1)] = (''(?,?)'', [Sql_Number 1])"
  by code_simp+

text \<open>A statement that fails without a connection of its own keeps the one it took.\<close>

lemma failed_statement_leaks:
  "execute (case vs of None \<Rightarrow> (query, []) | Some vs \<Rightarrow> prepare query vs) = Inl e \<Longrightarrow>
   paramExecute execute False query vs (Suc free) = (Inl e, free)"
  by (simp add: paramExecute_def)

end
