(* ===== verification/Witnesses_Proxy.thy ===== *)
theory Witnesses_Proxy
  imports Examples Api_Keys Market_Workers Sql_Params
begin

text \<open>
  Closed instances of the properties about the API proxy and the workers that keep
  markets up to date.
\<close>

section \<open>The local cache\<close>

definition exAnswer :: response where
  "exAnswer = \<lparr>pr_statusCode = 200, pr_body = ''ok''\<rparr>"

definition exLimits :: cache_limits where
  "exLimits = \<lparr>li_ttl = 30, li_maxEntries = 1, li_maxResponse = 100, li_maxMemory = 100\<rparr>"

theorem local_cache_bounded_witness:
  "length (lc_entries (cacheRun exLimits [Store 0 ''a'' exAnswer, Store 5 ''b'' exAnswer, Lookup 6 ''a''])) \<le> 1"
proof -
  let ?ops = "[Store 0 ''a'' exAnswer, Store 5 ''b'' exAnswer, Lookup 6 ''a'']"
  have "0 \<le> li_maxMemory exLimits" "1 \<le> li_maxEntries exLimits" "\<forall>q \<in> set ?ops. opKey q \<noteq> []"
    by (simp_all add: exLimits_def)
  from local_cache_bounded [OF this] show ?thesis by (simp add: exLimits_def)
qed

theorem local_cache_is_lru_witness:
  "recency (setCachedResponse exLimits 0 ''a'' exAnswer emptyCache)
     = lruStore exLimits 0 ''a'' exAnswer (recency emptyCache)"
proof -
  have "exact emptyCache" by (simp add: exact_def keyed_def emptyCache_def)
  from local_cache_is_lru [OF this, of "''a''"] show ?thesis by (simp add: emptyCache_def)
qed

section \<open>The shared cache\<close>

definition exWait :: wait_env where
  "exWait = \<lparr>we_shared = (\<lambda>t. if t > 900 then Some exAnswer else None), we_local = (\<lambda>t. None),
     we_random = (\<lambda>i. 1 / 2), we_late = (\<lambda>i. 3)\<rparr>"


definition exSystem :: lock_system where
  "exSystem = \<lparr>ls_now = 1000, ls_row = None, ls_holders = [], ls_stored = []\<rparr>"

lemma exSystem_run:
  "\<exists>s. (lock_step 30 ''k'')\<^sup>*\<^sup>* exSystem s \<and> ls_stored s = [(exAnswer, 1000)]
     \<and> getResultFromMysql True None (ls_now s) ''k'' (tableOf (ls_row s)) = Some exAnswer"
proof -
  let ?a = "\<lparr>la_now = 1000, la_token = ''t'', la_insert = None, la_select = None\<rparr>"
  let ?row = "lockRow 1 ''t'' None"
  have att: "attemptLock ?a ''k'' (tableOf None) = (Inr (Acquired ''t''), (tableOf None)(''k'' \<mapsto> ?row))"
    by (simp add: attemptLock_def tableOf_def lockRow_def seconds_def)
  let ?s1 = "exSystem\<lparr>ls_holders := [(''t'', 1)], ls_row := Some ?row\<rparr>"
  have s1: "lock_step 30 ''k'' exSystem ?s1"
    using lock_step.attempt [of "''t''" exSystem None None "''k''" "Inr (Acquired ''t'')" "(tableOf None)(''k'' \<mapsto> ?row)" 30] att
    by (simp add: exSystem_def takeLock_def seconds_def)
  let ?s2 = "?s1\<lparr>ls_row := storeResultInMysql True None (ls_now ?s1) 30 ''k'' exAnswer ''t'' (tableOf (ls_row ?s1)) ''k'',
      ls_holders := [], ls_stored := (exAnswer, ls_now ?s1) # ls_stored ?s1\<rparr>"
  have s2: "lock_step 30 ''k'' ?s1 ?s2"
    using lock_step.store [of ?s1 "[]" "''t''" 1 "[]" 30 "''k''" exAnswer None] by simp
  have "ls_stored ?s2 = [(exAnswer, 1000)]" by (simp add: exSystem_def)
  moreover have "getResultFromMysql True None (ls_now ?s2) ''k'' (tableOf (ls_row ?s2)) = Some exAnswer"
    by (simp add: exSystem_def storeResultInMysql_def tableOf_def lockRow_def completeRow_def getResultFromMysql_def
        roundedSeconds_def seconds_def)
  ultimately show ?thesis using s1 s2 by (meson rtranclp.rtrancl_into_rtrancl rtranclp.rtrancl_refl)
qed

theorem shared_cache_protocol_witness:
  "\<exists>s. (lock_step 30 ''k'')\<^sup>*\<^sup>* exSystem s \<and> ls_now s < 1000 + 30 * 1000 + 500
     \<and> getResultFromMysql True None (ls_now s) ''k'' (tableOf (ls_row s)) = Some exAnswer"
proof -
  obtain s where s: "(lock_step 30 ''k'')\<^sup>*\<^sup>* exSystem s" "ls_stored s = [(exAnswer, 1000)]"
      "getResultFromMysql True None (ls_now s) ''k'' (tableOf (ls_row s)) = Some exAnswer"
    using exSystem_run by blast
  have "ls_row exSystem = None" "ls_holders exSystem = []" "ls_stored exSystem = []" by (simp_all add: exSystem_def)
  from shared_cache_protocol [OF s(1) this] show ?thesis using s by fastforce
qed

section \<open>The proxy\<close>

definition exProxy :: proxy_env where
  "exProxy = \<lparr>pe_mappings = ''a:h'', pe_proxyKey = ''p'', pe_rapidKey = [], pe_pandascoreKey = [],
     pe_bucket = False, pe_limits = exLimits, pe_mysql = True,
     pe_newUrl = (\<lambda>path host. Inr (host @ path)), pe_fullUrl = (\<lambda>base query. base),
     pe_hash = (\<lambda>s. s), pe_loadJson = (\<lambda>k. Inl (JsError ''NoSuchKey''))\<rparr>"

definition exAttempt :: lock_attempt where
  "exAttempt = \<lparr>la_now = 1000, la_token = ''t'', la_insert = None, la_select = None\<rparr>"

definition exMeeting :: meeting where
  "exMeeting = \<lparr>me_lookup = 1000, me_read = (1000, None), me_first = exAttempt, me_second = exAttempt,
     me_wait = (exWait, 0), me_waited = (\<lambda>s. s), me_fetch = (\<lambda>up. Inr exAnswer), me_fetched = (\<lambda>s. s),
     me_done = 1000, me_write = (1000, None)\<rparr>"

definition exEvent :: proxy_event where
  "exEvent = \<lparr>ev_apiKeyHeader = ''p'', ev_apiKeyHeader2 = [], ev_query = [], ev_rawPath = ''/a/x'',
     ev_method = ''POST'', ev_body = []\<rparr>"

definition exState :: proxy_state where
  "exState = \<lparr>px_local = emptyCache, px_table = (\<lambda>k. None)\<rparr>"

definition exCall :: upstream where
  "exCall = \<lparr>up_url = ''h/x'', up_method = ''POST'',
     up_headers = [(''User-Agent'', ''Ignite-Market-Proxy/1.0'')], up_body = []\<rparr>"

lemma exEvent_plan: "\<exists>k. planRequest exProxy None exEvent = Inr (Call exCall k)"
  by (simp add: planRequest_def verifyApiKey_def providedKey_def exProxy_def exEvent_def exCall_def pathParts_def
      parseApiMappings_def addMapping_def trim_def isSpace_def planCall_def requestHeaders_def apiPath_def)


theorem fetched_answer_is_shared_witness:
  "\<exists>s' s3. getRequest exProxy exMeeting ''k'' exCall exState = (Inr exAnswer, [exCall], s')
     \<and> getRequest exProxy exMeeting ''k'' exCall (s'\<lparr>px_local := emptyCache\<rparr>) = (Inr exAnswer, [], s3)"
proof -
  have miss: "getCachedResponse 1000 ''k'' emptyCache = (None, emptyCache\<lparr>lc_operations := 1\<rparr>)"
    by (simp add: getCachedResponse_def emptyCache_def cleanupFrequency_def Let_def)
  let ?row = "lockRow 1 ''t'' None"
  let ?t = "(\<lambda>k. None)(''k'' \<mapsto> ?row)"
  have acq: "acquireCacheLock True (me_first exMeeting) (me_second exMeeting) ''k'' (px_table exState) = (Acquired ''t'', ?t)"
    by (simp add: acquireCacheLock_def attemptLock_def exMeeting_def exAttempt_def exState_def lockRow_def seconds_def)
  obtain r calls s' where g: "getRequest exProxy exMeeting ''k'' exCall exState = (r, calls, s')"
    by (metis prod_cases3)
  have a: "pe_mysql exProxy" "fst (getCachedResponse (me_lookup exMeeting) ''k'' (px_local exState)) = None"
    "getResultFromMysql True (snd (me_read exMeeting)) (fst (me_read exMeeting)) ''k'' (px_table exState) = None"
    "\<And>lc. \<exists>row. px_table (me_fetched exMeeting (exState\<lparr>px_local := lc, px_table := ?t\<rparr>)) ''k'' = Some row
       \<and> cr_lock_token row = ''t''"
    "snd (me_write exMeeting) = None" "me_fetch exMeeting exCall = Inr exAnswer" "succeeded exAnswer"
    using miss by (simp_all add: exProxy_def exMeeting_def exState_def getResultFromMysql_def lockRow_def
        exAnswer_def succeeded_def)
  from fetched_answer_is_shared [OF a(1,2,3) acq a(4,5) g] a(6,7)
  have first: "calls = [exCall]" "r = Inr exAnswer"
    and later: "\<And>m2 s2. px_table s2 ''k'' = px_table s' ''k'' \<Longrightarrow>
      fst (getCachedResponse (me_lookup m2) ''k'' (px_local s2)) = None \<Longrightarrow> snd (me_read m2) = None \<Longrightarrow>
      seconds (fst (me_read m2)) < roundedSeconds (fst (me_write exMeeting) + li_ttl (pe_limits exProxy) * 1000) \<Longrightarrow>
      \<exists>s3. getRequest exProxy m2 ''k'' exCall s2 = (Inr exAnswer, [], s3)"
    by auto
  have "\<exists>s3. getRequest exProxy exMeeting ''k'' exCall (s'\<lparr>px_local := emptyCache\<rparr>) = (Inr exAnswer, [], s3)"
    by (rule later) (simp_all add: miss exMeeting_def exProxy_def exLimits_def seconds_def roundedSeconds_def)
  then show ?thesis using g first by simp
qed

section \<open>Chances\<close>

definition exYes :: outcome where "exYes = (exOutcome 1 3 0 ''yes'')\<lparr>oc_positionId := Some ''7''\<rparr>"
definition exNo :: outcome where "exNo = (exOutcome 2 3 1 ''no'')\<lparr>oc_positionId := Some ''8''\<rparr>"

definition exPriced :: db where
  "exPriced = exDb\<lparr>outcomes := tblOf [exYes, exNo]\<rparr>"

definition exRefresh :: refresh_env where
  "exRefresh = \<lparr>re_balanceOfBatch = (\<lambda>owners ids. if owners = [Some ''m3'', Some ''m3''] \<and> ids = [7, 8] then Inr [1, 3] else Inr []),
     re_column = (\<lambda>n. case n of Finite x \<Rightarrow> Inr (Some x) | _ \<Rightarrow> Inr None)\<rparr>"

theorem refreshed_chances_are_prices_witness:
  "\<exists>d' y. refreshExecutor exCtx exRefresh 3 exPriced = (d', True) \<and> latestChance 1 d' = Some y
     \<and> \<bar>y - 3 / 4\<bar> \<le> 1 / 20000 + 1 / 2 ^ 50"
proof -
  let ?cd = "exChainData 1 3 ''q3'' ''c3'' (Some ''m3'')"
  have h1: "populateById 3 (prediction_sets exPriced) = Inr (Some (exSet 3 PS_ACTIVE 2))" by code_simp
  have h2: "populateByPredictionSetId 3 exPriced = Some ?cd" by code_simp
  have h3: "cd_contractAddress ?cd = Some ''m3''" by code_simp
  have ocs: "map fst (getOutcomes 3 exPriced) = [exYes, exNo]" by code_simp
  have ids: "mapR (\<lambda>oc. bigIntColumn (oc_positionId oc)) [exYes, exNo] = Inr [7, 8]" by code_simp
  have bal: "re_balanceOfBatch exRefresh (map (\<lambda>oc. Some ''m3'') [exYes, exNo]) [7, 8] = Inr [1, 3]"
    by (simp add: exRefresh_def)
  have small: "sum_list (numeratorsOf [1, 3]) < 2 ^ 1023"
  proof -
    have "sum_list (numeratorsOf [1, 3]) = 2 ^ 2" by (simp add: numeratorsOf_def)
    also have "(2::int) ^ 2 < 2 ^ 1023" by (rule power_strict_increasing) simp_all
    finally show ?thesis .
  qed
  have col: "\<exists>y. re_column exRefresh (Finite x) = Inr (Some y) \<and> \<bar>y - x\<bar> \<le> 1 / 20000 + 1 / 2 ^ 53" for x
    by (simp add: exRefresh_def)
  have up: "chancesUpTo (ctx_now exCtx) exPriced"
    by (simp add: chancesUpTo_def exPriced_def exDb_def emptyDb_def emptyTbl_def tblInv_def)
  have inv: "tblInv (outcomes exPriced)"
    by (simp add: exPriced_def tblInv_def tblOf_def exYes_def exNo_def exOutcome_def)
  have p: "price [1, 3] 0 = 3 / 4" by (simp add: price_def)
  have i: "rowId ([exYes, exNo] ! 0) = 1" by (simp add: exYes_def exOutcome_def)
  have n: "length [1, 3 :: int] = length [exYes, exNo]" "\<forall>b \<in> set [1, 3 :: int]. 0 < b" "0 < length [exYes, exNo]"
    by simp_all
  from refreshed_chances_are_prices [OF h1 h2 h3 ocs [symmetric] ids bal n(1,2) small col up inv]
  obtain d' where d': "refreshExecutor exCtx exRefresh 3 exPriced = (d', True)"
      "\<forall>k < length [exYes, exNo]. \<exists>y. latestChance (rowId ([exYes, exNo] ! k)) d' = Some y
        \<and> \<bar>y - price [1, 3] k\<bar> \<le> 1 / 20000 + 1 / 2 ^ 50" by blast
  show ?thesis using d'(1) d'(2) [rule_format, OF n(3)] unfolding p i by blast
qed

section \<open>Keys\<close>

definition exEntity :: flare_entity where
  "exEntity = \<lparr>en_signing_policy_address = ''0xA'', en_signing_policy_public_key = replicate 128 CHR ''1''\<rparr>"

definition exKeySigner :: signer where
  "exKeySigner = \<lparr>sg_signing_address = ''0xA'', sg_voter_signing_address = [], sg_pubkey = replicate 128 CHR ''1'',
     sg_network = Some Flare_Net\<rparr>"

definition exKeys :: keys_env where
  "exKeys = \<lparr>kw_flare = Inr [exEntity], kw_songbird = Inr [], kw_dev = False, kw_configured = True,
     kw_readErrors = (None, None), kw_writeErrors = (None, None),
     kw_crypto = \<lparr>kp_random = (\<lambda>i. ''key''), kp_seal = (\<lambda>i pub k a. Inr (''sealed'' @ k))\<rparr>\<rparr>"

definition exBucket :: bucket where
  "exBucket = \<lparr>bu_encrypted = None, bu_decrypted = None\<rparr>"

lemma hexOf_ones: "hexOf (replicate n CHR ''1'') = replicate n CHR ''1''"
proof -
  have "dropWhile isSpace (replicate n CHR ''1'') = replicate n CHR ''1''"
    by (cases n) (simp_all add: isSpace_def)
  moreover have "lowerChar CHR ''1'' = CHR ''1''" by code_simp
  moreover have "\<not> startsWith (replicate n CHR ''1'') ''0x''" by (cases n) simp_all
  ultimately show ?thesis by (simp add: hexOf_def trim_def toLowerCase_def)
qed

lemma hexBytes_ones: "hexBytes (replicate (2 * n) CHR ''1'') = replicate n 17"
proof (induction n)
  case (Suc n)
  have "isHex CHR ''1''" "16 * hexValue CHR ''1'' + hexValue CHR ''1'' = 17" by code_simp+
  then show ?case using Suc by simp
qed simp

lemma trim_ones: "trim (replicate n CHR ''1'') = replicate n CHR ''1''"
proof -
  have "dropWhile isSpace (replicate n CHR ''1'') = replicate n CHR ''1''"
    by (cases n) (simp_all add: isSpace_def)
  then show ?thesis by (simp add: trim_def)
qed

lemma exKeys_run:
  "fetchedSigners exKeys = Inr [exKeySigner]"
  "loadExistingKeys None None exBucket = Inr ([], [])"
  "usable exKeySigner" "trim (addressOf exKeySigner) = addressOf exKeySigner" "\<not> listed [] exKeySigner"
  "\<exists>b'. runKeysExecutor exKeys exBucket = (Inr (), b')"
proof -
  have ne: "replicate 128 CHR ''1'' \<noteq> []" by simp
  show f: "fetchedSigners exKeys = Inr [exKeySigner]"
    by (simp add: fetchedSigners_def exKeys_def toSigners_def exEntity_def exKeySigner_def hexOf_ones ne)
  show l: "loadExistingKeys None None exBucket = Inr ([], [])"
    by (simp add: loadExistingKeys_def loadKeys_def fileOf_def exBucket_def)
  have a: "trim ''0xA'' = ''0xA''" by code_simp
  then show u: "usable exKeySigner" "trim (addressOf exKeySigner) = addressOf exKeySigner"
    by (simp_all add: usable_def addressOf_def exKeySigner_def trim_ones ne)
  show n: "\<not> listed [] exKeySigner" by (simp add: listed_def)
  have bytes: "hexBytes (replicate 128 CHR ''1'') = replicate 64 17" using hexBytes_ones [of 64] by simp
  have "loadSecp256k1PublicKey (replicate 128 CHR ''1'') = Inr (4 # replicate 64 17)"
    unfolding loadSecp256k1PublicKey_def hexOf_ones Let_def bytes by simp
  moreover have "newSigners [] [exKeySigner] = [exKeySigner]" by (simp add: newSigners_def)
  ultimately show "\<exists>b'. runKeysExecutor exKeys exBucket = (Inr (), b')"
    using f l u by (simp add: runKeysExecutor_def exKeys_def exKeySigner_def encryptApiKey_def trim_ones saveKeys_def)
qed


theorem one_key_per_signer_witness:
  "\<exists>b'. runKeysExecutor exKeys exBucket = (Inr (), b') \<and> snd (runKeysExecutor exKeys b') = b'"
proof -
  obtain b' where b': "runKeysExecutor exKeys exBucket = (Inr (), b')" using exKeys_run(6) by blast
  show ?thesis using one_key_per_signer [OF b' exKeys_run(1,2)] exKeys_run(3,4) b' by auto
qed

definition exBadKeys :: keys_env where
  "exBadKeys = exKeys\<lparr>kw_flare := Inr [exEntity, exEntity\<lparr>en_signing_policy_public_key := replicate 66 CHR ''1''\<rparr>]\<rparr>"

theorem bad_public_key_blocks_keys_witness:
  "\<exists>x. runKeysExecutor exBadKeys exBucket = (Inl x, exBucket)"
proof -
  let ?bad = "exKeySigner\<lparr>sg_pubkey := replicate 66 CHR ''1''\<rparr>"
  have f: "fetchedSigners exBadKeys = Inr [exKeySigner, ?bad]"
    by (simp add: fetchedSigners_def exBadKeys_def exKeys_def toSigners_def exEntity_def exKeySigner_def hexOf_ones)
  have "trim ''0xA'' = ''0xA''" by code_simp
  then have u: "usable ?bad" by (simp add: usable_def addressOf_def exKeySigner_def trim_ones)
  have len: "length (hexBytes (hexOf (sg_pubkey ?bad))) \<notin> {64, 65}"
    using hexBytes_ones [of 33] by (simp add: hexOf_ones)
  have "\<not> listed decrypted ?bad" if "loadExistingKeys None None exBucket = Inr (encrypted, decrypted)" for encrypted decrypted
    using that exKeys_run(2) by (simp add: listed_def)
  then show ?thesis using bad_public_key_blocks_keys [OF f _ u _ len, of exBucket] by auto
qed

section \<open>Statement parameters\<close>

definition exParams :: "(string \<times> sql_value) list" where
  "exParams = [(''a'', Sql_Number 7), (''ab'', Sql_Array [Sql_Number 1, Sql_Number 2])]"

theorem parameters_bound_in_order_witness:
  "prepare ''IN (@ab) OR @A'' exParams = bindOnce ''IN (@ab) OR @A'' exParams
   \<and> prepare ''IN (@ab) OR @A'' exParams = (''IN (?) OR ?'', [Sql_Text ''1,2'', Sql_Number 7])"
proof
  show "prepare ''IN (@ab) OR @A'' exParams = bindOnce ''IN (@ab) OR @A'' exParams"
  proof (rule parameters_bound_in_order)
    show "\<forall>x \<in> set exParams. wordKey (fst x)" by code_simp
    show "distinct (map (\<lambda>x. toLowerCase (fst x)) exParams)" by code_simp
    show "\<forall>w \<in> set (splitBlanks ''IN (@ab) OR @A''). length (parNames (scan w)) \<le> 1" by code_simp
  qed
  show "prepare ''IN (@ab) OR @A'' exParams = (''IN (?) OR ?'', [Sql_Text ''1,2'', Sql_Number 7])" by code_simp
qed

end
