(* ===== verification/Sql_Joins.thy ===== *)
theory Sql_Joins
  imports Sql_Utils "HOL-Library.Multiset"
begin

text \<open>
  What the list queries use of SQL beside conditions: an outer join gives one empty
  row where it finds nothing, \<open>GROUP BY\<close> cuts the rows into the classes of a key,
  and \<open>LIMIT\<close> and \<open>OFFSET\<close> cut a page out of an ordered result.  The order in
  which the database meets groups is left to the \<open>ORDER BY\<close> parameter of the lists.
\<close>

section \<open>Outer joins\<close>

definition leftJoin :: "'a list \<Rightarrow> 'a option list" where
  "leftJoin xs = (if xs = [] then [None] else map Some xs)"

lemma leftJoin_Nil [simp]: "leftJoin [] = [None]"
  by (simp add: leftJoin_def)

lemma leftJoin_not_Nil [simp]: "leftJoin xs \<noteq> []"
  by (simp add: leftJoin_def)

lemma Some_in_leftJoin [simp]: "Some x \<in> set (leftJoin xs) \<longleftrightarrow> x \<in> set xs"
  by (simp add: leftJoin_def image_iff)

lemma None_in_leftJoin [simp]: "None \<in> set (leftJoin xs) \<longleftrightarrow> xs = []"
  by (auto simp: leftJoin_def)

lemma distinct_leftJoin: "distinct xs \<Longrightarrow> distinct (leftJoin xs)"
  by (simp add: leftJoin_def distinct_map)

lemma ex_leftJoin: "(\<exists>x \<in> set (leftJoin xs). P x) \<longleftrightarrow> (if xs = [] then P None else \<exists>x \<in> set xs. P (Some x))"
  by (auto simp: leftJoin_def)

section \<open>Groups\<close>

definition groupRows :: "('a \<Rightarrow> 'k) \<Rightarrow> 'a list \<Rightarrow> 'a list list" where
  "groupRows key xs = map (\<lambda>k. filter (\<lambda>x. key x = k) xs) (remdups (map key xs))"

lemma groupRows_Nil [simp]: "groupRows key [] = []"
  by (simp add: groupRows_def)

lemma groupRowsE:
  assumes "g \<in> set (groupRows key xs)"
  obtains k where "k \<in> key ` set xs" and "g = filter (\<lambda>x. key x = k) xs" and "g \<noteq> []"
  using assms by (auto simp: groupRows_def filter_empty_conv)

lemma groupRowsI: "x \<in> set xs \<Longrightarrow> filter (\<lambda>y. key y = key x) xs \<in> set (groupRows key xs)"
  by (auto simp: groupRows_def)

lemma group_key: "g \<in> set (groupRows key xs) \<Longrightarrow> x \<in> set g \<Longrightarrow> g = filter (\<lambda>y. key y = key x) xs"
  by (auto elim!: groupRowsE)

lemma group_not_Nil [simp]: "[] \<notin> set (groupRows key xs)"
  by (auto elim: groupRowsE)

lemma group_hd:
  assumes "g \<in> set (groupRows key xs)"
  shows "hd g \<in> set xs" and "g = filter (\<lambda>y. key y = key (hd g)) xs"
proof -
  obtain k where k: "g = filter (\<lambda>x. key x = k) xs" "g \<noteq> []" using assms by (rule groupRowsE)
  have h: "hd g \<in> set g" using k(2) by (rule hd_in_set)
  then have "hd g \<in> set (filter (\<lambda>x. key x = k) xs)" unfolding k(1) .
  then show "hd g \<in> set xs" by simp
  show "g = filter (\<lambda>y. key y = key (hd g)) xs" using assms h by (rule group_key)
qed

text \<open>The head of a group has the key of the group, so the keys of the heads are distinct.\<close>

lemma map_hd_groups: "map (\<lambda>g. key (hd g)) (groupRows key xs) = remdups (map key xs)"
proof -
  have "key (hd (filter (\<lambda>x. key x = k) xs)) = k" if "k \<in> key ` set xs" for k
  proof -
    have "filter (\<lambda>x. key x = k) xs \<noteq> []" using that by (auto simp: filter_empty_conv)
    then have "hd (filter (\<lambda>x. key x = k) xs) \<in> set (filter (\<lambda>x. key x = k) xs)" by (rule hd_in_set)
    then show ?thesis by simp
  qed
  then show ?thesis unfolding groupRows_def map_map comp_def by (intro map_idI) simp
qed

lemma distinct_group_keys [simp]: "distinct (map (\<lambda>g. key (hd g)) (groupRows key xs))"
  by (simp add: map_hd_groups)

lemma distinct_groups [simp]: "distinct (groupRows key xs)"
  by (rule distinct_map [THEN iffD1, OF distinct_group_keys, THEN conjunct1])

lemma length_groups: "length (groupRows key xs) = card (key ` set xs)"
  by (simp add: groupRows_def length_remdups_card_conv)

text \<open>No row is lost and none counts twice.\<close>

lemma sum_groups:
  fixes f :: "'a \<Rightarrow> 'b::comm_monoid_add"
  shows "(\<Sum>g \<leftarrow> groupRows key xs. \<Sum>x \<leftarrow> g. f x) = (\<Sum>x \<leftarrow> xs. f x)"
proof -
  have "(\<Sum>k \<in> key ` set xs. \<Sum>x \<leftarrow> filter (\<lambda>x. key x = k) ys. f x) = (\<Sum>x \<leftarrow> ys. f x)" if "set ys \<subseteq> set xs" for ys
    using that
  proof (induction ys)
    case (Cons y ys)
    have "(\<Sum>k \<in> key ` set xs. \<Sum>x \<leftarrow> filter (\<lambda>x. key x = k) (y # ys). f x)
        = (\<Sum>k \<in> key ` set xs. (if key y = k then f y else 0) + (\<Sum>x \<leftarrow> filter (\<lambda>x. key x = k) ys. f x))"
      by (intro sum.cong) simp_all
    also have "\<dots> = f y + (\<Sum>x \<leftarrow> ys. f x)"
      using Cons by (simp add: sum.distrib sum.delta')
    finally show ?case by simp
  qed simp
  then show ?thesis by (simp add: groupRows_def comp_def sum_list_distinct_conv_sum_set)
qed

section \<open>Groups of a join that starts from keyed rows\<close>

lemma remdups_append_disjoint: "set xs \<inter> set ys = {} \<Longrightarrow> remdups (xs @ ys) = remdups xs @ remdups ys"
  by (induction xs) auto

lemma groupRows_append:
  assumes "key ` set xs \<inter> key ` set ys = {}"
  shows "groupRows key (xs @ ys) = groupRows key xs @ groupRows key ys"
proof -
  have "remdups (map key (xs @ ys)) = remdups (map key xs) @ remdups (map key ys)"
    using assms by (simp add: remdups_append_disjoint)
  moreover have "filter (\<lambda>x. key x = k) ys = []" if "k \<in> key ` set xs" for k
    using that assms by (auto simp: filter_empty_conv)
  moreover have "filter (\<lambda>x. key x = k) xs = []" if "k \<in> key ` set ys" for k
    using that assms by (auto simp: filter_empty_conv)
  ultimately show ?thesis by (simp add: groupRows_def)
qed

lemma groupRows_single:
  assumes "xs \<noteq> []" and "\<And>x. x \<in> set xs \<Longrightarrow> key x = k"
  shows "groupRows key xs = [xs]"
proof -
  have "map key xs = replicate (length xs) k" using assms(2) by (simp add: map_replicate_const [symmetric])
  moreover have "remdups (replicate n k) = (if n = 0 then [] else [k])" for n by (induction n) auto
  moreover have "filter (\<lambda>x. key x = k) xs = xs" using assms(2) by (simp add: filter_id_conv)
  ultimately show ?thesis using assms(1) by (simp add: groupRows_def)
qed

lemma groupRows_keyed:
  assumes "distinct (map k xs)" and "\<And>x y. x \<in> set xs \<Longrightarrow> y \<in> set (f x) \<Longrightarrow> key y = k x"
  shows "groupRows key (concat (map f xs)) = filter (\<lambda>g. g \<noteq> []) (map f xs)"
  using assms
proof (induction xs)
  case (Cons x xs)
  have "key ` set (f x) \<inter> key ` set (concat (map f xs)) = {}"
    using Cons.prems by fastforce
  then have "groupRows key (concat (map f (x # xs))) = groupRows key (f x) @ groupRows key (concat (map f xs))"
    by (simp add: groupRows_append)
  moreover have "groupRows key (f x) = (if f x = [] then [] else [f x])"
    using Cons.prems(2) groupRows_single [of "f x" key "k x"] by auto
  ultimately show ?case using Cons by auto
qed simp

section \<open>Orders and pages\<close>

lemma sort_key_unique:
  assumes "mset xs = mset ys" and "inj_on f (set xs)"
  shows "sort_key f xs = sort_key f ys"
proof -
  have "sort (map f xs) = map f (sort_key f xs)" by (rule properties_for_sort) simp_all
  moreover have "sort (map f xs) = map f (sort_key f ys)"
    by (rule properties_for_sort) (simp_all add: assms(1))
  ultimately have "map f (sort_key f xs) = map f (sort_key f ys)" by simp
  moreover have "set xs = set ys" using assms(1) by (rule mset_eq_setD)
  ultimately show ?thesis using assms(2) inj_on_map_eq_map [of f "sort_key f xs" "sort_key f ys"] by simp
qed

lemma sort_key_same: "\<forall>x \<in> set xs. f x = k \<Longrightarrow> sort_key f xs = xs"
proof (induction xs)
  case (Cons x xs)
  then show ?case by (cases xs) simp_all
qed simp

lemma distinct_map_sort: "distinct (map f xs) \<Longrightarrow> distinct (map f (sort_key k xs))"
  by (simp add: distinct_map)

lemma set_pageOf: "set (pageOf f xs) \<subseteq> set xs"
  unfolding pageOf_def by (meson set_drop_subset set_take_subset subset_trans)

lemma distinct_pageOf: "distinct xs \<Longrightarrow> distinct (pageOf f xs)"
  by (simp add: pageOf_def)

lemma map_pageOf: "map g (pageOf f xs) = pageOf f (map g xs)"
  by (simp add: pageOf_def take_map drop_map)

end
