(* ===== verification/Market_Lists.thy ===== *)
theory Market_Lists
  imports Sql_Joins Prediction_Service
begin

text \<open>
  The list queries of \<open>prediction-set.model.ts\<close> as functions of the database: joins
  as list comprehensions in the order of the \<open>FROM\<close> clause, conditions as
  predicates of a joined row, groups, \<open>HAVING\<close>, order and page, and the total the
  second query counts.  Parameters: \<open>like text search\<close> stands for
  \<open>text LIKE '%search%'\<close> under the collation of the database, and \<open>orderBy\<close> for the
  columns of \<open>ORDER BY\<close> that the request names.  Where a grouped query shows a
  column that differs inside a group, MySQL shows some row's; here it is the first's.
\<close>

definition textFilter :: "(string \<Rightarrow> string \<Rightarrow> bool) \<Rightarrow> string option \<Rightarrow> string \<Rightarrow> bool" where
  "textFilter like search t = (case search of None \<Rightarrow> True | Some s \<Rightarrow> like t s)"

definition idFilter :: "nat option \<Rightarrow> nat \<Rightarrow> bool" where
  "idFilter wanted i = (case wanted of None \<Rightarrow> True | Some w \<Rightarrow> i = w)"

section \<open>Markets\<close>

record market_query =
  mq_filters :: query_filters
  mq_search :: "string option"
  mq_category :: "string option"
  mq_watchlist :: bool
  mq_collateralTokenId :: "nat option"
  mq_status :: "int list"

record joined_market =
  jm_market :: prediction_set
  jm_outcome :: "outcome option"
  jm_watch :: "user_watchlist option"
  jm_category :: "string option"
  jm_funding :: "funding_transaction option"

text \<open>Without a user, \<open>@userId\<close> is NULL and no row of the watchlist matches.\<close>

definition joinMarkets :: "ctx \<Rightarrow> db \<Rightarrow> joined_market list" where
  "joinMarkets c d =
    [\<lparr>jm_market = p, jm_outcome = oc, jm_watch = uw, jm_category = pc, jm_funding = f\<rparr>.
       p \<leftarrow> rows (prediction_sets d),
       oc \<leftarrow> leftJoin (filter (\<lambda>r. oc_prediction_set_id r = rowId p \<and> status r = ACTIVE) (rows (outcomes d))),
       uw \<leftarrow> leftJoin (filter (\<lambda>w. uw_prediction_set_id w = rowId p \<and> Some (uw_user_id w) = ctx_user c) (rows (watchlists d))),
       pc \<leftarrow> leftJoin (map snd (filter (\<lambda>(i, _). i = rowId p) (ps_categories d))),
       f \<leftarrow> leftJoin (filter (\<lambda>t. ft_prediction_set_id t = rowId p \<and> status t = ACTIVE) (rows (funding_transactions d)))]"

text \<open>\<open>AND\<close> binds before \<open>OR\<close>: with a list of statuses only the list decides.\<close>

definition statusShown :: "bool \<Rightarrow> market_query \<Rightarrow> prediction_set \<Rightarrow> bool" where
  "statusShown admin q p =
    (if mq_status q = [] then admin \<or> ps_setStatus p \<notin> {PS_ERROR, PS_INITIALIZED, PS_PENDING}
     else predictionSetStatusNo (ps_setStatus p) \<in> set (mq_status q))"

definition wantedCategory :: "market_query \<Rightarrow> string option" where
  "wantedCategory q = (if mq_watchlist q then None else mq_category q)"

definition isAdmin :: "ctx \<Rightarrow> bool" where
  "isAdmin c = hasRole c (defaultUserRoleNo ROLE_ADMIN)"

definition whereMarket :: "(string \<Rightarrow> string \<Rightarrow> bool) \<Rightarrow> ctx \<Rightarrow> bool \<Rightarrow> market_query \<Rightarrow> joined_market \<Rightarrow> bool" where
  "whereMarket like c admin q j \<longleftrightarrow> (let p = jm_market j in
     status p \<noteq> DELETED
     \<and> statusShown admin q p
     \<and> (isAdmin c \<or> ps_setStatus p \<noteq> PS_FUNDING \<or> jm_funding j \<noteq> None)
     \<and> (admin \<or> ps_setStatus p \<noteq> PS_FUNDING \<or> ps_endTime p > ctx_now c)
     \<and> (isAdmin c \<or> \<not> ps_hide p)
     \<and> textFilter like (mq_search q) (ps_question p)
     \<and> (mq_watchlist q \<longrightarrow> jm_watch j \<noteq> None)
     \<and> (case wantedCategory q of None \<Rightarrow> True
        | Some s \<Rightarrow> (case jm_category j of None \<Rightarrow> False | Some cat \<Rightarrow> like cat s))
     \<and> idFilter (mq_collateralTokenId q) (ps_collateral_token_id p))"

text \<open>
  One object per outcome, in the order of their ids; a market without an active
  outcome has one object whose fields are all null.
\<close>

record market_item =
  mi_market :: prediction_set
  mi_outcomes :: "(outcome option \<times> rat option) list"
  mi_isWatched :: bool
  mi_volume :: int

definition outcomeKey :: "outcome option \<Rightarrow> nat" where
  "outcomeKey oc = (case oc of None \<Rightarrow> 0 | Some r \<Rightarrow> rowId r)"

definition withChance :: "db \<Rightarrow> outcome option \<Rightarrow> outcome option \<times> rat option" where
  "withChance d oc = (oc, Option.bind oc (\<lambda>r. latestChance (rowId r) d))"

definition marketVolume :: "nat \<Rightarrow> db \<Rightarrow> int" where
  "marketVolume i d = fst (getVolume i d) + snd (getVolume i d)"

definition selectMarket :: "db \<Rightarrow> joined_market list \<Rightarrow> market_item" where
  "selectMarket d g =
     \<lparr>mi_market = jm_market (hd g),
      mi_outcomes = map (withChance d) (sort_key outcomeKey (remdups (map jm_outcome g))),
      mi_isWatched = (jm_watch (hd g) \<noteq> None),
      mi_volume = marketVolume (rowId (jm_market (hd g))) d\<rparr>"

definition statusRank :: "int \<Rightarrow> prediction_set \<Rightarrow> nat" where
  "statusRank now p =
    (if ps_setStatus p = PS_ACTIVE \<and> ps_endTime p > now then 1
     else if ps_setStatus p = PS_FUNDING then 2
     else if ps_setStatus p = PS_ACTIVE \<and> ps_endTime p \<le> now then 3
     else if ps_setStatus p = PS_VOTING then 4
     else if ps_setStatus p = PS_FINALIZED then 5
     else 6)"

definition byStatus :: "ctx \<Rightarrow> bool \<Rightarrow> market_item list \<Rightarrow> market_item list" where
  "byStatus c admin = (if admin then id else sort_key (\<lambda>i. statusRank (ctx_now c) (mi_market i)))"

definition getList ::
  "(string \<Rightarrow> string \<Rightarrow> bool) \<Rightarrow> (market_item list \<Rightarrow> market_item list) \<Rightarrow> ctx \<Rightarrow> market_query \<Rightarrow> bool \<Rightarrow> db
    \<Rightarrow> market_item list \<times> nat" where
  "getList like orderBy c q admin d =
    (let found = map (selectMarket d)
           (groupRows (\<lambda>j. rowId (jm_market j)) (filter (whereMarket like c admin q) (joinMarkets c d)))
     in (pageOf (mq_filters q) (byStatus c admin (orderBy found)), length found))"

section \<open>What a list of markets promises\<close>

text \<open>Which markets a list has, and what it shows of one, without a join.\<close>

definition marketListed :: "(string \<Rightarrow> string \<Rightarrow> bool) \<Rightarrow> ctx \<Rightarrow> bool \<Rightarrow> market_query \<Rightarrow> db \<Rightarrow> prediction_set \<Rightarrow> bool" where
  "marketListed like c admin q d p \<longleftrightarrow>
     status p \<noteq> DELETED \<and> statusShown admin q p
     \<and> (ps_setStatus p = PS_FUNDING \<longrightarrow>
          (isAdmin c \<or> (\<exists>t \<in> set (rows (funding_transactions d)). ft_prediction_set_id t = rowId p \<and> status t = ACTIVE))
          \<and> (admin \<or> ps_endTime p > ctx_now c))
     \<and> (ps_hide p \<longrightarrow> isAdmin c)
     \<and> textFilter like (mq_search q) (ps_question p)
     \<and> (mq_watchlist q \<longrightarrow> (\<exists>w \<in> set (rows (watchlists d)). uw_prediction_set_id w = rowId p \<and> Some (uw_user_id w) = ctx_user c))
     \<and> (case wantedCategory q of None \<Rightarrow> True | Some s \<Rightarrow> \<exists>(i, cat) \<in> set (ps_categories d). i = rowId p \<and> like cat s)
     \<and> idFilter (mq_collateralTokenId q) (ps_collateral_token_id p)"

definition marketItem :: "ctx \<Rightarrow> db \<Rightarrow> prediction_set \<Rightarrow> market_item" where
  "marketItem c d p =
     \<lparr>mi_market = p,
      mi_outcomes = map (withChance d) (leftJoin (sort_key rowId
        (filter (\<lambda>r. oc_prediction_set_id r = rowId p \<and> status r = ACTIVE) (rows (outcomes d))))),
      mi_isWatched = (\<exists>w \<in> set (rows (watchlists d)). uw_prediction_set_id w = rowId p \<and> Some (uw_user_id w) = ctx_user c),
      mi_volume = marketVolume (rowId p) d\<rparr>"

definition activeOutcomes :: "db \<Rightarrow> prediction_set \<Rightarrow> outcome list" where
  "activeOutcomes d p = filter (\<lambda>r. oc_prediction_set_id r = rowId p \<and> status r = ACTIVE) (rows (outcomes d))"

definition watchRows :: "ctx \<Rightarrow> db \<Rightarrow> prediction_set \<Rightarrow> user_watchlist list" where
  "watchRows c d p = filter (\<lambda>w. uw_prediction_set_id w = rowId p \<and> Some (uw_user_id w) = ctx_user c) (rows (watchlists d))"

lemma joinMarkets_iff:
  "j \<in> set (joinMarkets c d) \<longleftrightarrow>
     jm_market j \<in> set (rows (prediction_sets d))
     \<and> jm_outcome j \<in> set (leftJoin (activeOutcomes d (jm_market j)))
     \<and> jm_watch j \<in> set (leftJoin (watchRows c d (jm_market j)))
     \<and> jm_category j \<in> set (leftJoin (map snd (filter (\<lambda>(i, _). i = rowId (jm_market j)) (ps_categories d))))
     \<and> jm_funding j \<in> set (leftJoin (filter (\<lambda>t. ft_prediction_set_id t = rowId (jm_market j) \<and> status t = ACTIVE)
          (rows (funding_transactions d))))"
  (is "_ \<longleftrightarrow> ?R j")
proof
  assume "j \<in> set (joinMarkets c d)"
  then show "?R j" by (auto simp: joinMarkets_def activeOutcomes_def watchRows_def)
next
  assume r: "?R j"
  then show "j \<in> set (joinMarkets c d)"
    unfolding joinMarkets_def activeOutcomes_def watchRows_def set_concat set_map UN_simps
    by (intro UN_I [of "jm_market j"] UN_I [of "jm_outcome j"] UN_I [of "jm_watch j"] UN_I [of "jm_category j"]
          image_eqI [of _ _ "jm_funding j"]) simp_all
qed

lemma rowId_unique:
  assumes "tblInv t" and "x \<in> set (rows t)" and "y \<in> set (rows t)" and "rowId x = rowId y"
  shows "x = y"
  using assms by (auto simp: tblInv_def distinct_map dest: inj_onD)

lemma leftJoin_filter_ex:
  "x \<in> set (leftJoin (filter P xs)) \<Longrightarrow> x \<noteq> None \<longleftrightarrow> (\<exists>y \<in> set xs. P y)"
  by (auto simp: leftJoin_def filter_empty_conv split: if_splits)

lemma leftJoin_pick: "(\<exists>y \<in> set xs. P y) \<longleftrightarrow> (\<exists>x \<in> set (leftJoin (filter P xs)). x \<noteq> None)"
  by (auto simp: leftJoin_def filter_empty_conv)

text \<open>A market comes through the join, with each of its outcomes, exactly when it is listed.\<close>

lemma whereMarket_listed:
  assumes "j \<in> set (joinMarkets c d)" and "whereMarket like c admin q j"
  shows "marketListed like c admin q d (jm_market j)"
proof -
  let ?p = "jm_market j"
  have uw: "jm_watch j \<noteq> None \<longleftrightarrow> (\<exists>w \<in> set (rows (watchlists d)). uw_prediction_set_id w = rowId ?p \<and> Some (uw_user_id w) = ctx_user c)"
    using assms(1) unfolding joinMarkets_iff watchRows_def by (intro leftJoin_filter_ex) blast
  have f: "jm_funding j \<noteq> None \<longleftrightarrow> (\<exists>t \<in> set (rows (funding_transactions d)). ft_prediction_set_id t = rowId ?p \<and> status t = ACTIVE)"
    using assms(1) unfolding joinMarkets_iff by (intro leftJoin_filter_ex) blast
  have pc: "\<exists>(i, cat) \<in> set (ps_categories d). i = rowId ?p \<and> like cat s" if "jm_category j = Some cat" "like cat s" for s cat
    using assms(1) that unfolding joinMarkets_iff by auto
  show ?thesis
    using assms(2) uw f pc unfolding marketListed_def whereMarket_def Let_def
    by (auto split: option.splits)
qed

lemma listed_joined:
  assumes "p \<in> set (rows (prediction_sets d))" and "marketListed like c admin q d p"
    and "oc \<in> set (leftJoin (activeOutcomes d p))"
  shows "\<exists>j \<in> set (joinMarkets c d). whereMarket like c admin q j \<and> jm_market j = p \<and> jm_outcome j = oc"
proof -
  obtain uw where uw: "uw \<in> set (leftJoin (watchRows c d p))"
      "(\<exists>w \<in> set (rows (watchlists d)). uw_prediction_set_id w = rowId p \<and> Some (uw_user_id w) = ctx_user c) \<Longrightarrow> uw \<noteq> None"
    unfolding watchRows_def using leftJoin_pick leftJoin_not_Nil by (metis (mono_tags, lifting) last_in_set)
  obtain f where f: "f \<in> set (leftJoin (filter (\<lambda>t. ft_prediction_set_id t = rowId p \<and> status t = ACTIVE) (rows (funding_transactions d))))"
      "(\<exists>t \<in> set (rows (funding_transactions d)). ft_prediction_set_id t = rowId p \<and> status t = ACTIVE) \<Longrightarrow> f \<noteq> None"
    using leftJoin_pick leftJoin_not_Nil by (metis (mono_tags, lifting) last_in_set)
  let ?cats = "map snd (filter (\<lambda>(i, _). i = rowId p) (ps_categories d))"
  obtain pc where pc: "pc \<in> set (leftJoin ?cats)"
      "case wantedCategory q of None \<Rightarrow> True | Some s \<Rightarrow> (case pc of None \<Rightarrow> False | Some cat \<Rightarrow> like cat s)"
  proof (cases "wantedCategory q")
    case None
    then show ?thesis using that leftJoin_not_Nil [of ?cats] by (metis last_in_set option.simps(4))
  next
    case (Some s)
    then obtain cat where "(rowId p, cat) \<in> set (ps_categories d)" "like cat s"
      using assms(2) by (auto simp: marketListed_def)
    then have "Some cat \<in> set (leftJoin ?cats)" by (force simp: image_iff)
    then show ?thesis using that [of "Some cat"] Some \<open>like cat s\<close> by simp
  qed
  let ?j = "\<lparr>jm_market = p, jm_outcome = oc, jm_watch = uw, jm_category = pc, jm_funding = f\<rparr>"
  have "?j \<in> set (joinMarkets c d)" using assms uw(1) pc(1) f(1) by (simp add: joinMarkets_iff)
  moreover have "whereMarket like c admin q ?j"
    using assms(2) uw(2) f(2) pc(2) unfolding marketListed_def whereMarket_def Let_def joined_market.simps by auto
  ultimately show ?thesis by force
qed

lemma outcomeKey_leftJoin:
  assumes "distinct (map rowId xs)"
  shows "sort_key outcomeKey (leftJoin xs) = leftJoin (sort_key rowId xs)" and "inj_on outcomeKey (set (leftJoin xs))"
proof -
  have "sort_key outcomeKey (map Some ys) = map Some (sort_key rowId ys)" for ys :: "outcome list"
  proof (rule properties_for_sort_key)
    show "filter (\<lambda>x. outcomeKey k = outcomeKey x) (map Some (sort_key rowId ys))
        = filter (\<lambda>x. outcomeKey k = outcomeKey x) (map Some ys)" for k
    proof (cases k)
      case None
      then show ?thesis using sort_key_same [of "filter (\<lambda>x. rowId x = 0) ys" rowId 0]
        by (simp add: filter_map comp_def outcomeKey_def filter_sort)
    next
      case (Some r)
      then show ?thesis using sort_key_same [of "filter (\<lambda>x. rowId r = rowId x) ys" rowId "rowId r"]
        by (simp add: filter_map comp_def outcomeKey_def filter_sort)
    qed
  qed (simp_all add: outcomeKey_def comp_def)
  moreover have "sort_key rowId xs = [] \<longleftrightarrow> xs = []" by (metis length_0_conv length_sort)
  ultimately show "sort_key outcomeKey (leftJoin xs) = leftJoin (sort_key rowId xs)"
    by (cases "xs = []") (simp_all add: leftJoin_def)
  show "inj_on outcomeKey (set (leftJoin xs))"
    using assms by (auto simp: leftJoin_def outcomeKey_def distinct_map inj_on_def)
qed

lemma selectMarket_item:
  assumes "tblInv (prediction_sets d)" and "tblInv (outcomes d)"
    and "g \<in> set (groupRows (\<lambda>j. rowId (jm_market j)) (filter (whereMarket like c admin q) (joinMarkets c d)))"
  shows "selectMarket d g = marketItem c d (jm_market (hd g))"
proof -
  let ?joined = "filter (whereMarket like c admin q) (joinMarkets c d)"
  let ?p = "jm_market (hd g)" and ?ocs = "activeOutcomes d (jm_market (hd g))"
  have h: "hd g \<in> set (joinMarkets c d)" "whereMarket like c admin q (hd g)"
    and g: "g = filter (\<lambda>y. rowId (jm_market y) = rowId ?p) ?joined"
    using group_hd [OF assms(3)] by simp_all
  have same: "jm_market j = ?p" if "j \<in> set g" for j
  proof -
    have "j \<in> set (joinMarkets c d)" "rowId (jm_market j) = rowId ?p" using that by (subst (asm) g, simp)+
    then show ?thesis using rowId_unique [OF assms(1)] h(1) unfolding joinMarkets_iff by blast
  qed
  have "set (map jm_outcome g) = set (leftJoin ?ocs)"
  proof
    have "jm_outcome j \<in> set (leftJoin ?ocs)" if "j \<in> set g" for j
    proof -
      have "j \<in> set (joinMarkets c d)" using that by (subst (asm) g) simp
      then show ?thesis using same [OF that] unfolding joinMarkets_iff by simp
    qed
    then show "set (map jm_outcome g) \<subseteq> set (leftJoin ?ocs)" by auto
    have p: "?p \<in> set (rows (prediction_sets d))" using h(1) unfolding joinMarkets_iff by blast
    show "set (leftJoin ?ocs) \<subseteq> set (map jm_outcome g)"
    proof
      fix oc assume "oc \<in> set (leftJoin ?ocs)"
      then obtain j where j: "j \<in> set (joinMarkets c d)" "whereMarket like c admin q j" "jm_market j = ?p" "jm_outcome j = oc"
        using listed_joined [OF p whereMarket_listed [OF h]] by blast
      then have "j \<in> set g" by (subst g) simp
      then show "oc \<in> set (map jm_outcome g)" using j(4) by force
    qed
  qed
  moreover have ids: "distinct (map rowId ?ocs)"
    using assms(2) by (simp add: activeOutcomes_def tblInv_def distinct_map inj_on_def)
  then have "distinct (leftJoin ?ocs)" by (intro distinct_leftJoin) (simp add: distinct_map)
  ultimately have "mset (leftJoin ?ocs) = mset (remdups (map jm_outcome g))"
    by (metis distinct_remdups set_eq_iff_mset_eq_distinct set_remdups)
  then have ocs: "sort_key outcomeKey (remdups (map jm_outcome g)) = leftJoin (sort_key rowId ?ocs)"
    using sort_key_unique outcomeKey_leftJoin [OF ids] by metis
  have "jm_watch (hd g) \<in> set (leftJoin (watchRows c d ?p))" using h(1) unfolding joinMarkets_iff by blast
  then have "jm_watch (hd g) \<noteq> None
      \<longleftrightarrow> (\<exists>w \<in> set (rows (watchlists d)). uw_prediction_set_id w = rowId ?p \<and> Some (uw_user_id w) = ctx_user c)"
    unfolding watchRows_def by (rule leftJoin_filter_ex)
  then show ?thesis using ocs by (simp add: selectMarket_def marketItem_def activeOutcomes_def)
qed

lemma listed_in_groups:
  assumes "tblInv (prediction_sets d)" and "p \<in> set (filter (marketListed like c admin q d) (rows (prediction_sets d)))"
  defines "joined \<equiv> filter (whereMarket like c admin q) (joinMarkets c d)"
  shows "p \<in> set (map (\<lambda>g. jm_market (hd g)) (groupRows (\<lambda>j. rowId (jm_market j)) joined))"
proof -
  obtain oc where "oc \<in> set (leftJoin (activeOutcomes d p))" using last_in_set [OF leftJoin_not_Nil] by blast
  then obtain j where j: "j \<in> set joined" "jm_market j = p" using assms(2) listed_joined unfolding joined_def by fastforce
  let ?g = "filter (\<lambda>y. rowId (jm_market y) = rowId (jm_market j)) joined"
  have g: "?g \<in> set (groupRows (\<lambda>j. rowId (jm_market j)) joined)" using groupRowsI [OF j(1)] .
  then have "?g \<noteq> []" using group_not_Nil by metis
  then have "hd ?g \<in> set ?g" by (rule hd_in_set)
  then have "rowId (jm_market (hd ?g)) = rowId p" using j(2) by simp
  moreover have "jm_market (hd ?g) \<in> set (rows (prediction_sets d))"
    using group_hd(1) [OF g] unfolding joined_def set_filter joinMarkets_iff by blast
  ultimately have "jm_market (hd ?g) = p" using rowId_unique [OF assms(1)] assms(2) by simp
  then show ?thesis using g by force
qed


text \<open>
  Anyone may ask for markets by status, also for those that are not published yet
  and those whose creation failed; and a market without outcomes shows one.
\<close>

lemma unpublished_by_status:
  "mq_status q = [predictionSetStatusNo s] \<Longrightarrow> statusShown False q p \<longleftrightarrow> ps_setStatus p = s"
  by (cases s; cases "ps_setStatus p") (simp_all add: statusShown_def)

lemma no_outcome_shows_one: "activeOutcomes d p = [] \<Longrightarrow> mi_outcomes (marketItem c d p) = [(None, None)]"
  by (simp add: marketItem_def activeOutcomes_def withChance_def)

end
