(* ===== verification/Position_Lists.thy ===== *)
theory Position_Lists
  imports Market_Lists
begin

text \<open>
  The lists over the transactions of the markets: the activity feed, the holders of
  shares, the predictions and the funding of a user, and the chances of a market
  over time (\<open>prediction-set.model.ts\<close>).
\<close>

section \<open>Activity\<close>

record activity_query =
  aq_filters :: query_filters
  aq_type :: "int option"
  aq_search :: "string option"
  aq_predictionId :: "nat option"
  aq_userId :: "nat option"

record activity =
  av_market :: prediction_set
  av_user :: user
  av_outcomeName :: "string option"
  av_transactionId :: nat
  av_userAmount :: "int option"
  av_type :: int
  av_outcomeTokens :: "int option"
  av_txHash :: string
  av_transactionTime :: int

fun shareTransactionTypeNo :: "ShareTransactionType \<Rightarrow> int" where
  "shareTransactionTypeNo ST_BUY = 1"
| "shareTransactionTypeNo ST_SELL = 2"
| "shareTransactionTypeNo ST_FUND = 3"

fun fundingTransactionTypeNo :: "FundingTransactionType \<Rightarrow> int" where
  "fundingTransactionTypeNo FT_ADDED = 1"
| "fundingTransactionTypeNo FT_REMOVED = 2"

text \<open>The conditions the three selects share.\<close>

definition activityWanted ::
  "(string \<Rightarrow> string \<Rightarrow> bool) \<Rightarrow> activity_query \<Rightarrow> prediction_set \<Rightarrow> user \<Rightarrow> (int \<Rightarrow> bool) \<Rightarrow> bool" where
  "activityWanted like q p u typed \<longleftrightarrow>
     status p \<noteq> DELETED \<and> idFilter (aq_predictionId q) (rowId p) \<and> idFilter (aq_userId q) (rowId u)
     \<and> (case aq_type q of None \<Rightarrow> True | Some t \<Rightarrow> typed t)
     \<and> textFilter like (aq_search q) (ps_question p)"

definition shareActivity :: "(string \<Rightarrow> string \<Rightarrow> bool) \<Rightarrow> activity_query \<Rightarrow> db \<Rightarrow> activity list" where
  "shareActivity like q d =
    [\<lparr>av_market = p, av_user = u, av_outcomeName = Some (oc_name oc), av_transactionId = rowId t,
      av_userAmount = Some (st_amount t),
      av_type = (if st_type t = ST_FUND then 6 else shareTransactionTypeNo (st_type t)),
      av_outcomeTokens = Some (st_outcomeTokens t), av_txHash = st_txHash t, av_transactionTime = createTime t\<rparr>.
       t \<leftarrow> rows (share_transactions d),
       p \<leftarrow> filter (\<lambda>p. st_prediction_set_id t = rowId p) (rows (prediction_sets d)),
       u \<leftarrow> filter (\<lambda>u. Some (rowId u) = st_user_id t) (rows (users d)),
       oc \<leftarrow> filter (\<lambda>oc. rowId oc = st_outcome_id t) (rows (outcomes d)),
       activityWanted like q p u (\<lambda>wanted. shareTransactionTypeNo (st_type t) = wanted)]"

definition fundingActivity :: "(string \<Rightarrow> string \<Rightarrow> bool) \<Rightarrow> activity_query \<Rightarrow> db \<Rightarrow> activity list" where
  "fundingActivity like q d =
    [\<lparr>av_market = p, av_user = u, av_outcomeName = None, av_transactionId = rowId t,
      av_userAmount = (case ft_collateralAmount t of None \<Rightarrow> ft_collateralRemovedFromFeePool t | a \<Rightarrow> a),
      av_type = fundingTransactionTypeNo (ft_type t) + 2,
      av_outcomeTokens = None, av_txHash = ft_txHash t, av_transactionTime = createTime t\<rparr>.
       t \<leftarrow> rows (funding_transactions d),
       p \<leftarrow> filter (\<lambda>p. ft_prediction_set_id t = rowId p) (rows (prediction_sets d)),
       u \<leftarrow> filter (\<lambda>u. Some (rowId u) = ft_user_id t) (rows (users d)),
       activityWanted like q p u (\<lambda>wanted. fundingTransactionTypeNo (ft_type t) = wanted - 2)]"

definition claimActivity :: "(string \<Rightarrow> string \<Rightarrow> bool) \<Rightarrow> activity_query \<Rightarrow> db \<Rightarrow> activity list" where
  "claimActivity like q d =
    [\<lparr>av_market = p, av_user = u, av_outcomeName = Some (oc_name oc), av_transactionId = rowId t,
      av_userAmount = Some (ct_amount t), av_type = 5,
      av_outcomeTokens = None, av_txHash = ct_txHash t, av_transactionTime = createTime t\<rparr>.
       t \<leftarrow> rows (claim_transactions d),
       p \<leftarrow> filter (\<lambda>p. ct_prediction_set_id t = rowId p) (rows (prediction_sets d)),
       u \<leftarrow> filter (\<lambda>u. rowId u = ct_user_id t) (rows (users d)),
       oc \<leftarrow> filter (\<lambda>oc. rowId oc = ct_outcome_id t) (rows (outcomes d)),
       activityWanted like q p u (\<lambda>wanted. wanted = 5)]"

text \<open>
  \<open>UNION\<close> drops repeated rows.  The total is counted over the union of the ids alone,
  which the three tables number independently.
\<close>

definition activityRows :: "(string \<Rightarrow> string \<Rightarrow> bool) \<Rightarrow> activity_query \<Rightarrow> db \<Rightarrow> activity list" where
  "activityRows like q d = shareActivity like q d @ fundingActivity like q d @ claimActivity like q d"

definition getActivityList ::
  "(string \<Rightarrow> string \<Rightarrow> bool) \<Rightarrow> (activity list \<Rightarrow> activity list) \<Rightarrow> activity_query \<Rightarrow> db \<Rightarrow> activity list \<times> nat" where
  "getActivityList like orderBy q d =
    (pageOf (aq_filters q) (orderBy (remdups (activityRows like q d))),
     length (remdups (map av_transactionId (activityRows like q d))))"

section \<open>Holders\<close>

record holders_query =
  hq_filters :: query_filters
  hq_search :: "string option"
  hq_predictionId :: "nat option"
  hq_outcomeId :: "nat option"

record joined_share =
  js_trade :: share_transaction
  js_market :: prediction_set
  js_user :: "user option"
  js_outcome :: "outcome option"

definition joinShares :: "db \<Rightarrow> joined_share list" where
  "joinShares d = [\<lparr>js_trade = t, js_market = p, js_user = u, js_outcome = oc\<rparr>.
     t \<leftarrow> rows (share_transactions d),
     p \<leftarrow> filter (\<lambda>p. st_prediction_set_id t = rowId p) (rows (prediction_sets d)),
     u \<leftarrow> leftJoin (filter (\<lambda>u. Some (rowId u) = st_user_id t) (rows (users d))),
     oc \<leftarrow> leftJoin (filter (\<lambda>oc. rowId oc = st_outcome_id t) (rows (outcomes d)))]"

definition whereHolder :: "(string \<Rightarrow> string \<Rightarrow> bool) \<Rightarrow> holders_query \<Rightarrow> joined_share \<Rightarrow> bool" where
  "whereHolder like q j \<longleftrightarrow> status (js_market j) \<noteq> DELETED
     \<and> idFilter (hq_predictionId q) (st_prediction_set_id (js_trade j))
     \<and> idFilter (hq_outcomeId q) (st_outcome_id (js_trade j))
     \<and> textFilter like (hq_search q) (ps_question (js_market j))"

definition sumIf :: "('a \<Rightarrow> bool) \<Rightarrow> ('a \<Rightarrow> int) \<Rightarrow> 'a list \<Rightarrow> int" where
  "sumIf P f xs = (\<Sum>x \<leftarrow> xs. if P x then f x else 0)"

definition spentOn :: "share_transaction \<Rightarrow> int" where
  "spentOn t = st_amount t - st_feeAmount t"

definition tokensBalance :: "(ShareTransactionType \<Rightarrow> bool) \<Rightarrow> share_transaction list \<Rightarrow> int" where
  "tokensBalance bought ts = sumIf (\<lambda>t. bought (st_type t)) st_outcomeTokens ts
     - sumIf (\<lambda>t. st_type t = ST_SELL) st_outcomeTokens ts"

record holder =
  ho_market :: prediction_set
  ho_user :: "user option"
  ho_outcome :: "outcome option"
  ho_boughtAmount :: int
  ho_soldAmount :: int
  ho_outcomeTokens :: int

definition holderOf :: "joined_share list \<Rightarrow> holder" where
  "holderOf g = (let ts = map js_trade g in
     \<lparr>ho_market = js_market (hd g), ho_user = js_user (hd g), ho_outcome = js_outcome (hd g),
      ho_boughtAmount = sumIf (\<lambda>t. st_type t = ST_BUY) spentOn ts,
      ho_soldAmount = sumIf (\<lambda>t. st_type t = ST_SELL) st_amount ts,
      ho_outcomeTokens = tokensBalance (\<lambda>ty. ty = ST_BUY) ts\<rparr>)"

text \<open>\<open>GROUP BY u.id HAVING outcomeTokens > 0\<close>; the count has no \<open>HAVING\<close>.\<close>

definition holderGroups :: "(string \<Rightarrow> string \<Rightarrow> bool) \<Rightarrow> holders_query \<Rightarrow> db \<Rightarrow> joined_share list list" where
  "holderGroups like q d =
     groupRows (\<lambda>j. map_option rowId (js_user j)) (filter (whereHolder like q) (joinShares d))"

definition getHoldersList ::
  "(string \<Rightarrow> string \<Rightarrow> bool) \<Rightarrow> (holder list \<Rightarrow> holder list) \<Rightarrow> holders_query \<Rightarrow> db \<Rightarrow> holder list \<times> nat" where
  "getHoldersList like orderBy q d =
    (pageOf (hq_filters q) (orderBy (filter (\<lambda>h. ho_outcomeTokens h > 0) (map holderOf (holderGroups like q d)))),
     length (holderGroups like q d))"

section \<open>A user's predictions and funding\<close>

record user_query =
  uf_filters :: query_filters
  uf_search :: "string option"

record joined_position =
  jp_market :: prediction_set
  jp_trade :: "share_transaction option"
  jp_outcome :: "outcome option"
  jp_claim :: "claim_transaction option"

definition joinPositions :: "nat \<Rightarrow> db \<Rightarrow> joined_position list" where
  "joinPositions uId d = [\<lparr>jp_market = p, jp_trade = t, jp_outcome = oc, jp_claim = ct\<rparr>.
     p \<leftarrow> rows (prediction_sets d),
     t \<leftarrow> leftJoin (filter (\<lambda>t. st_prediction_set_id t = rowId p \<and> st_user_id t = Some uId) (rows (share_transactions d))),
     oc \<leftarrow> leftJoin (filter (\<lambda>oc. Some (rowId oc) = map_option st_outcome_id t) (rows (outcomes d))),
     ct \<leftarrow> leftJoin (filter (\<lambda>ct. ct_prediction_set_id ct = rowId p \<and> Some (ct_outcome_id ct) = map_option rowId oc
             \<and> ct_user_id ct = uId) (rows (claim_transactions d)))]"

definition wherePosition :: "(string \<Rightarrow> string \<Rightarrow> bool) \<Rightarrow> user_query \<Rightarrow> joined_position \<Rightarrow> bool" where
  "wherePosition like q j \<longleftrightarrow> status (jp_market j) \<noteq> DELETED \<and> jp_trade j \<noteq> None
     \<and> textFilter like (uf_search q) (ps_question (jp_market j))"

record user_prediction =
  up_market :: prediction_set
  up_outcome :: "outcome option"
  up_boughtAmount :: int
  up_soldAmount :: int
  up_outcomeTokens :: int
  up_claimedAmount :: int

definition acquired :: "ShareTransactionType \<Rightarrow> bool" where
  "acquired ty \<longleftrightarrow> ty = ST_BUY \<or> ty = ST_FUND"

definition predictionOf :: "joined_position list \<Rightarrow> user_prediction" where
  "predictionOf g = (let ts = List.map_filter jp_trade g in
     \<lparr>up_market = jp_market (hd g), up_outcome = jp_outcome (hd g),
      up_boughtAmount = sumIf (\<lambda>t. acquired (st_type t)) spentOn ts,
      up_soldAmount = sumIf (\<lambda>t. st_type t = ST_SELL) st_amount ts,
      up_outcomeTokens = tokensBalance acquired ts,
      up_claimedAmount = (case jp_claim (hd g) of None \<Rightarrow> 0 | Some ct \<Rightarrow> ct_amount ct)\<rparr>)"

definition positionKey :: "joined_position \<Rightarrow> nat \<times> nat option" where
  "positionKey j = (rowId (jp_market j), map_option st_outcome_id (jp_trade j))"

definition getUserPredictions ::
  "(string \<Rightarrow> string \<Rightarrow> bool) \<Rightarrow> (user_prediction list \<Rightarrow> user_prediction list) \<Rightarrow> nat \<Rightarrow> user_query \<Rightarrow> db
    \<Rightarrow> user_prediction list \<times> nat" where
  "getUserPredictions like orderBy uId q d =
    (let found = map predictionOf (groupRows positionKey (filter (wherePosition like q) (joinPositions uId d)))
     in (pageOf (uf_filters q) (orderBy found), length found))"

record funding_position =
  fp_market :: prediction_set
  fp_fundedAmount :: int
  fp_remainingShares :: int

definition fundingPosition :: "prediction_set \<Rightarrow> funding_transaction list \<Rightarrow> funding_position" where
  "fundingPosition p ts =
     \<lparr>fp_market = p,
      fp_fundedAmount = sqlSum (map (\<lambda>t. if ft_type t = FT_ADDED then ft_collateralAmount t else Some 0) ts),
      fp_remainingShares = (\<Sum>t \<leftarrow> ts. if ft_type t = FT_ADDED then ft_shares t else - ft_shares t)\<rparr>"

text \<open>
  One join on the user's transactions, grouped by the market: the groups are the
  markets with a transaction.
\<close>

definition getUserFundingPositions ::
  "(string \<Rightarrow> string \<Rightarrow> bool) \<Rightarrow> (funding_position list \<Rightarrow> funding_position list) \<Rightarrow> nat \<Rightarrow> user_query \<Rightarrow> db
    \<Rightarrow> funding_position list \<times> nat" where
  "getUserFundingPositions like orderBy uId q d =
    (let joined = [(p, t).
           p \<leftarrow> rows (prediction_sets d),
           t \<leftarrow> leftJoin (filter (\<lambda>t. ft_prediction_set_id t = rowId p \<and> ft_user_id t = Some uId) (rows (funding_transactions d))),
           status p \<noteq> DELETED \<and> t \<noteq> None \<and> textFilter like (uf_search q) (ps_question p)];
         found = map (\<lambda>g. fundingPosition (fst (hd g)) (List.map_filter snd g)) (groupRows (\<lambda>j. rowId (fst j)) joined)
     in (pageOf (uf_filters q) (orderBy found), length found))"

section \<open>Chances over time\<close>

datatype chance_range = One_day | One_week | One_month | All_time

text \<open>\<open>monthBefore\<close> is the calendar of \<open>DATE_SUB\<close>.\<close>

definition rangeStart :: "(int \<Rightarrow> int) \<Rightarrow> chance_range \<Rightarrow> int \<Rightarrow> int option" where
  "rangeStart monthBefore rg endTime = (case rg of
      One_day \<Rightarrow> Some (endTime - 86400000)
    | One_week \<Rightarrow> Some (endTime - 7 * 86400000)
    | One_month \<Rightarrow> Some (monthBefore endTime)
    | All_time \<Rightarrow> None)"

text \<open>Five minutes, in the milliseconds of the model's dates.\<close>

definition bucketOf :: "outcome_chance \<Rightarrow> int" where
  "bucketOf r = createTime r div 300000"

definition chancesInRange :: "(int \<Rightarrow> int) \<Rightarrow> int \<Rightarrow> prediction_set \<Rightarrow> chance_range \<Rightarrow> db \<Rightarrow> outcome_chance list" where
  "chancesInRange monthBefore now p rg d =
    (let endTime = (if ps_endTime p < now then ps_endTime p else now) in
     filter (\<lambda>r. ch_prediction_set_id r = rowId p
       \<and> (case rangeStart monthBefore rg endTime of None \<Rightarrow> True | Some s \<Rightarrow> createTime r \<ge> s))
       (rows (outcome_chances d)))"

definition latestTimes :: "outcome_chance list \<Rightarrow> (nat \<times> int) list" where
  "latestTimes cs = map (\<lambda>g. (ch_outcome_id (hd g), Max (set (map createTime g))))
     (groupRows (\<lambda>r. (ch_outcome_id r, bucketOf r)) cs)"

record chance_point =
  cp_outcome_id :: nat
  cp_chance :: "rat option"
  cp_date :: int

definition chancePoint :: "outcome_chance \<Rightarrow> chance_point" where
  "chancePoint r = \<lparr>cp_outcome_id = ch_outcome_id r, cp_chance = ch_chance r, cp_date = bucketOf r * 300000\<rparr>"

definition chancePoints :: "(int \<Rightarrow> int) \<Rightarrow> int \<Rightarrow> prediction_set \<Rightarrow> chance_range \<Rightarrow> db \<Rightarrow> chance_point list" where
  "chancePoints monthBefore now p rg d =
    (let times = latestTimes (chancesInRange monthBefore now p rg d);
         shown = filter (\<lambda>r. (ch_outcome_id r, createTime r) \<in> set times) (rows (outcome_chances d))
     in sort_key cp_date (map (\<lambda>g. chancePoint (hd g)) (groupRows (\<lambda>r. (bucketOf r, ch_outcome_id r)) shown)))"

text \<open>\<open>groupBy\<close> of lodash: an object with the outcomes' ids as its keys.\<close>

definition getChanceHistory ::
  "(int \<Rightarrow> int) \<Rightarrow> int \<Rightarrow> prediction_set \<Rightarrow> chance_range \<Rightarrow> db \<Rightarrow> (nat \<times> chance_point list) list" where
  "getChanceHistory monthBefore now p rg d =
     map (\<lambda>g. (cp_outcome_id (hd g), g)) (groupRows cp_outcome_id (chancePoints monthBefore now p rg d))"

definition getPredictionChanceHistory ::
  "(int \<Rightarrow> int) \<Rightarrow> ctx \<Rightarrow> nat \<Rightarrow> chance_range \<Rightarrow> db \<Rightarrow> (exn, (nat \<times> chance_point list) list) res" where
  "getPredictionChanceHistory monthBefore c i rg d =
     bindR (requirePredictionSet i d) (\<lambda>p. Inr (getChanceHistory monthBefore (ctx_now c) p rg d))"

section \<open>One point in five minutes\<close>

lemma latestTimes_iff:
  "(oc, t) \<in> set (latestTimes cs) \<longleftrightarrow> (\<exists>r \<in> set cs. ch_outcome_id r = oc \<and> createTime r = t
     \<and> (\<forall>r' \<in> set cs. ch_outcome_id r' = oc \<and> bucketOf r' = bucketOf r \<longrightarrow> createTime r' \<le> t))"
proof
  let ?key = "\<lambda>r. (ch_outcome_id r, bucketOf r)"
  assume "(oc, t) \<in> set (latestTimes cs)"
  then obtain g where g: "g \<in> set (groupRows ?key cs)" "oc = ch_outcome_id (hd g)" "t = Max (set (map createTime g))"
    by (auto simp: latestTimes_def)
  have "g \<noteq> []" using g(1) group_not_Nil by metis
  then have "t \<in> set (map createTime g)" unfolding g(3) by (intro Max_in) simp_all
  then obtain r where r: "r \<in> set g" "createTime r = t" by auto
  have eq: "g = filter (\<lambda>y. ?key y = ?key r) cs" "g = filter (\<lambda>y. ?key y = ?key (hd g)) cs"
    using group_key [OF g(1) r(1)] group_hd(2) [OF g(1)] by blast+
  have "r \<in> set cs" "ch_outcome_id r = oc" using r(1) g(2) eq by (metis (mono_tags, lifting) mem_Collect_eq prod.inject set_filter)+
  moreover have "createTime r' \<le> t" if "r' \<in> set cs" "ch_outcome_id r' = oc \<and> bucketOf r' = bucketOf r" for r'
  proof -
    have "r' \<in> set g" using that calculation(2) by (subst eq(1)) simp
    then show ?thesis unfolding g(3) by (intro Max_ge) simp_all
  qed
  ultimately show "\<exists>r \<in> set cs. ch_outcome_id r = oc \<and> createTime r = t
     \<and> (\<forall>r' \<in> set cs. ch_outcome_id r' = oc \<and> bucketOf r' = bucketOf r \<longrightarrow> createTime r' \<le> t)"
    using r(2) by blast
next
  let ?key = "\<lambda>r. (ch_outcome_id r, bucketOf r)"
  assume "\<exists>r \<in> set cs. ch_outcome_id r = oc \<and> createTime r = t
     \<and> (\<forall>r' \<in> set cs. ch_outcome_id r' = oc \<and> bucketOf r' = bucketOf r \<longrightarrow> createTime r' \<le> t)"
  then obtain r where r: "r \<in> set cs" "ch_outcome_id r = oc" "createTime r = t"
      "\<And>r'. r' \<in> set cs \<Longrightarrow> ch_outcome_id r' = oc \<and> bucketOf r' = bucketOf r \<Longrightarrow> createTime r' \<le> t" by blast
  let ?g = "filter (\<lambda>y. ?key y = ?key r) cs"
  have g: "?g \<in> set (groupRows ?key cs)" using r(1) by (rule groupRowsI)
  have "?g \<noteq> []" using r(1) by (auto simp: filter_empty_conv)
  then have "hd ?g \<in> set ?g" by (rule hd_in_set)
  then have "ch_outcome_id (hd ?g) = oc" using r(2) by simp
  moreover have "Max (set (map createTime ?g)) = t" using r by (intro Max_eqI) auto
  ultimately show "(oc, t) \<in> set (latestTimes cs)" using g unfolding latestTimes_def by force
qed

text \<open>The chances that are shown, the points made of them, and the entries of an outcome.\<close>

definition shownChances :: "(int \<Rightarrow> int) \<Rightarrow> int \<Rightarrow> prediction_set \<Rightarrow> chance_range \<Rightarrow> db \<Rightarrow> outcome_chance list" where
  "shownChances monthBefore now p rg d =
    filter (\<lambda>r. (ch_outcome_id r, createTime r) \<in> set (latestTimes (chancesInRange monthBefore now p rg d)))
      (rows (outcome_chances d))"

lemma chancePoints_shown:
  "chancePoints monthBefore now p rg d = sort_key cp_date (map (\<lambda>g. chancePoint (hd g))
     (groupRows (\<lambda>r. (bucketOf r, ch_outcome_id r)) (shownChances monthBefore now p rg d)))"
  by (simp add: chancePoints_def shownChances_def Let_def)

lemma points_distinct:
  "distinct (map (\<lambda>x. (cp_date x, cp_outcome_id x)) (chancePoints monthBefore now p rg d))"
proof -
  let ?groups = "groupRows (\<lambda>r. (bucketOf r, ch_outcome_id r)) (shownChances monthBefore now p rg d)"
  have "distinct (map (\<lambda>g. (bucketOf (hd g), ch_outcome_id (hd g))) ?groups)"
    by (rule distinct_group_keys)
  then have "distinct (map (\<lambda>x. (cp_date x, cp_outcome_id x)) (map (\<lambda>g. chancePoint (hd g)) ?groups))"
    by (simp add: comp_def chancePoint_def distinct_map inj_on_def)
  then show ?thesis unfolding chancePoints_shown by (rule distinct_map_sort)
qed

lemma point_stored:
  "x \<in> set (chancePoints monthBefore now p rg d) \<Longrightarrow>
     \<exists>r \<in> set (shownChances monthBefore now p rg d). x = chancePoint r"
  using group_hd(1) by (fastforce simp: chancePoints_shown)

lemma history_entry:
  assumes "(oc, pts) \<in> set (getChanceHistory monthBefore now p rg d)"
  shows "pts = filter (\<lambda>y. cp_outcome_id y = oc) (chancePoints monthBefore now p rg d)" and "pts \<noteq> []"
proof -
  have g: "pts \<in> set (groupRows cp_outcome_id (chancePoints monthBefore now p rg d))" "oc = cp_outcome_id (hd pts)"
    using assms by (auto simp: getChanceHistory_def)
  then show "pts = filter (\<lambda>y. cp_outcome_id y = oc) (chancePoints monthBefore now p rg d)" using group_hd(2) by blast
  show "pts \<noteq> []" using g(1) group_not_Nil by metis
qed

lemma history_ordered:
  assumes "(oc, pts) \<in> set (getChanceHistory monthBefore now p rg d)"
  shows "sorted_wrt (<) (map cp_date pts)"
proof -
  note pts = history_entry(1) [OF assms]
  have "sorted (map cp_date (chancePoints monthBefore now p rg d))" by (simp add: chancePoints_shown)
  then have "sorted (map cp_date pts)" unfolding pts by (rule sorted_filter)
  moreover have "distinct (map (\<lambda>x. (cp_date x, cp_outcome_id x)) pts)"
    unfolding pts using points_distinct by (rule distinct_map_filter)
  then have "distinct (map cp_date pts)" by (auto simp: distinct_map inj_on_def pts)
  ultimately show ?thesis by (simp add: strict_sorted_iff)
qed

lemma point_in_history:
  assumes "x \<in> set (chancePoints monthBefore now p rg d)"
  obtains pts where "(cp_outcome_id x, pts) \<in> set (getChanceHistory monthBefore now p rg d)" and "x \<in> set pts"
proof
  let ?pts = "filter (\<lambda>y. cp_outcome_id y = cp_outcome_id x) (chancePoints monthBefore now p rg d)"
  have g: "?pts \<in> set (groupRows cp_outcome_id (chancePoints monthBefore now p rg d))" using assms by (rule groupRowsI)
  then have "?pts \<noteq> []" using group_not_Nil by metis
  then have "hd ?pts \<in> set ?pts" by (rule hd_in_set)
  then have "cp_outcome_id (hd ?pts) = cp_outcome_id x" by simp
  then show "(cp_outcome_id x, ?pts) \<in> set (getChanceHistory monthBefore now p rg d)"
    using g unfolding getChanceHistory_def by force
  show "x \<in> set ?pts" using assms by simp
qed

lemma shown_is_latest:
  assumes "r \<in> set (shownChances monthBefore now p rg d)"
  defines "cs \<equiv> chancesInRange monthBefore now p rg d"
  shows "r \<in> set (rows (outcome_chances d))
    \<and> (\<exists>r' \<in> set cs. ch_outcome_id r' = ch_outcome_id r \<and> createTime r' = createTime r)
    \<and> (\<forall>r' \<in> set cs. ch_outcome_id r' = ch_outcome_id r \<and> bucketOf r' = bucketOf r \<longrightarrow> createTime r' \<le> createTime r)"
proof -
  obtain r' where "r' \<in> set cs" "ch_outcome_id r' = ch_outcome_id r" "createTime r' = createTime r"
      "\<forall>r'' \<in> set cs. ch_outcome_id r'' = ch_outcome_id r \<and> bucketOf r'' = bucketOf r' \<longrightarrow> createTime r'' \<le> createTime r"
    using assms(1) unfolding shownChances_def cs_def set_filter latestTimes_iff by blast
  moreover have "bucketOf r' = bucketOf r" using calculation(3) by (simp add: bucketOf_def)
  ultimately show ?thesis using assms(1) by (auto simp: shownChances_def)
qed

text \<open>The last chance of five minutes is shown, as the point of these five minutes.\<close>

lemma chance_has_latest:
  assumes "r \<in> set (chancesInRange monthBefore now p rg d)"
  obtains r1 where "r1 \<in> set (shownChances monthBefore now p rg d)"
    and "ch_outcome_id r1 = ch_outcome_id r" and "bucketOf r1 = bucketOf r"
proof -
  let ?cs = "chancesInRange monthBefore now p rg d"
  let ?same = "{r' \<in> set ?cs. ch_outcome_id r' = ch_outcome_id r \<and> bucketOf r' = bucketOf r}"
  have "Max (createTime ` ?same) \<in> createTime ` ?same" using assms by (intro Max_in) auto
  then obtain r1 where r1: "r1 \<in> ?same" "Max (createTime ` ?same) = createTime r1" by blast
  then have "createTime r' \<le> createTime r1" if "r' \<in> ?same" for r'
    using that Max_ge [of "createTime ` ?same" "createTime r'"] by simp
  then have "(ch_outcome_id r, createTime r1) \<in> set (latestTimes ?cs)" using r1(1) unfolding latestTimes_iff by force
  then have "r1 \<in> set (shownChances monthBefore now p rg d)"
    using r1(1) by (auto simp: shownChances_def chancesInRange_def Let_def)
  then show thesis using that r1(1) by blast
qed

lemma shown_has_point:
  assumes "r1 \<in> set (shownChances monthBefore now p rg d)"
  obtains x where "x \<in> set (chancePoints monthBefore now p rg d)" and "cp_outcome_id x = ch_outcome_id r1"
    and "cp_date x = bucketOf r1 * 300000"
proof -
  let ?shown = "shownChances monthBefore now p rg d"
  let ?g = "filter (\<lambda>y. (bucketOf y, ch_outcome_id y) = (bucketOf r1, ch_outcome_id r1)) ?shown"
  have g: "?g \<in> set (groupRows (\<lambda>r. (bucketOf r, ch_outcome_id r)) ?shown)" using assms by (rule groupRowsI)
  then have "?g \<noteq> []" using group_not_Nil by metis
  then have "hd ?g \<in> set ?g" by (rule hd_in_set)
  then have "bucketOf (hd ?g) = bucketOf r1" "ch_outcome_id (hd ?g) = ch_outcome_id r1" by auto
  moreover have "chancePoint (hd ?g) \<in> set (chancePoints monthBefore now p rg d)"
    using g by (force simp: chancePoints_shown)
  ultimately show thesis using that [of "chancePoint (hd ?g)"] by (simp add: chancePoint_def)
qed

text \<open>
  C25: The chance history of a market has, for each outcome, at most one point in
  five minutes, in the order of time; every point is a stored chance of the outcome
  than which the range has no later one in the same five minutes, and every stored
  chance in the range has a point in its five minutes.
\<close>

theorem chance_history_points:
  "distinct (map fst (getChanceHistory monthBefore now p rg d))
   \<and> (\<forall>(oc, points) \<in> set (getChanceHistory monthBefore now p rg d).
        points \<noteq> [] \<and> sorted_wrt (<) (map cp_date points)
        \<and> (\<forall>x \<in> set points. \<exists>r \<in> set (rows (outcome_chances d)). x = chancePoint r \<and> ch_outcome_id r = oc
             \<and> (\<exists>r' \<in> set (chancesInRange monthBefore now p rg d). ch_outcome_id r' = oc \<and> createTime r' = createTime r)
             \<and> (\<forall>r' \<in> set (chancesInRange monthBefore now p rg d).
                  ch_outcome_id r' = oc \<and> bucketOf r' = bucketOf r \<longrightarrow> createTime r' \<le> createTime r)))
   \<and> (\<forall>r \<in> set (chancesInRange monthBefore now p rg d).
        \<exists>points. (ch_outcome_id r, points) \<in> set (getChanceHistory monthBefore now p rg d)
          \<and> bucketOf r * 300000 \<in> cp_date ` set points)"
proof (intro conjI ballI)
  show "distinct (map fst (getChanceHistory monthBefore now p rg d))"
    by (simp add: getChanceHistory_def comp_def)
next
  fix e
  assume entry: "e \<in> set (getChanceHistory monthBefore now p rg d)"
  obtain oc pts where e: "e = (oc, pts)" by (cases e)
  have mem: "(oc, pts) \<in> set (getChanceHistory monthBefore now p rg d)" using entry unfolding e .
  have "\<exists>r \<in> set (rows (outcome_chances d)). x = chancePoint r \<and> ch_outcome_id r = oc
      \<and> (\<exists>r' \<in> set (chancesInRange monthBefore now p rg d). ch_outcome_id r' = oc \<and> createTime r' = createTime r)
      \<and> (\<forall>r' \<in> set (chancesInRange monthBefore now p rg d).
           ch_outcome_id r' = oc \<and> bucketOf r' = bucketOf r \<longrightarrow> createTime r' \<le> createTime r)"
    if "x \<in> set pts" for x
  proof -
    have x: "x \<in> set (chancePoints monthBefore now p rg d)" "cp_outcome_id x = oc"
      using that history_entry(1) [OF mem] by simp_all
    obtain r where r: "r \<in> set (shownChances monthBefore now p rg d)" "x = chancePoint r" using point_stored [OF x(1)] by blast
    then have "ch_outcome_id r = oc" using x(2) by (simp add: chancePoint_def)
    then show ?thesis using shown_is_latest [OF r(1)] r(2) by blast
  qed
  then show "case e of (oc, points) \<Rightarrow> points \<noteq> [] \<and> sorted_wrt (<) (map cp_date points)
        \<and> (\<forall>x \<in> set points. \<exists>r \<in> set (rows (outcome_chances d)). x = chancePoint r \<and> ch_outcome_id r = oc
             \<and> (\<exists>r' \<in> set (chancesInRange monthBefore now p rg d). ch_outcome_id r' = oc \<and> createTime r' = createTime r)
             \<and> (\<forall>r' \<in> set (chancesInRange monthBefore now p rg d).
                  ch_outcome_id r' = oc \<and> bucketOf r' = bucketOf r \<longrightarrow> createTime r' \<le> createTime r))"
    using history_entry(2) [OF mem] history_ordered [OF mem] unfolding e by simp
next
  fix r
  assume "r \<in> set (chancesInRange monthBefore now p rg d)"
  then obtain r1 where r1: "r1 \<in> set (shownChances monthBefore now p rg d)"
      "ch_outcome_id r1 = ch_outcome_id r" "bucketOf r1 = bucketOf r" by (rule chance_has_latest)
  obtain x where x: "x \<in> set (chancePoints monthBefore now p rg d)" "cp_outcome_id x = ch_outcome_id r1"
      "cp_date x = bucketOf r1 * 300000" using r1(1) by (rule shown_has_point)
  obtain pts where "(cp_outcome_id x, pts) \<in> set (getChanceHistory monthBefore now p rg d)" "x \<in> set pts"
    using x(1) by (rule point_in_history)
  then show "\<exists>points. (ch_outcome_id r, points) \<in> set (getChanceHistory monthBefore now p rg d)
      \<and> bucketOf r * 300000 \<in> cp_date ` set points"
    using x(2,3) r1(2,3) by (intro exI [of _ pts]) force
qed

section \<open>The activity feed and its total\<close>

lemma length_concat_le1: "length xs \<le> 1 \<Longrightarrow> (\<And>x. length (f x) \<le> 1) \<Longrightarrow> length (concat (map f xs)) \<le> 1"
  by (cases xs) simp_all

lemma distinct_concat_le1:
  assumes "distinct (map k ts)" and "\<And>t. length (f t) \<le> 1" and "\<And>t a. a \<in> set (f t) \<Longrightarrow> i a = k t"
  shows "distinct (map i (concat (map f ts)))"
  using assms(1)
proof (induction ts)
  case (Cons t ts)
  have "distinct (map i (f t))" using assms(2) [of t] by (cases "f t") simp_all
  moreover have "set (map i (f t)) \<inter> set (map i (concat (map f ts))) = {}"
    using Cons.prems assms(3) by fastforce
  ultimately show ?case using Cons by simp
qed simp

lemma one_row:
  assumes "tblInv t"
  shows "length (filter (\<lambda>r. i = rowId r) (rows t)) \<le> 1" and "length (filter (\<lambda>r. rowId r = i) (rows t)) \<le> 1"
    and "length (filter (\<lambda>r. Some (rowId r) = j) (rows t)) \<le> 1"
proof -
  have one: "length (filter (\<lambda>r. rowId r = i) xs) \<le> 1" if "distinct (map rowId xs)" for xs :: "'a row_scheme list" and i
    using that
  proof (induction xs)
    case (Cons x xs)
    then show ?case by (cases "rowId x = i") (auto simp: filter_empty_conv image_iff)
  qed simp
  then show i: "length (filter (\<lambda>r. rowId r = i) (rows t)) \<le> 1" for i using assms by (simp add: tblInv_def)
  then show "length (filter (\<lambda>r. i = rowId r) (rows t)) \<le> 1" by (simp add: eq_commute [of i])
  show "length (filter (\<lambda>r. Some (rowId r) = j) (rows t)) \<le> 1"
    using i by (cases j) simp_all
qed

lemma distinct_activity_ids:
  assumes "tblInv (prediction_sets d)" and "tblInv (users d)" and "tblInv (outcomes d)"
  shows "tblInv (share_transactions d) \<Longrightarrow> distinct (map av_transactionId (shareActivity like q d))"
    and "tblInv (funding_transactions d) \<Longrightarrow> distinct (map av_transactionId (fundingActivity like q d))"
    and "tblInv (claim_transactions d) \<Longrightarrow> distinct (map av_transactionId (claimActivity like q d))"
  unfolding shareActivity_def fundingActivity_def claimActivity_def
  by (rule distinct_concat_le1 [where k = rowId],
      auto simp: tblInv_def intro!: length_concat_le1 one_row [OF assms(1)] one_row [OF assms(2)] one_row [OF assms(3)]
        split: if_splits simp del: One_nat_def)+

lemma type_numbers:
  "ty \<noteq> ST_FUND \<Longrightarrow> shareTransactionTypeNo ty = 1 \<or> shareTransactionTypeNo ty = 2"
  "fundingTransactionTypeNo fy = 1 \<or> fundingTransactionTypeNo fy = 2"
  by (cases ty; simp) (cases fy; simp)

lemma activity_types:
  "a \<in> set (shareActivity like q d) \<Longrightarrow> av_type a \<in> {1, 2, 6}"
  "a \<in> set (fundingActivity like q d) \<Longrightarrow> av_type a \<in> {3, 4}"
  "a \<in> set (claimActivity like q d) \<Longrightarrow> av_type a = 5"
  using type_numbers by (fastforce simp: shareActivity_def fundingActivity_def claimActivity_def split: if_splits)+

text \<open>
  The activity feed shows every transaction of a market once: its rows are
  distinct, so the union drops none.  The total does not count them: it counts the
  different ids, and the three tables number their rows independently, so it is at
  most the number of rows, and the number of rows only if no two tables share an id.
\<close>

theorem activity_total:
  assumes "tblInv (prediction_sets d)" and "tblInv (users d)" and "tblInv (outcomes d)"
    and "tblInv (share_transactions d)" and "tblInv (funding_transactions d)" and "tblInv (claim_transactions d)"
  shows "distinct (activityRows like q d)
    \<and> fst (getActivityList like orderBy q d) = pageOf (aq_filters q) (orderBy (activityRows like q d))
    \<and> snd (getActivityList like orderBy q d) \<le> length (activityRows like q d)
    \<and> (snd (getActivityList like orderBy q d) = length (activityRows like q d)
       \<longleftrightarrow> distinct (map av_transactionId (activityRows like q d)))"
proof -
  note ids = distinct_activity_ids [OF assms(1-3), of like q]
  have "distinct (shareActivity like q d)" "distinct (fundingActivity like q d)" "distinct (claimActivity like q d)"
    using ids assms(4-6) by (simp_all add: distinct_map)
  moreover have "set (shareActivity like q d) \<inter> (set (fundingActivity like q d) \<union> set (claimActivity like q d)) = {}"
    "set (fundingActivity like q d) \<inter> set (claimActivity like q d) = {}"
    using activity_types [where like = like and q = q and d = d] by fastforce+
  ultimately have "distinct (activityRows like q d)" by (auto simp: activityRows_def)
  then show ?thesis
    using length_remdups_leq [of "map av_transactionId (activityRows like q d)"]
      length_remdups_eq [of "map av_transactionId (activityRows like q d)"]
    by (simp add: getActivityList_def distinct_remdups_id)
qed

text \<open>
  Tokens kept when funding are shown as type 6, but they answer to a filter by type 3,
  with the added funding, and a filter by type 6 finds nothing.
\<close>

lemma no_activity_of_type_six: "aq_type q = Some 6 \<Longrightarrow> activityRows like q d = []"
proof -
  assume six: "aq_type q = Some 6"
  have "shareTransactionTypeNo ty \<noteq> 6" "fundingTransactionTypeNo fy \<noteq> 4" for ty fy by (cases ty; simp) (cases fy; simp)
  then show ?thesis
    by (simp add: activityRows_def shareActivity_def fundingActivity_def claimActivity_def activityWanted_def six)
qed

section \<open>Holders hold\<close>

lemma holders_hold:
  assumes "\<And>xs. mset (orderBy xs) = mset xs" and "h \<in> set (fst (getHoldersList like orderBy q d))"
  shows "ho_outcomeTokens h > 0"
proof -
  have "h \<in> set (orderBy (filter (\<lambda>h. ho_outcomeTokens h > 0) (map holderOf (holderGroups like q d))))"
    using assms(2) set_pageOf by (fastforce simp: getHoldersList_def)
  then show ?thesis using mset_eq_setD [OF assms(1)] by auto
qed

text \<open>The total also counts who has sold everything.\<close>

lemma holders_total:
  "snd (getHoldersList like orderBy q d)
    = length (filter (\<lambda>h. ho_outcomeTokens h > 0) (map holderOf (holderGroups like q d)))
    + length (filter (\<lambda>h. \<not> ho_outcomeTokens h > 0) (map holderOf (holderGroups like q d)))"
  by (simp only: getHoldersList_def snd_conv sum_length_filter_compl length_map)

text \<open>Tokens kept from funding do not count, although selling them does.\<close>

lemma funders_do_not_hold:
  "st_type (js_trade j) = ST_FUND \<Longrightarrow> ho_outcomeTokens (holderOf [j]) = 0"
  "st_type (js_trade k) = ST_SELL \<Longrightarrow> ho_outcomeTokens (holderOf (j # [k])) =
     (if st_type (js_trade j) = ST_BUY then st_outcomeTokens (js_trade j) else 0)
     - (if st_type (js_trade j) = ST_SELL then st_outcomeTokens (js_trade j) else 0) - st_outcomeTokens (js_trade k)"
  by (simp_all add: holderOf_def tokensBalance_def sumIf_def)

section \<open>Positions add up\<close>

definition tradesOf :: "nat \<Rightarrow> db \<Rightarrow> nat \<Rightarrow> share_transaction list" where
  "tradesOf uId d i = filter (\<lambda>t. st_prediction_set_id t = i \<and> st_user_id t = Some uId) (rows (share_transactions d))"

definition outcomeRow :: "db \<Rightarrow> nat \<Rightarrow> outcome list" where
  "outcomeRow d oc = filter (\<lambda>r. rowId r = oc) (rows (outcomes d))"

definition claimsOf :: "nat \<Rightarrow> db \<Rightarrow> nat \<Rightarrow> nat \<Rightarrow> claim_transaction list" where
  "claimsOf uId d i oc = filter (\<lambda>ct. ct_prediction_set_id ct = i \<and> ct_outcome_id ct = oc \<and> ct_user_id ct = uId)
     (rows (claim_transactions d))"

definition headOf :: "'a list \<Rightarrow> 'a option" where
  "headOf xs = (case xs of [] \<Rightarrow> None | x # _ \<Rightarrow> Some x)"

lemma leftJoin_one: "length xs \<le> 1 \<Longrightarrow> leftJoin xs = [headOf xs]"
  by (cases xs) (simp_all add: leftJoin_def headOf_def)

text \<open>The row of the join that a trade gives.\<close>

definition positionRow :: "nat \<Rightarrow> db \<Rightarrow> prediction_set \<Rightarrow> share_transaction \<Rightarrow> joined_position" where
  "positionRow uId d p t = (let oc = headOf (outcomeRow d (st_outcome_id t)) in
     \<lparr>jp_market = p, jp_trade = Some t, jp_outcome = oc,
      jp_claim = Option.bind oc (\<lambda>r. headOf (claimsOf uId d (rowId p) (rowId r)))\<rparr>)"

lemma joinPositions_trades:
  assumes "tblInv (outcomes d)" and "\<And>i oc. length (claimsOf uId d i oc) \<le> 1"
  shows "filter (wherePosition like q) (joinPositions uId d)
    = concat (map (\<lambda>p. if status p \<noteq> DELETED \<and> textFilter like (uf_search q) (ps_question p)
        then map (positionRow uId d p) (tradesOf uId d (rowId p)) else []) (rows (prediction_sets d)))"
proof -
  let ?oc = "\<lambda>t. filter (\<lambda>oc. Some (rowId oc) = map_option st_outcome_id t) (rows (outcomes d))"
  let ?ct = "\<lambda>p oc. filter (\<lambda>ct. ct_prediction_set_id ct = rowId p \<and> Some (ct_outcome_id ct) = map_option rowId oc
             \<and> ct_user_id ct = uId) (rows (claim_transactions d))"
  have oc: "leftJoin (?oc (Some t)) = [headOf (outcomeRow d (st_outcome_id t))]" for t
    using one_row(2) [OF assms(1)] by (simp add: leftJoin_one outcomeRow_def)
  have ct: "leftJoin (?ct p o') = [Option.bind o' (\<lambda>r. headOf (claimsOf uId d (rowId p) (rowId r)))]" for p o'
    using leftJoin_one [OF assms(2)] by (cases o') (simp_all add: claimsOf_def headOf_def)
  have inner: "filter (wherePosition like q)
      (concat (map (\<lambda>t. concat (map (\<lambda>oc. map (\<lambda>ct. \<lparr>jp_market = p, jp_trade = t, jp_outcome = oc, jp_claim = ct\<rparr>)
         (leftJoin (?ct p oc))) (leftJoin (?oc t)))) (leftJoin (tradesOf uId d (rowId p)))))
    = (if status p \<noteq> DELETED \<and> textFilter like (uf_search q) (ps_question p)
        then map (positionRow uId d p) (tradesOf uId d (rowId p)) else [])" for p
  proof (cases "tradesOf uId d (rowId p) = []")
    case True
    then show ?thesis by (auto simp: filter_empty_conv wherePosition_def)
  next
    case False
    have rows_p: "concat (map (\<lambda>t. concat (map (\<lambda>oc. map (\<lambda>ct. \<lparr>jp_market = p, jp_trade = t, jp_outcome = oc, jp_claim = ct\<rparr>)
         (leftJoin (?ct p oc))) (leftJoin (?oc t)))) (leftJoin (tradesOf uId d (rowId p))))
      = map (positionRow uId d p) (tradesOf uId d (rowId p))"
      using False by (simp add: leftJoin_def [of "tradesOf uId d (rowId p)"] comp_def oc ct positionRow_def Let_def
          del: option.map)
    have w: "wherePosition like q (positionRow uId d p t)
        \<longleftrightarrow> status p \<noteq> DELETED \<and> textFilter like (uf_search q) (ps_question p)" for t
      by (simp add: wherePosition_def positionRow_def Let_def)
    show ?thesis unfolding rows_p by (simp add: filter_map comp_def w)
  qed
  show ?thesis
    unfolding joinPositions_def tradesOf_def [symmetric]
    by (subst filter_concat) (simp only: map_map comp_def inner)
qed

lemma concat_single:
  assumes "distinct (map rowId ps)" and "p \<in> set ps"
  shows "concat (map (\<lambda>x. if rowId x = rowId p then f x else []) ps) = f p"
  using assms
proof (induction ps)
  case (Cons x ps)
  show ?case
  proof (cases "p = x")
    case True
    then have "concat (map (\<lambda>y. if rowId y = rowId p then f y else []) ps) = []"
      using Cons.prems(1) by (auto simp: image_iff)
    then show ?thesis using True by simp
  next
    case False
    then show ?thesis using Cons by (auto simp: image_iff)
  qed
qed simp

text \<open>The trades of the group of a position are the user's trades with the outcome.\<close>

lemma position_group:
  assumes "tblInv (prediction_sets d)" and "tblInv (outcomes d)" and "\<And>i oc. length (claimsOf uId d i oc) \<le> 1"
    and "g \<in> set (groupRows positionKey (filter (wherePosition like q) (joinPositions uId d)))"
  obtains p t where "p \<in> set (rows (prediction_sets d))" and "status p \<noteq> DELETED"
    and "t \<in> set (tradesOf uId d (rowId p))"
    and "g = map (positionRow uId d p) (filter (\<lambda>x. st_outcome_id x = st_outcome_id t) (tradesOf uId d (rowId p)))"
proof -
  let ?shown = "\<lambda>p. status p \<noteq> DELETED \<and> textFilter like (uf_search q) (ps_question p)"
  let ?rows = "concat (map (\<lambda>p. if ?shown p then map (positionRow uId d p) (tradesOf uId d (rowId p)) else [])
     (rows (prediction_sets d)))"
  have g: "g \<in> set (groupRows positionKey ?rows)" using assms(4) unfolding joinPositions_trades [OF assms(2,3)] .
  then have "hd g \<in> set ?rows" by (rule group_hd(1))
  then obtain p t where p: "p \<in> set (rows (prediction_sets d))" "?shown p" "t \<in> set (tradesOf uId d (rowId p))"
      "hd g = positionRow uId d p t" by (auto split: if_splits)
  have key: "positionKey (positionRow uId d x y) = (rowId x, Some (st_outcome_id y))" for x y
    by (simp add: positionKey_def positionRow_def Let_def)
  have "g = filter (\<lambda>y. positionKey y = positionKey (hd g)) ?rows" using g by (rule group_hd(2))
  also have "\<dots> = concat (map (\<lambda>x. if rowId x = rowId p then
       (if ?shown x then map (positionRow uId d x) (filter (\<lambda>y. st_outcome_id y = st_outcome_id t) (tradesOf uId d (rowId x))) else [])
       else []) (rows (prediction_sets d)))"
    unfolding filter_concat map_map
    by (intro arg_cong [of _ _ concat] map_cong refl) (simp add: p(4) key filter_map comp_def)
  also have "\<dots> = map (positionRow uId d p) (filter (\<lambda>y. st_outcome_id y = st_outcome_id t) (tradesOf uId d (rowId p)))"
    by (subst concat_single [OF _ p(1)]) (use assms(1) p(2) in \<open>simp_all add: tblInv_def\<close>)
  finally show thesis using that p by blast
qed


text \<open>A second claim with the outcome doubles what was bought.\<close>

lemma claims_multiply:
  assumes "status p = ACTIVE" and "st_prediction_set_id t = rowId p" and "st_user_id t = Some uId"
    and "st_outcome_id t = rowId r" and "st_type t = ST_BUY"
    and "ct_prediction_set_id a = rowId p" "ct_outcome_id a = rowId r" "ct_user_id a = uId"
    and "ct_prediction_set_id b = rowId p" "ct_outcome_id b = rowId r" "ct_user_id b = uId"
  shows "map up_boughtAmount (fst (getUserPredictions like id uId
      \<lparr>uf_filters = \<lparr>qf_limit = Some 20, qf_offset = 0, qf_order = [], qf_orderStr = None\<rparr>, uf_search = None\<rparr>
      (emptyDb\<lparr>prediction_sets := emptyTbl\<lparr>rows := [p]\<rparr>, share_transactions := emptyTbl\<lparr>rows := [t]\<rparr>,
         outcomes := emptyTbl\<lparr>rows := [r]\<rparr>, claim_transactions := emptyTbl\<lparr>rows := [a, b]\<rparr>\<rparr>)))
    = [2 * spentOn t]"
  using assms
  by (simp add: getUserPredictions_def joinPositions_def emptyDb_def emptyTbl_def leftJoin_def wherePosition_def
      textFilter_def groupRows_def positionKey_def pageOf_def predictionOf_def sumIf_def acquired_def List.map_filter_def)

end
