(* ===== verification/Stats.thy ===== *)
theory Stats
  imports Position_Lists
begin

text \<open>
  The leaderboards (\<open>modules/stats/stats.service.ts\<close>): the rows that count for a
  user, a group per user, and the page.  Without an order of the request the largest
  totals come first.
\<close>

section \<open>Leaderboards\<close>

record top_users_query =
  tq_filters :: query_filters
  tq_collateralTokenId :: nat
  tq_range :: "chance_range option"

text \<open>The condition on the time of a row, absent for all time and for an unknown range.\<close>

definition withinRange :: "(int \<Rightarrow> int) \<Rightarrow> int \<Rightarrow> chance_range option \<Rightarrow> int \<Rightarrow> bool" where
  "withinRange monthBefore now rg t =
    (case Option.bind rg (\<lambda>r. rangeStart monthBefore r now) of None \<Rightarrow> True | Some s \<Rightarrow> t \<ge> s)"

definition tokenOf :: "nat \<Rightarrow> top_users_query \<Rightarrow> db \<Rightarrow> prediction_set list" where
  "tokenOf psId q d = filter (\<lambda>p. rowId p = psId \<and> ps_collateral_token_id p = tq_collateralTokenId q) (rows (prediction_sets d))"

definition profitRows :: "(int \<Rightarrow> int) \<Rightarrow> int \<Rightarrow> top_users_query \<Rightarrow> db \<Rightarrow> (user \<times> int) list" where
  "profitRows monthBefore now q d = [(u, ct_amount ct).
     ct \<leftarrow> rows (claim_transactions d),
     u \<leftarrow> filter (\<lambda>u. rowId u = ct_user_id ct) (rows (users d)),
     p \<leftarrow> tokenOf (ct_prediction_set_id ct) q d,
     status ct \<noteq> DELETED \<and> status u \<noteq> DELETED \<and> withinRange monthBefore now (tq_range q) (createTime ct)]"

text \<open>Bought shares and added funding: user, amount, time and market.\<close>

definition combinedTxs :: "db \<Rightarrow> (nat option \<times> int \<times> int \<times> nat) list" where
  "combinedTxs d =
    [(st_user_id t, st_amount t, createTime t, st_prediction_set_id t).
       t \<leftarrow> rows (share_transactions d), status t \<noteq> DELETED \<and> st_type t = ST_BUY]
  @ [(ft_user_id t, v, createTime t, ft_prediction_set_id t).
       t \<leftarrow> rows (funding_transactions d), status t \<noteq> DELETED \<and> ft_type t = FT_ADDED,
       v \<leftarrow> (case ft_collateralAmount t of None \<Rightarrow> [] | Some v \<Rightarrow> [v])]"

definition volumeRows :: "(int \<Rightarrow> int) \<Rightarrow> int \<Rightarrow> top_users_query \<Rightarrow> db \<Rightarrow> (user \<times> int) list" where
  "volumeRows monthBefore now q d = [(u, v).
     u \<leftarrow> rows (users d),
     (uId, v, time, psId) \<leftarrow> combinedTxs d,
     p \<leftarrow> tokenOf psId q d,
     uId = Some (rowId u) \<and> status u \<noteq> DELETED \<and> withinRange monthBefore now (tq_range q) time]"

definition rewardRows :: "(int \<Rightarrow> int) \<Rightarrow> int \<Rightarrow> top_users_query \<Rightarrow> db \<Rightarrow> (user \<times> int) list" where
  "rewardRows monthBefore now q d = [(u, rt_value rt).
     rt \<leftarrow> rows (reward_transactions d),
     u \<leftarrow> filter (\<lambda>u. rowId u = rt_user_id rt) (rows (users d)),
     status rt \<noteq> DELETED \<and> status u \<noteq> DELETED \<and> withinRange monthBefore now (tq_range q) (createTime rt)]"

record top_user =
  tu_id :: nat
  tu_username :: "string option"
  tu_walletAddress :: string
  tu_total :: int

definition leader :: "(user \<times> int) list \<Rightarrow> top_user" where
  "leader g = (let u = fst (hd g) in
     \<lparr>tu_id = rowId u, tu_username = us_username u, tu_walletAddress = us_walletAddress u,
      tu_total = (\<Sum>x \<leftarrow> g. snd x)\<rparr>)"

type_synonym leader_order = "(top_user list \<Rightarrow> top_user list) option"

definition topUsers :: "leader_order \<Rightarrow> query_filters \<Rightarrow> (user \<times> int) list \<Rightarrow> top_user list \<times> nat" where
  "topUsers orderBy f scored =
    (let found = map leader (groupRows (\<lambda>x. rowId (fst x)) scored);
         ordered = (case orderBy of None \<Rightarrow> sort_key (\<lambda>x. - tu_total x) found | Some by \<Rightarrow> by found)
     in (pageOf f ordered, length found))"

definition getTopUsersByProfit :: "(int \<Rightarrow> int) \<Rightarrow> leader_order \<Rightarrow> int \<Rightarrow> top_users_query \<Rightarrow> db \<Rightarrow> top_user list \<times> nat" where
  "getTopUsersByProfit monthBefore orderBy now q d = topUsers orderBy (tq_filters q) (profitRows monthBefore now q d)"

definition getTopUsersByVolume :: "(int \<Rightarrow> int) \<Rightarrow> leader_order \<Rightarrow> int \<Rightarrow> top_users_query \<Rightarrow> db \<Rightarrow> top_user list \<times> nat" where
  "getTopUsersByVolume monthBefore orderBy now q d = topUsers orderBy (tq_filters q) (volumeRows monthBefore now q d)"

definition getTopUsersByRewardPoints :: "(int \<Rightarrow> int) \<Rightarrow> leader_order \<Rightarrow> int \<Rightarrow> top_users_query \<Rightarrow> db \<Rightarrow> top_user list \<times> nat" where
  "getTopUsersByRewardPoints monthBefore orderBy now q d = topUsers orderBy (tq_filters q) (rewardRows monthBefore now q d)"

section \<open>What a leaderboard promises\<close>

lemma leader_total:
  assumes "g \<in> set (groupRows (\<lambda>x. rowId (fst x)) scored)"
  shows "tu_total (leader g) = (\<Sum>x \<leftarrow> filter (\<lambda>x. rowId (fst x) = tu_id (leader g)) scored. snd x)"
proof -
  have "g = filter (\<lambda>x. rowId (fst x) = rowId (fst (hd g))) scored" using group_hd(2) [OF assms] .
  then show ?thesis by (simp add: leader_def Let_def)
qed

text \<open>
  Without an order of the request a leaderboard is a list with every user once, the
  largest totals first, each total being the sum of the user's rows; the page is cut
  from it, and the totals sum up to all rows that count.
\<close>

theorem leaderboard:
  obtains leaders where "topUsers None f scored = (pageOf f leaders, length leaders)"
    and "distinct (map tu_id leaders)" and "sorted_wrt (\<ge>) (map tu_total leaders)"
    and "\<And>x. x \<in> set leaders \<Longrightarrow>
      tu_total x = (\<Sum>y \<leftarrow> filter (\<lambda>y. rowId (fst y) = tu_id x) scored. snd y)"
    and "(\<Sum>x \<leftarrow> leaders. tu_total x) = (\<Sum>y \<leftarrow> scored. snd y)"
proof
  let ?groups = "groupRows (\<lambda>x. rowId (fst x)) scored"
  let ?leaders = "sort_key (\<lambda>x. - tu_total x) (map leader ?groups)"
  show "topUsers None f scored = (pageOf f ?leaders, length ?leaders)" by (simp add: topUsers_def Let_def)
  have "map tu_id (map leader ?groups) = map (\<lambda>g. rowId (fst (hd g))) ?groups" by (simp add: leader_def Let_def)
  then have "distinct (map tu_id (map leader ?groups))"
    using distinct_group_keys [of "\<lambda>x. rowId (fst x)" scored] by argo
  then show "distinct (map tu_id ?leaders)" by (rule distinct_map_sort)
  have "sorted (map (\<lambda>x. - tu_total x) ?leaders)" by (rule sorted_sort_key)
  then show "sorted_wrt (\<ge>) (map tu_total ?leaders)" by (simp add: sorted_wrt_map)
  show "tu_total x = (\<Sum>y \<leftarrow> filter (\<lambda>y. rowId (fst y) = tu_id x) scored. snd y)" if "x \<in> set ?leaders" for x
    using that leader_total by auto
  have "(\<Sum>x \<leftarrow> ?leaders. tu_total x) = (\<Sum>x \<leftarrow> map leader ?groups. tu_total x)"
    by (metis mset_map mset_sort sum_mset_sum_list)
  also have "\<dots> = (\<Sum>g \<leftarrow> ?groups. \<Sum>y \<leftarrow> g. snd y)" by (simp add: comp_def leader_def Let_def)
  also have "\<dots> = (\<Sum>y \<leftarrow> scored. snd y)" by (rule sum_groups)
  finally show "(\<Sum>x \<leftarrow> ?leaders. tu_total x) = (\<Sum>y \<leftarrow> scored. snd y)" .
qed

text \<open>The profit counts payouts alone: what the shares cost does not lower it.\<close>

lemma profit_ignores_cost:
  "getTopUsersByProfit monthBefore orderBy now q (d\<lparr>share_transactions := t\<rparr>) = getTopUsersByProfit monthBefore orderBy now q d"
  by (simp add: getTopUsersByProfit_def profitRows_def tokenOf_def)

end
