(* ===== verification/Content_Services.thy ===== *)
theory Content_Services
  imports Sql_Joins Users Prediction_Service
begin

text \<open>
  The small services around the markets: banners (\<open>modules/banner\<close>), the airdrop
  list (\<open>modules/airdrop\<close>) and data sources (\<open>modules/data-source\<close>).  Parameters:
  the validator of addresses, the JSON parser, the request to an endpoint and the
  jq interpreter.
\<close>

section \<open>Banners\<close>

text \<open>
  The model has no validators; the table's foreign key makes a statement throw that
  names no market.
\<close>

definition namesMarket :: "banner \<Rightarrow> db \<Rightarrow> bool" where
  "namesMarket b d \<longleftrightarrow> (case bn_prediction_set_id b of None \<Rightarrow> False | Some i \<Rightarrow> byId i (prediction_sets d) \<noteq> None)"

definition createBanner :: "ctx \<Rightarrow> banner \<Rightarrow> db \<Rightarrow> (exn, nat \<times> db) res" where
  "createBanner c b d =
    (if \<not> namesMarket b d then Inl (CodeException 500 SQL_SYSTEM_ERROR)
     else (case insertRow c noClash b (banners d) of
             Inl e \<Rightarrow> Inl (CodeException 500 SQL_SYSTEM_ERROR)
           | Inr (i, t) \<Rightarrow> Inr (i, d\<lparr>banners := t\<rparr>)))"

text \<open>The fields of the request's model, whose \<open>isActive\<close> is true when the body has none.\<close>

definition populateBanner :: "banner \<Rightarrow> banner \<Rightarrow> banner" where
  "populateBanner b r = r\<lparr>bn_prediction_set_id := bn_prediction_set_id b, bn_title := bn_title b,
     bn_description := bn_description b, bn_button := bn_button b, bn_imageUrl := bn_imageUrl b,
     bn_isActive := bn_isActive b\<rparr>"

definition updateBanner :: "ctx \<Rightarrow> nat \<Rightarrow> banner \<Rightarrow> db \<Rightarrow> (exn, db) res" where
  "updateBanner c i b d =
    bindR (populateById i (banners d)) (\<lambda>r. case r of
        None \<Rightarrow> Inl (CodeException 404 BANNER_DOES_NOT_EXISTS)
      | Some r \<Rightarrow> if \<not> namesMarket b d then Inl (CodeException 500 SQL_SYSTEM_ERROR)
                  else Inr (d\<lparr>banners := updateRow c (rowId r) (populateBanner b) (banners d)\<rparr>))"

text \<open>
  These two do not look whether the banner exists: a missing one is an empty model,
  whose update finds no row.
\<close>

definition changeBanner :: "ctx \<Rightarrow> nat \<Rightarrow> (banner \<Rightarrow> banner) \<Rightarrow> db \<Rightarrow> (exn, db) res" where
  "changeBanner c i f d = bindR (populateById i (banners d)) (\<lambda>r. case r of
      None \<Rightarrow> Inr d
    | Some r \<Rightarrow> Inr (d\<lparr>banners := updateRow c (rowId r) f (banners d)\<rparr>))"

definition toggleBanner :: "ctx \<Rightarrow> nat \<Rightarrow> db \<Rightarrow> (exn, db) res" where
  "toggleBanner c i = changeBanner c i (\<lambda>r. r\<lparr>bn_isActive := \<not> bn_isActive r\<rparr>)"

definition deleteBanner :: "ctx \<Rightarrow> nat \<Rightarrow> db \<Rightarrow> (exn, db) res" where
  "deleteBanner c i = changeBanner c i (\<lambda>r. r\<lparr>status := DELETED\<rparr>)"

definition getActive :: "db \<Rightarrow> banner list" where
  "getActive d = take 3 (rev (sort_key rowId
     (filter (\<lambda>b. status b \<noteq> DELETED \<and> bn_isActive b) (rows (banners d)))))"

record banner_item =
  bi_banner :: banner
  bi_predictionSetQuestion :: "string option"

definition bannerMatches :: "(string \<Rightarrow> string \<Rightarrow> bool) \<Rightarrow> string option \<Rightarrow> banner \<Rightarrow> bool" where
  "bannerMatches like search b \<longleftrightarrow> status b \<noteq> DELETED
     \<and> (case search of None \<Rightarrow> True | Some s \<Rightarrow> like (bn_title b) s \<or> like (bn_description b) s)"

definition getBannersAdmin ::
  "(string \<Rightarrow> string \<Rightarrow> bool) \<Rightarrow> (banner_item list \<Rightarrow> banner_item list) \<Rightarrow> query_filters \<Rightarrow> string option \<Rightarrow> db
    \<Rightarrow> banner_item list \<times> nat" where
  "getBannersAdmin like orderBy f search d =
    (let joined = [(b, p). b \<leftarrow> rows (banners d),
           p \<leftarrow> leftJoin (filter (\<lambda>p. bn_prediction_set_id b = Some (rowId p)) (rows (prediction_sets d))),
           bannerMatches like search b];
         found = map (\<lambda>g. \<lparr>bi_banner = fst (hd g), bi_predictionSetQuestion = map_option ps_question (snd (hd g))\<rparr>)
           (groupRows (\<lambda>x. rowId (fst x)) joined)
     in (pageOf f (orderBy found), length found))"

text \<open>
  What visitors see: at most three banners, live, active, the newest first, and no
  newer one is left out for an older one.
\<close>

lemma active_banners:
  assumes "tblInv (banners d)"
  shows "length (getActive d) \<le> 3" and "sorted_wrt (\<lambda>a b. rowId a > rowId b) (getActive d)"
    and "b \<in> set (getActive d) \<Longrightarrow> b \<in> set (rows (banners d)) \<and> status b \<noteq> DELETED \<and> bn_isActive b"
proof -
  let ?shown = "filter (\<lambda>b. status b \<noteq> DELETED \<and> bn_isActive b) (rows (banners d))"
  show "length (getActive d) \<le> 3" by (simp add: getActive_def)
  have "distinct (map rowId ?shown)" using assms by (simp add: tblInv_def distinct_map_filter)
  then have "distinct (map rowId (sort_key rowId ?shown))" by (rule distinct_map_sort)
  then have "sorted_wrt (<) (map rowId (sort_key rowId ?shown))" by (simp add: strict_sorted_iff)
  then have "sorted_wrt (\<lambda>a b. rowId a > rowId b) (rev (sort_key rowId ?shown))"
    by (simp add: sorted_wrt_map sorted_wrt_rev)
  then show "sorted_wrt (\<lambda>a b. rowId a > rowId b) (getActive d)" unfolding getActive_def by (rule sorted_wrt_take)
  show "b \<in> set (getActive d) \<Longrightarrow> b \<in> set (rows (banners d)) \<and> status b \<noteq> DELETED \<and> bn_isActive b"
    by (auto simp: getActive_def dest: in_set_takeD)
qed

text \<open>A banner that was switched off is shown again by an update of its title alone.\<close>

lemma update_reactivates:
  assumes "tblInv (banners d)" and "byId i (banners d) = Some r" and "status r \<noteq> DELETED" and "i \<noteq> 0"
    and "namesMarket b d" and "bn_isActive b"
  shows "\<exists>d' r'. updateBanner c i b d = Inr d' \<and> byId i (banners d') = Some r' \<and> bn_isActive r'"
proof -
  have "populateById i (banners d) = Inr (Some r)" using assms by (simp add: populateById_byId)
  moreover have "rowId r = i" using assms(2) by (auto dest: byId_SomeD)
  ultimately show ?thesis using assms by (simp add: updateBanner_def populateBanner_def byId_updateRow)
qed

section \<open>The airdrop list\<close>

definition uniqueFieldValue :: "('r row_scheme \<Rightarrow> string) \<Rightarrow> string \<Rightarrow> 'r row_scheme tbl \<Rightarrow> bool" where
  "uniqueFieldValue field v t \<longleftrightarrow> v = [] \<or> filter (\<lambda>r. field r = v) (rows t) = []"

definition validateAirdropUser :: "(string \<Rightarrow> bool) \<Rightarrow> db \<Rightarrow> airdrop_user \<Rightarrow> ValidatorErrorCode list" where
  "validateAirdropUser validEmail d u =
     (if ad_walletAddress u = [] then [AIRDROP_USER_WALLET_ADDRESS_NOT_PRESENT] else [])
   @ (if uniqueFieldValue ad_walletAddress (ad_walletAddress u) (airdrop_users d) then [] else [AIRDROP_USER_WALLET_ADDRESS_NOT_UNIQUE])
   @ (if ad_email u = [] then [AIRDROP_USER_EMAIL_NOT_PRESENT] else [])
   @ (if validEmail (ad_email u) then [] else [AIRDROP_USER_EMAIL_NOT_VALID])
   @ (if uniqueFieldValue ad_email (ad_email u) (airdrop_users d) then [] else [AIRDROP_USER_EMAIL_NOT_UNIQUE])"

definition joinAirdrop :: "(string \<Rightarrow> bool) \<Rightarrow> ctx \<Rightarrow> airdrop_user \<Rightarrow> db \<Rightarrow> (exn, db) res" where
  "joinAirdrop validEmail c u d =
    (if validateAirdropUser validEmail d u \<noteq> [] then Inl (ValidationException (validateAirdropUser validEmail d u))
     else bindR (insertRow c airdropClash u (airdrop_users d)) (\<lambda>(i, t). Inr (d\<lparr>airdrop_users := t\<rparr>)))"

text \<open>Every entry of the list is complete, and no wallet or address is on it twice.\<close>

definition airdropInv :: "(string \<Rightarrow> bool) \<Rightarrow> db \<Rightarrow> bool" where
  "airdropInv validEmail d \<longleftrightarrow> tblInv (airdrop_users d)
     \<and> distinct (map ad_walletAddress (rows (airdrop_users d))) \<and> distinct (map ad_email (rows (airdrop_users d)))
     \<and> (\<forall>r \<in> set (rows (airdrop_users d)). ad_walletAddress r \<noteq> [] \<and> ad_email r \<noteq> [] \<and> validEmail (ad_email r))"

theorem airdrop_unique:
  assumes "airdropInv validEmail d" and "joinAirdrop validEmail c u d = Inr d'"
  shows "airdropInv validEmail d'"
    and "length (rows (airdrop_users d')) = Suc (length (rows (airdrop_users d)))"
proof -
  have ok: "validateAirdropUser validEmail d u = []" using assms(2) by (auto simp: joinAirdrop_def split: if_splits)
  obtain i t where t: "insertRow c airdropClash u (airdrop_users d) = Inr (i, t)" "d' = d\<lparr>airdrop_users := t\<rparr>"
    using assms(2) ok by (auto simp: joinAirdrop_def res_simps)
  have inv: "tblInv t" using assms(1) t(1) tblInv_insertRow unfolding airdropInv_def by blast
  obtain r where r: "rows t = rows (airdrop_users d) @ [r]" "ad_walletAddress r = ad_walletAddress u" "ad_email r = ad_email u"
    using t(1) by (auto simp: insertRow_def Let_def split: if_splits)
  have v: "ad_walletAddress u \<noteq> []" "ad_email u \<noteq> []" "validEmail (ad_email u)"
    "uniqueFieldValue ad_walletAddress (ad_walletAddress u) (airdrop_users d)" "uniqueFieldValue ad_email (ad_email u) (airdrop_users d)"
    using ok by (auto simp: validateAirdropUser_def split: if_splits)
  show "airdropInv validEmail d'"
    using assms(1) inv r v t(2) by (auto simp: airdropInv_def uniqueFieldValue_def filter_empty_conv)
  show "length (rows (airdrop_users d')) = Suc (length (rows (airdrop_users d)))" using r(1) t(2) by simp
qed

section \<open>Data sources\<close>

definition validateDataSource :: "data_source \<Rightarrow> ValidatorErrorCode list" where
  "validateDataSource s =
     (if ds_endpoint s = [] then [DATA_SOURCE_ENDPOINT_NOT_PRESENT] else [])
   @ (if ds_jqQuery s = [] then [DATA_SOURCE_JQ_QUERY_NOT_PRESENT] else [])
   @ (if ds_abi s = [] then [DATA_SOURCE_ABI_NOT_PRESENT] else [])"

definition createDataSource :: "(string \<Rightarrow> bool) \<Rightarrow> ctx \<Rightarrow> data_source \<Rightarrow> db \<Rightarrow> (exn, nat \<times> db) res" where
  "createDataSource isJson c s d =
    (if \<not> isJson (ds_abi s) then Inl (ValidatorCodeException 400 DATA_SOURCE_ABI_NOT_PRESENT)
     else let s = s\<lparr>ds_httpMethod := (if ds_httpMethod s = [] then ''GET'' else ds_httpMethod s)\<rparr> in
       if validateDataSource s \<noteq> [] then Inl (ValidationException (validateDataSource s))
       else (case insertRow c noClash s (data_sources d) of
               Inl e \<Rightarrow> Inl (CodeException 500 SQL_SYSTEM_ERROR)
             | Inr (i, t) \<Rightarrow> Inr (i, d\<lparr>data_sources := t\<rparr>)))"

definition listDataSources :: "db \<Rightarrow> data_source list" where
  "listDataSources d = rev (sort_key rowId (filter (\<lambda>s. status s \<noteq> DELETED) (rows (data_sources d))))"

record jq_test =
  jt_jqQuery :: string
  jt_endpoint :: string
  jt_queryParams :: "(string \<times> string) list"
  jt_httpMethod :: string
  jt_headers :: "(string \<times> string) list option"
  jt_body :: "string option"
  jt_sampleResponse :: "string option"

record fetch_request =
  fr_url :: string
  fr_method :: string
  fr_headers :: "(string \<times> string) list"
  fr_body :: "string option"

record jq_answer =
  ja_success :: bool
  ja_error :: "string option"
  ja_data :: "string option"
  ja_sampleData :: "string option"

text \<open>
  \<open>urlOf\<close> appends the query parameters.  A body goes only with the three methods
  that take one, and brings the content type unless the headers name one.
\<close>

definition fetchRequest :: "(string \<Rightarrow> (string \<times> string) list \<Rightarrow> string) \<Rightarrow> string \<Rightarrow> jq_test \<Rightarrow> fetch_request" where
  "fetchRequest urlOf apiKey t =
    (let method = (if jt_httpMethod t = [] then ''GET'' else jt_httpMethod t);
         headers = (case jt_headers t of None \<Rightarrow> [(''x-api-key'', apiKey)] | Some hs \<Rightarrow> hs);
         withBody = jt_body t \<noteq> None \<and> jt_httpMethod t \<in> {''POST'', ''PUT'', ''PATCH''}
     in \<lparr>fr_url = urlOf (jt_endpoint t) (jt_queryParams t), fr_method = method,
         fr_headers = (if withBody \<and> map_of headers ''Content-Type'' \<in> {None, Some []}
           then filter (\<lambda>h. fst h \<noteq> ''Content-Type'') headers @ [(''Content-Type'', ''application/json'')] else headers),
         fr_body = (if withBody then jt_body t else None)\<rparr>)"

definition jqFailure :: "string \<Rightarrow> string option \<Rightarrow> jq_answer" where
  "jqFailure e sample = \<lparr>ja_success = False, ja_error = Some e, ja_data = None, ja_sampleData = sample\<rparr>"

definition runJq :: "(string \<Rightarrow> string \<Rightarrow> string + string) \<Rightarrow> string \<Rightarrow> string \<Rightarrow> jq_answer" where
  "runJq jq query sample = (case jq query sample of
      Inl e \<Rightarrow> jqFailure (if e = [] then ''JQ query execution failed'' else e) (Some sample)
    | Inr x \<Rightarrow> \<lparr>ja_success = True, ja_error = None, ja_data = Some x, ja_sampleData = Some sample\<rparr>)"

definition testJqQuery ::
  "(string \<Rightarrow> string \<Rightarrow> string + string) \<Rightarrow> (fetch_request \<Rightarrow> string + string)
    \<Rightarrow> (string \<Rightarrow> (string \<times> string) list \<Rightarrow> string) \<Rightarrow> string \<Rightarrow> jq_test \<Rightarrow> jq_answer" where
  "testJqQuery jq fetch urlOf apiKey t =
    (if jt_endpoint t \<noteq> [] then
       (case fetch (fetchRequest urlOf apiKey t) of
          Inl e \<Rightarrow> jqFailure (''Failed to fetch data from endpoint: '' @ e) None
        | Inr sample \<Rightarrow> runJq jq (jt_jqQuery t) sample)
     else (case jt_sampleResponse t of
        None \<Rightarrow> jqFailure ''Either endpoint or sampleResponse must be provided'' None
      | Some sample \<Rightarrow> runJq jq (jt_jqQuery t) sample))"

text \<open>
  A caller of the test chooses the endpoint: without headers of its own the
  request carries the key of the proxy wherever it goes.
\<close>

lemma test_sends_proxy_key:
  "jt_headers t = None \<Longrightarrow> (''x-api-key'', apiKey) \<in> set (fr_headers (fetchRequest urlOf apiKey t))"
  by (simp add: fetchRequest_def Let_def)

lemma created_source_is_listed:
  assumes "tblInv (data_sources d)" and "createDataSource isJson c s d = Inr (i, d')" and "status s \<noteq> DELETED" and "rowId s = 0"
  shows "\<exists>s'. listDataSources d' = s' # listDataSources d \<and> rowId s' = i \<and> ds_httpMethod s' \<noteq> [] \<and> isJson (ds_abi s')"
proof -
  obtain t where t: "insertRow c noClash (s\<lparr>ds_httpMethod := (if ds_httpMethod s = [] then ''GET'' else ds_httpMethod s)\<rparr>)
      (data_sources d) = Inr (i, t)" "d' = d\<lparr>data_sources := t\<rparr>" "isJson (ds_abi s)"
    using assms(2) by (auto simp: createDataSource_def Let_def split: if_splits sum.splits)
  define s' where "s' = (s\<lparr>ds_httpMethod := (if ds_httpMethod s = [] then ''GET'' else ds_httpMethod s)\<rparr>)
    \<lparr>rowId := i, createUser := ctx_user c, updateUser := ctx_user c, createTime := ctx_now c, updateTime := ctx_now c\<rparr>"
  have s': "rows t = rows (data_sources d) @ [s']" "i = auto_increment (data_sources d)"
    using insertRow_Inr(1,2) [OF t(1)] assms(4) unfolding s'_def by simp_all
  have fields: "rowId s' = i" "status s' = status s" "ds_abi s' = ds_abi s" "ds_httpMethod s' \<noteq> []"
    by (simp_all add: s'_def)
  have less: "\<forall>x \<in> set (rows (data_sources d)). rowId x < rowId s'" using assms(1) s'(2) fields(1) by (simp add: tblInv_def)
  have "sort_key rowId (xs @ [x]) = sort_key rowId xs @ [x]" if "\<forall>y \<in> set xs. rowId y < rowId x"
    for xs :: "data_source list" and x
  proof (rule properties_for_sort_key)
    show "sorted (map rowId (sort_key rowId xs @ [x]))" using that by (auto simp: sorted_append intro: less_imp_le)
    show "filter (\<lambda>y. rowId k = rowId y) (sort_key rowId xs @ [x]) = filter (\<lambda>y. rowId k = rowId y) (xs @ [x])" for k
      using sort_key_same [of "filter (\<lambda>y. rowId k = rowId y) xs" rowId "rowId k"] by (simp add: filter_sort)
  qed simp
  then have "sort_key rowId (filter (\<lambda>s. status s \<noteq> DELETED) (rows t))
      = sort_key rowId (filter (\<lambda>s. status s \<noteq> DELETED) (rows (data_sources d))) @ [s']"
    using s'(1) fields(2) assms(3) less by simp
  then show ?thesis using fields t(2,3) by (auto simp: listDataSources_def)
qed

section \<open>Suggestions\<close>

text \<open>
  \<open>ask\<close> is the request to the language model, \<open>itemsOf\<close> the list under \<open>items\<close> of a
  text that is JSON and has one.  A failing request is not caught; an answer that
  cannot be used is reported as an error of the database.
\<close>

definition generateSuggestions ::
  "(string \<Rightarrow> (exn, string) res) \<Rightarrow> (string \<Rightarrow> 'j list option) \<Rightarrow> string \<Rightarrow> (exn, 'j list) res" where
  "generateSuggestions ask itemsOf prompt =
    bindR (ask prompt) (\<lambda>content. requireR (CodeException 500 SQL_SYSTEM_ERROR) (itemsOf content))"

lemma suggestions_from_answer:
  "generateSuggestions ask itemsOf prompt = Inr items \<longleftrightarrow> (\<exists>content. ask prompt = Inr content \<and> itemsOf content = Some items)"
  by (auto simp: generateSuggestions_def res_simps)

end
