(* ===== verification/Templates.thy ===== *)
theory Templates
  imports Js_String Types_Config
begin

text \<open>
  Markets from templates (\<open>modules/prediction-template/prediction-template.service.ts\<close>):
  the placeholders of a template are replaced one name after the other, with
  JavaScript's \<open>replace\<close>, in which a dollar sign in the new text has a meaning of its
  own.  The templates are in \<open>Template_Data\<close>; arguments are
  the parser and the formats of dates and numbers.
\<close>

section \<open>Replacing\<close>

text \<open>
  \<open>GetSubstitution\<close> for a pattern without groups: \<open>$$\<close>, the match, what precedes it
  and what follows it.
\<close>

fun expandReplacement :: "string \<Rightarrow> string \<Rightarrow> string \<Rightarrow> string \<Rightarrow> string" where
  "expandReplacement match before after (c # e # cs) =
    (if c = CHR ''$'' \<and> e = CHR ''$'' then CHR ''$'' # expandReplacement match before after cs
     else if c = CHR ''$'' \<and> e = CHR ''&'' then match @ expandReplacement match before after cs
     else if c = CHR ''$'' \<and> e = CHR 0x60 then before @ expandReplacement match before after cs
     else if c = CHR ''$'' \<and> e = CHR 0x27 then after @ expandReplacement match before after cs
     else c # expandReplacement match before after (e # cs))"
| "expandReplacement match before after cs = cs"

text \<open>All matches of a literal text, from left to right; \<open>before\<close> is what was read.\<close>

function replaceGlobal :: "string \<Rightarrow> string \<Rightarrow> string \<Rightarrow> string \<Rightarrow> string" where
  "replaceGlobal pat new before [] = []"
| "replaceGlobal pat new before (c # cs) =
    (if pat \<noteq> [] \<and> startsWith (c # cs) pat
     then expandReplacement pat before (drop (length pat) (c # cs)) new
            @ replaceGlobal pat new (before @ pat) (drop (length pat) (c # cs))
     else c # replaceGlobal pat new (before @ [c]) cs)"
  by pat_completeness auto
termination by (relation "measure (\<lambda>(pat, new, before, s). length s)") auto

definition placeholder :: "string \<Rightarrow> string" where
  "placeholder key = ''{{'' @ key @ ''}}''"

definition replacePlaceholders :: "(string \<times> string) list \<Rightarrow> string \<Rightarrow> string" where
  "replacePlaceholders replacements template =
     fold (\<lambda>(key, v) s. replaceGlobal (placeholder key) v [] s) replacements template"

section \<open>A template and its variables\<close>

record 'n template_variables =
  tv_price :: "'n option"
  tv_goal :: "'n option"
  tv_comparisonType :: "string option"
  tv_attestationTime :: "string option"
  tv_homeTeamName :: "string option"
  tv_awayTeamName :: "string option"
  tv_sofascoreMatchId :: "int option"
  tv_livescoreEid :: "int option"
  tv_livescoreCategory :: "string option"
  tv_pandascoreMatchId :: "int option"

record source_template =
  sc_endpoint :: string
  sc_httpMethod :: string
  sc_queryParams :: "(string \<times> string) list option"
  sc_jqQuery :: string
  sc_abi :: string

record variable_spec =
  vr_name :: string
  vr_type :: string
  vr_label :: string
  vr_required :: bool
  vr_default :: "string option"
  vr_options :: "(string \<times> string) list"
  vr_link :: "string option"
  vr_precision :: "nat option"

record market_defaults =
  md_collateral_token_id :: nat
  md_consensusThreshold :: int
  md_marketCapPercent :: int
  md_outcomes :: "(string \<times> string) list"

record template_summary =
  mt_id :: string
  mt_name :: string
  mt_description :: string
  mt_category :: string
  mt_imgUrl :: "string option"
  mt_variables :: "variable_spec list"

record market_template = template_summary +
  mt_questionTemplate :: string
  mt_outcomeResolutionTemplate :: string
  mt_dataSourceTemplates :: "source_template list"
  mt_defaults :: market_defaults

text \<open>
  \<open>dates\<close> parses (\<open>None\<close> for an invalid date) to seconds, \<open>format\<close> writes in a time zone,
  \<open>numText\<close> and \<open>numLocale\<close> are \<open>String(n)\<close> and \<open>n.toLocaleString()\<close>.
\<close>

record 'n template_env =
  te_dates :: "string \<Rightarrow> int option"
  te_format :: "string \<Rightarrow> string \<Rightarrow> int \<Rightarrow> string"
  te_numText :: "'n \<Rightarrow> string"
  te_numLocale :: "'n \<Rightarrow> string"
  te_dev :: bool

definition orNull :: "string option \<Rightarrow> string" where
  "orNull v = (case v of None \<Rightarrow> ''null'' | Some s \<Rightarrow> s)"

definition orUndefined :: "string option \<Rightarrow> string" where
  "orUndefined v = (case v of None \<Rightarrow> ''undefined'' | Some s \<Rightarrow> s)"

definition orDefault :: "string option \<Rightarrow> string \<Rightarrow> string" where
  "orDefault v s = (case v of None \<Rightarrow> s | Some x \<Rightarrow> if x = [] then s else x)"

definition getApiProxyPrefix :: "bool \<Rightarrow> string" where
  "getApiProxyPrefix isDev = (if isDev then ''https://api-proxy-dev.ignitemarket.xyz/''
     else ''https://api-proxy.ignitemarket.xyz/'')"

definition replacementsOf :: "'n template_env \<Rightarrow> 'n template_variables \<Rightarrow> int \<Rightarrow> (string \<times> string) list" where
  "replacementsOf e v time = [
     (''price'', orNull (map_option (te_numText e) (tv_price v))),
     (''priceFormatted'', orUndefined (map_option (te_numLocale e) (tv_price v))),
     (''goal'', orNull (map_option (te_numText e) (tv_goal v))),
     (''goalFormatted'', orUndefined (map_option (te_numLocale e) (tv_goal v))),
     (''comparisonType'', orDefault (tv_comparisonType v) ''above''),
     (''attestationTime'', te_format e ''UTC'' ''MMM D, YYYY HH:mm'' time),
     (''attestationTimeUnix'', jsInt time),
     (''attestationTimeUnixMs'', jsInt (time * 1000)),
     (''attestationTimeDate'', te_format e ''UTC'' ''YYYY-MM-DD'' time),
     (''attestationTimeFormatted'', te_format e ''Asia/Shanghai'' ''YYYY-MM-DD HH:mm:ss'' time),
     (''comparisonOp'', if tv_comparisonType v = Some ''below'' then ''<'' else ''>=''),
     (''apiProxyPrefix'', getApiProxyPrefix (te_dev e)),
     (''homeTeamName'', orNull (tv_homeTeamName v)),
     (''awayTeamName'', orNull (tv_awayTeamName v)),
     (''sofascoreMatchId'', orNull (map_option jsInt (tv_sofascoreMatchId v))),
     (''pandascoreMatchId'', orNull (map_option jsInt (tv_pandascoreMatchId v))),
     (''livescoreEid'', orNull (map_option jsInt (tv_livescoreEid v))),
     (''livescoreCategory'', orDefault (tv_livescoreCategory v) ''basketball''),
     (''matchDateFormatted'', te_format e ''UTC'' ''MMMM D, YYYY HH:mm:ss'' time)]"

datatype template_error = Template_not_found | Invalid_attestation_time

fun templateErrorStatus :: "template_error \<Rightarrow> int" where
  "templateErrorStatus Template_not_found = 404"
| "templateErrorStatus Invalid_attestation_time = 400"

record generated_market =
  gm_question :: string
  gm_outcomeResolutionDef :: string
  gm_dataSources :: "source_template list"
  gm_defaults :: market_defaults

definition fillSource :: "(string \<times> string) list \<Rightarrow> source_template \<Rightarrow> source_template" where
  "fillSource repl s = s\<lparr>sc_endpoint := replacePlaceholders repl (sc_endpoint s),
     sc_queryParams := (case sc_queryParams s of None \<Rightarrow> None
       | Some ps \<Rightarrow> if ps = [] then None else Some (map (\<lambda>(k, x). (k, replacePlaceholders repl x)) ps)),
     sc_jqQuery := replacePlaceholders repl (sc_jqQuery s)\<rparr>"

definition getTemplates :: "market_template list \<Rightarrow> template_summary list" where
  "getTemplates templates = map template_summary.truncate templates"

definition getTemplateById :: "market_template list \<Rightarrow> string \<Rightarrow> market_template option" where
  "getTemplateById templates i = find (\<lambda>t. mt_id t = i) templates"

definition generateFromTemplate ::
  "market_template list \<Rightarrow> 'n template_env \<Rightarrow> string \<Rightarrow> 'n template_variables \<Rightarrow> (template_error, generated_market) res" where
  "generateFromTemplate templates e i v =
    (case getTemplateById templates i of
       None \<Rightarrow> Inl Template_not_found
     | Some t \<Rightarrow>
        (case Option.bind (tv_attestationTime v) (\<lambda>s. if s = [] then None else te_dates e s) of
           None \<Rightarrow> Inl Invalid_attestation_time
         | Some time \<Rightarrow> (let repl = replacementsOf e v time in
             Inr \<lparr>gm_question = replacePlaceholders repl (mt_questionTemplate t),
                  gm_outcomeResolutionDef = replacePlaceholders repl (mt_outcomeResolutionTemplate t),
                  gm_dataSources = map (fillSource repl) (mt_dataSourceTemplates t),
                  gm_defaults = mt_defaults t\<rparr>)))"

section \<open>Filling in at once\<close>

datatype piece = Chr char | Hole string

definition render :: "piece list \<Rightarrow> string" where
  "render ps = concat (map (\<lambda>p. case p of Chr c \<Rightarrow> [c] | Hole k \<Rightarrow> placeholder k) ps)"

lemma render_simps [simp]:
  "render [] = []" "render (Chr c # ps) = c # render ps" "render (Hole k # ps) = placeholder k @ render ps"
  "render (ps @ qs) = render ps @ render qs"
  by (simp_all add: render_def)

lemma render_map_Chr [simp]: "render (map Chr s) = s"
  by (induction s) simp_all

definition plain :: "string \<Rightarrow> bool" where
  "plain s \<longleftrightarrow> CHR ''{'' \<notin> set s \<and> CHR ''$'' \<notin> set s"

definition holeName :: "string \<Rightarrow> bool" where
  "holeName k \<longleftrightarrow> CHR ''{'' \<notin> set k \<and> CHR ''}'' \<notin> set k"

text \<open>
  A template: the names of its holes have no braces, and an opening brace of its
  text stands before neither another one nor a hole.
\<close>

fun wellFormed :: "piece list \<Rightarrow> bool" where
  "wellFormed [] = True"
| "wellFormed (Hole k # ps) = (holeName k \<and> wellFormed ps)"
| "wellFormed (Chr c # ps) = ((c = CHR ''{'' \<longrightarrow> (case ps of Chr e # _ \<Rightarrow> e \<noteq> CHR ''{'' | Hole _ # _ \<Rightarrow> False | [] \<Rightarrow> True))
     \<and> wellFormed ps)"

definition fillAll :: "(string \<times> string) list \<Rightarrow> piece list \<Rightarrow> string" where
  "fillAll repl ps = concat (map (\<lambda>p. case p of Chr c \<Rightarrow> [c]
     | Hole k \<Rightarrow> (case map_of repl k of None \<Rightarrow> placeholder k | Some v \<Rightarrow> v)) ps)"

definition fillOne :: "string \<Rightarrow> string \<Rightarrow> piece list \<Rightarrow> piece list" where
  "fillOne key v ps = concat (map (\<lambda>p. case p of Chr c \<Rightarrow> [Chr c] | Hole k \<Rightarrow> if k = key then map Chr v else [Hole k]) ps)"

lemma fillOne_simps [simp]:
  "fillOne key v [] = []" "fillOne key v (Chr c # ps) = Chr c # fillOne key v ps"
  "fillOne key v (Hole k # ps) = (if k = key then map Chr v else [Hole k]) @ fillOne key v ps"
  by (simp_all add: fillOne_def)

lemma expand_plain: "CHR ''$'' \<notin> set s \<Longrightarrow> expandReplacement m b a s = s"
  by (induction m b a s rule: expandReplacement.induct) auto

lemma replaceGlobal_skip: "\<not> startsWith (c # cs) pat \<Longrightarrow> replaceGlobal pat v b (c # cs) = c # replaceGlobal pat v (b @ [c]) cs"
  by simp

lemma replaceGlobal_skip2:
  "\<not> startsWith (c # e # cs) pat \<Longrightarrow> \<not> startsWith (e # cs) pat \<Longrightarrow>
   replaceGlobal pat v b (c # e # cs) = c # e # replaceGlobal pat v ((b @ [c]) @ [e]) cs"
  by (metis replaceGlobal_skip)

lemma replaceGlobal_hit:
  assumes "pat \<noteq> []" and "CHR ''$'' \<notin> set v"
  shows "\<exists>b'. replaceGlobal pat v b (pat @ s) = v @ replaceGlobal pat v b' s"
proof -
  obtain c cs where pat: "pat = c # cs" using assms(1) by (cases pat) auto
  have "startsWith (pat @ s) pat" by (simp add: startsWith_iff)
  then show ?thesis using pat expand_plain [OF assms(2)] by (intro exI [of _ "b @ pat"]) simp
qed

text \<open>Text without an opening brace holds no placeholder.\<close>

lemma no_brace_skip:
  assumes "CHR ''{'' \<notin> set w"
  shows "\<exists>b'. replaceGlobal (placeholder key) v b (w @ s) = w @ replaceGlobal (placeholder key) v b' s"
  using assms
proof (induction w arbitrary: b)
  case (Cons c w)
  have "\<not> startsWith ((c # w) @ s) (placeholder key)" using Cons.prems by (auto simp: startsWith_iff placeholder_def)
  then show ?case using Cons by (metis append_Cons insert_iff list.simps(15) replaceGlobal_skip)
qed (auto intro: exI [of _ b])

lemma placeholder_prefix:
  assumes "holeName k" and "holeName key"
  shows "startsWith (placeholder k @ s) (placeholder key) \<longleftrightarrow> k = key"
proof
  assume "startsWith (placeholder k @ s) (placeholder key)"
  then obtain t where "k @ ''}}'' @ s = key @ ''}}'' @ t" by (auto simp: startsWith_iff placeholder_def)
  then have "takeWhile (\<lambda>c. c \<noteq> CHR ''}'') (k @ ''}}'' @ s) = takeWhile (\<lambda>c. c \<noteq> CHR ''}'') (key @ ''}}'' @ t)" by simp
  moreover have "takeWhile (\<lambda>c. c \<noteq> CHR ''}'') (x @ ''}}'' @ y) = x" if "holeName x" for x y
    using that by (subst takeWhile_append2) (auto simp: holeName_def)
  ultimately show "k = key" using assms by metis
qed (simp add: startsWith_iff)

lemma other_hole_skip:
  assumes "holeName k" and "holeName key" and "k \<noteq> key"
  shows "\<exists>b'. replaceGlobal (placeholder key) v b (placeholder k @ s) = placeholder k @ replaceGlobal (placeholder key) v b' s"
proof -
  have p: "placeholder k @ s = CHR ''{'' # CHR ''{'' # (k @ ''}}'') @ s" by (simp add: placeholder_def)
  have "\<not> startsWith (CHR ''{'' # CHR ''{'' # (k @ ''}}'') @ s) (placeholder key)"
    using placeholder_prefix [OF assms(1,2), of s, unfolded p] assms(3) by blast
  moreover have "\<not> startsWith (CHR ''{'' # (k @ ''}}'') @ s) (placeholder key)"
    using assms(1) by (cases k) (auto simp: startsWith_iff placeholder_def holeName_def)
  ultimately have "replaceGlobal (placeholder key) v b (placeholder k @ s)
      = CHR ''{'' # CHR ''{'' # replaceGlobal (placeholder key) v ((b @ [CHR ''{'']) @ [CHR ''{'']) ((k @ ''}}'') @ s)"
    unfolding p by (rule replaceGlobal_skip2)
  moreover obtain b' where "replaceGlobal (placeholder key) v ((b @ [CHR ''{'']) @ [CHR ''{'']) ((k @ ''}}'') @ s)
      = (k @ ''}}'') @ replaceGlobal (placeholder key) v b' s"
    using no_brace_skip [of "k @ ''}}''" key v "(b @ [CHR ''{'']) @ [CHR ''{'']" s] assms(1) by (auto simp: holeName_def)
  ultimately show ?thesis by (intro exI [of _ b']) (simp add: placeholder_def)
qed

lemma replace_fillOne:
  assumes "wellFormed ps" and "holeName key" and "plain v"
  shows "replaceGlobal (placeholder key) v b (render ps) = render (fillOne key v ps)"
  using assms(1)
proof (induction ps arbitrary: b)
  case (Cons p ps)
  show ?case
  proof (cases p)
    case (Chr c)
    have "\<not> startsWith (c # render ps) (placeholder key)"
    proof
      assume s: "startsWith (c # render ps) (placeholder key)"
      then obtain t where "c = CHR ''{''" "render ps = CHR ''{'' # t" by (auto simp: startsWith_iff placeholder_def)
      then show False using Cons.prems Chr by (cases ps) (auto simp: placeholder_def split: piece.splits)
    qed
    then show ?thesis using Cons Chr by (simp add: replaceGlobal_skip del: replaceGlobal.simps(2))
  next
    case (Hole k)
    then have k: "holeName k" "wellFormed ps" using Cons.prems by simp_all
    have "placeholder key \<noteq> []" by (simp add: placeholder_def)
    then show ?thesis
      using Cons.IH [OF k(2)] Hole replaceGlobal_hit [of "placeholder key" v b "render ps"] assms(3)
        other_hole_skip [OF k(1) assms(2), of v b "render ps"]
      by (cases "k = key") (auto simp: plain_def)
  qed
qed simp

lemma wellFormed_append: "CHR ''{'' \<notin> set v \<Longrightarrow> wellFormed ps \<Longrightarrow> wellFormed (map Chr v @ ps)"
  by (induction v) auto

lemma wellFormed_fillOne:
  assumes "wellFormed ps" and "plain v"
  shows "wellFormed (fillOne key v ps)"
  using assms(1)
proof (induction ps)
  case (Cons p ps)
  show ?case
  proof (cases p)
    case (Chr c)
    then show ?thesis using Cons by (cases ps) (auto split: piece.splits)
  next
    case (Hole k)
    then show ?thesis using Cons assms(2) wellFormed_append by (auto simp: plain_def)
  qed
qed simp

lemma fillAll_fillOne: "fillAll repl (fillOne key v ps) = fillAll ((key, v) # repl) ps"
proof (induction ps)
  case (Cons p ps)
  have "concat (map (\<lambda>p. case p of Chr c \<Rightarrow> [c] | Hole k \<Rightarrow> (case map_of repl k of None \<Rightarrow> placeholder k | Some v \<Rightarrow> v)) (map Chr s)) = s" for s
    by (induction s) simp_all
  then show ?case using Cons by (cases p) (simp_all add: fillAll_def)
qed (simp add: fillAll_def)

text \<open>
  Filling in a template is one substitution: as long as no value has a dollar
  sign or an opening brace, replacing one name after the other puts at every
  placeholder the value of its name, leaves unknown names and all other text as they
  are, and no value is read as part of a placeholder or changed on its way.
\<close>

theorem template_filled:
  assumes "wellFormed ps" and "\<forall>(key, v) \<in> set repl. holeName key \<and> plain v"
  shows "replacePlaceholders repl (render ps) = fillAll repl ps"
  using assms
proof (induction repl arbitrary: ps)
  case Nil
  have "fillAll [] ps = render ps" unfolding fillAll_def render_def
    by (intro arg_cong [of _ _ concat] map_cong refl) (simp split: piece.split)
  then show ?case by (simp add: replacePlaceholders_def)
next
  case (Cons x repl)
  obtain key v where x: "x = (key, v)" by (cases x)
  have "replacePlaceholders repl (render (fillOne key v ps)) = fillAll repl (fillOne key v ps)"
    using Cons.prems x by (intro Cons.IH wellFormed_fillOne) auto
  then show ?case using Cons.prems x replace_fillOne [of ps key v "[]"]
    by (simp add: replacePlaceholders_def fillAll_fillOne)
qed

text \<open>A value with a dollar sign is changed, and one with braces is filled in itself.\<close>

lemma values_are_patterns:
  "replacePlaceholders [(''a'', ''$&'')] ''{{a}}'' = ''{{a}}''"
  "replacePlaceholders [(''a'', ''$$'')] ''{{a}}'' = ''$''"
  "replacePlaceholders [(''a'', ''{{b}}''), (''b'', ''x'')] ''{{a}}'' = ''x''"
  by code_simp+

text \<open>A variable the request leaves out stands in the market as a word.\<close>

lemma missing_price:
  "tv_price v = None \<Longrightarrow> map_of (replacementsOf e v time) ''price'' = Some ''null''
    \<and> map_of (replacementsOf e v time) ''priceFormatted'' = Some ''undefined''"
  by (simp add: replacementsOf_def orNull_def orUndefined_def)

end
