(* ===== verification/Template_Data.thy ===== *)
theory Template_Data
  imports Templates
begin

text \<open>
  The templates of \<open>config/prediction-templates\<close> as they are, and what filling them in
  gives: every placeholder of every template is a name the service knows.
\<close>

section \<open>The templates\<close>

definition outcomeIdxAbi :: string where \<open>
  outcomeIdxAbi = ''{"components":[{"internalType":"uint256","name":"outcomeIdx","type":"uint256"}],"type":"tuple"}''\<close>

definition btcPriceTemplate :: market_template where \<open>
  btcPriceTemplate = \<lparr>mt_id = ''btc-price'', mt_name = ''BTC Price Prediction'',
     mt_description = ''Predict if BTC price will be above/below a target price at a specific time'',
     mt_category = ''Finance'', mt_imgUrl = Some ''https://images.ignitemarket.xyz/upload/prediction-sets/bitcoin.webp'',
     mt_variables = [\<lparr>vr_name = ''price'', vr_type = ''number'', vr_label = ''Price Target (USD)'', vr_required = True, vr_default = None,
        vr_options = [], vr_link = None, vr_precision = None\<rparr>,
      \<lparr>vr_name = ''comparisonType'', vr_type = ''select'', vr_label = ''Comparison Type'', vr_required = False, vr_default = Some ''above'',
        vr_options = [(''above'', ''Above''), (''below'', ''Below'')], vr_link = None, vr_precision = None\<rparr>,
      \<lparr>vr_name = ''attestationTime'', vr_type = ''datetime'', vr_label = ''Attestation Time'', vr_required = True, vr_default = None,
        vr_options = [], vr_link = None, vr_precision = None\<rparr>],
     mt_questionTemplate = ''Will the BTC market price be {{comparisonType}} ${{priceFormatted}} on {{attestationTime}}?'',
     mt_outcomeResolutionTemplate = ''This market will resolve to "Yes" if the price of BTC is {{comparisonType}} ${{priceFormatted}} on {{attestationTime}}. '' @ [CHR 0x0A] @ ''Resolution sources: CoinGecko, CryptoCompare and Coinbase. '' @ [CHR 0x0A] @ ''The market resolution is backed by Flare unique FDC Web2 connector.'',
     mt_dataSourceTemplates = [\<lparr>sc_endpoint = ''{{apiProxyPrefix}}coingecko/api/v3/coins/bitcoin/market_chart'', sc_httpMethod = ''GET'',
        sc_queryParams = Some [(''vs_currency'', ''usd''), (''days'', ''1'')],
        sc_jqQuery = ''{ "outcomeIdx": [1, 0][((.prices | map(select(.[0] >= {{attestationTimeUnixMs}})) | sort_by(.[0]) | .[0][1]) {{comparisonOp}} {{price}}) | if . then 0 else 1 end] }'',
        sc_abi = outcomeIdxAbi\<rparr>,
      \<lparr>sc_endpoint = ''{{apiProxyPrefix}}cryptocompare/data/v2/histominute'', sc_httpMethod = ''GET'',
        sc_queryParams = Some [(''fsym'', ''BTC''), (''tsym'', ''USD''), (''limit'', ''1''), (''toTs'', ''{{attestationTimeUnix}}'')],
        sc_jqQuery = ''{ "outcomeIdx": [1, 0][((.Data.Data[-1].close) {{comparisonOp}} {{price}}) | if . then 0 else 1 end] }'',
        sc_abi = outcomeIdxAbi\<rparr>,
      \<lparr>sc_endpoint = ''{{apiProxyPrefix}}coindesk/spot/v1/historical/minutes'', sc_httpMethod = ''GET'',
        sc_queryParams = Some [(''market'', ''coinbase''), (''instrument'', ''BTC-USD''), (''limit'', ''1''), (''to_ts'', ''{{attestationTimeUnix}}'')],
        sc_jqQuery = ''{ "outcomeIdx": [1, 0][((.Data[0].CLOSE) {{comparisonOp}} {{price}}) | if . then 0 else 1 end] }'',
        sc_abi = outcomeIdxAbi\<rparr>],
     mt_defaults = \<lparr>md_collateral_token_id = 1, md_consensusThreshold = 60, md_marketCapPercent = 30,
        md_outcomes = [(''No'', ''https://images.ignitemarket.xyz/outcomes/no.svg''), (''Yes'', ''https://images.ignitemarket.xyz/outcomes/yes.svg'')]\<rparr>\<rparr>\<close>

definition flrPriceTemplate :: market_template where \<open>
  flrPriceTemplate = \<lparr>mt_id = ''flr-price'', mt_name = ''FLR Price Prediction'',
     mt_description = ''Predict if FLR price will be above/below a target price at a specific time'',
     mt_category = ''Finance'', mt_imgUrl = Some ''https://images.ignitemarket.xyz/prediction-sets/flr.jpg'',
     mt_variables = [\<lparr>vr_name = ''price'', vr_type = ''number'', vr_label = ''Price Target (USD)'', vr_required = True, vr_default = None,
        vr_options = [], vr_link = None, vr_precision = Some 4\<rparr>,
      \<lparr>vr_name = ''comparisonType'', vr_type = ''select'', vr_label = ''Comparison Type'', vr_required = False, vr_default = Some ''above'',
        vr_options = [(''above'', ''Above''), (''below'', ''Below'')], vr_link = None, vr_precision = None\<rparr>,
      \<lparr>vr_name = ''attestationTime'', vr_type = ''datetime'', vr_label = ''Attestation Time'', vr_required = True, vr_default = None,
        vr_options = [], vr_link = None, vr_precision = None\<rparr>],
     mt_questionTemplate = ''Will the FLR market price be {{comparisonType}} ${{priceFormatted}} on {{attestationTime}}?'',
     mt_outcomeResolutionTemplate = ''This market will resolve to "Yes" if the price of FLR is {{comparisonType}} ${{priceFormatted}} on {{attestationTime}}. '' @ [CHR 0x0A] @ ''Resolution sources: CoinGecko, CryptoCompare and Coinbase. '' @ [CHR 0x0A] @ ''The market resolution is backed by Flare unique FDC Web2 connector.'',
     mt_dataSourceTemplates = [\<lparr>sc_endpoint = ''{{apiProxyPrefix}}coingecko/api/v3/coins/flare-networks/market_chart'', sc_httpMethod = ''GET'',
        sc_queryParams = Some [(''vs_currency'', ''usd''), (''days'', ''1'')],
        sc_jqQuery = ''{ "outcomeIdx": [1, 0][((.prices | map(select(.[0] >= {{attestationTimeUnixMs}})) | sort_by(.[0]) | .[0][1]) {{comparisonOp}} {{price}}) | if . then 0 else 1 end] }'',
        sc_abi = outcomeIdxAbi\<rparr>,
      \<lparr>sc_endpoint = ''{{apiProxyPrefix}}cryptocompare/data/v2/histominute'', sc_httpMethod = ''GET'',
        sc_queryParams = Some [(''fsym'', ''FLR''), (''tsym'', ''USD''), (''limit'', ''1''), (''toTs'', ''{{attestationTimeUnix}}'')],
        sc_jqQuery = ''{ "outcomeIdx": [1, 0][((.Data.Data[-1].close) {{comparisonOp}} {{price}}) | if . then 0 else 1 end] }'',
        sc_abi = outcomeIdxAbi\<rparr>,
      \<lparr>sc_endpoint = ''{{apiProxyPrefix}}coindesk/spot/v1/historical/minutes'', sc_httpMethod = ''GET'',
        sc_queryParams = Some [(''market'', ''coinbase''), (''instrument'', ''FLR-USD''), (''limit'', ''1''), (''to_ts'', ''{{attestationTimeUnix}}'')],
        sc_jqQuery = ''{ "outcomeIdx": [1, 0][((.Data[0].CLOSE) {{comparisonOp}} {{price}}) | if . then 0 else 1 end] }'',
        sc_abi = outcomeIdxAbi\<rparr>],
     mt_defaults = \<lparr>md_collateral_token_id = 1, md_consensusThreshold = 60, md_marketCapPercent = 30,
        md_outcomes = [(''No'', ''https://images.ignitemarket.xyz/outcomes/no.svg''), (''Yes'', ''https://images.ignitemarket.xyz/outcomes/yes.svg'')]\<rparr>\<rparr>\<close>

definition xrpPriceTemplate :: market_template where \<open>
  xrpPriceTemplate = \<lparr>mt_id = ''xrp-price'', mt_name = ''XRP Price Prediction'',
     mt_description = ''Predict if XRP price will be above/below a target price at a specific time'',
     mt_category = ''Finance'', mt_imgUrl = Some ''https://images.ignitemarket.xyz/prediction-sets/xrp.jpg'',
     mt_variables = [\<lparr>vr_name = ''price'', vr_type = ''number'', vr_label = ''Price Target (USD)'', vr_required = True, vr_default = None,
        vr_options = [], vr_link = None, vr_precision = Some 4\<rparr>,
      \<lparr>vr_name = ''comparisonType'', vr_type = ''select'', vr_label = ''Comparison Type'', vr_required = False, vr_default = Some ''above'',
        vr_options = [(''above'', ''Above''), (''below'', ''Below'')], vr_link = None, vr_precision = None\<rparr>,
      \<lparr>vr_name = ''attestationTime'', vr_type = ''datetime'', vr_label = ''Attestation Time'', vr_required = True, vr_default = None,
        vr_options = [], vr_link = None, vr_precision = None\<rparr>],
     mt_questionTemplate = ''Will the XRP market price be {{comparisonType}} ${{priceFormatted}} on {{attestationTime}}?'',
     mt_outcomeResolutionTemplate = ''This market will resolve to "Yes" if the price of XRP is {{comparisonType}} ${{priceFormatted}} on {{attestationTime}}. '' @ [CHR 0x0A] @ ''Resolution sources: CoinGecko, CryptoCompare and Coinbase. '' @ [CHR 0x0A] @ ''The market resolution is backed by Flare unique FDC Web2 connector.'',
     mt_dataSourceTemplates = [\<lparr>sc_endpoint = ''{{apiProxyPrefix}}coingecko/api/v3/coins/ripple/market_chart'', sc_httpMethod = ''GET'',
        sc_queryParams = Some [(''vs_currency'', ''usd''), (''days'', ''1'')],
        sc_jqQuery = ''{ "outcomeIdx": [1, 0][((.prices | map(select(.[0] >= {{attestationTimeUnixMs}})) | sort_by(.[0]) | .[0][1]) {{comparisonOp}} {{price}}) | if . then 0 else 1 end] }'',
        sc_abi = outcomeIdxAbi\<rparr>,
      \<lparr>sc_endpoint = ''{{apiProxyPrefix}}cryptocompare/data/v2/histominute'', sc_httpMethod = ''GET'',
        sc_queryParams = Some [(''fsym'', ''XRP''), (''tsym'', ''USD''), (''limit'', ''1''), (''toTs'', ''{{attestationTimeUnix}}'')],
        sc_jqQuery = ''{ "outcomeIdx": [1, 0][((.Data.Data[-1].close) {{comparisonOp}} {{price}}) | if . then 0 else 1 end] }'',
        sc_abi = outcomeIdxAbi\<rparr>,
      \<lparr>sc_endpoint = ''{{apiProxyPrefix}}coindesk/spot/v1/historical/minutes'', sc_httpMethod = ''GET'',
        sc_queryParams = Some [(''market'', ''coinbase''), (''instrument'', ''XRP-USD''), (''limit'', ''1''), (''to_ts'', ''{{attestationTimeUnix}}'')],
        sc_jqQuery = ''{ "outcomeIdx": [1, 0][((.Data[0].CLOSE) {{comparisonOp}} {{price}}) | if . then 0 else 1 end] }'',
        sc_abi = outcomeIdxAbi\<rparr>],
     mt_defaults = \<lparr>md_collateral_token_id = 1, md_consensusThreshold = 60, md_marketCapPercent = 30,
        md_outcomes = [(''No'', ''https://images.ignitemarket.xyz/outcomes/no.svg''), (''Yes'', ''https://images.ignitemarket.xyz/outcomes/yes.svg'')]\<rparr>\<rparr>\<close>

definition hsiIndexTemplate :: market_template where \<open>
  hsiIndexTemplate = \<lparr>mt_id = ''hsi-index'', mt_name = ''Hang Seng Index Prediction'',
     mt_description = ''Predict if the Hang Seng Index will be above a target value at market close'',
     mt_category = ''Finance'', mt_imgUrl = Some ''https://images.ignitemarket.xyz/prediction-sets/hsi.png'',
     mt_variables = [\<lparr>vr_name = ''goal'', vr_type = ''number'', vr_label = ''Index Target'', vr_required = True, vr_default = None,
        vr_options = [], vr_link = None, vr_precision = None\<rparr>,
      \<lparr>vr_name = ''attestationTime'', vr_type = ''datetime'', vr_label = ''Market Close Time (UTC)'', vr_required = True, vr_default = None,
        vr_options = [], vr_link = None, vr_precision = None\<rparr>],
     mt_questionTemplate = ''Will the Hang Seng Index be above {{goalFormatted}} at market close on {{attestationTime}}?'',
     mt_outcomeResolutionTemplate = ''This market will resolve to '' @ [CHR 0x27] @ ''Yes'' @ [CHR 0x27] @ '' if the official closing value of the Hang Seng Index on {{attestationTime}}, as reported by a reliable financial source, is strictly greater than {{goalFormatted}}. Otherwise, it will resolve to '' @ [CHR 0x27] @ ''No'' @ [CHR 0x27] @ ''. '' @ [CHR 0x0A] @ ''Resolution sources: Bloomberg, Yahoo finance and Google finance. '' @ [CHR 0x0A] @ ''The market resolution is backed by Flare unique FDC Web2 connector.'',
     mt_dataSourceTemplates = [\<lparr>sc_endpoint = ''{{apiProxyPrefix}}bloomberg/market/get-chart'', sc_httpMethod = ''GET'',
        sc_queryParams = Some [(''id'', ''HSI:ind''), (''interval'', ''d1'')],
        sc_jqQuery = ''{ "outcomeIdx": [1, 0][((.result."HSI:IND".ticks[] | select(.time == {{attestationTimeUnix}}) | .close) // .result."HSI:IND".ticks[-1].close) >= {{goal}} | if . then 0 else 1 end] }'',
        sc_abi = outcomeIdxAbi\<rparr>,
      \<lparr>sc_endpoint = ''{{apiProxyPrefix}}yahoo/api/v1/markets/stock/history'', sc_httpMethod = ''GET'',
        sc_queryParams = Some [(''ticker'', ''^HSI''), (''interval'', ''30m'')],
        sc_jqQuery = ''{ "outcomeIdx": [1, 0][((.body | to_entries[] | select(.value.date_utc == {{attestationTimeUnix}}) | .value.close) // (.body | to_entries | last | .value.close)) >= {{goal}} | if . then 0 else 1 end] }'',
        sc_abi = outcomeIdxAbi\<rparr>,
      \<lparr>sc_endpoint = ''{{apiProxyPrefix}}real-time/stock-time-series'', sc_httpMethod = ''GET'',
        sc_queryParams = Some [(''symbol'', ''HSI:INDEXHANGSENG''), (''period'', ''5D''), (''language'', ''en'')],
        sc_jqQuery = ''{ "outcomeIdx": [1, 0][((.data.time_series | to_entries[] | select(.key == "{{attestationTimeFormatted}}") | .value.price) // (.data.time_series | to_entries | last | .value.price)) >= {{goal}} | if . then 0 else 1 end] }'',
        sc_abi = outcomeIdxAbi\<rparr>],
     mt_defaults = \<lparr>md_collateral_token_id = 1, md_consensusThreshold = 60, md_marketCapPercent = 30,
        md_outcomes = [(''No'', ''https://images.ignitemarket.xyz/outcomes/no.svg''), (''Yes'', ''https://images.ignitemarket.xyz/outcomes/yes.svg'')]\<rparr>\<rparr>\<close>

definition sportsMatchTemplate :: market_template where \<open>
  sportsMatchTemplate = \<lparr>mt_id = ''sports-match'', mt_name = ''Sports Match Prediction'',
     mt_description = ''Predict if the home team will win against the away team (Yes/No). Ties resolve to No.'',
     mt_category = ''Sports'', mt_imgUrl = None,
     mt_variables = [\<lparr>vr_name = ''homeTeamName'', vr_type = ''string'', vr_label = ''Home Team Name'', vr_required = True, vr_default = None,
        vr_options = [], vr_link = None, vr_precision = None\<rparr>,
      \<lparr>vr_name = ''awayTeamName'', vr_type = ''string'', vr_label = ''Away Team Name'', vr_required = True, vr_default = None,
        vr_options = [], vr_link = None, vr_precision = None\<rparr>,
      \<lparr>vr_name = ''attestationTime'', vr_type = ''datetime'', vr_label = ''Match Date'', vr_required = True, vr_default = None,
        vr_options = [], vr_link = None, vr_precision = None\<rparr>,
      \<lparr>vr_name = ''sofascoreMatchId'', vr_type = ''number'', vr_label = ''Sofascore Match ID'', vr_required = True, vr_default = None,
        vr_options = [], vr_link = Some ''https://www.sofascore.com/'', vr_precision = Some 0\<rparr>,
      \<lparr>vr_name = ''livescoreEid'', vr_type = ''number'', vr_label = ''LiveScore Event ID'', vr_required = True, vr_default = None,
        vr_options = [], vr_link = Some ''https://livescore.com/'', vr_precision = Some 0\<rparr>,
      \<lparr>vr_name = ''livescoreCategory'', vr_type = ''select'', vr_label = ''Sport Category'', vr_required = False, vr_default = Some ''basketball'',
        vr_options = [(''soccer'', ''Soccer''), (''basketball'', ''Basketball''), (''cricket'', ''Cricket''), (''tennis'', ''Tennis''), (''hockey'', ''Hockey'')], vr_link = None, vr_precision = None\<rparr>],
     mt_questionTemplate = ''Will {{homeTeamName}} win against {{awayTeamName}} on {{matchDateFormatted}}?'',
     mt_outcomeResolutionTemplate = ''This market resolves to "Yes" if {{homeTeamName}} (home) wins on {{matchDateFormatted}}. "No" if {{awayTeamName}} (away) wins or the match is a tie, or the match is canceled or postponed. '' @ [CHR 0x0A] @ ''Resolution sources: Sofascore and LiveScore. '' @ [CHR 0x0A] @ ''The market resolution is backed by Flare unique FDC Web2 connector.'',
     mt_dataSourceTemplates = [\<lparr>sc_endpoint = ''{{apiProxyPrefix}}sofascore/matches/detail'', sc_httpMethod = ''GET'',
        sc_queryParams = Some [(''matchId'', ''{{sofascoreMatchId}}'')],
        sc_jqQuery = ''{ "outcomeIdx": (if .event.winnerCode == 1 then 0 elif (.event.winnerCode == 2 or .event.winnerCode == 3) then 1 else "" end) }'',
        sc_abi = outcomeIdxAbi\<rparr>,
      \<lparr>sc_endpoint = ''{{apiProxyPrefix}}livescore/matches/v2/get-scoreboard'', sc_httpMethod = ''GET'',
        sc_queryParams = Some [(''Eid'', ''{{livescoreEid}}''), (''Category'', ''{{livescoreCategory}}'')],
        sc_jqQuery = ''{ "outcomeIdx": (if .Ewt == 1 then 0 elif (.Ewt == 2 or .Ewt == 0) then 1 else "" end) }'',
        sc_abi = outcomeIdxAbi\<rparr>],
     mt_defaults = \<lparr>md_collateral_token_id = 1, md_consensusThreshold = 60, md_marketCapPercent = 30,
        md_outcomes = [(''Yes'', ''https://images.ignitemarket.xyz/outcomes/yes.svg''), (''No'', ''https://images.ignitemarket.xyz/outcomes/no.svg'')]\<rparr>\<rparr>\<close>

definition esportsMatchTemplate :: market_template where \<open>
  esportsMatchTemplate = \<lparr>mt_id = ''esports-match'', mt_name = ''Esports Match Prediction'',
     mt_description = ''Predict if the home team will win against the away team (Yes/No). Ties resolve to No.'',
     mt_category = ''Sports'', mt_imgUrl = None,
     mt_variables = [\<lparr>vr_name = ''pandascoreMatchId'', vr_type = ''pandascore-match'', vr_label = ''Pandascore Match'', vr_required = True, vr_default = None,
        vr_options = [], vr_link = None, vr_precision = Some 0\<rparr>,
      \<lparr>vr_name = ''homeTeamName'', vr_type = ''string'', vr_label = ''Home Team Name'', vr_required = True, vr_default = None,
        vr_options = [], vr_link = None, vr_precision = None\<rparr>,
      \<lparr>vr_name = ''awayTeamName'', vr_type = ''string'', vr_label = ''Away Team Name'', vr_required = True, vr_default = None,
        vr_options = [], vr_link = None, vr_precision = None\<rparr>,
      \<lparr>vr_name = ''attestationTime'', vr_type = ''datetime'', vr_label = ''Match Date'', vr_required = True, vr_default = None,
        vr_options = [], vr_link = None, vr_precision = None\<rparr>,
      \<lparr>vr_name = ''sofascoreMatchId'', vr_type = ''number'', vr_label = ''Sofascore Match ID'', vr_required = True, vr_default = None,
        vr_options = [], vr_link = Some ''https://www.sofascore.com/esports'', vr_precision = Some 0\<rparr>],
     mt_questionTemplate = ''Will {{homeTeamName}} win against {{awayTeamName}} on {{matchDateFormatted}}?'',
     mt_outcomeResolutionTemplate = ''This market resolves to "Yes" if {{homeTeamName}} (home) wins on {{matchDateFormatted}}. "No" if {{awayTeamName}} (away) wins or the match is a tie, or the match is canceled or postponed. '' @ [CHR 0x0A] @ ''Resolution sources: Pandascore and Sofascore. '' @ [CHR 0x0A] @ ''The market resolution is backed by Flare unique FDC Web2 connector.'',
     mt_dataSourceTemplates = [\<lparr>sc_endpoint = ''{{apiProxyPrefix}}pandascore/matches/{{pandascoreMatchId}}'', sc_httpMethod = ''GET'',
        sc_queryParams = None,
        sc_jqQuery = ''{ "outcomeIdx": (if .status == "finished" then (if .winner_id == .opponents[0].opponent.id then 0 else 1 end) else "" end) }'',
        sc_abi = outcomeIdxAbi\<rparr>,
      \<lparr>sc_endpoint = ''{{apiProxyPrefix}}sofascore/matches/detail'', sc_httpMethod = ''GET'',
        sc_queryParams = Some [(''matchId'', ''{{sofascoreMatchId}}'')],
        sc_jqQuery = ''{ "outcomeIdx": (if .event.winnerCode == 1 then 0 elif (.event.winnerCode == 2 or .event.winnerCode == 3) then 1 else "" end) }'',
        sc_abi = outcomeIdxAbi\<rparr>],
     mt_defaults = \<lparr>md_collateral_token_id = 1, md_consensusThreshold = 60, md_marketCapPercent = 30,
        md_outcomes = [(''Yes'', ''https://images.ignitemarket.xyz/outcomes/yes.svg''), (''No'', ''https://images.ignitemarket.xyz/outcomes/no.svg'')]\<rparr>\<rparr>\<close>


definition predictionTemplates :: "market_template list" where
  "predictionTemplates = [btcPriceTemplate, flrPriceTemplate, xrpPriceTemplate, hsiIndexTemplate,
     sportsMatchTemplate, esportsMatchTemplate]"

section \<open>Reading a template\<close>

function piecesOf :: "string \<Rightarrow> piece list" where
  "piecesOf [] = []"
| "piecesOf (c # cs) =
    (if c = CHR ''{'' \<and> take 1 cs = ''{'' then
       (let name = takeWhile (\<lambda>x. x \<noteq> CHR ''}'') (drop 1 cs); rest = dropWhile (\<lambda>x. x \<noteq> CHR ''}'') (drop 1 cs) in
        if take 2 rest = ''}}'' then Hole name # piecesOf (drop 2 rest) else Chr c # piecesOf cs)
     else Chr c # piecesOf cs)"
  by pat_completeness auto
termination
  by (relation "measure length")
    (auto simp: less_Suc_eq_le intro!: le_trans [OF diff_le_self] le_trans [OF length_dropWhile_le])

lemma render_piecesOf [simp]: "render (piecesOf s) = s"
proof (induction s rule: piecesOf.induct)
  case (2 c cs)
  let ?name = "takeWhile (\<lambda>x. x \<noteq> CHR ''}'') (drop 1 cs)" and ?rest = "dropWhile (\<lambda>x. x \<noteq> CHR ''}'') (drop 1 cs)"
  show ?case
  proof (cases "c = CHR ''{'' \<and> take 1 cs = ''{''")
    case True
    show ?thesis
    proof (cases "take 2 ?rest = ''}}''")
      case hole: True
      have "?name @ ''}}'' @ drop 2 ?rest = ?name @ take 2 ?rest @ drop 2 ?rest" using hole by simp
      also have "\<dots> = drop 1 cs" by (simp only: append_take_drop_id takeWhile_dropWhile_id)
      finally have "''{'' @ ?name @ ''}}'' @ drop 2 ?rest = take 1 cs @ drop 1 cs" using True by simp
      then have "placeholder ?name @ drop 2 ?rest = c # cs" using True by (simp add: placeholder_def)
      then show ?thesis using True hole 2(1) [OF True refl refl hole] by (simp add: Let_def)
    next
      case False
      then show ?thesis using True 2(2) [OF True refl refl False] by (auto simp: Let_def)
    qed
  next
    case False
    then show ?thesis using 2(3) [OF False] by auto
  qed
qed simp

definition holesOf :: "piece list \<Rightarrow> string list" where
  "holesOf ps = concat (map (\<lambda>p. case p of Chr c \<Rightarrow> [] | Hole k \<Rightarrow> [k]) ps)"

definition sourceTexts :: "source_template \<Rightarrow> string list" where
  "sourceTexts s = sc_endpoint s # sc_jqQuery s # (case sc_queryParams s of None \<Rightarrow> [] | Some ps \<Rightarrow> map snd ps)"

definition templateTexts :: "market_template \<Rightarrow> string list" where
  "templateTexts t = mt_questionTemplate t # mt_outcomeResolutionTemplate t
     # concat (map sourceTexts (mt_dataSourceTemplates t))"

definition generatedTexts :: "generated_market \<Rightarrow> string list" where
  "generatedTexts g = gm_question g # gm_outcomeResolutionDef g # concat (map sourceTexts (gm_dataSources g))"

definition knownNames :: "string list" where
  "knownNames = [''price'', ''priceFormatted'', ''goal'', ''goalFormatted'', ''comparisonType'', ''attestationTime'',
     ''attestationTimeUnix'', ''attestationTimeUnixMs'', ''attestationTimeDate'', ''attestationTimeFormatted'',
     ''comparisonOp'', ''apiProxyPrefix'', ''homeTeamName'', ''awayTeamName'', ''sofascoreMatchId'',
     ''pandascoreMatchId'', ''livescoreEid'', ''livescoreCategory'', ''matchDateFormatted'']"

lemma knownNames_replacements: "map fst (replacementsOf e v time) = knownNames"
  by (simp add: replacementsOf_def knownNames_def)

lemma knownNames_holes: "k \<in> set knownNames \<Longrightarrow> holeName k"
proof -
  have "list_all holeName knownNames" by code_simp
  then show "k \<in> set knownNames \<Longrightarrow> holeName k" by (simp add: list_all_iff)
qed

definition goodText :: "string \<Rightarrow> bool" where
  "goodText s = (let ps = piecesOf s in wellFormed ps \<and> list_all (\<lambda>k. k \<in> set knownNames) (holesOf ps))"

lemma btc_texts: "list_all goodText (templateTexts btcPriceTemplate)" by code_simp
lemma flr_texts: "list_all goodText (templateTexts flrPriceTemplate)" by code_simp
lemma xrp_texts: "list_all goodText (templateTexts xrpPriceTemplate)" by code_simp
lemma hsi_texts: "list_all goodText (templateTexts hsiIndexTemplate)" by code_simp
lemma sports_texts: "list_all goodText (templateTexts sportsMatchTemplate)" by code_simp
lemma esports_texts: "list_all goodText (templateTexts esportsMatchTemplate)" by code_simp

lemmas template_texts = btc_texts flr_texts xrp_texts hsi_texts sports_texts esports_texts

lemma all_texts_good: "t \<in> set predictionTemplates \<Longrightarrow> s \<in> set (templateTexts t) \<Longrightarrow> goodText s"
  using template_texts by (auto simp: predictionTemplates_def list_all_iff)

lemma template_ids: "distinct (map mt_id predictionTemplates)"
  by code_simp

lemma getTemplateById_own: "t \<in> set predictionTemplates \<Longrightarrow> getTemplateById predictionTemplates (mt_id t) = Some t"
  unfolding getTemplateById_def by (rule find_distinct_key [OF template_ids]) simp_all

section \<open>Nothing is left open\<close>

fun noneOpen :: "string \<Rightarrow> bool" where
  "noneOpen (c # e # cs) = (\<not> (c = CHR ''{'' \<and> e = CHR ''{'') \<and> noneOpen (e # cs))"
| "noneOpen cs = True"

lemma noneOpen_append: "CHR ''{'' \<notin> set v \<Longrightarrow> noneOpen s \<Longrightarrow> noneOpen (v @ s)"
proof (induction v)
  case (Cons c v)
  then show ?case by (cases "v @ s") auto
qed simp

lemma noneOpen_filled:
  assumes "wellFormed ps" and "\<forall>k \<in> set (holesOf ps). \<exists>v. map_of repl k = Some v \<and> plain v"
  shows "noneOpen (fillAll repl ps)"
  using assms
proof (induction ps)
  case (Cons p ps)
  have rest: "noneOpen (fillAll repl ps)" if "wellFormed ps"
    using Cons that by (simp add: holesOf_def)
  show ?case
  proof (cases p)
    case (Chr c)
    have "noneOpen (c # fillAll repl ps)"
    proof (cases ps)
      case (Cons q qs)
      then show ?thesis using Cons.prems(1) rest Chr by (cases q) (auto simp: fillAll_def neq_Nil_conv split: list.splits
            intro!: noneOpen_append [of "[c]", simplified])
    qed (simp add: fillAll_def)
    then show ?thesis using Chr by (simp add: fillAll_def)
  next
    case (Hole k)
    then obtain v where "map_of repl k = Some v" "plain v" using Cons.prems(2) by (auto simp: holesOf_def)
    then show ?thesis using Hole Cons.prems(1) rest noneOpen_append [of v "fillAll repl ps"]
      by (simp add: fillAll_def plain_def)
  qed
qed (simp add: fillAll_def)

text \<open>
  C22: A market generated from any template of the program is complete: the question,
  the resolution and every endpoint, query parameter and jq query of its data sources
  are the template's texts with each placeholder replaced by the value of its name,
  and no text keeps an opening pair of braces, as long as no value has a dollar sign
  or an opening brace.
\<close>

theorem generated_market_complete:
  assumes "t \<in> set predictionTemplates" and "generateFromTemplate predictionTemplates e (mt_id t) v = Inr g"
    and "\<And>time. Option.bind (tv_attestationTime v) (te_dates e) = Some time \<Longrightarrow>
      list_all (\<lambda>x. plain (snd x)) (replacementsOf e v time)"
  shows "\<exists>time. Option.bind (tv_attestationTime v) (te_dates e) = Some time
    \<and> generatedTexts g = map (\<lambda>s. fillAll (replacementsOf e v time) (piecesOf s)) (templateTexts t)
    \<and> list_all noneOpen (generatedTexts g)"
proof -
  obtain time where time: "Option.bind (tv_attestationTime v) (te_dates e) = Some time"
      "g = \<lparr>gm_question = replacePlaceholders (replacementsOf e v time) (mt_questionTemplate t),
         gm_outcomeResolutionDef = replacePlaceholders (replacementsOf e v time) (mt_outcomeResolutionTemplate t),
         gm_dataSources = map (fillSource (replacementsOf e v time)) (mt_dataSourceTemplates t), gm_defaults = mt_defaults t\<rparr>"
    using assms(2) by (cases "tv_attestationTime v")
      (auto simp: generateFromTemplate_def getTemplateById_own [OF assms(1)] Let_def split: option.splits if_splits)
  let ?repl = "replacementsOf e v time"
  have known: "\<exists>x. map_of ?repl k = Some x \<and> plain x" if "k \<in> set knownNames" for k
  proof -
    have "k \<in> fst ` set ?repl" using that knownNames_replacements [of e v time] by (metis image_set)
    then obtain x where "map_of ?repl k = Some x" by (metis map_of_eq_None_iff not_None_eq)
    then show ?thesis using assms(3) [OF time(1)] map_of_SomeD [of ?repl k x] by (fastforce simp: list_all_iff)
  qed
  have names: "\<forall>(key, x) \<in> set ?repl. holeName key \<and> plain x"
  proof -
    have "holeName (fst y)" if "y \<in> set ?repl" for y
      using that knownNames_holes knownNames_replacements [of e v time] by (metis image_eqI list.set_map)
    then show ?thesis using assms(3) [OF time(1)] by (auto simp: list_all_iff)
  qed
  have filled: "replacePlaceholders ?repl s = fillAll ?repl (piecesOf s) \<and> noneOpen (fillAll ?repl (piecesOf s))"
    if "s \<in> set (templateTexts t)" for s
  proof -
    have good: "wellFormed (piecesOf s)" "\<forall>k \<in> set (holesOf (piecesOf s)). k \<in> set knownNames"
      using all_texts_good [OF assms(1) that] by (simp_all add: goodText_def Let_def list_all_iff)
    have "replacePlaceholders ?repl (render (piecesOf s)) = fillAll ?repl (piecesOf s)"
      using good(1) names by (rule template_filled)
    then show ?thesis using noneOpen_filled [OF good(1)] good(2) known by simp
  qed
  have sources: "sourceTexts (fillSource ?repl s) = map (replacePlaceholders ?repl) (sourceTexts s)" for s
    by (auto simp: sourceTexts_def fillSource_def comp_def split: option.split)
  have "generatedTexts g = map (replacePlaceholders ?repl) (templateTexts t)"
    by (simp add: time(2) generatedTexts_def templateTexts_def sources map_concat comp_def)
  then have "generatedTexts g = map (\<lambda>s. fillAll ?repl (piecesOf s)) (templateTexts t)" using filled by simp
  then show ?thesis using time(1) filled by (auto simp: list_all_iff)
qed

end
