(* ===== verification/Witnesses_Lists.thy ===== *)
theory Witnesses_Lists
  imports Examples Stats Content_Services Template_Data
begin

text \<open>
  Closed instances of the properties about lists, whole runs of the system and templates.
\<close>

section \<open>Lists of markets\<close>

definition exFilters :: query_filters where
  "exFilters = \<lparr>qf_limit = Some 20, qf_offset = 0, qf_order = [], qf_orderStr = None\<rparr>"

definition exMarketQuery :: market_query where
  "exMarketQuery = \<lparr>mq_filters = exFilters, mq_search = None, mq_category = None, mq_watchlist = False,
     mq_collateralTokenId = Some 1, mq_status = []\<rparr>"

definition exLike :: "string \<Rightarrow> string \<Rightarrow> bool" where
  "exLike t s \<longleftrightarrow> t = s"

lemma exDb_tables:
  "tblInv (prediction_sets exDb)" "tblInv (users exDb)" "tblInv (outcomes exDb)"
  using exDb_inv by (simp_all add: dbInv_def)


section \<open>Transactions\<close>

definition exShare :: "nat \<Rightarrow> ShareTransactionType \<Rightarrow> int \<Rightarrow> share_transaction" where
  "exShare i ty n = \<lparr>rowId = i, status = ACTIVE, createTime = 1, updateTime = 1, createUser = None, updateUser = None,
     st_prediction_set_id = 3, st_user_id = Some 1, st_outcome_id = 1, st_txHash = ''x'', st_wallet = ''w1'',
     st_amount = 100, st_feeAmount = 2, st_outcomeIndex = 0, st_outcomeTokens = n, st_type = ty\<rparr>"

definition exFunding :: "nat \<Rightarrow> funding_transaction" where
  "exFunding i = \<lparr>rowId = i, status = ACTIVE, createTime = 1, updateTime = 1, createUser = None, updateUser = None,
     ft_prediction_set_id = 3, ft_user_id = Some 1, ft_txHash = ''y'', ft_wallet = ''w1'', ft_amounts = [],
     ft_shares = 50, ft_collateralAmount = Some 50, ft_collateralRemovedFromFeePool = None, ft_type = FT_ADDED\<rparr>"

definition exTradesDb :: db where
  "exTradesDb = exDb\<lparr>share_transactions := tblOf [exShare 1 ST_BUY 90, exShare 2 ST_SELL 30],
     funding_transactions := tblOf [exFunding 1]\<rparr>"

lemma exTradesDb_tables:
  "prediction_sets exTradesDb = prediction_sets exDb" "users exTradesDb = users exDb" "outcomes exTradesDb = outcomes exDb"
  "tblInv (share_transactions exTradesDb)" "tblInv (funding_transactions exTradesDb)" "tblInv (claim_transactions exTradesDb)"
  by (simp_all add: exTradesDb_def ex_defs tblInv_def exShare_def exFunding_def)

definition exActivityQuery :: activity_query where
  "exActivityQuery = \<lparr>aq_filters = exFilters, aq_type = None, aq_search = None, aq_predictionId = Some 3, aq_userId = None\<rparr>"

lemma exActivityRows: "map av_transactionId (activityRows exLike exActivityQuery exTradesDb) = [1, 2, 1]"
  by (simp add: activityRows_def shareActivity_def fundingActivity_def claimActivity_def exTradesDb_def ex_defs
      exSet_def exUser_def exOutcome_def exShare_def exFunding_def activityWanted_def exActivityQuery_def idFilter_def textFilter_def)

theorem activity_total_witness:
  "snd (getActivityList exLike id exActivityQuery exTradesDb) < length (fst (getActivityList exLike id exActivityQuery exTradesDb))
   \<and> length (fst (getActivityList exLike id exActivityQuery exTradesDb)) = 3"
proof -
  have l: "length (activityRows exLike exActivityQuery exTradesDb) = 3"
    using arg_cong [OF exActivityRows, of length] by simp
  have "\<not> distinct (map av_transactionId (activityRows exLike exActivityQuery exTradesDb))"
    unfolding exActivityRows by simp
  then show ?thesis
    using activity_total [of exTradesDb exLike exActivityQuery id] exDb_tables l
    by (simp add: exTradesDb_tables exActivityQuery_def exFilters_def pageOf_def)
qed

definition exUserQuery :: user_query where
  "exUserQuery = \<lparr>uf_filters = exFilters, uf_search = None\<rparr>"

lemma exPrediction: "\<exists>x. fst (getUserPredictions exLike id 1 exUserQuery exTradesDb) = [x] \<and> up_market x = exSet 3 PS_ACTIVE 2"
  by (simp add: getUserPredictions_def joinPositions_def exTradesDb_def ex_defs leftJoin_def wherePosition_def
      textFilter_def groupRows_def positionKey_def pageOf_def predictionOf_def exUserQuery_def exFilters_def
      exSet_def exShare_def exOutcome_def Let_def)


section \<open>Chances\<close>

definition exChance :: "nat \<Rightarrow> int \<Rightarrow> rat \<Rightarrow> outcome_chance" where
  "exChance i t x = \<lparr>rowId = i, status = ACTIVE, createTime = t, updateTime = t, createUser = None, updateUser = None,
     ch_outcome_id = 1, ch_prediction_set_id = 3, ch_chance = Some x, ch_supply = 1, ch_totalSupply = 2\<rparr>"

definition exChancesDb :: db where
  "exChancesDb = exDb\<lparr>outcome_chances := tblOf [exChance 1 1000 (1/2), exChance 2 2000 (1/4)]\<rparr>"

theorem chance_history_points_witness:
  "\<exists>points. (1, points) \<in> set (getChanceHistory id 5000 (exSet 3 PS_ACTIVE 2) All_time exChancesDb)
    \<and> chancePoint (exChance 2 2000 (1/4)) \<in> set points"
proof -
  let ?p = "exSet 3 PS_ACTIVE 2"
  have rows: "rows (outcome_chances exChancesDb) = [exChance 1 1000 (1/2), exChance 2 2000 (1/4)]"
    by (simp add: exChancesDb_def tblOf_def)
  have inRange: "chancesInRange id 5000 ?p All_time exChancesDb = [exChance 1 1000 (1/2), exChance 2 2000 (1/4)]"
    by (simp add: chancesInRange_def rows rangeStart_def exChance_def exSet_def)
  have bucket: "bucketOf (exChance i t x) = t div 300000" "ch_outcome_id (exChance i t x) = 1"
      "createTime (exChance i t x) = t" for i t x
    by (simp_all add: exChance_def bucketOf_def)
  note T = chance_history_points [of id 5000 ?p All_time exChancesDb, unfolded rows inRange]
  obtain points where points: "(1, points) \<in> set (getChanceHistory id 5000 ?p All_time exChancesDb)"
      "0 \<in> cp_date ` set points" using T by (auto simp: bucket)
  then obtain x where "x \<in> set points" by blast
  moreover have "x = chancePoint (exChance 2 2000 (1/4))" if "x \<in> set points" for x
    using T points(1) that by (fastforce simp: bucket)
  ultimately show ?thesis using points(1) by blast
qed

section \<open>Runs of the system\<close>


section \<open>Templates\<close>

definition exTemplateEnv :: "int template_env" where
  "exTemplateEnv = \<lparr>te_dates = (\<lambda>s. Some 0), te_format = (\<lambda>zone pat t. jsInt t), te_numText = jsInt,
     te_numLocale = jsInt, te_dev = True\<rparr>"

definition exVariables :: "int template_variables" where
  "exVariables = \<lparr>tv_price = Some 7, tv_goal = None, tv_comparisonType = Some ''below'', tv_attestationTime = Some ''now'',
     tv_homeTeamName = None, tv_awayTeamName = None, tv_sofascoreMatchId = None, tv_livescoreEid = None,
     tv_livescoreCategory = None, tv_pandascoreMatchId = None\<rparr>"

theorem generated_market_complete_witness:
  "\<exists>g. generateFromTemplate predictionTemplates exTemplateEnv (mt_id btcPriceTemplate) exVariables = Inr g
    \<and> list_all noneOpen (generatedTexts g)"
proof -
  have t: "btcPriceTemplate \<in> set predictionTemplates" by (simp add: predictionTemplates_def)
  obtain g where g: "generateFromTemplate predictionTemplates exTemplateEnv (mt_id btcPriceTemplate) exVariables = Inr g"
    using getTemplateById_own [OF t] by (simp add: generateFromTemplate_def exVariables_def exTemplateEnv_def Let_def)
  have "list_all (\<lambda>x. plain (snd x)) (replacementsOf exTemplateEnv exVariables 0)" by code_simp
  then have "list_all (\<lambda>x. plain (snd x)) (replacementsOf exTemplateEnv exVariables time)"
    if "Option.bind (tv_attestationTime exVariables) (te_dates exTemplateEnv) = Some time" for time
    using that by (simp add: exVariables_def exTemplateEnv_def)
  then show ?thesis using generated_market_complete [OF t g] g by blast
qed

end
