(* ===== verification/Api_Routes.thy ===== *)
theory Api_Routes
  imports User_Service Prediction_Service
begin

text \<open>
  The surface of the API: the routes of every controller with their guards and
  roles, the middlewares of \<open>app.module.ts\<close>, and the way of a request to its
  handler and of its error to the answer.  Paths are lists of decoded segments;
  Express compares them without regard to case, and Nest registers the routes in
  the order below.  What the handlers do is in the theories of their services.
\<close>

section \<open>Routes\<close>

datatype http_method = Get | Post | Put | Patch | Delete

datatype guard = ValidationGuard | AuthGuard

record route =
  rt_method :: http_method
  rt_path :: "string list"
  rt_guards :: "guard list"
  rt_roles :: "nat list"
  rt_parseInt :: bool
  rt_handler :: string

text \<open>\<open>@Controller(prefix)\<close> and \<open>@Get(path)\<close>; \<open>rt_parseInt\<close> says that the id goes through \<open>ParseIntPipe\<close>.\<close>

definition segmentsOf :: "string \<Rightarrow> string list" where
  "segmentsOf path = filter (\<lambda>s. s \<noteq> []) (splitOn CHR ''/'' path)"

definition route ::
  "string \<Rightarrow> http_method \<Rightarrow> string \<Rightarrow> guard list \<Rightarrow> nat list \<Rightarrow> bool \<Rightarrow> string \<Rightarrow> route" where
  "route prefix m path guards roles isInt handler =
    \<lparr>rt_method = m, rt_path = segmentsOf prefix @ segmentsOf path, rt_guards = guards, rt_roles = roles,
     rt_parseInt = isInt, rt_handler = handler\<rparr>"

definition userController :: "route list" where
  "userController = [
     route ''users'' Get ''me'' [AuthGuard] [] False ''getUserProfile'',
     route ''users'' Get ''wallet-message'' [] [] False ''getWalletAuthMessage'',
     route ''users'' Get ''/:id'' [] [] True ''getUserById'',
     route ''users'' Get ''/:id/predictions'' [ValidationGuard] [] True ''getUserPredictions'',
     route ''users'' Get ''/:id/funding-positions'' [ValidationGuard] [] True ''getUserFundingPositions'',
     route ''users'' Post ''wallet-login'' [ValidationGuard] [] False ''loginWithWallet'',
     route ''users'' Put ''update-profile'' [AuthGuard, ValidationGuard] [] False ''updateProfile'',
     route ''users'' Put ''update-email'' [AuthGuard, ValidationGuard] [] False ''updateEmail'',
     route ''users'' Post ''email-verification'' [AuthGuard] [] False ''sendEmailVerification'',
     route ''users'' Patch ''change-email'' [] [] False ''changeEmail'']"

definition predictionSetController :: "route list" where
  "predictionSetController = [
     route ''prediction-sets'' Post '''' [ValidationGuard, AuthGuard] [defaultUserRoleNo ROLE_ADMIN] False ''createPredictionSet'',
     route ''prediction-sets'' Get '''' [ValidationGuard] [] False ''getPredictions'',
     route ''prediction-sets'' Get ''/admin'' [ValidationGuard, AuthGuard] [defaultUserRoleNo ROLE_ADMIN] False ''getPredictionsAdmin'',
     route ''prediction-sets'' Get ''/activity'' [ValidationGuard] [] False ''getPredictionSetActivity'',
     route ''prediction-sets'' Get ''/holders'' [ValidationGuard] [] False ''getPredictionSetHolders'',
     route ''prediction-sets'' Get ''/:id'' [] [] True ''getPredictionById'',
     route ''prediction-sets'' Get ''/:id/positions'' [ValidationGuard] [] True ''getPredictionSetPositions'',
     route ''prediction-sets'' Get ''/:id/funding-positions'' [ValidationGuard] [] True ''getPredictionSetFundingPositions'',
     route ''prediction-sets'' Get ''/:id/chance-history'' [ValidationGuard] [] True ''getPredictionChanceHistory'',
     route ''prediction-sets'' Get ''/:id/data-sources'' [ValidationGuard] [] True ''getPredictionSetDataSources'',
     route ''prediction-sets'' Put ''/:id'' [ValidationGuard, AuthGuard] [defaultUserRoleNo ROLE_ADMIN] True ''updatePredictionSet'',
     route ''prediction-sets'' Delete ''/:id'' [AuthGuard] [defaultUserRoleNo ROLE_ADMIN] True ''deletePredictionSet'',
     route ''prediction-sets'' Patch ''/:id/process'' [AuthGuard] [defaultUserRoleNo ROLE_ADMIN] True ''processPredictionSet'',
     route ''prediction-sets'' Patch ''/:id/hide'' [ValidationGuard, AuthGuard] [defaultUserRoleNo ROLE_ADMIN] True ''updatePredictionHide'',
     route ''prediction-sets'' Post ''/:id/watchlist'' [AuthGuard] [] True ''addUserWatchlist'',
     route ''prediction-sets'' Delete ''/:id/watchlist'' [AuthGuard] [] True ''removeUserWatchlist'',
     route ''prediction-sets'' Post ''/:id/removed-funding'' [AuthGuard] [] True ''triggerFinalizedWorker'',
     route ''prediction-sets'' Post ''/generate-suggestions'' [AuthGuard] [] False ''generateSuggestions'',
     route ''prediction-sets'' Post ''/social-post'' [ValidationGuard, AuthGuard] [defaultUserRoleNo ROLE_ADMIN] False ''createSocialPost'']"

definition commentController :: "route list" where
  "commentController = [
     route ''comments'' Post '''' [AuthGuard, ValidationGuard] [] False ''create'',
     route ''comments'' Get '''' [ValidationGuard] [] False ''getComments'',
     route ''comments'' Put '':id'' [AuthGuard, ValidationGuard] [] False ''update'',
     route ''comments'' Delete '':id'' [AuthGuard] [] False ''delete'']"

definition baseController :: "route list" where
  "baseController = [
     route '''' Get '''' [] [] False ''getRoot'',
     route '''' Post ''siteverify'' [] [] False ''getSiteVerify'',
     route '''' Get ''proxy-api-keys'' [] [] False ''getEncryptedApiKeys'',
     route '''' Get ''proxy-api-keys/songbird'' [] [] False ''getEncryptedApiKeysSongbird'']"

definition proposalController :: "route list" where
  "proposalController = [
     route ''proposals'' Post '''' [ValidationGuard, AuthGuard] [] False ''createProposal'',
     route ''proposals'' Get '''' [ValidationGuard] [] False ''getProposals'',
     route ''proposals'' Get ''/rounds'' [ValidationGuard] [] False ''getProposalRounds'',
     route ''proposals'' Get ''/rounds/:id'' [] [] True ''getProposalRoundById'',
     route ''proposals'' Get ''/:id'' [] [] True ''getProposalById'',
     route ''proposals'' Patch ''/:id'' [AuthGuard] [] True ''updateProposal'',
     route ''proposals'' Post ''/:id/vote'' [AuthGuard, ValidationGuard, AuthGuard] [] True ''voteOnProposal'',
     route ''proposals'' Delete ''/:id'' [AuthGuard] [] True ''deleteProposal'']"

definition rewardPointsController :: "route list" where
  "rewardPointsController = [
     route ''reward-points'' Get '''' [ValidationGuard] [] False ''getRewardPoints'',
     route ''reward-points'' Get ''/me'' [AuthGuard] [] False ''getUserRewardPoints'',
     route ''reward-points'' Get ''/daily'' [AuthGuard] [] False ''canUserClaimDailyReward'',
     route ''reward-points'' Patch ''/daily'' [AuthGuard] [] False ''claimUserDailyReward'']"

definition collateralTokenController :: "route list" where
  "collateralTokenController = [
     route ''collateral-tokens'' Get '''' [ValidationGuard] [] False ''getCollateralTokens'']"

definition statsController :: "route list" where
  "statsController = [
     route ''stats'' Get ''leaderboard/profit'' [ValidationGuard] [] False ''getTopUsersByProfit'',
     route ''stats'' Get ''leaderboard/points'' [ValidationGuard] [] False ''getTopUsersByRewardPoints'',
     route ''stats'' Get ''leaderboard/volume'' [ValidationGuard] [] False ''getTopUsersByVolume'']"

definition fileController :: "route list" where
  "fileController = [
     route ''files'' Post ''image'' [AuthGuard] [defaultUserRoleNo ROLE_ADMIN] False ''createProposal'']"

definition airdropController :: "route list" where
  "airdropController = [
     route ''airdrop'' Post ''join'' [ValidationGuard] [] False ''joinAirdrop'']"

definition bannerController :: "route list" where
  "bannerController = [
     route ''banners'' Post '''' [ValidationGuard, AuthGuard] [defaultUserRoleNo ROLE_ADMIN] False ''createBanner'',
     route ''banners'' Get '''' [] [] False ''getBanners'',
     route ''banners'' Get ''/admin'' [ValidationGuard, AuthGuard] [defaultUserRoleNo ROLE_ADMIN] False ''getBannersAdmin'',
     route ''banners'' Put ''/:id'' [ValidationGuard, AuthGuard] [defaultUserRoleNo ROLE_ADMIN] False ''updateBanner'',
     route ''banners'' Patch ''/:id/toggle'' [ValidationGuard, AuthGuard] [defaultUserRoleNo ROLE_ADMIN] False ''toggleBanner'',
     route ''banners'' Delete ''/:id'' [AuthGuard] [defaultUserRoleNo ROLE_ADMIN] False ''deleteBanner'']"

definition dataSourceController :: "route list" where
  "dataSourceController = [
     route ''data-sources'' Post '''' [ValidationGuard, AuthGuard] [defaultUserRoleNo ROLE_ADMIN] False ''createDataSource'',
     route ''data-sources'' Post ''test-jq'' [ValidationGuard, AuthGuard] [defaultUserRoleNo ROLE_ADMIN] False ''testJqQuery'',
     route ''data-sources'' Get '''' [AuthGuard] [defaultUserRoleNo ROLE_ADMIN] False ''getDataSources'']"

definition predictionTemplateController :: "route list" where
  "predictionTemplateController = [
     route ''prediction-templates'' Get '''' [AuthGuard] [defaultUserRoleNo ROLE_ADMIN] False ''getTemplates'',
     route ''prediction-templates'' Get ''pandascore/videogames'' [AuthGuard] [defaultUserRoleNo ROLE_ADMIN] False ''getPandascoreVideogames'',
     route ''prediction-templates'' Get ''pandascore/leagues/:id/matches'' [AuthGuard] [defaultUserRoleNo ROLE_ADMIN] False ''getPandascoreMatches'',
     route ''prediction-templates'' Get '':id'' [AuthGuard] [defaultUserRoleNo ROLE_ADMIN] False ''getTemplateById'',
     route ''prediction-templates'' Post '':id/generate'' [ValidationGuard, AuthGuard] [defaultUserRoleNo ROLE_ADMIN] False ''generateFromTemplate'']"

definition apiRoutes :: "route list" where
  "apiRoutes = userController
     @ predictionSetController
     @ commentController
     @ baseController
     @ proposalController
     @ rewardPointsController
     @ collateralTokenController
     @ statsController
     @ fileController
     @ airdropController
     @ bannerController
     @ dataSourceController
     @ predictionTemplateController"

section \<open>Finding a route\<close>

definition isParam :: "string \<Rightarrow> bool" where
  "isParam s \<longleftrightarrow> (case s of [] \<Rightarrow> False | c # _ \<Rightarrow> c = CHR '':'')"

fun matchPath :: "string list \<Rightarrow> string list \<Rightarrow> bool" where
  "matchPath [] [] = True"
| "matchPath (p # ps) (s # ss) = ((isParam p \<or> toLowerCase p = toLowerCase s) \<and> matchPath ps ss)"
| "matchPath _ _ = False"

definition paramsOf :: "string list \<Rightarrow> string list \<Rightarrow> string list" where
  "paramsOf ps ss = map snd (filter (\<lambda>(p, _). isParam p) (zip ps ss))"

record 'b request =
  rq_method :: http_method
  rq_path :: "string list"
  rq_authorization :: string
  rq_body :: 'b

definition answers :: "route \<Rightarrow> 'b request \<Rightarrow> bool" where
  "answers rt rq \<longleftrightarrow> rt_method rt = rq_method rq \<and> matchPath (rt_path rt) (rq_path rq)"

definition findRoute :: "'b request \<Rightarrow> route option" where
  "findRoute rq = find (\<lambda>rt. answers rt rq) apiRoutes"

section \<open>Middlewares\<close>

text \<open>The routes at which a token is not looked at.\<close>

definition excludedRoutes :: "(http_method \<times> string) list" where
  "excludedRoutes = [(Get, ''/''), (Get, ''/favicon.ico''), (Get, ''/proxy-api-keys''),
     (Get, ''users/wallet-message''), (Post, ''users/wallet-login'')]"

definition excluded :: "'b request \<Rightarrow> bool" where
  "excluded rq \<longleftrightarrow> list_ex (\<lambda>(m, p). m = rq_method rq \<and> matchPath (segmentsOf p) (rq_path rq)) excludedRoutes"

definition bearerToken :: "string \<Rightarrow> string" where
  "bearerToken header = hd (rev (splitOn CHR '' '' header))"

text \<open>
  \<open>ap_readToken\<close> answers the user of a login token or throws, \<open>ap_liveRole\<close> says
  which roles are not deleted, and \<open>ap_validate\<close> are the errors of the model a route
  names, for the body or the query of a request.
\<close>

record 'b api =
  ap_readToken :: "string \<Rightarrow> (exn, nat) res"
  ap_liveRole :: "nat \<Rightarrow> bool"
  ap_validate :: "route \<Rightarrow> 'b \<Rightarrow> ValidatorErrorCode list"

definition requestSession :: "'b api \<Rightarrow> 'b request \<Rightarrow> db \<Rightarrow> (exn, session) res" where
  "requestSession e rq d =
    (if excluded rq then Inr \<lparr>ss_user = None, ss_roles = []\<rparr>
     else authenticate (ap_readToken e) (ap_liveRole e) (bearerToken (rq_authorization rq)) d)"

section \<open>Guards, pipes and handlers\<close>

text \<open>Errors of the program, and those that Nest throws itself with a status.\<close>

datatype http_error = Thrown exn | HttpException int

fun runGuards :: "'b api \<Rightarrow> route \<Rightarrow> session \<Rightarrow> 'b \<Rightarrow> guard list \<Rightarrow> (exn, unit) res" where
  "runGuards e rt s b [] = Inr ()"
| "runGuards e rt s b (ValidationGuard # gs) =
    (if ap_validate e rt b \<noteq> [] then Inl (ModelValidationException (ap_validate e rt b)) else runGuards e rt s b gs)"
| "runGuards e rt s b (AuthGuard # gs) = bindR (authGuard (rt_roles rt) s) (\<lambda>_. runGuards e rt s b gs)"

text \<open>\<open>ParseIntPipe\<close>: digits with an optional minus.\<close>

definition isIntText :: "string \<Rightarrow> bool" where
  "isIntText t = (let ds = (case t of [] \<Rightarrow> [] | c # cs \<Rightarrow> if c = CHR ''-'' then cs else t)
     in ds \<noteq> [] \<and> list_all isDigit ds)"

text \<open>A request that is let through, with the route it takes and the session it has.\<close>

definition admit :: "'b api \<Rightarrow> 'b request \<Rightarrow> db \<Rightarrow> (http_error, route \<times> session) res" where
  "admit e rq d = (case requestSession e rq d of
      Inl x \<Rightarrow> Inl (Thrown x)
    | Inr s \<Rightarrow> (case findRoute rq of
        None \<Rightarrow> Inl (HttpException 404)
      | Some rt \<Rightarrow> (case runGuards e rt s (rq_body rq) (rt_guards rt) of
          Inl x \<Rightarrow> Inl (Thrown x)
        | Inr _ \<Rightarrow> if rt_parseInt rt \<and> \<not> list_all isIntText (paramsOf (rt_path rt) (rq_path rq))
                   then Inl (HttpException 400) else Inr (rt, s))))"

definition handleRequest ::
  "'b api \<Rightarrow> (route \<Rightarrow> session \<Rightarrow> string list \<Rightarrow> 'b \<Rightarrow> db mysql \<Rightarrow> (exn, 'a) res \<times> db mysql)
    \<Rightarrow> 'b request \<Rightarrow> db mysql \<Rightarrow> (http_error, 'a) res \<times> db mysql" where
  "handleRequest e handler rq m = (case admit e rq (committed m) of
      Inl x \<Rightarrow> (Inl x, m)
    | Inr (rt, s) \<Rightarrow> (case handler rt s (paramsOf (rt_path rt) (rq_path rq)) (rq_body rq) m of
        (Inl x, m') \<Rightarrow> (Inl (Thrown x), m')
      | (Inr a, m') \<Rightarrow> (Inr a, m')))"

text \<open>The status and the code of an error's answer.\<close>

definition errorAnswer :: "http_error \<Rightarrow> int \<times> int option" where
  "errorAnswer x = (case x of
      Thrown e \<Rightarrow> exceptionsFilter e
    | HttpException st \<Rightarrow> (st, Some (apiErrorCodeNo (if st = 422 then MICROSERVICE_SYSTEM_ERROR else UNHANDLED_SYSTEM_ERROR))))"

section \<open>The table of routes\<close>

text \<open>Roles are read by the guard alone, so a route that names roles has the guard.\<close>

lemma roles_are_guarded: "\<forall>rt \<in> set apiRoutes. rt_roles rt \<noteq> [] \<longrightarrow> AuthGuard \<in> set (rt_guards rt)"
  by code_simp

text \<open>What can be called without an account and is no read.\<close>

definition publicHandlers :: "string list" where
  "publicHandlers = [''loginWithWallet'', ''changeEmail'', ''getSiteVerify'', ''joinAirdrop'']"

lemma public_writes:
  "map rt_handler (filter (\<lambda>rt. rt_method rt \<noteq> Get \<and> AuthGuard \<notin> set (rt_guards rt)) apiRoutes) = publicHandlers"
  by code_simp

text \<open>No route hides behind an earlier one: each is found for its own path with an id in it.\<close>

definition ownRequest :: "route \<Rightarrow> unit request" where
  "ownRequest rt = \<lparr>rq_method = rt_method rt, rq_path = map (\<lambda>p. if isParam p then ''7'' else p) (rt_path rt),
     rq_authorization = [], rq_body = ()\<rparr>"

lemma answers_own:
  "answers rt (ownRequest r) \<longleftrightarrow> rt_method rt = rt_method r \<and> matchPath (rt_path rt) (map (\<lambda>p. if isParam p then ''7'' else p) (rt_path r))"
  by (simp add: answers_def ownRequest_def)

text \<open>The same on methods and paths in lower case.\<close>

fun covers :: "string list \<Rightarrow> string list \<Rightarrow> bool" where
  "covers [] [] = True"
| "covers (p # ps) (q # qs) = ((if isParam p then True else if isParam q then p = ''7'' else p = q) \<and> covers ps qs)"
| "covers _ _ = False"

fun shadowFree :: "(http_method \<times> string list) list \<Rightarrow> bool" where
  "shadowFree [] = True"
| "shadowFree (x # xs) = (list_all (\<lambda>y. if fst x = fst y then \<not> covers (snd x) (snd y) else True) xs \<and> shadowFree xs)"

lemma covers_matches:
  assumes "\<forall>p \<in> set ps. toLowerCase p = p" and "\<forall>q \<in> set qs. toLowerCase q = q"
  shows "covers ps qs = matchPath ps (map (\<lambda>q. if isParam q then ''7'' else q) qs)"
proof -
  have seven: "toLowerCase ''7'' = ''7''" by code_simp
  show ?thesis using assms by (induction ps qs rule: covers.induct) (auto simp: seven)
qed

lemma matchPath_own: "matchPath ps (map (\<lambda>p. if isParam p then ''7'' else p) ps)"
  by (induction ps) auto

lemma shadowFree_find:
  assumes "shadowFree (map (\<lambda>rt. (rt_method rt, rt_path rt)) rs)"
    and "\<forall>rt \<in> set rs. \<forall>p \<in> set (rt_path rt). toLowerCase p = p" and "r \<in> set rs"
  shows "find (\<lambda>rt. answers rt (ownRequest r)) rs = Some r"
  using assms
proof (induction rs)
  case (Cons x xs)
  show ?case
  proof (cases "r = x")
    case True
    then show ?thesis by (simp add: answers_own matchPath_own)
  next
    case False
    then have r: "r \<in> set xs" using Cons.prems(3) by simp
    then have "rt_method x = rt_method r \<longrightarrow> \<not> covers (rt_path x) (rt_path r)"
      using Cons.prems(1) by (auto simp: list_all_iff)
    then have "\<not> answers x (ownRequest r)"
      using Cons.prems(2) r by (auto simp: answers_own covers_matches)
    then show ?thesis using Cons r by simp
  qed
qed simp

definition routeKeys :: "(http_method \<times> string list) list" where
  "routeKeys = map (\<lambda>rt. (rt_method rt, rt_path rt)) apiRoutes"

lemma routes_lower_case: "\<forall>rt \<in> set apiRoutes. \<forall>p \<in> set (rt_path rt). toLowerCase p = p"
  by code_simp

lemma routes_shadow_free: "shadowFree routeKeys"
  by code_simp

theorem routes_reachable: "rt \<in> set apiRoutes \<Longrightarrow> findRoute (ownRequest rt) = Some rt"
  unfolding findRoute_def
  by (rule shadowFree_find) (use routes_shadow_free routes_lower_case in \<open>simp_all add: routeKeys_def\<close>)

section \<open>Who reaches a handler\<close>

lemma findRoute_Some: "findRoute rq = Some rt \<Longrightarrow> rt \<in> set apiRoutes \<and> answers rt rq"
  unfolding findRoute_def by (rule find_SomeD)

lemma runGuards_ok:
  assumes "runGuards e rt s b gs = Inr u"
  shows "ValidationGuard \<in> set gs \<Longrightarrow> ap_validate e rt b = []"
    and "AuthGuard \<in> set gs \<Longrightarrow> \<exists>x. authGuard (rt_roles rt) s = Inr x"
  using assms by (induction e rt s b gs rule: runGuards.induct) (auto simp: res_simps split: if_splits)

lemma admit_ok:
  assumes "admit e rq d = Inr (rt, s)"
  shows "requestSession e rq d = Inr s" and "findRoute rq = Some rt"
    and "runGuards e rt s (rq_body rq) (rt_guards rt) = Inr ()"
    and "rt_parseInt rt \<longrightarrow> list_all isIntText (paramsOf (rt_path rt) (rq_path rq))"
  using assms by (auto simp: admit_def split: sum.splits option.splits if_splits)

text \<open>The account a request acts for: a live row that its token was signed for, with a role of the route.\<close>

definition actsFor :: "'b api \<Rightarrow> 'b request \<Rightarrow> route \<Rightarrow> db \<Rightarrow> user \<Rightarrow> bool" where
  "actsFor e rq rt d u \<longleftrightarrow> u \<in> set (rows (users d)) \<and> status u \<noteq> DELETED
     \<and> ap_readToken e (bearerToken (rq_authorization rq)) = Inr (rowId u)
     \<and> (rt_roles rt = [] \<or> (\<exists>role \<in> set (rt_roles rt). (rowId u, role) \<in> set (user_roles d) \<and> ap_liveRole e role))"

lemma admitted_user:
  assumes "admit e rq d = Inr (rt, s)" and "AuthGuard \<in> set (rt_guards rt)"
  shows "\<exists>u. ss_user s = Some u \<and> actsFor e rq rt d u"
proof -
  obtain x where g: "authGuard (rt_roles rt) s = Inr x"
    using runGuards_ok(2) [OF admit_ok(3) [OF assms(1)] assms(2)] by blast
  have "\<not> excluded rq"
  proof
    assume "excluded rq"
    then have "ss_user s = None" using admit_ok(1) [OF assms(1)] by (auto simp: requestSession_def)
    with g show False by (simp add: authGuard_def isAuthenticated_def)
  qed
  then have a: "authenticate (ap_readToken e) (ap_liveRole e) (bearerToken (rq_authorization rq)) d = Inr s"
    using admit_ok(1) [OF assms(1)] by (simp add: requestSession_def)
  show ?thesis using guard_admits_only_roles [OF a g] unfolding actsFor_def by blast
qed

text \<open>
  C23: Whatever the handlers do: a request changes the database only through a route
  of the table that it answers, after the model of that route accepted its body.
  Where the request is no read and the route is not one of the four public ones, or
  where the route names roles, its token was signed for a live account that holds
  one of these roles.
\<close>

theorem requests_authorized:
  assumes "handleRequest e handler rq m = (r, m')" and "m' \<noteq> m"
  shows "\<exists>rt s. rt \<in> set apiRoutes \<and> answers rt rq
    \<and> m' = snd (handler rt s (paramsOf (rt_path rt) (rq_path rq)) (rq_body rq) m)
    \<and> (ValidationGuard \<in> set (rt_guards rt) \<longrightarrow> ap_validate e rt (rq_body rq) = [])
    \<and> (rt_roles rt \<noteq> [] \<or> (rt_method rt \<noteq> Get \<and> rt_handler rt \<notin> set publicHandlers)
         \<longrightarrow> (\<exists>u. ss_user s = Some u \<and> actsFor e rq rt (committed m) u))"
proof -
  obtain rt s where rt: "admit e rq (committed m) = Inr (rt, s)"
      "m' = snd (handler rt s (paramsOf (rt_path rt) (rq_path rq)) (rq_body rq) m)"
    using assms by (auto simp: handleRequest_def split: sum.splits prod.splits)
  note ok = admit_ok [OF rt(1)] and found = findRoute_Some [OF admit_ok(2) [OF rt(1)]]
  have "AuthGuard \<in> set (rt_guards rt)"
    if "rt_roles rt \<noteq> [] \<or> (rt_method rt \<noteq> Get \<and> rt_handler rt \<notin> set publicHandlers)"
  proof (rule ccontr)
    assume no: "AuthGuard \<notin> set (rt_guards rt)"
    then have "rt_method rt \<noteq> Get" "rt_handler rt \<notin> set publicHandlers"
      using that roles_are_guarded found by blast+
    moreover from no this(1) have "rt_handler rt \<in> set (map rt_handler (filter (\<lambda>rt. rt_method rt \<noteq> Get \<and> AuthGuard \<notin> set (rt_guards rt)) apiRoutes))"
      using found by auto
    ultimately show False unfolding public_writes by simp
  qed
  then show ?thesis
    using rt found runGuards_ok(1) [OF ok(3)] admitted_user [OF rt(1)] by blast
qed

text \<open>
  A token that cannot be read, an expired one as well, ends every request that looks
  at it with an error of the server, the public lists included.
\<close>

lemma bad_token_fails_everywhere:
  assumes "\<not> excluded rq" and "bearerToken (rq_authorization rq) \<noteq> []"
    and "ap_readToken e (bearerToken (rq_authorization rq)) = Inl (JsError t)"
  shows "handleRequest e handler rq m = (Inl (Thrown (JsError t)), m)"
    and "fst (errorAnswer (Thrown (JsError t))) = 500"
  using assms by (simp_all add: handleRequest_def admit_def requestSession_def authenticate_def errorAnswer_def exceptionsFilter_def)

section \<open>The routes of markets\<close>

record market_body =
  mb_set :: prediction_set
  mb_outcomes :: "outcome list"
  mb_dataSourceIds :: "nat list"
  mb_categories :: "string list"
  mb_hide :: bool

definition sessionCtx :: "int \<Rightarrow> session \<Rightarrow> ctx" where
  "sessionCtx now s = \<lparr>ctx_user = map_option rowId (ss_user s), ctx_roles = ss_roles s, ctx_now = now\<rparr>"

definition asUnit :: "(exn, 'a) res \<times> db mysql \<Rightarrow> (exn, unit) res \<times> db mysql" where
  "asUnit x = (bindR (fst x) (\<lambda>_. Inr ()), snd x)"

text \<open>
  What \<open>PredictionSetController\<close> calls, by the name of the handler, with the id of
  the path; the results are left out, and the other handlers write nothing.
\<close>

definition predictionSetHandler ::
  "nat \<Rightarrow> (nat \<Rightarrow> (exn, unit) res) \<Rightarrow> int \<Rightarrow> string \<Rightarrow> session \<Rightarrow> nat \<Rightarrow> market_body \<Rightarrow> db mysql
    \<Rightarrow> (exn, unit) res \<times> db mysql" where
  "predictionSetHandler minimal send now h s i b m =
    (let c = sessionCtx now s; uId = (case ss_user s of None \<Rightarrow> 0 | Some u \<Rightarrow> rowId u) in
     if h = ''createPredictionSet''
       then asUnit (createPredictionSet c minimal (mb_set b) (mb_outcomes b) (mb_dataSourceIds b) (mb_categories b) m)
     else if h = ''updatePredictionSet'' then asUnit (updatePredictionSet c i (mb_set b) (mb_outcomes b) (mb_dataSourceIds b) m)
     else if h = ''deletePredictionSet'' then asUnit (deletePredictionSet c i m)
     else if h = ''processPredictionSet''
       then (case processPredictionSet c send i m of (r, m', _) \<Rightarrow> asUnit (r, m'))
     else if h = ''updatePredictionHide'' then asUnit (updatePredictionHide c i (mb_hide b) m)
     else if h = ''addUserWatchlist'' then asUnit (addUserWatchlist c uId i m)
     else if h = ''removeUserWatchlist'' then asUnit (removeUserWatchlist uId i m)
     else (Inr (), m))"

text \<open>
  \<open>ParseIntPipe\<close> lets a negative number through, which names no row, like an id
  that was not given yet.
\<close>

definition idParam :: "nat \<Rightarrow> string list \<Rightarrow> nat" where
  "idParam free ps = (case ps of
      [] \<Rightarrow> 0
    | t # _ \<Rightarrow> (case t of [] \<Rightarrow> 0 | c # cs \<Rightarrow>
        if c = CHR ''-'' then (if fromDecimal cs = 0 then 0 else free) else fromDecimal t))"

definition marketRequest ::
  "market_body api \<Rightarrow> nat \<Rightarrow> (nat \<Rightarrow> (exn, unit) res) \<Rightarrow> int \<Rightarrow> market_body request \<Rightarrow> db mysql
    \<Rightarrow> (http_error, unit) res \<times> db mysql" where
  "marketRequest e minimal send now = handleRequest e (\<lambda>rt s ps b m.
     predictionSetHandler minimal send now (rt_handler rt) s
       (idParam (auto_increment (prediction_sets (committed m))) ps) b m)"

definition adminHandlers :: "string list" where
  "adminHandlers = [''createPredictionSet'', ''updatePredictionSet'', ''deletePredictionSet'',
     ''processPredictionSet'', ''updatePredictionHide'']"

lemma market_handlers_are_admin:
  "\<forall>rt \<in> set predictionSetController. rt_handler rt \<in> set adminHandlers \<longrightarrow> rt_roles rt = [defaultUserRoleNo ROLE_ADMIN]"
  by code_simp

text \<open>No other controller has a path below \<open>prediction-sets\<close>.\<close>

lemma other_controllers:
  "\<forall>rt \<in> set apiRoutes. rt \<in> set predictionSetController \<or> (case rt_path rt of [] \<Rightarrow> True
     | p # _ \<Rightarrow> \<not> isParam p \<and> toLowerCase p \<noteq> ''prediction-sets'')"
  by code_simp

lemma market_route:
  assumes "findRoute rq = Some rt" and "rq_path rq = ''prediction-sets'' # rest"
  shows "rt \<in> set predictionSetController"
proof -
  have low: "toLowerCase ''prediction-sets'' = ''prediction-sets''" by code_simp
  have rt: "rt \<in> set apiRoutes" "matchPath (rt_path rt) (rq_path rq)"
    using findRoute_Some [OF assms(1)] by (auto simp: answers_def)
  with assms(2) obtain p ps where p: "rt_path rt = p # ps" "isParam p \<or> toLowerCase p = ''prediction-sets''"
    by (cases "rt_path rt") (auto simp: low)
  then show ?thesis using other_controllers rt(1) by fastforce
qed

lemma watchlist_keeps_markets:
  "prediction_sets (committed (snd (addUserWatchlist c u i m))) = prediction_sets (committed m)"
  "prediction_sets (committed (snd (removeUserWatchlist u i m))) = prediction_sets (committed m)"
  by (auto simp: addUserWatchlist_def removeUserWatchlist_def withTx_def start_def commit_def rollback_def res_simps
      split: prod.splits sum.splits option.splits)

lemma handler_changes_markets:
  assumes "prediction_sets (committed (snd (predictionSetHandler minimal send now h s i b m))) \<noteq> prediction_sets (committed m)"
  shows "h \<in> set adminHandlers"
proof (rule ccontr)
  assume "h \<notin> set adminHandlers"
  then show False using assms
    by (simp add: predictionSetHandler_def adminHandlers_def asUnit_def Let_def watchlist_keeps_markets split: if_splits)
qed

text \<open>
  C38: A request to a path below \<open>prediction-sets\<close> that changes the table of markets
  carries a token that was signed for a live account with the live role of an
  administrator; every other request leaves the markets as they are.
\<close>

theorem markets_changed_by_admins:
  assumes "marketRequest e minimal send now rq m = (r, m')" and "rq_path rq = ''prediction-sets'' # rest"
    and "prediction_sets (committed m') \<noteq> prediction_sets (committed m)"
  shows "\<exists>u \<in> set (rows (users (committed m))). status u \<noteq> DELETED
    \<and> ap_readToken e (bearerToken (rq_authorization rq)) = Inr (rowId u)
    \<and> (rowId u, defaultUserRoleNo ROLE_ADMIN) \<in> set (user_roles (committed m))
    \<and> ap_liveRole e (defaultUserRoleNo ROLE_ADMIN)"
proof -
  let ?h = "\<lambda>rt s. predictionSetHandler minimal send now (rt_handler rt) s
     (idParam (auto_increment (prediction_sets (committed m))) (paramsOf (rt_path rt) (rq_path rq))) (rq_body rq) m"
  obtain rt s where rt: "admit e rq (committed m) = Inr (rt, s)" "m' = snd (?h rt s)"
    using assms(1,3) by (auto simp: marketRequest_def handleRequest_def split: sum.splits prod.splits)
  have "rt \<in> set predictionSetController" using market_route [OF admit_ok(2) [OF rt(1)] assms(2)] .
  moreover have "rt_handler rt \<in> set adminHandlers" using handler_changes_markets assms(3) rt(2) by blast
  ultimately have roles: "rt_roles rt = [defaultUserRoleNo ROLE_ADMIN]" using market_handlers_are_admin by blast
  have "rt \<in> set apiRoutes" using findRoute_Some [OF admit_ok(2) [OF rt(1)]] by blast
  then have "AuthGuard \<in> set (rt_guards rt)" using roles_are_guarded roles by simp
  then obtain u where "actsFor e rq rt (committed m) u" using admitted_user [OF rt(1)] by blast
  then show ?thesis using roles by (auto simp: actsFor_def)
qed

end
