(* ===== verification/Witnesses_Api.thy ===== *)
theory Witnesses_Api
  imports Examples Api_Routes
begin

text \<open>
  Closed instances of the properties about requests: an administrator hides a market
  of the example database.
\<close>

definition exApiDb :: db where
  "exApiDb = exDb\<lparr>user_roles := [(1, 1)]\<rparr>"

definition exApi :: "market_body api" where
  "exApi = \<lparr>ap_readToken = \<lambda>t. if t = ''t'' then Inr 1 else Inl (JsError ''jwt''), ap_liveRole = \<lambda>r. True,
     ap_validate = \<lambda>rt b. []\<rparr>"

definition exHide :: "market_body request" where
  "exHide = \<lparr>rq_method = Patch, rq_path = [''prediction-sets'', ''3'', ''hide''], rq_authorization = ''Bearer t'',
     rq_body = \<lparr>mb_set = exSet 3 PS_ACTIVE 2, mb_outcomes = [], mb_dataSourceIds = [], mb_categories = [], mb_hide = True\<rparr>\<rparr>"

definition exApiM :: "db mysql" where
  "exApiM = exM\<lparr>committed := exApiDb\<rparr>"

lemma exHide_changes:
  "prediction_sets (committed (snd (marketRequest exApi 2 (\<lambda>i. Inr ()) 5000 exHide exApiM))) \<noteq> prediction_sets (committed exApiM)"
proof -
  have "(case byId 3 (prediction_sets (committed (snd (marketRequest exApi 2 (\<lambda>i. Inr ()) 5000 exHide exApiM)))) of
      None \<Rightarrow> False | Some p \<Rightarrow> ps_hide p)" by code_simp
  moreover have "(case byId 3 (prediction_sets (committed exApiM)) of None \<Rightarrow> False | Some p \<Rightarrow> \<not> ps_hide p)" by code_simp
  ultimately show ?thesis by (auto split: option.splits)
qed

theorem markets_changed_by_admins_witness:
  "\<exists>u \<in> set (rows (users exApiDb)). status u \<noteq> DELETED \<and> rowId u = 1 \<and> (1, 1) \<in> set (user_roles exApiDb)"
proof -
  obtain r m' where r: "marketRequest exApi 2 (\<lambda>i. Inr ()) 5000 exHide exApiM = (r, m')" by fastforce
  have p: "rq_path exHide = ''prediction-sets'' # [''3'', ''hide'']" by (simp add: exHide_def)
  have t: "bearerToken (rq_authorization exHide) = ''t''" by code_simp
  have "prediction_sets (committed m') \<noteq> prediction_sets (committed exApiM)" using exHide_changes r by simp
  from markets_changed_by_admins [OF r p this] show ?thesis
    by (auto simp: t exApi_def exApiM_def)
qed

theorem requests_authorized_witness:
  "\<exists>rt u. rt \<in> set apiRoutes \<and> rt_method rt = Patch \<and> actsFor exApi exHide rt exApiDb u"
proof -
  obtain r m' where r: "marketRequest exApi 2 (\<lambda>i. Inr ()) 5000 exHide exApiM = (r, m')" by fastforce
  have "m' \<noteq> exApiM" using exHide_changes r by auto
  from requests_authorized [OF r [unfolded marketRequest_def] this]
  obtain rt and s :: session where rt: "rt \<in> set apiRoutes" "answers rt exHide"
      "rt_roles rt \<noteq> [] \<or> (rt_method rt \<noteq> Get \<and> rt_handler rt \<notin> set publicHandlers)
         \<longrightarrow> (\<exists>u. ss_user s = Some u \<and> actsFor exApi exHide rt (committed exApiM) u)"
    by blast
  have patch: "rt_method rt = Patch" using rt(2) by (simp add: answers_def exHide_def)
  have "matchPath (rt_path rt) [''prediction-sets'', ''3'', ''hide'']" using rt(2) by (simp add: answers_def exHide_def)
  moreover have "\<forall>rt \<in> set apiRoutes. rt_handler rt \<in> set publicHandlers \<longrightarrow> \<not> matchPath (rt_path rt) [''prediction-sets'', ''3'', ''hide'']"
    by code_simp
  ultimately have "rt_handler rt \<notin> set publicHandlers" using rt(1) by blast
  then show ?thesis using rt(1,3) patch by (auto simp: exApiM_def)
qed

end
