(* ===== verification/Request_Models.thy ===== *)
theory Request_Models
  imports Api_Routes Position_Lists
begin

text \<open>
  What the validation guard accepts: the models of request bodies and queries
  (\<open>modules/*/dtos\<close>) with their validators, and what a request that passed it leaves
  in the database.  The library's test of presence is a parameter for the one value
  its users disagree on, the empty array.
\<close>

section \<open>Presence\<close>

definition requiredText :: "string \<Rightarrow> ValidatorErrorCode \<Rightarrow> ValidatorErrorCode list" where
  "requiredText v code = (if v = [] then [code] else [])"

definition requiredValue :: "'v option \<Rightarrow> ValidatorErrorCode \<Rightarrow> ValidatorErrorCode list" where
  "requiredValue v code = (if v = None then [code] else [])"

definition presentArray :: "bool \<Rightarrow> 'v list \<Rightarrow> bool" where
  "presentArray emptyIsPresent xs \<longleftrightarrow> emptyIsPresent \<or> xs \<noteq> []"

lemma requiredText_Nil [simp]: "requiredText v code = [] \<longleftrightarrow> v \<noteq> []"
  by (simp add: requiredText_def)

lemma requiredValue_Nil [simp]: "requiredValue v code = [] \<longleftrightarrow> v \<noteq> None"
  by (simp add: requiredValue_def)

section \<open>The models\<close>

text \<open>\<open>PredictionSetDto\<close> has the validators of the prediction set and of every outcome in it.\<close>

definition dataSourceIdsPresenceValidator :: "bool \<Rightarrow> int \<Rightarrow> nat list \<Rightarrow> bool" where
  "dataSourceIdsPresenceValidator emptyIsPresent resolutionType ids =
    (if resolutionType = resolutionTypeNo RT_MANUAL then True else presentArray emptyIsPresent ids)"

definition validateOutcome :: "outcome \<Rightarrow> ValidatorErrorCode list" where
  "validateOutcome oc = requiredText (oc_name oc) OUTCOME_NAME_NOT_PRESENT"

definition predictionSetDtoErrors :: "bool \<Rightarrow> market_body \<Rightarrow> ValidatorErrorCode list" where
  "predictionSetDtoErrors emptyIsPresent b =
    validatePredictionSet (mb_set b) @
    (if dataSourceIdsPresenceValidator emptyIsPresent (ps_resolutionType (mb_set b)) (mb_dataSourceIds b)
     then [] else [PREDICTION_SET_DTO_DATA_SOURCE_IDS_NOT_PRESENT]) @
    (if presentArray emptyIsPresent (mb_outcomes b) then [] else [PREDICTION_SET_DTO_PREDICTION_OUTCOMES_NOT_PRESENT]) @
    (if 2 \<le> length (mb_outcomes b) then [] else [PREDICTION_SET_DTO_PREDICTION_OUTCOMES_NOT_VALID]) @
    concat (map validateOutcome (mb_outcomes b))"

record social_post_dto =
  sp_message :: string
  sp_imgLink :: string
  sp_socialMedias :: "string list"

definition createSocialPostDtoErrors :: "bool \<Rightarrow> social_post_dto \<Rightarrow> ValidatorErrorCode list" where
  "createSocialPostDtoErrors emptyIsPresent b =
    requiredText (sp_message b) CREATE_SOCIAL_POST_MESSAGE_NOT_PRESENT @
    (if presentArray emptyIsPresent (sp_socialMedias b) then [] else [CREATE_SOCIAL_POST_SOCIAL_MEDIAS_NOT_PRESENT]) @
    (if 1 \<le> length (sp_socialMedias b) then [] else [CREATE_SOCIAL_POST_SOCIAL_MEDIAS_INVALID])"

text \<open>The values of \<open>TimeRange\<close>.\<close>

definition timeRanges :: "(string \<times> chance_range) list" where
  "timeRanges = [(''1D'', One_day), (''1W'', One_week), (''1M'', One_month), (''ALL'', All_time)]"

definition chanceHistoryErrors :: "string option \<Rightarrow> ValidatorErrorCode list" where
  "chanceHistoryErrors period = (case period of
      None \<Rightarrow> [PREDICTION_SET_CHANCE_HISTORY_RANGE_NOT_VALID]
    | Some t \<Rightarrow> if t \<in> fst ` set timeRanges then [] else [PREDICTION_SET_CHANCE_HISTORY_RANGE_NOT_VALID])"

record data_source_dto =
  dd_endpoint :: string
  dd_jqQuery :: string
  dd_abi :: string
  dd_httpMethod :: string

definition dataSourceDtoErrors :: "data_source_dto \<Rightarrow> ValidatorErrorCode list" where
  "dataSourceDtoErrors b =
    requiredText (dd_endpoint b) DATA_SOURCE_ENDPOINT_NOT_PRESENT @
    requiredText (dd_jqQuery b) DATA_SOURCE_JQ_QUERY_NOT_PRESENT @
    requiredText (dd_abi b) DATA_SOURCE_ABI_NOT_PRESENT"

definition userEmailErrors :: "(string \<Rightarrow> bool) \<Rightarrow> string \<Rightarrow> ValidatorErrorCode list" where
  "userEmailErrors isEmail email =
    requiredText email USER_EMAIL_NOT_PRESENT @ (if isEmail email then [] else [USER_EMAIL_NOT_VALID])"

definition commentsQueryErrors :: "int list \<Rightarrow> int option \<Rightarrow> int option \<Rightarrow> ValidatorErrorCode list" where
  "commentsQueryErrors entityTypes entityId entityType =
    requiredValue entityId COMMENT_ENTITY_ID_NOT_PRESENT @
    requiredValue entityType COMMENT_ENTITY_ID_NOT_PRESENT @
    (if enumInclusionValidator entityTypes False entityType then [] else [COMMENT_ENTITY_TYPE_NOT_VALID])"

definition updateHideStateErrors :: "bool option \<Rightarrow> ValidatorErrorCode list" where
  "updateHideStateErrors hide = requiredValue hide PREDICTION_SET_HIDE_STATE_NOT_PRESENT"

definition generateSuggestionsErrors :: "string \<Rightarrow> ValidatorErrorCode list" where
  "generateSuggestionsErrors prompt = requiredText prompt GENERATE_SUGGESTIONS_PROMPT_NOT_PRESENT"

section \<open>What an accepted body has\<close>

lemma accepted_market:
  assumes "predictionSetDtoErrors ep b = []"
  shows "2 \<le> length (mb_outcomes b)" and "\<forall>oc \<in> set (mb_outcomes b). oc_name oc \<noteq> []"
    and "validatePredictionSet (mb_set b) = []"
  using assms by (auto simp: predictionSetDtoErrors_def validateOutcome_def split: if_splits)

text \<open>
  Whether an automatic market needs a data source at all depends on the library's
  answer for an empty array; the number is only checked when a market is created.
\<close>

lemma accepted_without_sources:
  "predictionSetDtoErrors True b = [] \<longleftrightarrow> predictionSetDtoErrors True (b\<lparr>mb_dataSourceIds := []\<rparr>) = []"
  by (simp add: predictionSetDtoErrors_def dataSourceIdsPresenceValidator_def presentArray_def)

text \<open>An accepted range is one the chance history knows.\<close>

lemma accepted_range: "chanceHistoryErrors r = [] \<longleftrightarrow> (\<exists>t rg. r = Some t \<and> map_of timeRanges t = Some rg)"
  by (cases r) (auto simp: chanceHistoryErrors_def map_of_eq_None_iff dest: map_of_SomeD weak_map_of_SomeI intro: rev_image_eqI
      split: if_splits)

text \<open>An accepted post names a platform and has a message.\<close>

lemma accepted_post_names_platform:
  "createSocialPostDtoErrors ep b = [] \<Longrightarrow> sp_socialMedias b \<noteq> [] \<and> sp_message b \<noteq> []"
  by (auto simp: createSocialPostDtoErrors_def split: if_splits)

section \<open>Markets from requests\<close>

definition marketModels :: "market_body api \<Rightarrow> bool \<Rightarrow> bool" where
  "marketModels e ep \<longleftrightarrow> (\<forall>rt b. rt_handler rt \<in> {''createPredictionSet'', ''updatePredictionSet''}
     \<longrightarrow> ap_validate e rt b = predictionSetDtoErrors ep b)"

lemma market_bodies_validated:
  "\<forall>rt \<in> set predictionSetController. rt_handler rt \<in> {''createPredictionSet'', ''updatePredictionSet''}
     \<longrightarrow> ValidationGuard \<in> set (rt_guards rt)"
  by code_simp

lemma createPredictionSet_outcomes:
  assumes "createPredictionSet c k p ocs dsIds cats m = (Inr psId, m')"
  obtains new where "rows (outcomes (committed m')) = rows (outcomes (committed m)) @ new" "outcomeRowsFor psId 0 ocs new"
proof -
  let ?d = "committed m"
  from assms obtain w' where tx: "createPredictionSetTx c k ?d p ocs dsIds cats ?d = Inr (w', psId)"
    and m': "m' = m\<lparr>committed := w'\<rparr>" unfolding createPredictionSet_def
    by (cases rule: withTxA_cases [of "createPredictionSetTx c k ?d p ocs dsIds cats" m]) auto
  from createPredictionSetTx_Inr [OF tx] obtain t w1 w2 where
    src: "ps_resolutionType p = resolutionTypeNo RT_AUTOMATIC \<Longrightarrow>
       forEach (attachDataSource psId) dsIds (?d\<lparr>prediction_sets := t\<rparr>) = Inr w1"
    and nosrc: "ps_resolutionType p \<noteq> resolutionTypeNo RT_AUTOMATIC \<Longrightarrow> w1 = ?d\<lparr>prediction_sets := t\<rparr>"
    and oc: "forEach (insertOutcome c psId) (zip [0..<length ocs] ocs) w1 = Inr w2"
    and cat: "w' = w2\<lparr>ps_categories := ps_categories w2 @ map (Pair psId) cats\<rparr>" by metis
  have "outcomes w1 = outcomes ?d"
    using attachDataSources_Inr(1) [OF src] nosrc by (cases "ps_resolutionType p = resolutionTypeNo RT_AUTOMATIC") auto
  moreover obtain new where "rows (outcomes w2) = rows (outcomes w1) @ new" "outcomeRowsFor psId 0 ocs new"
    using insertOutcomes_Inr [of c psId 0 ocs w1 w2] oc by auto
  ultimately show thesis using that cat m' by simp
qed

lemma updatePredictionSet_outcomes:
  assumes "updatePredictionSet c i dto ocs dsIds m = (Inr j, m')"
  obtains new where "rows (outcomes (committed m')) =
      filter (\<lambda>r. oc_prediction_set_id r \<noteq> i) (rows (outcomes (committed m))) @ new" "outcomeRowsFor i 0 ocs new"
proof -
  let ?d = "committed m"
  from assms obtain w' where tx: "updatePredictionSetTx c i dto ocs dsIds ?d = Inr (w', j)"
    and m': "m' = m\<lparr>committed := w'\<rparr>" unfolding updatePredictionSet_def
    by (cases rule: withTxA_cases [of "updatePredictionSetTx c i dto ocs dsIds" m]) auto
  from updatePredictionSetTx_Inr [OF tx] obtain w1 w2 where
    src: "forEach (attachDataSource i) dsIds (deleteDataSources i ?d) = Inr w1"
    and oc: "forEach (insertOutcome c i) (zip [0..<length ocs] ocs) (deleteOutcomes i w1) = Inr w2"
    and w': "w' = setPredictionSet c i (populateUser dto) w2" by metis
  have "outcomes w1 = outcomes ?d" using attachDataSources_Inr(1) [OF src] by (auto simp: deleteDataSources_def)
  moreover obtain new where "rows (outcomes w2) = rows (outcomes (deleteOutcomes i w1)) @ new" "outcomeRowsFor i 0 ocs new"
    using insertOutcomes_Inr [of c i 0 ocs "deleteOutcomes i w1" w2] oc by auto
  ultimately show thesis using that w' m' by (simp add: deleteOutcomes_def setPredictionSet_def)
qed

text \<open>
  Every market that a request creates or changes has at least two outcomes with
  names, numbered from zero.
\<close>

lemma requested_markets_have_outcomes:
  assumes "marketRequest e minimal send now rq m = (Inr (), m')" and "marketModels e ep"
    and "findRoute rq = Some rt" and "rq_path rq = ''prediction-sets'' # rest"
    and "rt_handler rt \<in> {''createPredictionSet'', ''updatePredictionSet''}"
  shows "\<exists>psId new kept. rows (outcomes (committed m')) = kept @ new \<and> outcomeRowsFor psId 0 (mb_outcomes (rq_body rq)) new
    \<and> 2 \<le> length new \<and> (\<forall>oc \<in> set new. oc_name oc \<noteq> [])"
proof -
  let ?b = "rq_body rq"
  obtain s i where adm: "admit e rq (committed m) = Inr (rt, s)"
    and run: "predictionSetHandler minimal send now (rt_handler rt) s i ?b m = (Inr (), m')"
    using assms(1,3) admit_ok(2)
    by (fastforce simp: marketRequest_def handleRequest_def split: sum.splits prod.splits)
  have "rt \<in> set predictionSetController" using market_route [OF assms(3,4)] .
  then have "ValidationGuard \<in> set (rt_guards rt)" using market_bodies_validated assms(5) by blast
  then have "ap_validate e rt ?b = []" by (rule runGuards_ok(1) [OF admit_ok(3) [OF adm]])
  moreover have "ap_validate e rt ?b = predictionSetDtoErrors ep ?b"
    using assms(2,5) unfolding marketModels_def by blast
  ultimately have ok: "predictionSetDtoErrors ep ?b = []" by simp
  have named: "length new = length (mb_outcomes ?b) \<and> (\<forall>oc \<in> set new. oc_name oc \<noteq> [])"
    if "outcomeRowsFor psId 0 (mb_outcomes ?b) new" for psId new
  proof -
    from that have names: "map oc_name new = map oc_name (mb_outcomes ?b)" by (simp add: outcomeRowsFor_def)
    then have "oc_name ` set new = oc_name ` set (mb_outcomes ?b)" by (metis set_map)
    then show ?thesis using accepted_market(2) [OF ok] map_eq_imp_length_eq [OF names] by (metis imageE imageI)
  qed
  have "\<exists>psId new kept. rows (outcomes (committed m')) = kept @ new \<and> outcomeRowsFor psId 0 (mb_outcomes ?b) new"
  proof (cases "rt_handler rt = ''createPredictionSet''")
    case True
    then obtain psId where "createPredictionSet (sessionCtx now s) minimal (mb_set ?b) (mb_outcomes ?b)
        (mb_dataSourceIds ?b) (mb_categories ?b) m = (Inr psId, m')"
      using run by (auto simp: predictionSetHandler_def asUnit_def prod_eq_iff res_simps Let_def)
    then show ?thesis by (rule createPredictionSet_outcomes) blast
  next
    case False
    then obtain j where "updatePredictionSet (sessionCtx now s) i (mb_set ?b) (mb_outcomes ?b) (mb_dataSourceIds ?b) m = (Inr j, m')"
      using run assms(5) by (auto simp: predictionSetHandler_def asUnit_def prod_eq_iff res_simps Let_def)
    then show ?thesis by (rule updatePredictionSet_outcomes) blast
  qed
  then show ?thesis using named accepted_market(1) [OF ok] by metis
qed

end
