(* ===== verification/Effects.thy ===== *)
theory Effects
  imports Prelude
begin

text \<open>
  Operations that throw and change a state at the same time.  A throw keeps what was
  changed before it, as an exception in the code does; \<open>focusW\<close> runs an operation on
  one part of a larger state.
\<close>

type_synonym ('e, 'w, 'a) action = "'w \<Rightarrow> ('e, 'a) res \<times> 'w"

definition returnW :: "'a \<Rightarrow> ('e, 'w, 'a) action" where
  "returnW x = (\<lambda>w. (Inr x, w))"

definition throwW :: "'e \<Rightarrow> ('e, 'w, 'a) action" where
  "throwW e = (\<lambda>w. (Inl e, w))"

definition bindW :: "('e, 'w, 'a) action \<Rightarrow> ('a \<Rightarrow> ('e, 'w, 'b) action) \<Rightarrow> ('e, 'w, 'b) action" where
  "bindW m f = (\<lambda>w. case m w of (Inl e, w') \<Rightarrow> (Inl e, w') | (Inr x, w') \<Rightarrow> f x w')"

definition catchW :: "('e, 'w, 'a) action \<Rightarrow> ('e \<Rightarrow> ('f, 'w, 'a) action) \<Rightarrow> ('f, 'w, 'a) action" where
  "catchW m h = (\<lambda>w. case m w of (Inl e, w') \<Rightarrow> h e w' | (Inr x, w') \<Rightarrow> (Inr x, w'))"

definition stateW :: "('w \<Rightarrow> ('e, 'w, 'a) action) \<Rightarrow> ('e, 'w, 'a) action" where
  "stateW f = (\<lambda>w. f w w)"

definition liftW :: "('e, 'a) res \<Rightarrow> ('e, 'w, 'a) action" where
  "liftW r = (\<lambda>w. (r, w))"

definition focusW :: "('s \<Rightarrow> 'w) \<Rightarrow> ('w \<Rightarrow> 's \<Rightarrow> 's) \<Rightarrow> ('e, 'w, 'a) action \<Rightarrow> ('e, 's, 'a) action" where
  "focusW get put m = (\<lambda>s. case m (get s) of (r, w) \<Rightarrow> (r, put w s))"

lemmas act_defs = returnW_def throwW_def bindW_def catchW_def

lemma bindW_return [simp]: "bindW (returnW x) f = f x"
  by (simp add: bindW_def returnW_def)

lemma bindW_throw [simp]: "bindW (throwW e) f = throwW e"
  by (simp add: bindW_def throwW_def fun_eq_iff)

lemma bindW_assoc: "bindW (bindW m f) g = bindW m (\<lambda>x. bindW (f x) g)"
  by (auto simp: bindW_def fun_eq_iff split: prod.splits sum.splits)

lemma bindW_Inr: "bindW m f w = (Inr y, w') \<longleftrightarrow> (\<exists>x v. m w = (Inr x, v) \<and> f x v = (Inr y, w'))"
  by (auto simp: bindW_def split: prod.splits sum.splits)

lemma bindW_Inl: "m w = (Inl e, w') \<Longrightarrow> bindW m f w = (Inl e, w')"
  by (simp add: bindW_def)

lemma bindW_step: "m w = (Inr x, v) \<Longrightarrow> bindW m f w = f x v"
  by (simp add: bindW_def)

text \<open>What every part keeps, the whole keeps.\<close>

lemma bindW_keeps:
  assumes "\<And>w. I w \<Longrightarrow> I (snd (m w))" and "\<And>x w. I w \<Longrightarrow> I (snd (f x w))" and "I w"
  shows "I (snd (bindW m f w))"
proof (cases "m w")
  case (Pair r v)
  then have "I v" using assms(1) [OF assms(3)] by simp
  then show ?thesis using assms(2) Pair by (cases r) (simp_all add: bindW_def)
qed

end
