(* ===== verification/Settings.thy ===== *)
theory Settings
  imports Types_Config Js_String
begin

text \<open>
  The settings of every process: \<open>config/env.ts\<close> and the secret store it reads
  (\<open>lib/aws/aws-secrets.ts\<close>).  A setting is a JavaScript value; the process
  environment, the secret store and the JSON parser are parameters.  The digits
  \<open>parseInt\<close> reads after \<open>0x\<close> are hexadecimal, as the code gives it no radix.
\<close>

section \<open>Values\<close>

datatype setting = Unset | Text string | Num int | Nan | Flag bool

fun truthy :: "setting \<Rightarrow> bool" where
  "truthy Unset = False"
| "truthy (Text s) = (s \<noteq> [])"
| "truthy (Num n) = (n \<noteq> 0)"
| "truthy Nan = False"
| "truthy (Flag b) = b"

text \<open>\<open>x || y\<close>.\<close>

definition orElse :: "setting \<Rightarrow> setting \<Rightarrow> setting" where
  "orElse x y = (if truthy x then x else y)"

text \<open>The text of a value inside a template string.\<close>

fun jsText :: "setting \<Rightarrow> string" where
  "jsText Unset = ''undefined''"
| "jsText (Text s) = s"
| "jsText (Num n) = jsInt n"
| "jsText Nan = ''NaN''"
| "jsText (Flag b) = (if b then ''true'' else ''false'')"

text \<open>\<open>n + x\<close> for a number \<open>n\<close>: a text is appended to the digits.\<close>

fun plusNum :: "int \<Rightarrow> setting \<Rightarrow> setting" where
  "plusNum n (Num m) = Num (n + m)"
| "plusNum n (Text s) = Text (jsInt n @ s)"
| "plusNum n (Flag b) = Num (n + of_bool b)"
| "plusNum n Unset = Nan"
| "plusNum n Nan = Nan"

section \<open>Reading the environment\<close>

datatype setting_rule = Plain | Or_text string | Parse_int | Parse_int_or int

definition hexValue :: "char \<Rightarrow> nat option" where
  "hexValue ch = (let n = of_char (lowerChar ch) :: nat in
     if isDigit ch then Some (n - 48) else if 97 \<le> n \<and> n \<le> 102 then Some (n - 87) else None)"

fun fromHex :: "nat \<Rightarrow> string \<Rightarrow> nat" where
  "fromHex n [] = n"
| "fromHex n (ch # s) = (case hexValue ch of None \<Rightarrow> n | Some v \<Rightarrow> fromHex (16 * n + v) s)"

definition hexPrefix :: "string \<Rightarrow> bool" where
  "hexPrefix u \<longleftrightarrow> map lowerChar (take 2 u) = ''0x''"

text \<open>\<open>parseInt(s)\<close> of a text.\<close>

definition parseIntAny :: "string \<Rightarrow> int option" where
  "parseIntAny s =
    (let t = dropWhile isSpace s; neg = (take 1 t = ''-'');
         u = (if neg \<or> take 1 t = ''+'' then drop 1 t else t)
     in if hexPrefix u
        then (case drop 2 u of
                [] \<Rightarrow> None
              | ch # _ \<Rightarrow> if hexValue ch = None then None
                         else Some (if neg then - int (fromHex 0 (drop 2 u)) else int (fromHex 0 (drop 2 u))))
        else parseInt s)"

definition parsed :: "string option \<Rightarrow> setting" where
  "parsed v = (case Option.bind v parseIntAny of None \<Rightarrow> Nan | Some n \<Rightarrow> Num n)"

definition plainText :: "string option \<Rightarrow> setting" where
  "plainText v = (case v of None \<Rightarrow> Unset | Some s \<Rightarrow> Text s)"

fun readSetting :: "setting_rule \<Rightarrow> string option \<Rightarrow> setting" where
  "readSetting Plain v = plainText v"
| "readSetting (Or_text d) v = orElse (plainText v) (Text d)"
| "readSetting Parse_int v = parsed v"
| "readSetting (Parse_int_or d) v = orElse (parsed v) (Num d)"

text \<open>The object \<open>env\<close>, in the order of the code.\<close>

definition settingRules :: "(string \<times> setting_rule) list" where
  \<open>settingRules =
    [(''API_HOST'', Or_text ''0.0.0.0''),
     (''API_PORT'', Parse_int_or 6060),
     (''API_HOST_TEST'', Or_text ''0.0.0.0''),
     (''API_PORT_TEST'', Parse_int_or 6070),
     (''APP_URL'', Or_text ''https://app.monitor.kalmia.si''),
     (''APP_ENV'', Or_text ''local''),
     (''APP_SECRET'', Or_text ''deodapdoevnfrbv213213!"#''),
     (''LOG_TARGET'', Or_text ''color''),
     (''LOG_LEVEL'', Or_text ''debug''),
     (''SLACK_WEBHOOK_URL'', Plain),
     (''DEFAULT_PAGE_SIZE'', Parse_int_or 20),
     (''PROSOPO_SECRET_KEY'', Plain),
     (''REDIS_URL'', Plain),
     (''DEFAULT_CACHE_TTL'', Parse_int_or 300),
     (''AWS_KEY'', Plain),
     (''AWS_SECRET'', Plain),
     (''AWS_REGION'', Or_text ''us-east-1''),
     (''AWS_SECRETS_ID'', Plain),
     (''AWS_WORKER_LAMBDA_NAME'', Plain),
     (''AWS_WORKER_SQS_URL'', Plain),
     (''MYSQL_HOST'', Plain),
     (''MYSQL_DATABASE'', Plain),
     (''MYSQL_PASSWORD'', Plain),
     (''MYSQL_PORT'', Parse_int),
     (''MYSQL_USER'', Plain),
     (''MYSQL_SSL_CA_FILE'', Plain),
     (''MYSQL_SSL_KEY_FILE'', Plain),
     (''MYSQL_SSL_CERT_FILE'', Plain),
     (''MYSQL_HOST_TEST'', Plain),
     (''MYSQL_DATABASE_TEST'', Plain),
     (''MYSQL_PASSWORD_TEST'', Plain),
     (''MYSQL_PORT_TEST'', Parse_int),
     (''MYSQL_USER_TEST'', Plain),
     (''PREDICTION_SET_MINIMAL_DATA_SOURCES'', Parse_int_or 2),
     (''CONDITIONAL_TOKEN_CONTRACT'', Plain),
     (''FPMM_FACTORY_CONTRACT'', Plain),
     (''ORACLE_CONTRACT'', Plain),
     (''RPC_URL'', Plain),
     (''SIGNER_PRIVATE_KEY'', Plain),
     (''FLARE_DATA_AVAILABILITY_URL'', Plain),
     (''FLARE_DATA_AVAILABILITY_API_KEY'', Plain),
     (''FLARE_CONTRACT_REGISTRY_ADDRESS'', Plain),
     (''FLARE_ATTESTATION_PROVIDER_URL'', Plain),
     (''FLARE_ATTESTATION_PROVIDER_API_KEY'', Plain),
     (''FLARE_EXPLORER_API_URL'', Plain),
     (''FPMM_PARSE_BLOCK_SIZE'', Parse_int_or 1023),
     (''FPMM_FACTORY_PARSE_BLOCK_SIZE'', Parse_int_or 1023),
     (''ORACLE_PARSE_BLOCK_SIZE'', Parse_int_or 1023),
     (''CONDITIONAL_TOKENS_PARSE_BLOCK_SIZE'', Parse_int_or 1023),
     (''FPMM_BLOCK_CONFIRMATIONS'', Parse_int_or 0),
     (''FPMM_FACTORY_BLOCK_CONFIRMATIONS'', Parse_int_or 0),
     (''ORACLE_BLOCK_CONFIRMATIONS'', Parse_int_or 0),
     (''CONDITIONAL_TOKENS_BLOCK_CONFIRMATIONS'', Parse_int_or 0),
     (''MARKET_FEE_PERCENT'', Or_text ''0.015''),
     (''MARKET_TREASURY_PERCENT'', Parse_int_or 1000),
     (''MARKET_TREASURY_ADDRESS'', Plain),
     (''MARKET_CAP_PERCENT'', Parse_int_or 30),
     (''MOCK_RESULTS_API_ENDPOINT'', Plain),
     (''INDEXER_PREDICTION_SET_PARSER_SLEEP_INTERVAL'', Parse_int_or 5),
     (''INDEXER_PREDICTION_SET_PLANNER_INTERVAL'', Parse_int_or 30),
     (''PROPOSAL_ROUND_OFFSET_DURATION'', Parse_int_or 604800000),
     (''OPENAI_API_KEY'', Plain),
     (''SMTP_HOST'', Plain),
     (''SMTP_PORT'', Parse_int),
     (''SMTP_NAME_FROM'', Or_text ''Ignite Market''),
     (''SMTP_EMAIL_FROM'', Or_text ''info@ignitemarket.xyz''),
     (''SMTP_USERNAME'', Plain),
     (''SMTP_PASSWORD'', Plain),
     (''MAIL_TEMPLATE_PATH'', Plain),
     (''IMAGE_BUCKET'', Or_text ''ignite-market-images''),
     (''API_KEYS_S3_BUCKET'', Plain),
     (''API_KEYS_ENCRYPTED_S3_KEY'', Or_text ''api-keys/encrypted-keys.json''),
     (''API_KEYS_DECRYPTED_S3_KEY'', Or_text ''api-keys/decrypted-keys.json''),
     (''PROXY_API_KEY'', Plain),
     (''TWITTER_CLIENT_ID'', Plain),
     (''TWITTER_CLIENT_SECRET'', Plain),
     (''TWITTER_ACCESS_TOKEN'', Plain),
     (''TWITTER_REFRESH_TOKEN'', Plain),
     (''TWITTER_REDIRECT_URI'', Or_text ''http://localhost:3000/auth/twitter/callback''),
     (''TWITTER_TOKENS_SECRET_ID'', Plain),
     (''DISCORD_WEBHOOK_URL'', Plain)]\<close>

type_synonym settings = "string \<Rightarrow> setting"

definition loadEnv :: "(string \<Rightarrow> string option) \<Rightarrow> settings" where
  "loadEnv penv name = (case map_of settingRules name of None \<Rightarrow> Unset | Some r \<Rightarrow> readSetting r (penv name))"

section \<open>Secrets\<close>

text \<open>
  The client of the secret store signs with keys of the environment on a developer's
  machine only.  A secret's text that is no JSON object spreads into nothing.
\<close>

record secrets_client =
  sc_credentials :: "(string \<times> string) option"
  sc_region :: string

definition createClient :: "settings \<Rightarrow> secrets_client" where
  "createClient e =
    \<lparr>sc_credentials =
       (if e ''APP_ENV'' = Text ''local'' \<and> truthy (e ''AWS_KEY'') \<and> truthy (e ''AWS_SECRET'')
        then Some (jsText (e ''AWS_KEY''), jsText (e ''AWS_SECRET'')) else None),
     sc_region = jsText (e ''AWS_REGION'')\<rparr>"

type_synonym secret_fields = "(string \<times> setting) list"

definition getSecrets ::
  "(secrets_client \<Rightarrow> string \<Rightarrow> (exn, string) res) \<Rightarrow> (string \<Rightarrow> secret_fields option) \<Rightarrow>
   settings \<Rightarrow> string \<Rightarrow> (exn, secret_fields option) res" where
  "getSecrets send parse e sid = bindR (send (createClient e) sid) (\<lambda>t. Inr (parse t))"

text \<open>\<open>{ ...env, ...secrets }\<close>.\<close>

definition spreadSecrets :: "settings \<Rightarrow> secret_fields option \<Rightarrow> settings" where
  "spreadSecrets e s = (case s of None \<Rightarrow> e | Some fs \<Rightarrow> (\<lambda>name. case map_of fs name of None \<Rightarrow> e name | Some v \<Rightarrow> v))"

record env_state =
  es_env :: settings
  es_ready :: bool

definition populateSecrets :: "(settings \<Rightarrow> string \<Rightarrow> (exn, secret_fields option) res) \<Rightarrow> env_state \<Rightarrow> env_state" where
  "populateSecrets fetch s =
    (if \<not> truthy (es_env s ''AWS_SECRETS_ID'') then s\<lparr>es_ready := True\<rparr>
     else (case fetch (es_env s) (jsText (es_env s ''AWS_SECRETS_ID'')) of
             Inl x \<Rightarrow> s\<lparr>es_ready := True\<rparr>
           | Inr fs \<Rightarrow> s\<lparr>es_env := spreadSecrets (es_env s) fs, es_ready := True\<rparr>))"

definition getEnvSecrets ::
  "(settings \<Rightarrow> string \<Rightarrow> (exn, secret_fields option) res) \<Rightarrow> env_state \<Rightarrow> settings \<times> env_state" where
  "getEnvSecrets fetch s = (let s' = (if es_ready s then s else populateSecrets fetch s) in (es_env s', s'))"

text \<open>The module's first lines: the object is read and the secrets are asked for.\<close>

definition startEnv :: "(string \<Rightarrow> string option) \<Rightarrow> env_state" where
  "startEnv penv = \<lparr>es_env = loadEnv penv, es_ready = False\<rparr>"

section \<open>Callers that overlap\<close>

text \<open>
  A caller that finds the environment not ready asks the store itself; the answers
  come in any order and each is spread over what is there by then.
\<close>

record env_run =
  er_state :: env_state
  er_pending :: "string list"

inductive env_step :: "(settings \<Rightarrow> string \<Rightarrow> (exn, secret_fields option) res) \<Rightarrow> env_run \<Rightarrow> env_run \<Rightarrow> bool"
  for fetch where
  noSecrets: "\<not> es_ready (er_state r) \<Longrightarrow> \<not> truthy (es_env (er_state r) ''AWS_SECRETS_ID'') \<Longrightarrow>
     env_step fetch r (r\<lparr>er_state := (er_state r)\<lparr>es_ready := True\<rparr>\<rparr>)"
| asked: "\<not> es_ready (er_state r) \<Longrightarrow> truthy (es_env (er_state r) ''AWS_SECRETS_ID'') \<Longrightarrow>
     env_step fetch r (r\<lparr>er_pending := jsText (es_env (er_state r) ''AWS_SECRETS_ID'') # er_pending r\<rparr>)"
| answered: "sid \<in> set (er_pending r) \<Longrightarrow> fetch e sid = Inr fs \<Longrightarrow>
     env_step fetch r (r\<lparr>er_state := \<lparr>es_env = spreadSecrets (es_env (er_state r)) fs, es_ready = True\<rparr>,
                         er_pending := remove1 sid (er_pending r)\<rparr>)"
| failed: "sid \<in> set (er_pending r) \<Longrightarrow> fetch e sid = Inl x \<Longrightarrow>
     env_step fetch r (r\<lparr>er_state := (er_state r)\<lparr>es_ready := True\<rparr>, er_pending := remove1 sid (er_pending r)\<rparr>)"

inductive_cases env_step_E [elim!]: "env_step fetch r r'"

section \<open>What a setting reads as\<close>

lemma lowerChar_digit: "isDigit c \<Longrightarrow> lowerChar c = c"
  by (simp add: isDigit_def lowerChar_def Let_def)

lemma digits_no_hex: "list_all isDigit ds \<Longrightarrow> \<not> hexPrefix ds"
proof
  assume ds: "list_all isDigit ds" and "hexPrefix ds"
  then obtain a b where t: "take 2 ds = [a, b]" and b: "lowerChar b = CHR ''x''"
    unfolding hexPrefix_def by (auto simp only: map_eq_Cons_conv map_is_Nil_conv)
  have "b \<in> set (take 2 ds)" by (simp add: t)
  then have "b \<in> set ds" by (rule in_set_takeD)
  with ds have "isDigit b" by (simp add: list_all_iff)
  then show False using b lowerChar_digit [of b] by (simp add: isDigit_def)
qed

lemma parseIntAny_jsInt [simp]: "parseIntAny (jsInt n) = Some n"
proof (cases "n < 0")
  case True
  have "\<not> isSpace CHR ''-''" by (simp add: isSpace_def)
  then have "parseIntAny (jsInt n) = parseInt (jsInt n)"
    using True digits_no_hex [OF decimal_isDigit] by (simp add: parseIntAny_def jsInt_def)
  then show ?thesis by simp
next
  case False
  obtain c cs where d: "decimal (nat n) = c # cs" by (cases "decimal (nat n)") auto
  then have c: "\<not> isSpace c \<and> c \<noteq> CHR ''-'' \<and> c \<noteq> CHR ''+''"
    using decimal_isDigit [of "nat n"] by (auto dest: isDigit_not_space)
  then have "parseIntAny (jsInt n) = parseInt (jsInt n)"
    using False d digits_no_hex [OF decimal_isDigit [of "nat n"]]
    by (simp add: parseIntAny_def jsInt_def Let_def)
  then show ?thesis by simp
qed

text \<open>A number is read as itself, but zero counts as not given.\<close>

lemma setting_of_number:
  "readSetting (Parse_int_or d) (Some (jsInt n)) = Num (if n = 0 then d else n)"
  by (simp add: parsed_def orElse_def)

lemma readSetting_defaulted:
  "readSetting (Parse_int_or d) v \<in> range Num" "readSetting (Or_text t) v \<in> range Text"
  by (auto simp: orElse_def parsed_def plainText_def split: option.split)

definition hasDefault :: "setting_rule \<Rightarrow> bool" where
  "hasDefault r = (case r of Plain \<Rightarrow> False | Parse_int \<Rightarrow> False | _ \<Rightarrow> True)"

text \<open>No name is listed twice, so every line of the object is the value of its name.\<close>

lemma setting_names_distinct: "distinct (map fst settingRules)"
  by code_simp

lemma loadEnv_rule: "(name, r) \<in> set settingRules \<Longrightarrow> loadEnv penv name = readSetting r (penv name)"
  using map_of_is_SomeI [OF setting_names_distinct] by (simp add: loadEnv_def)

lemma defaults_fill:
  assumes "(name, r) \<in> set settingRules" and "hasDefault r"
  shows "loadEnv penv name \<in> range Num \<union> range Text"
proof -
  have "readSetting r (penv name) \<in> range Num \<union> range Text"
    using assms(2) readSetting_defaulted [of _ "penv name"] by (cases r) (auto simp: hasDefault_def)
  then show ?thesis using loadEnv_rule [OF assms(1)] by simp
qed

text \<open>A market without a treasury cut cannot be configured: zero is the default of ten percent.\<close>

lemma treasury_rule: "(''MARKET_TREASURY_PERCENT'', Parse_int_or 1000) \<in> set settingRules"
  by (simp add: settingRules_def)

lemma treasury_percent_never_zero:
  "loadEnv penv ''MARKET_TREASURY_PERCENT'' \<noteq> Num 0"
  "penv ''MARKET_TREASURY_PERCENT'' = Some ''0'' \<Longrightarrow> loadEnv penv ''MARKET_TREASURY_PERCENT'' = Num 1000"
proof -
  have e: "loadEnv penv ''MARKET_TREASURY_PERCENT'' = readSetting (Parse_int_or 1000) (penv ''MARKET_TREASURY_PERCENT'')"
    by (rule loadEnv_rule [OF treasury_rule])
  have nz: "orElse x (Num 1000) \<noteq> Num 0" for x by (cases x) (auto simp: orElse_def)
  show "loadEnv penv ''MARKET_TREASURY_PERCENT'' \<noteq> Num 0" unfolding e readSetting.simps by (rule nz)
  assume p: "penv ''MARKET_TREASURY_PERCENT'' = Some ''0''"
  have "jsInt 0 = ''0''" by code_simp
  then show "loadEnv penv ''MARKET_TREASURY_PERCENT'' = Num 1000"
    using setting_of_number [of 1000 0] by (simp only: e p) simp
qed

text \<open>Tokens of a server without \<open>APP_SECRET\<close> are signed with a text of the source.\<close>

lemma secret_rule: \<open>(''APP_SECRET'', Or_text ''deodapdoevnfrbv213213!"#'') \<in> set settingRules\<close>
  by (simp add: settingRules_def)

lemma default_secret_is_public:
  assumes "penv ''APP_SECRET'' = None \<or> penv ''APP_SECRET'' = Some []"
  shows \<open>loadEnv penv ''APP_SECRET'' = Text ''deodapdoevnfrbv213213!"#''\<close>
  using assms loadEnv_rule [OF secret_rule, of penv] by (auto simp: orElse_def plainText_def)

section \<open>What the secrets change\<close>

lemma spread_given: "map_of fs name = Some v \<Longrightarrow> spreadSecrets e (Some fs) name = v"
  by (simp add: spreadSecrets_def)

lemma spread_other: "map_of fs name = None \<Longrightarrow> spreadSecrets e (Some fs) name = e name"
  by (simp add: spreadSecrets_def)

lemma spread_twice [simp]: "spreadSecrets (spreadSecrets e s) s = spreadSecrets e s"
  by (auto simp: spreadSecrets_def fun_eq_iff split: option.split)

text \<open>
  A secret is taken as it is, without the conversion of the process environment: a
  duration stored as text makes the end of a new round a text, not a later time.
\<close>

lemma text_duration_is_appended:
  assumes "map_of fs ''PROPOSAL_ROUND_OFFSET_DURATION'' = Some (Text d)"
  shows "plusNum now (spreadSecrets (loadEnv penv) (Some fs) ''PROPOSAL_ROUND_OFFSET_DURATION'') = Text (jsInt now @ d)"
  by (simp add: spread_given [OF assms])

lemma populate_ready [simp]: "es_ready (populateSecrets fetch s)"
  by (simp add: populateSecrets_def split: sum.split)

text \<open>The store is asked once, and its failure leaves the environment as it was for good.\<close>

lemma getEnvSecrets_once:
  "getEnvSecrets fetch' (snd (getEnvSecrets fetch s)) = (fst (getEnvSecrets fetch s), snd (getEnvSecrets fetch s))"
  by (cases "es_ready s") (simp_all add: getEnvSecrets_def Let_def)

lemma failed_fetch_is_final:
  assumes "\<not> es_ready s" and "\<And>e sid. fetch e sid = Inl x"
  shows "fst (getEnvSecrets fetch' (snd (getEnvSecrets fetch s))) = es_env s"
  using assms by (simp add: getEnvSecrets_def populateSecrets_def)

text \<open>However calls overlap, an environment is the loaded one or the one with the secrets.\<close>

definition envSettled :: "settings \<Rightarrow> secret_fields option \<Rightarrow> env_run \<Rightarrow> bool" where
  "envSettled e0 fs r \<longleftrightarrow> es_env (er_state r) \<in> {e0, spreadSecrets e0 fs}"

lemma env_step_settled:
  assumes "env_step fetch r r'" and "envSettled e0 fs r"
    and "\<And>e sid gs. fetch e sid = Inr gs \<Longrightarrow> gs = fs"
  shows "envSettled e0 fs r'"
  using assms(1)
proof (cases rule: env_step.cases)
  case (answered sid e gs)
  then show ?thesis using assms(2) assms(3) [of e sid gs] by (auto simp: envSettled_def)
qed (use assms(2) in \<open>auto simp: envSettled_def\<close>)

lemma env_step_ready: "env_step fetch r r' \<Longrightarrow> es_ready (er_state r) \<Longrightarrow> es_ready (er_state r')"
  by auto

lemma environment_has_two_states:
  assumes "(env_step fetch)\<^sup>*\<^sup>* \<lparr>er_state = startEnv penv, er_pending = []\<rparr> r"
    and "\<And>e sid gs. fetch e sid = Inr gs \<Longrightarrow> gs = fs"
  shows "es_env (er_state r) \<in> {loadEnv penv, spreadSecrets (loadEnv penv) fs}"
proof -
  have "envSettled (loadEnv penv) fs r"
    using assms(1)
  proof (induction rule: rtranclp_induct)
    case base
    show ?case by (simp add: envSettled_def startEnv_def)
  next
    case (step y z)
    show ?case by (rule env_step_settled [OF step(2) step(3) assms(2)])
  qed
  then show ?thesis by (simp add: envSettled_def)
qed

end
