(* ===== verification/Connection_Pool.thy ===== *)
theory Connection_Pool
  imports Types_Config Js_String
begin

text \<open>
  How \<open>lib/database/mysql.ts\<close> holds its pool: \<open>connect\<close>, \<open>ensureAlive\<close> and what
  \<open>start\<close> does before a transaction begins.  The driver is a parameter: which
  connection a pool gives at which draw, and whether a connection's socket is open.
  Pools are numbered in the order they are made.
\<close>

section \<open>The handle and the driver\<close>

record driver =
  dr_getConnection :: "nat \<Rightarrow> nat \<Rightarrow> (exn, nat) res"
  dr_open :: "nat \<Rightarrow> bool"
  dr_beginTransaction :: "nat \<Rightarrow> (exn, unit) res"

record pool_handle =
  ph_db :: "nat option"
  ph_pools :: nat
  ph_draws :: nat
  ph_lent :: "(nat \<times> nat) list"

record pool_settings =
  po_testing :: bool
  po_database :: string

text \<open>A connection is lent until it is released.\<close>

definition getConnection :: "driver \<Rightarrow> nat \<Rightarrow> pool_handle \<Rightarrow> (exn, nat) res \<times> pool_handle" where
  "getConnection dr p h =
    (let h' = h\<lparr>ph_draws := Suc (ph_draws h)\<rparr>
     in case dr_getConnection dr p (ph_draws h) of
          Inl e \<Rightarrow> (Inl e, h')
        | Inr k \<Rightarrow> (Inr k, h'\<lparr>ph_lent := (p, k) # ph_lent h'\<rparr>))"

definition release :: "nat \<Rightarrow> nat \<Rightarrow> pool_handle \<Rightarrow> pool_handle" where
  "release p k h = h\<lparr>ph_lent := remove1 (p, k) (ph_lent h)\<rparr>"

definition unsuccessful :: exn where
  "unsuccessful = JsError ''Connection unsuccessful!''"

text \<open>\<open>getConnection\<close>, a look at the socket, and \<open>release\<close> in either case.\<close>

definition testPool :: "driver \<Rightarrow> nat \<Rightarrow> pool_handle \<Rightarrow> (exn, unit) res \<times> pool_handle" where
  "testPool dr p h = (case getConnection dr p h of
      (Inl e, h1) \<Rightarrow> (Inl e, h1)
    | (Inr k, h1) \<Rightarrow> (if dr_open dr k then Inr () else Inl unsuccessful, release p k h1))"

definition createConnectionPool :: "pool_handle \<Rightarrow> nat \<times> pool_handle" where
  "createConnectionPool h = (ph_pools h, h\<lparr>ph_db := Some (ph_pools h), ph_pools := Suc (ph_pools h)\<rparr>)"

text \<open>\<open>/(test|testing)/i.test(database)\<close>\<close>

definition isTestDatabase :: "string \<Rightarrow> bool" where
  "isTestDatabase name = includesText (toLowerCase name) ''test''"

definition connect :: "driver \<Rightarrow> pool_settings \<Rightarrow> pool_handle \<Rightarrow> (exn, unit) res \<times> pool_handle" where
  "connect dr s h = (case ph_db h of
      None \<Rightarrow>
        (case createConnectionPool h of (p, h1) \<Rightarrow>
          if po_testing s \<and> \<not> isTestDatabase (po_database s)
          then (Inl (JsError ''NOT TEST DATABASE?''), h1\<lparr>ph_db := None\<rparr>)
          else (case testPool dr p h1 of
                  (Inl e, h2) \<Rightarrow> (Inl e, h2\<lparr>ph_db := None\<rparr>)
                | (Inr u, h2) \<Rightarrow> (Inr u, h2)))
    | Some p \<Rightarrow> testPool dr p h)"

text \<open>A failed reconnection is caught like a failed test, and tried once more.\<close>

definition reconnect :: "driver \<Rightarrow> pool_settings \<Rightarrow> pool_handle \<Rightarrow> (exn, unit) res \<times> pool_handle" where
  "reconnect dr s h = connect dr s (h\<lparr>ph_db := None\<rparr>)"

definition ensureAlive ::
  "driver \<Rightarrow> pool_settings \<Rightarrow> nat option \<Rightarrow> pool_handle \<Rightarrow> (exn, unit) res \<times> pool_handle" where
  "ensureAlive dr s conn h = (case ph_db h of
      None \<Rightarrow> connect dr s h
    | Some p \<Rightarrow>
        (case (case conn of Some k \<Rightarrow> (Inr k, h) | None \<Rightarrow> getConnection dr p h) of
           (Inl e, h1) \<Rightarrow> reconnect dr s h1
         | (Inr k, h1) \<Rightarrow>
             if dr_open dr k then (Inr (), h1)
             else (case reconnect dr s h1 of
                     (Inl e, h2) \<Rightarrow> reconnect dr s h2
                   | (Inr u, h2) \<Rightarrow> (Inr u, h2))))"

text \<open>
  \<open>start\<close>: the connection that was drawn is the one the transaction begins on, also
  when \<open>ensureAlive\<close> has replaced the pool it came from.
\<close>

definition startOn ::
  "driver \<Rightarrow> pool_settings \<Rightarrow> pool_handle \<Rightarrow> (exn, nat \<times> nat) res \<times> pool_handle" where
  "startOn dr s h =
    (case (if ph_db h = None then connect dr s h else (Inr (), h)) of
       (Inl e, h1) \<Rightarrow> (Inl e, h1)
     | (Inr _, h1) \<Rightarrow>
         (case ph_db h1 of
            None \<Rightarrow> (Inl (JsError ''TypeError''), h1)
          | Some p \<Rightarrow>
              (case getConnection dr p h1 of
                 (Inl e, h2) \<Rightarrow> (Inl e, h2)
               | (Inr k, h2) \<Rightarrow>
                   (case ensureAlive dr s (Some k) h2 of
                      (Inl e, h3) \<Rightarrow> (Inl e, h3)
                    | (Inr _, h3) \<Rightarrow>
                        (case dr_beginTransaction dr k of
                           Inl e \<Rightarrow> (Inl e, h3)
                         | Inr _ \<Rightarrow> (Inr (p, k), h3))))))"

section \<open>What a connected handle has\<close>

lemma release_drawn:
  "getConnection dr p h = (Inr k, h1) \<Longrightarrow> ph_lent (release p k h1) = ph_lent h"
  by (auto simp: getConnection_def release_def Let_def split: sum.splits)

lemma getConnection_keeps:
  "ph_db (snd (getConnection dr p h)) = ph_db h" "ph_pools (snd (getConnection dr p h)) = ph_pools h"
  by (simp_all add: getConnection_def Let_def split: sum.split)

lemma testPool_keeps:
  "ph_db (snd (testPool dr p h)) = ph_db h" "ph_pools (snd (testPool dr p h)) = ph_pools h"
  "ph_lent (snd (testPool dr p h)) = ph_lent h"
  by (auto simp: testPool_def getConnection_def release_def Let_def split: sum.split)

lemma testPool_open: "testPool dr p h = (Inr u, h') \<Longrightarrow> \<exists>n k. dr_getConnection dr p n = Inr k \<and> dr_open dr k"
  by (auto simp: testPool_def getConnection_def Let_def split: sum.splits if_splits)

text \<open>A test gives every connection back, and a handle that failed to connect is empty.\<close>

theorem connect_lends_nothing:
  assumes "connect dr s h = (r, h')"
  shows "ph_lent h' = ph_lent h"
    and "ph_db h' = (if ph_db h = None then if okR r then Some (ph_pools h) else None else ph_db h)"
    and "ph_pools h' = (if ph_db h = None then Suc (ph_pools h) else ph_pools h)"
proof -
  have "ph_lent h' = ph_lent h
    \<and> ph_db h' = (if ph_db h = None then if okR r then Some (ph_pools h) else None else ph_db h)
    \<and> ph_pools h' = (if ph_db h = None then Suc (ph_pools h) else ph_pools h)"
  proof (cases "ph_db h")
    case (Some p)
    then show ?thesis using assms testPool_keeps [of dr p h] by (simp add: connect_def)
  next
    case None
    let ?new = "h\<lparr>ph_db := Some (ph_pools h), ph_pools := Suc (ph_pools h)\<rparr>"
    obtain x h2 where t: "testPool dr (ph_pools h) ?new = (x, h2)" by fastforce
    have "ph_db h2 = Some (ph_pools h)" "ph_pools h2 = Suc (ph_pools h)" "ph_lent h2 = ph_lent h"
      using testPool_keeps [of dr "ph_pools h" ?new] t by simp_all
    then show ?thesis
      using assms None t by (cases x) (auto simp: connect_def createConnectionPool_def split: if_splits)
  qed
  then show "ph_lent h' = ph_lent h"
    and "ph_db h' = (if ph_db h = None then if okR r then Some (ph_pools h) else None else ph_db h)"
    and "ph_pools h' = (if ph_db h = None then Suc (ph_pools h) else ph_pools h)" by blast+
qed

lemma reconnect_new:
  assumes "reconnect dr s h = (r, h')"
  shows "ph_lent h' = ph_lent h" and "ph_db h' = (if okR r then Some (ph_pools h) else None)"
    and "ph_pools h' = Suc (ph_pools h)"
  using connect_lends_nothing [OF assms [unfolded reconnect_def]] by simp_all

text \<open>
  A closed connection costs one new pool or two, never more, and the handle has a
  pool exactly when the check succeeds.
\<close>

theorem alive_or_empty:
  assumes "ensureAlive dr s (Some k) h = (r, h')"
  shows "okR r \<longleftrightarrow> ph_db h' \<noteq> None" and "ph_lent h' = ph_lent h" and "ph_pools h' \<le> ph_pools h + 2"
proof -
  have "(okR r \<longleftrightarrow> ph_db h' \<noteq> None) \<and> ph_lent h' = ph_lent h \<and> ph_pools h' \<le> ph_pools h + 2"
  proof (cases "ph_db h")
    case None
    then show ?thesis using assms connect_lends_nothing [of dr s h r h'] by (auto simp: ensureAlive_def)
  next
    case (Some p)
    obtain x h2 where x: "reconnect dr s h = (x, h2)" by fastforce
    show ?thesis
    proof (cases "dr_open dr k")
      case True
      then show ?thesis using assms Some by (auto simp: ensureAlive_def)
    next
      case False
      show ?thesis
      proof (cases x)
        case (Inl e)
        then have "reconnect dr s h2 = (r, h')" using assms Some False x by (simp add: ensureAlive_def)
        then show ?thesis using reconnect_new [of dr s h2 r h'] reconnect_new [OF x] by auto
      next
        case (Inr u)
        then show ?thesis using assms Some False x reconnect_new [OF x] by (auto simp: ensureAlive_def)
      qed
    qed
  qed
  then show "okR r \<longleftrightarrow> ph_db h' \<noteq> None" and "ph_lent h' = ph_lent h" and "ph_pools h' \<le> ph_pools h + 2" by blast+
qed

text \<open>
  A transaction that begins is on an open connection of the pool the handle has,
  and that connection is the only one lent more than before.
\<close>

lemma startOn_cases:
  assumes "startOn dr s h = (r, h')"
  obtains (failed) e where "r = Inl e" and "ph_lent h' = ph_lent h"
  | (drawn) p k h1 h2 x h3 where "ph_db h1 = Some p" and "ph_lent h1 = ph_lent h" and "getConnection dr p h1 = (Inr k, h2)"
      and "ensureAlive dr s (Some k) h2 = (x, h3)" and "h' = h3"
      and "r = (case x of Inl e \<Rightarrow> Inl e | Inr _ \<Rightarrow> (case dr_beginTransaction dr k of Inl e \<Rightarrow> Inl e | Inr _ \<Rightarrow> Inr (p, k)))"
proof -
  obtain y h1 where y: "(if ph_db h = None then connect dr s h else (Inr (), h)) = (y, h1)" by fastforce
  have l1: "ph_lent h1 = ph_lent h" using y connect_lends_nothing(1) [of dr s h y h1] by (auto split: if_splits)
  show thesis
  proof (cases y)
    case (Inl e)
    then show thesis using failed [of e] assms y l1 by (simp add: startOn_def)
  next
    case (Inr u)
    show thesis
    proof (cases "ph_db h1")
      case None
      then show thesis using failed [of "JsError ''TypeError''"] assms y l1 Inr by (simp add: startOn_def)
    next
      case (Some p)
      obtain z h2 where z: "getConnection dr p h1 = (z, h2)" by fastforce
      show thesis
      proof (cases z)
        case (Inl e)
        then have "ph_lent h2 = ph_lent h1" using z by (auto simp: getConnection_def Let_def split: sum.splits)
        then show thesis using failed [of e] assms y l1 Inr Some z Inl by (simp add: startOn_def)
      next
        case k: (Inr k)
        obtain x h3 where x: "ensureAlive dr s (Some k) h2 = (x, h3)" by fastforce
        show thesis
          using drawn [of h1 p k h2 x h3] assms y l1 Inr Some z k x
          by (auto simp: startOn_def split: sum.splits)
      qed
    qed
  qed
qed

theorem started_on_open_connection:
  assumes "\<And>k. \<not> dr_open dr k \<Longrightarrow> \<not> okR (dr_beginTransaction dr k)"
    and "startOn dr s h = (Inr (p, k), h')"
  shows "dr_open dr k" and "ph_db h' = Some p" and "ph_lent h' = (p, k) # ph_lent h"
proof -
  have "dr_open dr k \<and> ph_db h' = Some p \<and> ph_lent h' = (p, k) # ph_lent h"
    using assms(2)
  proof (cases rule: startOn_cases)
    case (drawn p' k' h1 h2 x h3)
    then have pk: "p' = p" "k' = k" "okR (dr_beginTransaction dr k)" "okR x" by (auto split: sum.splits)
    then have "dr_open dr k" using assms(1) by blast
    moreover have "ph_db h2 = ph_db h1" using getConnection_keeps(1) [of dr p' h1] drawn(3) by simp
    moreover have "ph_lent h2 = (p', k') # ph_lent h1"
      using drawn(3) by (auto simp: getConnection_def Let_def split: sum.splits)
    ultimately show ?thesis using drawn pk by (auto simp: ensureAlive_def)
  qed simp
  then show "dr_open dr k" and "ph_db h' = Some p" and "ph_lent h' = (p, k) # ph_lent h" by blast+
qed

text \<open>
  When the connection drawn is closed, the handle gets a new pool but the
  transaction is begun on the closed connection: \<open>start\<close> fails though the database
  can be reached, and the connection is never released.
\<close>

lemma closed_connection_fails:
  assumes "\<And>k. \<not> dr_open dr k \<Longrightarrow> \<not> okR (dr_beginTransaction dr k)"
    and "ph_db h = Some p" and "dr_getConnection dr p (ph_draws h) = Inr k" and "\<not> dr_open dr k"
    and "startOn dr s h = (r, h')"
  shows "\<not> okR r" and "ph_lent h' = (p, k) # ph_lent h" and "ph_db h' \<noteq> Some p \<or> ph_pools h \<le> p"
proof -
  obtain h2 where g: "getConnection dr p h = (Inr k, h2)" "ph_lent h2 = (p, k) # ph_lent h"
      "ph_db h2 = Some p" "ph_pools h2 = ph_pools h"
    using assms(2,3) by (simp_all add: getConnection_def Let_def)
  obtain x h3 where x: "ensureAlive dr s (Some k) h2 = (x, h3)" by fastforce
  have b: "\<exists>e. dr_beginTransaction dr k = Inl e" using assms(1) [OF assms(4)] by (cases "dr_beginTransaction dr k") auto
  have start: "h' = h3 \<and> \<not> okR r"
    using assms(2,5) g(1) x b by (cases x) (auto simp: startOn_def)
  obtain y h4 where y: "reconnect dr s h2 = (y, h4)" by fastforce
  have "ph_db h3 = None \<or> (\<exists>q. ph_db h3 = Some q \<and> ph_pools h \<le> q)"
  proof (cases y)
    case (Inl e)
    then have "reconnect dr s h4 = (x, h3)" using x y g(3) assms(4) by (simp add: ensureAlive_def)
    then show ?thesis using reconnect_new [of dr s h4 x h3] reconnect_new [OF y] g(4) by auto
  next
    case (Inr u)
    then show ?thesis using x y g(3,4) assms(4) reconnect_new [OF y] by (auto simp: ensureAlive_def)
  qed
  then show "\<not> okR r" and "ph_lent h' = (p, k) # ph_lent h" and "ph_db h' \<noteq> Some p \<or> ph_pools h \<le> p"
    using start alive_or_empty(2) [OF x] g(2) by auto
qed

text \<open>Tests run on no database but one that is named so.\<close>

lemma tests_need_test_database:
  assumes "po_testing s" and "\<not> isTestDatabase (po_database s)" and "ph_db h = None"
  shows "\<not> okR (fst (startOn dr s h))" and "ph_draws (snd (startOn dr s h)) = ph_draws h"
  using assms by (simp_all add: startOn_def connect_def createConnectionPool_def)

section \<open>A driver\<close>

text \<open>Pool 0 gives a closed connection, pool 1 open ones.\<close>

definition exDriver :: driver where
  "exDriver =
    \<lparr>dr_getConnection = \<lambda>p n. Inr p, dr_open = \<lambda>k. k = 1,
     dr_beginTransaction = \<lambda>k. if k = 1 then Inr () else Inl (JsError ''closed'')\<rparr>"

definition exSettings :: pool_settings where
  "exSettings = \<lparr>po_testing = True, po_database = ''ignite_Test''\<rparr>"

lemma reconnected_start_fails:
  "startOn exDriver exSettings \<lparr>ph_db = Some 0, ph_pools = 1, ph_draws = 0, ph_lent = []\<rparr>
    = (Inl (JsError ''closed''), \<lparr>ph_db = Some 1, ph_pools = 2, ph_draws = 2, ph_lent = [(0, 0)]\<rparr>)"
  by code_simp

theorem started_on_open_connection_witness:
  "\<exists>h'. startOn exDriver exSettings \<lparr>ph_db = None, ph_pools = 1, ph_draws = 0, ph_lent = []\<rparr> = (Inr (1, 1), h')
     \<and> dr_open exDriver 1 \<and> ph_lent h' = [(1, 1)]"
proof -
  have s: "startOn exDriver exSettings \<lparr>ph_db = None, ph_pools = 1, ph_draws = 0, ph_lent = []\<rparr>
      = (Inr (1, 1), \<lparr>ph_db = Some 1, ph_pools = 2, ph_draws = 2, ph_lent = [(1, 1)]\<rparr>)"
    by code_simp
  have "\<not> dr_open exDriver k \<Longrightarrow> \<not> okR (dr_beginTransaction exDriver k)" for k
    by (auto simp: exDriver_def split: if_splits)
  from started_on_open_connection [OF this s] s show ?thesis by simp
qed

end
