(* ===== verification/Support.thy ===== *)
theory Support
  imports Effects Settings Connection_Pool
begin

text \<open>
  Helpers every part calls: \<open>lib/utils.ts\<close>, the loggers (\<open>lib/logger.ts\<close>,
  \<open>writeLogToDb\<close> of workers and processes, \<open>lib/slack-webhook.ts\<close>) and the life of a
  process (\<open>indexer/base-process.ts\<close>).  Consoles, Slack and the signer of tokens are
  parameters.  Loops that may not end give no value.
\<close>

section \<open>Slices of an array\<close>

text \<open>\<open>tmp.splice(0, n)\<close> takes nothing for \<open>n \<le> 0\<close>.\<close>

partial_function (option) splitLoop :: "int \<Rightarrow> 'a list list \<Rightarrow> 'a list \<Rightarrow> 'a list list option" where
  "splitLoop n cache tmp =
    (if tmp = [] then Some cache
     else splitLoop n (cache @ [take (nat n) tmp]) (drop (nat n) tmp))"

definition splitArray :: "'a list \<Rightarrow> int \<Rightarrow> 'a list list option" where
  "splitArray arr splitBy = splitLoop splitBy [] arr"

text \<open>
  \<open>runWithWorkers\<close>: the next \<open>workerCount\<close> elements are started together and awaited;
  a task that throws ends the run with the tasks of its batch started.  The result
  says whether every task returned, and which elements were started.
\<close>

partial_function (option) workersLoop :: "int \<Rightarrow> ('a \<Rightarrow> bool) \<Rightarrow> 'a list \<Rightarrow> 'a list \<Rightarrow> (bool \<times> 'a list) option" where
  "workersLoop n returns started rest =
    (if rest = [] then Some (True, started)
     else if list_all returns (take (nat n) rest)
     then workersLoop n returns (started @ take (nat n) rest) (drop (nat n) rest)
     else Some (False, started @ take (nat n) rest))"

definition runWithWorkers :: "'a list \<Rightarrow> int \<Rightarrow> ('a \<Rightarrow> bool) \<Rightarrow> (bool \<times> 'a list) option" where
  "runWithWorkers xs workerCount returns = workersLoop workerCount returns [] xs"

lemma splitLoop_ends:
  assumes "0 < n"
  shows "\<exists>c. splitLoop n cache tmp = Some (cache @ c) \<and> concat c = tmp
           \<and> list_all (\<lambda>x. x \<noteq> [] \<and> int (length x) \<le> n) c"
proof (induction "length tmp" arbitrary: cache tmp rule: less_induct)
  case less
  show ?case
  proof (cases "tmp = []")
    case True
    then show ?thesis by (subst splitLoop.simps) (auto intro: exI [of _ "[]"])
  next
    case False
    have "length (drop (nat n) tmp) < length tmp" using False assms by simp
    from less [OF this, of "cache @ [take (nat n) tmp]"]
    obtain c where c: "splitLoop n (cache @ [take (nat n) tmp]) (drop (nat n) tmp) = Some (cache @ take (nat n) tmp # c)"
      "concat c = drop (nat n) tmp" "list_all (\<lambda>x. x \<noteq> [] \<and> int (length x) \<le> n) c" by auto
    have "splitLoop n cache tmp = Some (cache @ take (nat n) tmp # c)"
      using False c(1) by (subst splitLoop.simps) simp
    then show ?thesis
      using c(2,3) False assms by (intro exI [of _ "take (nat n) tmp # c"]) auto
  qed
qed

text \<open>A positive size cuts the array into its pieces, in order, none empty and none too long.\<close>

lemma splitArray_pieces:
  assumes "0 < n"
  obtains c where "splitArray arr n = Some c" and "concat c = arr"
    and "list_all (\<lambda>x. x \<noteq> [] \<and> int (length x) \<le> n) c"
  using splitLoop_ends [OF assms, of "[]" arr] that by (auto simp: splitArray_def)

lemma splitLoop_zero:
  assumes "splitLoop n cache tmp = Some r" and "n \<le> 0"
  shows "tmp = []"
proof -
  have "n \<le> 0 \<longrightarrow> tmp = []"
    by (rule splitLoop.raw_induct [where P = "\<lambda>n cache tmp r. n \<le> 0 \<longrightarrow> tmp = []", OF _ assms(1)])
       (auto split: if_splits)
  with assms(2) show ?thesis by simp
qed

text \<open>A size of zero never ends and fills the memory with empty pieces.\<close>

lemma splitArray_zero_loops: "n \<le> 0 \<Longrightarrow> arr \<noteq> [] \<Longrightarrow> splitArray arr n = None"
  using splitLoop_zero [of n "[]" arr] by (cases "splitArray arr n") (auto simp: splitArray_def)

lemma workersLoop_ends:
  assumes "0 < n"
  shows "\<exists>ok. \<exists>xs ys. workersLoop n returns started rest = Some (ok, started @ xs) \<and> rest = xs @ ys
           \<and> (ok \<longleftrightarrow> list_all returns rest) \<and> (ok \<longrightarrow> ys = [])"
proof (induction "length rest" arbitrary: started rest rule: less_induct)
  case less
  show ?case
  proof (cases "rest \<noteq> [] \<and> list_all returns (take (nat n) rest)")
    case True
    have "length (drop (nat n) rest) < length rest" using True assms by simp
    from less [OF this, of "started @ take (nat n) rest"]
    obtain ok xs ys where r: "workersLoop n returns (started @ take (nat n) rest) (drop (nat n) rest) =
        Some (ok, (started @ take (nat n) rest) @ xs)" "drop (nat n) rest = xs @ ys"
        "ok \<longleftrightarrow> list_all returns (drop (nat n) rest)" "ok \<longrightarrow> ys = []" by blast
    have "workersLoop n returns started rest = Some (ok, started @ take (nat n) rest @ xs)"
      using True r(1) by (subst workersLoop.simps) simp
    moreover have "rest = (take (nat n) rest @ xs) @ ys" using r(2) by (metis append.assoc append_take_drop_id)
    moreover have "list_all returns rest \<longleftrightarrow> list_all returns (take (nat n) rest) \<and> list_all returns (drop (nat n) rest)"
      by (metis append_take_drop_id list_all_append)
    ultimately show ?thesis using r(3,4) True by (metis append.assoc)
  next
    case False
    show ?thesis
    proof (cases "rest = []")
      case True
      then show ?thesis by (subst workersLoop.simps) (auto intro!: exI [of _ True])
    next
      case no: False
      with False have bad: "\<not> list_all returns (take (nat n) rest)" by simp
      then have "\<not> list_all returns rest" by (metis append_take_drop_id list_all_append)
      moreover have "workersLoop n returns started rest = Some (False, started @ take (nat n) rest)"
        using bad no by (subst workersLoop.simps) simp
      ultimately show ?thesis
        by (intro exI [of _ False] exI [of _ "take (nat n) rest"] exI [of _ "drop (nat n) rest"]) simp
    qed
  qed
qed

text \<open>Every element is started once and in order, unless a task of an earlier batch threw.\<close>

lemma runWithWorkers_starts:
  assumes "0 < n"
  shows "\<exists>ok xs ys. runWithWorkers data n returns = Some (ok, xs) \<and> data = xs @ ys
           \<and> (ok \<longleftrightarrow> list_all returns data) \<and> (ok \<longrightarrow> xs = data)"
  using workersLoop_ends [OF assms, of returns "[]" data] by (auto simp: runWithWorkers_def)

lemma workersLoop_zero:
  assumes "workersLoop n returns started rest = Some r" and "n \<le> 0"
  shows "rest = []"
proof -
  have "n \<le> 0 \<longrightarrow> rest = []"
  proof (rule workersLoop.raw_induct [where P = "\<lambda>n returns started rest r. n \<le> 0 \<longrightarrow> rest = []", OF _ assms(1)])
    fix loop :: "int \<Rightarrow> ('a \<Rightarrow> bool) \<Rightarrow> 'a list \<Rightarrow> 'a list \<Rightarrow> (bool \<times> 'a list) option" and n returns started rest r
    assume "\<And>n returns started rest r. loop n returns started rest = Some r \<Longrightarrow> n \<le> 0 \<longrightarrow> rest = []"
      and "(if rest = [] then Some (True, started)
            else if list_all returns (take (nat n) rest)
              then loop n returns (started @ take (nat n) rest) (drop (nat n) rest)
              else Some (False, started @ take (nat n) rest)) = Some r"
    then show "n \<le> 0 \<longrightarrow> rest = []" by (fastforce split: if_splits)
  qed
  with assms(2) show ?thesis by simp
qed

lemma no_workers_loops: "n \<le> 0 \<Longrightarrow> data \<noteq> [] \<Longrightarrow> runWithWorkers data n returns = None"
  using workersLoop_zero [of n returns "[]" data] by (cases "runWithWorkers data n returns") (auto simp: runWithWorkers_def)

section \<open>Dates as object ids\<close>

fun toHex :: "nat \<Rightarrow> string" where
  "toHex n = (let c = char_of (if n mod 16 < 10 then 48 + n mod 16 else 87 + n mod 16)
              in if n < 16 then [c] else toHex (n div 16) @ [c])"

declare toHex.simps [simp del]

text \<open>
  A date is its milliseconds, after 1970.  A text that does not begin with a digit of
  base 16 gives no date; signs, spaces and \<open>0x\<close>, which no id begins with, are not read.
\<close>

definition objectIdFromDate :: "nat \<Rightarrow> string" where
  "objectIdFromDate ms = toHex (ms div 1000) @ replicate 16 CHR ''0''"

definition dateFromObjectId :: "string \<Rightarrow> nat option" where
  "dateFromObjectId oid = (case oid of
      [] \<Rightarrow> None
    | c # _ \<Rightarrow> if hexValue c = None then None else Some (fromHex 0 (take 8 oid) * 1000))"

definition toUnixTimestamp :: "int option \<Rightarrow> int" where
  "toUnixTimestamp ms = (case ms of None \<Rightarrow> 0 | Some t \<Rightarrow> t div 1000)"

lemma fromHex_append: "list_all (\<lambda>c. hexValue c \<noteq> None) a \<Longrightarrow> fromHex n (a @ b) = fromHex (fromHex n a) b"
  by (induction a arbitrary: n) (auto split: option.split)

lemma hexValue_digit: "d < 16 \<Longrightarrow> hexValue (char_of (if d < 10 then 48 + d else 87 + d)) = Some d"
  by (auto simp: hexValue_def isDigit_def lowerChar_def of_char_of Let_def)

lemma toHex_fromHex: "list_all (\<lambda>c. hexValue c \<noteq> None) (toHex n) \<and> fromHex 0 (toHex n) = n"
proof (induction n rule: toHex.induct)
  case (1 n)
  let ?c = "char_of (if n mod 16 < 10 then 48 + n mod 16 else 87 + n mod 16) :: char"
  have c: "hexValue ?c = Some (n mod 16)" by (rule hexValue_digit) simp
  show ?case
  proof (cases "n < 16")
    case True
    have t: "toHex n = [?c]" using True by (subst toHex.simps) (simp add: Let_def)
    show ?thesis unfolding t using c True by simp
  next
    case False
    have t: "toHex n = toHex (n div 16) @ [?c]" using False by (subst toHex.simps) (simp add: Let_def)
    show ?thesis unfolding t using c 1 [OF refl False] by (simp add: fromHex_append)
  qed
qed

lemma length_toHex: "16 ^ k \<le> n \<Longrightarrow> n < 16 ^ Suc k \<Longrightarrow> length (toHex n) = Suc k"
proof (induction k arbitrary: n)
  case 0
  then show ?case by (subst toHex.simps) (simp add: Let_def)
next
  case (Suc k)
  have "16 ^ k \<le> n div 16" "n div 16 < 16 ^ Suc k" using Suc.prems by auto
  then have "length (toHex (n div 16)) = Suc k" by (rule Suc.IH)
  moreover have "\<not> n < 16" using Suc.prems(1) by (metis leD less_le_trans one_le_numeral one_le_power mult_le_mono2 mult.right_neutral power_Suc)
  ultimately show ?case by (subst toHex.simps) (simp add: Let_def)
qed

text \<open>From 1978 to 2106 an id gives the second of its date back.\<close>

lemma object_id_roundtrip:
  assumes "16 ^ 7 \<le> ms div 1000" and "ms div 1000 < 16 ^ 8"
  shows "dateFromObjectId (objectIdFromDate ms) = Some (ms div 1000 * 1000)"
proof -
  have len: "length (toHex (ms div 1000)) = 8" using length_toHex [of 7 "ms div 1000"] assms by simp
  then obtain c cs where h: "toHex (ms div 1000) = c # cs" by (cases "toHex (ms div 1000)") auto
  moreover have "hexValue c \<noteq> None" using toHex_fromHex [of "ms div 1000"] h by simp
  moreover have "take 8 (c # cs @ replicate 16 CHR ''0'') = c # cs" using len h by simp
  ultimately show ?thesis
    using toHex_fromHex [of "ms div 1000"] by (simp add: dateFromObjectId_def objectIdFromDate_def)
qed

section \<open>Arguments of a script\<close>

text \<open>
  \<open>--name=value\<close>, \<open>--name\<close> and \<open>-flags\<close>; what follows a second equals sign is dropped.
\<close>

datatype arg_value = Arg_true | Arg_text string

definition longArg :: "string \<Rightarrow> string \<times> arg_value" where
  "longArg arg = (case splitOn (CHR ''='') arg of
      [] \<Rightarrow> ([], Arg_true)
    | [n] \<Rightarrow> (drop 2 n, Arg_true)
    | n # v # _ \<Rightarrow> (drop 2 n, Arg_text v))"

definition readArg :: "string \<Rightarrow> (string \<rightharpoonup> arg_value) \<Rightarrow> (string \<rightharpoonup> arg_value)" where
  "readArg arg args =
    (if take 2 arg = ''--'' then (case longArg arg of (n, v) \<Rightarrow> args(n \<mapsto> v))
     else if take 1 arg = ''-'' then fold (\<lambda>f m. m([f] \<mapsto> Arg_true)) (drop 1 arg) args
     else args)"

definition getArgs :: "string list \<Rightarrow> (string \<rightharpoonup> arg_value)" where
  "getArgs argv = fold readArg argv Map.empty"

text \<open>The last of two values of a name wins, and words without a dash are skipped.\<close>

lemma getArgs_last: "take 2 arg = ''--'' \<Longrightarrow> getArgs (argv @ [arg]) (fst (longArg arg)) = Some (snd (longArg arg))"
  by (simp add: getArgs_def readArg_def split: prod.split)

lemma getArgs_word: "take 1 arg \<noteq> ''-'' \<Longrightarrow> getArgs (argv @ [arg]) = getArgs argv"
proof -
  assume "take 1 arg \<noteq> ''-''"
  moreover from this have "take 2 arg \<noteq> ''--''" by (cases arg) auto
  ultimately show ?thesis by (simp add: getArgs_def readArg_def)
qed

section \<open>Tokens\<close>

record sign_options =
  so_subject :: "string option"
  so_expiresIn :: "string option"

text \<open>\<open>sg_sign\<close> and \<open>sg_verify\<close> are those of the token library, with the key.\<close>

record ('c, 't) signer =
  sg_sign :: "'c \<Rightarrow> string \<Rightarrow> sign_options \<Rightarrow> 't"
  sg_verify :: "'t \<Rightarrow> string \<Rightarrow> string \<Rightarrow> (exn, 'c) res"

definition keyOf :: "settings \<Rightarrow> string \<Rightarrow> string" where
  "keyOf e secret = (if secret = [] then jsText (e ''APP_SECRET'') else secret)"

definition signOptions :: "string \<Rightarrow> string \<Rightarrow> sign_options" where
  "signOptions subject expiresIn =
    (if subject = [] \<and> expiresIn = [] then \<lparr>so_subject = None, so_expiresIn = None\<rparr>
     else if expiresIn = ''never'' then \<lparr>so_subject = Some subject, so_expiresIn = None\<rparr>
     else \<lparr>so_subject = Some subject, so_expiresIn = Some expiresIn\<rparr>)"

definition generateJwtToken ::
  "('c, 't) signer \<Rightarrow> settings \<Rightarrow> string \<Rightarrow> 'c \<Rightarrow> string option \<Rightarrow> string \<Rightarrow> 't" where
  "generateJwtToken sg e subject d expiresIn secret =
    sg_sign sg d (keyOf e secret) (signOptions subject (case expiresIn of None \<Rightarrow> ''1d'' | Some x \<Rightarrow> x))"

definition parseJwtToken :: "('c, 't) signer \<Rightarrow> settings \<Rightarrow> string \<Rightarrow> 't \<Rightarrow> string \<Rightarrow> (exn, 'c) res" where
  "parseJwtToken sg e subject token secret = sg_verify sg token (keyOf e secret) subject"

text \<open>
  What the library documents: a token verifies with its own key and subject, and
  with no other subject.
\<close>

definition signerLaws :: "('c, 't) signer \<Rightarrow> bool" where
  "signerLaws sg \<longleftrightarrow> (\<forall>c k s x. sg_verify sg (sg_sign sg c k \<lparr>so_subject = Some s, so_expiresIn = x\<rparr>) k s = Inr c)
     \<and> (\<forall>c k s s' x. s' \<noteq> s \<longrightarrow>
          (\<exists>err. sg_verify sg (sg_sign sg c k \<lparr>so_subject = Some s, so_expiresIn = x\<rparr>) k s' = Inl err))"

text \<open>A login token is no verification token: they share the key but not the subject.\<close>

lemma tokens_are_for_one_purpose:
  assumes "signerLaws sg" and "subject \<noteq> []"
  shows "parseJwtToken sg e subject (generateJwtToken sg e subject d x secret) secret = Inr d"
    and "other \<noteq> subject \<Longrightarrow>
      \<exists>err. parseJwtToken sg e other (generateJwtToken sg e subject d x secret) secret = Inl err"
  using assms by (auto simp: signerLaws_def parseJwtToken_def generateJwtToken_def signOptions_def)

text \<open>Without a configured secret anybody can sign a token the server accepts.\<close>

lemma forged_token_accepted:
  assumes "signerLaws sg" and "penv ''APP_SECRET'' = None \<or> penv ''APP_SECRET'' = Some []"
  shows \<open>parseJwtToken sg (loadEnv penv) subject
    (sg_sign sg d ''deodapdoevnfrbv213213!"#'' \<lparr>so_subject = Some subject, so_expiresIn = None\<rparr>) [] = Inr d\<close>
  using assms(1) default_secret_is_public [of penv, OF assms(2)]
  by (simp add: parseJwtToken_def keyOf_def signerLaws_def)

section \<open>The context of a script or process\<close>

record database_options =
  do_host :: setting
  do_port :: setting
  do_database :: setting
  do_user :: setting
  do_password :: setting

definition contextOptions :: "settings \<Rightarrow> database_options" where
  "contextOptions e =
    (let pick = (\<lambda>name. if e ''APP_ENV'' = Text ''test'' then e (name @ ''_TEST'') else e name)
     in \<lparr>do_host = pick ''MYSQL_HOST'', do_port = pick ''MYSQL_PORT'', do_database = pick ''MYSQL_DATABASE'',
         do_user = pick ''MYSQL_USER'', do_password = pick ''MYSQL_PASSWORD''\<rparr>)"

definition noPool :: pool_handle where
  "noPool = \<lparr>ph_db = None, ph_pools = 0, ph_draws = 0, ph_lent = []\<rparr>"

definition createContext ::
  "(settings \<Rightarrow> string \<Rightarrow> (exn, secret_fields option) res) \<Rightarrow> driver \<Rightarrow> env_state
    \<Rightarrow> (exn, database_options) res \<times> pool_handle \<times> env_state" where
  "createContext fetch dr es = (case getEnvSecrets fetch es of (e, es') \<Rightarrow>
     (case connect dr \<lparr>po_testing = (e ''APP_ENV'' = Text ''test''), po_database = jsText (do_database (contextOptions e))\<rparr> noPool of
        (Inl x, h) \<Rightarrow> (Inl x, h, es')
      | (Inr _, h) \<Rightarrow> (Inr (contextOptions e), h, es')))"

text \<open>Under test only a database named as one is opened, and it is the one of the test settings.\<close>

lemma context_under_test:
  assumes "createContext fetch dr es = (Inr opts, h, es')" and "es_env es' ''APP_ENV'' = Text ''test''"
  shows "do_database opts = es_env es' ''MYSQL_DATABASE_TEST''" and "isTestDatabase (jsText (do_database opts))"
proof -
  obtain e where e: "getEnvSecrets fetch es = (e, es')"
    using assms(1) by (auto simp: createContext_def split: prod.splits sum.splits)
  then have env: "e = es_env es'" by (auto simp: getEnvSecrets_def Let_def)
  have o: "opts = contextOptions e"
    using assms(1) e by (auto simp: createContext_def split: prod.splits sum.splits)
  then show "do_database opts = es_env es' ''MYSQL_DATABASE_TEST''"
    using assms(2) by (simp add: contextOptions_def env)
  show "isTestDatabase (jsText (do_database opts))"
  proof (rule ccontr)
    assume bad: "\<not> isTestDatabase (jsText (do_database opts))"
    have "\<exists>x h. connect dr \<lparr>po_testing = True, po_database = jsText (do_database (contextOptions e))\<rparr> noPool = (Inl x, h)"
      using bad unfolding o by (simp add: connect_def noPool_def createConnectionPool_def)
    then show False using assms e by (auto simp: createContext_def env)
  qed
qed

section \<open>Logs\<close>

datatype LogType = LOG_DB | LOG_INFO | LOG_MSG | LOG_WARN | LOG_ERROR | LOG_ALERT | LOG_VERBOSE | LOG_DEBUG

definition levelFilter :: "(string \<times> (LogType \<Rightarrow> bool)) list" where
  "levelFilter =
    [(''db'', (\<lambda>t. t \<in> {LOG_DB, LOG_WARN, LOG_ERROR})), (''no-db'', (\<lambda>t. t \<noteq> LOG_DB)), (''error'', (\<lambda>t. t = LOG_ERROR)),
     (''warning'', (\<lambda>t. t \<in> {LOG_WARN, LOG_ERROR})), (''debug'', (\<lambda>t. True))]"

datatype log_output = Not_written | In_color | On_error | On_warn | On_log

definition logInConsole :: "LogType \<Rightarrow> log_output" where
  "logInConsole t = (if t = LOG_ERROR then On_error else if t = LOG_MSG then On_warn else On_log)"

text \<open>An unknown level filters nothing; an unknown target takes errors only.\<close>

definition writeLog :: "settings \<Rightarrow> LogType \<Rightarrow> log_output" where
  "writeLog e t =
    (case map_of levelFilter (jsText (e ''LOG_LEVEL'')) of
       Some p \<Rightarrow> if p t then (if e ''LOG_TARGET'' = Text ''color'' then In_color
                             else if e ''LOG_TARGET'' = Text ''console'' then logInConsole t
                             else if t = LOG_ERROR then logInConsole t else Not_written) else Not_written
     | None \<Rightarrow> (if e ''LOG_TARGET'' = Text ''color'' then In_color
               else if e ''LOG_TARGET'' = Text ''console'' then logInConsole t
               else if t = LOG_ERROR then logInConsole t else Not_written))"

lemma errors_always_written: "writeLog e LOG_ERROR \<noteq> Not_written"
  by (auto simp: writeLog_def levelFilter_def logInConsole_def split: option.split if_splits)

text \<open>
  \<open>writeLogToDb\<close> of a worker or process.  The error is optional; when the row cannot
  be written the handler reads the message of an error that may not be there.
\<close>

datatype WorkerLogStatus = WL_DEBUG | WL_START | WL_INFO | WL_WARNING | WL_SUCCESS | WL_ERROR

fun workerLogStatusNo :: "WorkerLogStatus \<Rightarrow> int" where
  "workerLogStatusNo WL_DEBUG = 0"
| "workerLogStatusNo WL_START = 1"
| "workerLogStatusNo WL_INFO = 2"
| "workerLogStatusNo WL_WARNING = 3"
| "workerLogStatusNo WL_SUCCESS = 5"
| "workerLogStatusNo WL_ERROR = 9"

text \<open>Statuses are ordered by their numbers, so the worst of two rows is the larger one.\<close>

lemma workerLogStatusNo_inj [simp]: "workerLogStatusNo a = workerLogStatusNo b \<longleftrightarrow> a = b"
  by (cases a; cases b) simp_all

instantiation WorkerLogStatus :: linorder
begin

definition less_eq_WorkerLogStatus :: "WorkerLogStatus \<Rightarrow> WorkerLogStatus \<Rightarrow> bool" where
  "less_eq_WorkerLogStatus a b \<longleftrightarrow> workerLogStatusNo a \<le> workerLogStatusNo b"

definition less_WorkerLogStatus :: "WorkerLogStatus \<Rightarrow> WorkerLogStatus \<Rightarrow> bool" where
  "less_WorkerLogStatus a b \<longleftrightarrow> workerLogStatusNo a < workerLogStatusNo b"

instance
  by standard (auto simp: less_eq_WorkerLogStatus_def less_WorkerLogStatus_def dest: order.antisym)

end

definition logRow :: "WorkerLogStatus \<Rightarrow> string \<Rightarrow> string option \<Rightarrow> WorkerLogStatus \<times> string" where
  "logRow st message err = (case err of
      None \<Rightarrow> (st, message)
    | Some m \<Rightarrow> if m = [] then (st, message) else (WL_ERROR, message @ '' ('' @ m @ '')''))"

definition writeLogToDb ::
  "(WorkerLogStatus \<Rightarrow> string \<Rightarrow> (exn, 'w, unit) action) \<Rightarrow> WorkerLogStatus \<Rightarrow> string \<Rightarrow> string option
    \<Rightarrow> (exn, 'w, unit) action" where
  "writeLogToDb store st message err =
    catchW (store (fst (logRow st message err)) (snd (logRow st message err)))
      (\<lambda>_. if err = None then throwW (JsError ''TypeError'') else returnW ())"

text \<open>An error with a message is the worst status; no row is milder than what was reported.\<close>

lemma logRow_worst: "st \<le> fst (logRow st message err)" "m \<noteq> [] \<Longrightarrow> t \<le> fst (logRow st message (Some m))"
  by (cases st; simp add: logRow_def less_eq_WorkerLogStatus_def split: option.split)
     (cases t; simp add: logRow_def less_eq_WorkerLogStatus_def)

lemma log_failure_throws:
  assumes "\<And>st m. store st m w = (Inl x, w')"
  shows "writeLogToDb store st message None w = (Inl (JsError ''TypeError''), w')"
    and "writeLogToDb store st message (Some m) w = (Inr (), w')"
  using assms by (simp_all add: writeLogToDb_def act_defs)

text \<open>\<open>sendSlackWebhook\<close> never throws, whatever the service answers.\<close>

definition slackText :: "settings \<Rightarrow> string \<Rightarrow> bool \<Rightarrow> string" where
  "slackText e message tagChannel =
    (let t = ''*['' @ jsText (e ''APP_ENV'') @ '']*: '' @ message in if tagChannel then ''<!channel> '' @ t else t)"

definition sendSlackWebhook ::
  "(setting \<Rightarrow> string \<Rightarrow> string \<Rightarrow> (exn, 'w, unit) action) \<Rightarrow> settings \<Rightarrow> string \<Rightarrow> bool \<Rightarrow> string
    \<Rightarrow> (exn, 'w, unit) action" where
  "sendSlackWebhook post e message tagChannel channel =
    catchW (post (e ''SLACK_WEBHOOK_URL'') channel (slackText e message tagChannel)) (\<lambda>_. returnW ())"

lemma slack_never_throws: "\<exists>w'. sendSlackWebhook post e message tag channel w = (Inr (), w')"
  by (cases "post (e ''SLACK_WEBHOOK_URL'') channel (slackText e message tag) w")
     (auto simp: sendSlackWebhook_def act_defs split: sum.split)

section \<open>The life of a process\<close>

text \<open>
  \<open>BaseProcess\<close>: the handlers of signals are registered by the first process object
  only; \<open>pr_closed\<close> are the contexts that were closed.
\<close>

record process_host =
  pr_registered :: "nat option"
  pr_contexts :: "nat list"
  pr_hasShutdown :: "nat list"
  pr_closed :: "nat list"
  pr_exited :: bool

definition initializeProcess :: "(exn, unit) res \<Rightarrow> nat \<Rightarrow> process_host \<Rightarrow> (exn, unit) res \<times> process_host" where
  "initializeProcess context p s = (case context of
      Inl x \<Rightarrow> (Inl x, s)
    | Inr _ \<Rightarrow> (Inr (), s\<lparr>pr_contexts := p # pr_contexts s,
                 pr_registered := (case pr_registered s of None \<Rightarrow> Some p | Some q \<Rightarrow> Some q)\<rparr>))"

definition shutdown :: "nat \<Rightarrow> process_host \<Rightarrow> process_host" where
  "shutdown p s =
    (if p \<in> set (pr_hasShutdown s) then s
     else s\<lparr>pr_hasShutdown := p # pr_hasShutdown s,
            pr_closed := (if p \<in> set (pr_contexts s) then p # pr_closed s else pr_closed s)\<rparr>)"

text \<open>The first signal of a kind is answered once; a second one of the other kind finds the exit under way.\<close>

definition gracefulExit :: "process_host \<Rightarrow> process_host" where
  "gracefulExit s = (case pr_registered s of
      None \<Rightarrow> s
    | Some p \<Rightarrow> if pr_exited s then s else (shutdown p s)\<lparr>pr_exited := True\<rparr>)"

lemma shutdown_once: "shutdown p (shutdown p s) = shutdown p s"
  by (simp add: shutdown_def)

text \<open>A second process object of the same program is not closed by a signal.\<close>

lemma only_first_is_closed:
  assumes "pr_registered s = Some p" and "q \<noteq> p" and "q \<notin> set (pr_closed s)"
  shows "q \<notin> set (pr_closed (gracefulExit (snd (initializeProcess context q s))))"
  using assms by (auto simp: initializeProcess_def gracefulExit_def shutdown_def split: sum.split)

end
