(* ===== verification/Token_Keys.thy ===== *)
theory Token_Keys
  imports Api_Routes Support
begin

text \<open>
  Logins from the token to the request: the token a login signs
  (\<open>user.model.ts\<close>, \<open>lib/utils.ts\<close>), the header that carries it and the session it
  opens (\<open>context.ts\<close>), with the key of the settings.
\<close>

section \<open>Signing and reading\<close>

definition loginToken :: "(nat, string) signer \<Rightarrow> settings \<Rightarrow> nat \<Rightarrow> string" where
  "loginToken sg e i = generateJwtToken sg e ''user-login'' i None []"

definition readLoginToken :: "(nat, string) signer \<Rightarrow> settings \<Rightarrow> string \<Rightarrow> (exn, nat) res" where
  "readLoginToken sg e t = parseJwtToken sg e ''user-login'' t []"

text \<open>A client sends \<open>Bearer\<close> and the token; a token has no spaces.\<close>

definition carries :: "'b request \<Rightarrow> string \<Rightarrow> bool" where
  "carries rq t \<longleftrightarrow> rq_authorization rq = ''Bearer '' @ t \<and> CHR '' '' \<notin> set t \<and> t \<noteq> []"

lemma splitOn_none: "c \<notin> set s \<Longrightarrow> splitOn c s = [s]"
  by (induction s) auto

lemma bearer_carried: "carries rq t \<Longrightarrow> bearerToken (rq_authorization rq) = t"
  by (simp add: carries_def bearerToken_def splitOn_none)

text \<open>A readable token for a live account opens the session of this account with its live roles.\<close>

lemma token_opens_session:
  assumes "\<not> excluded rq" and "carries rq t" and "ap_readToken e t = Inr i" and "i \<noteq> 0"
    and "byId i (users d) = Some u" and "tblInv (users d)" and "status u \<noteq> DELETED"
  shows "requestSession e rq d = Inr \<lparr>ss_user = Some u, ss_roles = populateRoles (ap_liveRole e) (rowId u) d\<rparr>"
proof -
  have "t \<noteq> []" using assms(2) by (simp add: carries_def)
  then show ?thesis
    using assms(1,3-7) by (simp add: requestSession_def authenticate_def bearer_carried [OF assms(2)] populateById_byId)
qed

text \<open>The token of a login brings its account back.\<close>

lemma login_token_reads_back:
  "signerLaws sg \<Longrightarrow> readLoginToken sg e (loginToken sg e i) = Inr i"
  by (simp add: readLoginToken_def loginToken_def tokens_are_for_one_purpose(1))

text \<open>
  A server without \<open>APP_SECRET\<close> signs with the text of the source, which is the key of a
  program with no settings at all: who signs the id of an administrator with it
  passes every guard that names the role.
\<close>

definition sourceKey :: string where
  "sourceKey = jsText (loadEnv Map.empty ''APP_SECRET'')"

lemma key_without_secret:
  "penv ''APP_SECRET'' = None \<or> penv ''APP_SECRET'' = Some [] \<Longrightarrow> jsText (loadEnv penv ''APP_SECRET'') = sourceKey"
  using default_secret_is_public [of penv] default_secret_is_public [of Map.empty] by (simp add: sourceKey_def)

lemma forged_token_reads:
  assumes "signerLaws sg" and "penv ''APP_SECRET'' = None \<or> penv ''APP_SECRET'' = Some []"
  shows "readLoginToken sg (loadEnv penv)
    (sg_sign sg i sourceKey \<lparr>so_subject = Some ''user-login'', so_expiresIn = x\<rparr>) = Inr i"
  using assms(1) key_without_secret [of penv, OF assms(2)]
  by (simp add: readLoginToken_def parseJwtToken_def keyOf_def signerLaws_def)

lemma forged_admin_passes:
  assumes "signerLaws sg" and "penv ''APP_SECRET'' = None \<or> penv ''APP_SECRET'' = Some []"
    and "ap_readToken e = readLoginToken sg (loadEnv penv)"
    and "carries rq (sg_sign sg i sourceKey \<lparr>so_subject = Some ''user-login'', so_expiresIn = x\<rparr>)" and "\<not> excluded rq"
    and "byId i (users d) = Some u" and "tblInv (users d)" and "status u \<noteq> DELETED"
    and "(i, role) \<in> set (user_roles d)" and "ap_liveRole e role"
  shows "\<exists>s. requestSession e rq d = Inr s \<and> (role \<in> set required \<longrightarrow> authGuard required s = Inr True)"
proof -
  have u: "u \<in> set (rows (users d))" "rowId u = i" using assms(6) by (auto simp: byId_def dest: find_SomeD)
  then have i: "i \<noteq> 0" using assms(7) by (auto simp: tblInv_def)
  have s: "requestSession e rq d = Inr \<lparr>ss_user = Some u, ss_roles = populateRoles (ap_liveRole e) (rowId u) d\<rparr>"
    using token_opens_session [OF assms(5,4) _ i assms(6-8)] forged_token_reads [of sg penv, OF assms(1,2)] assms(3) by simp
  have "role \<in> set (populateRoles (ap_liveRole e) i d)"
    using assms(9,10) i by (auto simp: populateRoles_def image_iff)
  then have "authGuard required \<lparr>ss_user = Some u, ss_roles = populateRoles (ap_liveRole e) (rowId u) d\<rparr> = Inr True"
    if "role \<in> set required"
    using that u(2) i assms(8) by (auto simp: authGuard_def isAuthenticated_def exists_def isEnabled_def sessionHasRole_def list_ex_iff)
  with s show ?thesis by blast
qed

text \<open>With a login of its own an account gets exactly its own roles.\<close>

lemma login_opens_own_session:
  assumes "signerLaws sg" and "ap_readToken e = readLoginToken sg st"
    and "carries rq (loginToken sg st i)" and "\<not> excluded rq"
    and "byId i (users d) = Some u" and "tblInv (users d)" and "status u \<noteq> DELETED" and "i \<noteq> 0"
  shows "requestSession e rq d = Inr \<lparr>ss_user = Some u, ss_roles = populateRoles (ap_liveRole e) (rowId u) d\<rparr>"
  using token_opens_session [OF assms(4,3) _ assms(8,5-7)] login_token_reads_back [OF assms(1)] assms(2) by simp

text \<open>The token of a verification mail opens no session.\<close>

lemma mail_token_opens_nothing:
  assumes "signerLaws sg" and "ap_readToken e = readLoginToken sg st" and "\<not> excluded rq"
    and "carries rq (generateJwtToken sg st ''email-verification'' i expires [])"
  shows "\<exists>err. requestSession e rq d = Inl err"
proof -
  obtain err where "readLoginToken sg st (generateJwtToken sg st ''email-verification'' i expires []) = Inl err"
    using tokens_are_for_one_purpose(2) [OF assms(1), of "''email-verification''" "''user-login''" st i expires "[]"]
    by (auto simp: readLoginToken_def)
  then show ?thesis
    using assms by (simp add: requestSession_def authenticate_def bearer_carried [OF assms(4)]) (simp add: carries_def)
qed

end
