(* ===== verification/Social_Posts.thy ===== *)
theory Social_Posts
  imports Types_Config Js_String Effects
begin

text \<open>
  Posts of a market on social media: \<open>createSocialPost\<close> of the prediction set
  service, \<open>lib/social-media\<close> and the token store it reads
  (\<open>lib/aws/aws-secrets.ts\<close>).  Twitter, Discord, the image host and the secret
  store are one parameter whose calls take and return the state of the outside
  world, so that a failed answer can be told from a post that was not made.
  Strings that are not configured are empty, as the code tests them for truth.
\<close>

section \<open>Calls that change the outside world\<close>

record failure =
  fl_code :: "int option"
  fl_status :: "int option"
  fl_message :: string

type_synonym ('w, 'a) act = "(failure, 'w, 'a) action"

text \<open>\<open>throw new Error(text)\<close>, and a string that may not be set.\<close>

definition plainError :: "string \<Rightarrow> failure" where
  "plainError t = \<lparr>fl_code = None, fl_status = None, fl_message = t\<rparr>"

definition present :: "string \<Rightarrow> string option" where
  "present s = (if s = [] then None else Some s)"

section \<open>Services and settings\<close>

record tokens =
  tk_accessToken :: string
  tk_refreshToken :: "string option"

record social_env =
  se_clientId :: string
  se_clientSecret :: string
  se_accessToken :: string
  se_refreshToken :: string
  se_tokensSecretId :: string
  se_discordWebhook :: string

text \<open>
  \<open>so_getSecret\<close> is the parsed secret with the empty string for a field it lacks,
  and nothing when it is no JSON; \<open>so_download\<close> gives an image and its content type.
\<close>

record 'w social =
  so_getSecret :: "string \<Rightarrow> ('w, (string \<times> string) option) act"
  so_updateSecret :: "string \<Rightarrow> tokens \<Rightarrow> ('w, unit) act"
  so_refresh :: "string \<Rightarrow> ('w, string \<times> string) act"
  so_download :: "string \<Rightarrow> ('w, string \<times> string) act"
  so_upload :: "string \<Rightarrow> string \<Rightarrow> string \<Rightarrow> ('w, string) act"
  so_tweet :: "string \<Rightarrow> string \<Rightarrow> string option \<Rightarrow> ('w, string) act"
  so_discord :: "string \<Rightarrow> string \<Rightarrow> string option \<Rightarrow> ('w, int) act"

record post_result =
  pr_success :: bool
  pr_tweetId :: "string option"
  pr_error :: "string option"

definition postFailed :: "string \<Rightarrow> string \<Rightarrow> post_result" where
  "postFailed msg other =
     \<lparr>pr_success = False, pr_tweetId = None, pr_error = Some (if msg = [] then other else msg)\<rparr>"

lemma not_pr_success_postFailed [simp]: "\<not> pr_success (postFailed m d)"
  by (simp add: postFailed_def)

section \<open>Tokens\<close>

definition getTwitterTokens :: "'w social \<Rightarrow> social_env \<Rightarrow> ('w, tokens) act" where
  "getTwitterTokens sv e =
    (let fallback = returnW \<lparr>tk_accessToken = se_accessToken e, tk_refreshToken = present (se_refreshToken e)\<rparr>
     in if se_tokensSecretId e = [] then fallback
        else catchW
          (bindW (so_getSecret sv (se_tokensSecretId e)) (\<lambda>s. case s of
              None \<Rightarrow> fallback
            | Some (a, r) \<Rightarrow> if a = [] then fallback
                            else returnW \<lparr>tk_accessToken = a, tk_refreshToken = present r\<rparr>))
          (\<lambda>_. fallback))"

definition persistTwitterTokens :: "'w social \<Rightarrow> social_env \<Rightarrow> tokens \<Rightarrow> ('w, unit) act" where
  "persistTwitterTokens sv e t =
    (if se_tokensSecretId e = [] then returnW () else so_updateSecret sv (se_tokensSecretId e) t)"

definition refreshTwitterToken :: "'w social \<Rightarrow> social_env \<Rightarrow> string \<Rightarrow> ('w, tokens) act" where
  "refreshTwitterToken sv e r =
    (if se_clientId e = [] \<or> se_clientSecret e = []
     then throwW (plainError ''Twitter Client ID and Client Secret must be configured'')
     else bindW (so_refresh sv r) (\<lambda>(a, r').
       let t = \<lparr>tk_accessToken = a, tk_refreshToken = Some (if r' = [] then r else r')\<rparr>
       in bindW (persistTwitterTokens sv e t) (\<lambda>_. returnW t)))"

section \<open>Posting\<close>

text \<open>An image that cannot be fetched or uploaded is left out of the post.\<close>

definition uploadImage :: "'w social \<Rightarrow> string \<Rightarrow> string \<Rightarrow> ('w, string option) act" where
  "uploadImage sv access img =
    (if img = [] then returnW None
     else catchW
       (bindW (so_download sv img) (\<lambda>(content, kind).
          bindW (so_upload sv access content (if kind = [] then ''image/jpeg'' else kind))
            (\<lambda>media. returnW (present media))))
       (\<lambda>_. returnW None))"

definition tweetOnce :: "'w social \<Rightarrow> string \<Rightarrow> string \<Rightarrow> string \<Rightarrow> ('w, post_result) act" where
  "tweetOnce sv access msg img =
    bindW (uploadImage sv access img) (\<lambda>media.
    bindW (so_tweet sv access msg media) (\<lambda>i.
      returnW \<lparr>pr_success = True, pr_tweetId = Some i, pr_error = None\<rparr>))"

definition unauthorized :: "failure \<Rightarrow> bool" where
  "unauthorized e \<longleftrightarrow> fl_code e = Some 401 \<or> fl_status e = Some 401"

definition refreshFailed :: string where
  "refreshFailed = ''Token expired and refresh failed. Run get-twitter-token script to re-authorize.''"

text \<open>The second attempt carries no refresh token, so there is no third.\<close>

function postTweet :: "'w social \<Rightarrow> social_env \<Rightarrow> string \<Rightarrow> string \<Rightarrow> string \<Rightarrow> string option \<Rightarrow> ('w, post_result) act" where
  "postTweet sv e access msg img None = catchW (tweetOnce sv access msg img) throwW"
| "postTweet sv e access msg img (Some r) =
    catchW (tweetOnce sv access msg img) (\<lambda>err.
      if unauthorized err
      then catchW
        (bindW (refreshTwitterToken sv e r) (\<lambda>t. postTweet sv e (tk_accessToken t) msg img None))
        (\<lambda>_. returnW (postFailed [] refreshFailed))
      else throwW err)"
  by pat_completeness auto

termination
  by (relation "measure (\<lambda>(_, _, _, _, _, refresh). if refresh = None then 0 else 1)") simp_all

definition postToTwitter :: "'w social \<Rightarrow> social_env \<Rightarrow> string \<Rightarrow> string \<Rightarrow> ('w, post_result) act" where
  "postToTwitter sv e msg img =
    catchW
      (if se_clientId e = [] \<or> se_clientSecret e = []
       then throwW (plainError ''Twitter OAuth 2.0 credentials are not configured'')
       else bindW (getTwitterTokens sv e) (\<lambda>t.
         if tk_accessToken t = []
         then throwW (plainError ''Twitter access token is not available. Run get-twitter-token script first.'')
         else postTweet sv e (tk_accessToken t) msg img (tk_refreshToken t)))
      (\<lambda>err. returnW (postFailed (fl_message err) ''Unknown error occurred while posting to Twitter''))"

definition postToDiscord :: "'w social \<Rightarrow> social_env \<Rightarrow> string \<Rightarrow> string \<Rightarrow> ('w, post_result) act" where
  "postToDiscord sv e msg img =
    catchW
      (if se_discordWebhook e = [] then throwW (plainError ''Discord webhook URL is not configured'')
       else bindW (so_discord sv (se_discordWebhook e) msg (present img)) (\<lambda>answer.
         if 200 \<le> answer \<and> answer < 300
         then returnW \<lparr>pr_success = True, pr_tweetId = None, pr_error = None\<rparr>
         else throwW (plainError (''Discord webhook returned status '' @ jsInt answer))))
      (\<lambda>err. returnW (postFailed (fl_message err) ''Unknown error occurred while posting to Discord''))"

section \<open>The service\<close>

definition validPlatforms :: "string list" where
  "validPlatforms = [''x'', ''discord'']"

definition postToPlatform ::
  "'w social \<Rightarrow> social_env \<Rightarrow> string \<Rightarrow> string \<Rightarrow> string \<Rightarrow> ('w, post_result) act" where
  "postToPlatform sv e msg img platform =
    catchW (if platform = ''x'' then postToTwitter sv e msg img else postToDiscord sv e msg img)
      (\<lambda>err. returnW (postFailed (fl_message err) ''Unknown error occurred''))"

fun postToAll ::
  "'w social \<Rightarrow> social_env \<Rightarrow> string \<Rightarrow> string \<Rightarrow> string list \<Rightarrow> (string \<rightharpoonup> post_result)
    \<Rightarrow> ('w, string \<rightharpoonup> post_result) act" where
  "postToAll sv e msg img [] results = returnW results"
| "postToAll sv e msg img (p # ps) results =
    bindW (postToPlatform sv e msg img (toLowerCase p))
      (\<lambda>r. postToAll sv e msg img ps (results(toLowerCase p \<mapsto> r)))"

definition createSocialPost ::
  "'w social \<Rightarrow> social_env \<Rightarrow> string \<Rightarrow> string \<Rightarrow> string list \<Rightarrow> 'w
    \<Rightarrow> (exn, string \<rightharpoonup> post_result) res \<times> 'w" where
  "createSocialPost sv e msg img platforms w =
    (if filter (\<lambda>p. toLowerCase p \<notin> set validPlatforms) platforms \<noteq> []
     then (Inl (CodeException 400 DEFAULT_BAD_REQUEST_ERROR), w)
     else (case postToAll sv e msg img platforms Map.empty w of
             (Inl err, w') \<Rightarrow> (Inl (JsError (fl_message err)), w')
           | (Inr results, w') \<Rightarrow> (Inr results, w')))"

section \<open>What the answer says\<close>

text \<open>No call to a platform throws out of its function.\<close>

lemma returns_answer:
  obtains r w' where "catchW m (\<lambda>err. returnW (f err)) w = (Inr r, w')"
  by (cases "m w" rule: prod.exhaust, rename_tac x w', case_tac x) (simp_all add: act_defs)

lemma postToPlatform_answers:
  obtains r w' where "postToPlatform sv e msg img p w = (Inr r, w')"
  unfolding postToPlatform_def by (rule returns_answer)

lemma postToAll_answers:
  "\<exists>results' w'. postToAll sv e msg img ps results w = (Inr results', w')
     \<and> dom results' = dom results \<union> set (map toLowerCase ps)"
proof (induction ps arbitrary: results w)
  case Nil
  show ?case by (simp add: returnW_def)
next
  case (Cons p ps)
  obtain r w1 where r: "postToPlatform sv e msg img (toLowerCase p) w = (Inr r, w1)"
    by (rule postToPlatform_answers)
  obtain results' w2 where "postToAll sv e msg img ps (results(toLowerCase p \<mapsto> r)) w1 = (Inr results', w2)"
    "dom results' = dom (results(toLowerCase p \<mapsto> r)) \<union> set (map toLowerCase ps)"
    using Cons.IH by blast
  with r show ?case by (auto simp: bindW_def)
qed

text \<open>
  The request is refused before anything is sent, or every platform it names has
  its answer.
\<close>

theorem every_platform_answered:
  "(\<forall>p \<in> set platforms. toLowerCase p \<in> {''x'', ''discord''}) \<longrightarrow>
     (\<exists>results w'. createSocialPost sv e msg img platforms w = (Inr results, w')
        \<and> dom results = toLowerCase ` set platforms)"
  "(\<exists>p \<in> set platforms. toLowerCase p \<notin> {''x'', ''discord''}) \<longrightarrow>
     createSocialPost sv e msg img platforms w = (Inl (CodeException 400 DEFAULT_BAD_REQUEST_ERROR), w)"
  using postToAll_answers [of sv e msg img platforms Map.empty w]
  by (auto simp: createSocialPost_def validPlatforms_def filter_empty_conv)

section \<open>What was posted\<close>

text \<open>
  \<open>posted\<close> counts the tweets in the outside world.  An act \<open>adds\<close> what its answer
  tells: nothing on a throw, and on a value what the act stands for.
\<close>

definition adds :: "('w \<Rightarrow> nat) \<Rightarrow> ('a \<Rightarrow> nat) \<Rightarrow> ('w, 'a) act \<Rightarrow> bool" where
  "adds posted g m \<longleftrightarrow> (\<forall>w. posted (snd (m w)) = posted w + (case fst (m w) of Inl _ \<Rightarrow> 0 | Inr x \<Rightarrow> g x))"

abbreviation keeps :: "('w \<Rightarrow> nat) \<Rightarrow> ('w, 'a) act \<Rightarrow> bool" where
  "keeps posted \<equiv> adds posted (\<lambda>_. 0)"

definition told :: "post_result \<Rightarrow> nat" where
  "told r = (if pr_success r then 1 else 0)"

text \<open>
  A tweet that is answered with an id was made once, one that is answered with an
  error was not made, and nothing else makes one.
\<close>

definition countsTweets :: "'w social \<Rightarrow> ('w \<Rightarrow> nat) \<Rightarrow> bool" where
  "countsTweets sv posted \<longleftrightarrow>
     (\<forall>i. keeps posted (so_getSecret sv i)) \<and> (\<forall>i t. keeps posted (so_updateSecret sv i t))
     \<and> (\<forall>r. keeps posted (so_refresh sv r)) \<and> (\<forall>u. keeps posted (so_download sv u))
     \<and> (\<forall>a c k. keeps posted (so_upload sv a c k)) \<and> (\<forall>u t i. keeps posted (so_discord sv u t i))
     \<and> (\<forall>a t m. adds posted (\<lambda>_. 1) (so_tweet sv a t m))"

lemma addsI: "(\<And>w x w'. m w = (x, w') \<Longrightarrow> posted w' = posted w + (case x of Inl _ \<Rightarrow> 0 | Inr y \<Rightarrow> g y)) \<Longrightarrow> adds posted g m"
  by (simp add: adds_def)

lemma addsD: "adds posted g m \<Longrightarrow> m w = (x, w') \<Longrightarrow> posted w' = posted w + (case x of Inl _ \<Rightarrow> 0 | Inr y \<Rightarrow> g y)"
  unfolding adds_def by (metis fst_conv snd_conv)

lemma adds_throw [simp]: "adds posted g (throwW e)"
  by (simp add: adds_def throwW_def)

lemma adds_return [simp]: "adds posted g (returnW x) \<longleftrightarrow> g x = 0"
  by (simp add: adds_def returnW_def)

lemma adds_bind:
  assumes "keeps posted m" and "\<And>x. adds posted g (f x)"
  shows "adds posted g (bindW m f)"
proof (rule addsI)
  fix w x w' assume r: "bindW m f w = (x, w')"
  obtain y w1 where y: "m w = (y, w1)" by fastforce
  have "posted w1 = posted w" using addsD [OF assms(1) y] by (simp split: sum.splits)
  with r y show "posted w' = posted w + (case x of Inl _ \<Rightarrow> 0 | Inr y \<Rightarrow> g y)"
    using addsD [OF assms(2), of _ w1 x w'] by (cases y) (auto simp: bindW_def)
qed

lemma adds_catch:
  assumes "adds posted g m" and "\<And>e. adds posted g (h e)"
  shows "adds posted g (catchW m h)"
proof (rule addsI)
  fix w x w' assume r: "catchW m h w = (x, w')"
  obtain y w1 where y: "m w = (y, w1)" by fastforce
  show "posted w' = posted w + (case x of Inl _ \<Rightarrow> 0 | Inr y \<Rightarrow> g y)"
  proof (cases y)
    case (Inl e)
    then show ?thesis
      using r y addsD [OF assms(1) y] addsD [OF assms(2), of e w1 x w'] by (simp add: catchW_def)
  next
    case (Inr v)
    then show ?thesis using r y addsD [OF assms(1) y] by (auto simp: catchW_def)
  qed
qed

lemma adds_bind_return:
  assumes "adds posted (\<lambda>x. g (f x)) m"
  shows "adds posted g (bindW m (\<lambda>x. returnW (f x)))"
proof (rule addsI)
  fix w x w' assume r: "bindW m (\<lambda>x. returnW (f x)) w = (x, w')"
  obtain y w1 where y: "m w = (y, w1)" by fastforce
  show "posted w' = posted w + (case x of Inl _ \<Rightarrow> 0 | Inr y \<Rightarrow> g y)"
    using r y addsD [OF assms y] by (cases y) (auto simp: bindW_def returnW_def)
qed

lemma told_failed [simp]: "told (postFailed a b) = 0"
  by (simp add: told_def)

lemma getTwitterTokens_keeps: "countsTweets sv posted \<Longrightarrow> keeps posted (getTwitterTokens sv e)"
  unfolding getTwitterTokens_def countsTweets_def Let_def
  by (auto intro!: adds_bind adds_catch split: option.split)

lemma refreshTwitterToken_keeps: "countsTweets sv posted \<Longrightarrow> keeps posted (refreshTwitterToken sv e r)"
  unfolding refreshTwitterToken_def persistTwitterTokens_def countsTweets_def Let_def
  by (auto intro!: adds_bind)

lemma uploadImage_keeps: "countsTweets sv posted \<Longrightarrow> keeps posted (uploadImage sv a img)"
  unfolding uploadImage_def countsTweets_def by (auto intro!: adds_bind adds_catch)

lemma tweetOnce_counts: "countsTweets sv posted \<Longrightarrow> adds posted told (tweetOnce sv a msg img)"
  unfolding tweetOnce_def
  by (intro adds_bind uploadImage_keeps adds_bind_return) (auto simp: told_def countsTweets_def)

lemma postTweet_counts: "countsTweets sv posted \<Longrightarrow> adds posted told (postTweet sv e a msg img refresh)"
proof (induction sv e a msg img refresh rule: postTweet.induct)
  case (1 sv e access msg img)
  then show ?case by (simp add: adds_catch tweetOnce_counts)
next
  case (2 sv e access msg img r)
  then show ?case
    by (auto intro!: adds_catch adds_bind tweetOnce_counts refreshTwitterToken_keeps)
qed

lemma postToTwitter_counts: "countsTweets sv posted \<Longrightarrow> adds posted told (postToTwitter sv e msg img)"
  unfolding postToTwitter_def
  by (auto intro!: adds_catch adds_bind postTweet_counts getTwitterTokens_keeps)

lemma postToDiscord_keeps: "countsTweets sv posted \<Longrightarrow> keeps posted (postToDiscord sv e msg img)"
  unfolding postToDiscord_def countsTweets_def by (auto intro!: adds_catch adds_bind)

lemma postToPlatform_counts:
  "countsTweets sv posted \<Longrightarrow> adds posted (\<lambda>r. if p = ''x'' then told r else 0) (postToPlatform sv e msg img p)"
  unfolding postToPlatform_def
  by (auto intro!: adds_catch postToTwitter_counts postToDiscord_keeps)

definition toldOf :: "(string \<rightharpoonup> post_result) \<Rightarrow> nat" where
  "toldOf results = (case results ''x'' of None \<Rightarrow> 0 | Some r \<Rightarrow> told r)"

lemma postToAll_counts:
  assumes "countsTweets sv posted" and "distinct (map toLowerCase ps)"
    and "dom results \<inter> set (map toLowerCase ps) = {}"
    and "postToAll sv e msg img ps results w = (Inr results', w')"
  shows "posted w' + toldOf results = posted w + toldOf results'"
  using assms(2-)
proof (induction ps arbitrary: results w)
  case Nil
  then show ?case by (simp add: returnW_def)
next
  case (Cons p ps)
  obtain r w1 where r: "postToPlatform sv e msg img (toLowerCase p) w = (Inr r, w1)"
    by (rule postToPlatform_answers)
  have rest: "postToAll sv e msg img ps (results(toLowerCase p \<mapsto> r)) w1 = (Inr results', w')"
    using Cons.prems(3) r by (simp add: bindW_def)
  have "posted w1 = posted w + (if toLowerCase p = ''x'' then told r else 0)"
    using addsD [OF postToPlatform_counts [OF assms(1)] r] by simp
  moreover have "posted w' + toldOf (results(toLowerCase p \<mapsto> r)) = posted w1 + toldOf results'"
  proof (rule Cons.IH)
    show "distinct (map toLowerCase ps)" using Cons.prems(1) by simp
    have "dom (results(toLowerCase p \<mapsto> r)) = insert (toLowerCase p) (dom results)" by simp
    then show "dom (results(toLowerCase p \<mapsto> r)) \<inter> set (map toLowerCase ps) = {}"
      using Cons.prems(1,2) by simp
  qed (rule rest)
  moreover have "results (toLowerCase p) = None" using Cons.prems(2) by (auto simp: domIff)
  ultimately show ?case by (cases "toLowerCase p = ''x''") (auto simp: toldOf_def)
qed

text \<open>
  For a request that names a platform once: the answer claims a tweet exactly when
  one was made, and never two.
\<close>

theorem answer_tells_tweets:
  assumes "countsTweets sv posted" and "distinct (map toLowerCase platforms)"
    and "createSocialPost sv e msg img platforms w = (Inr results, w')"
  shows "posted w' = posted w + toldOf results"
proof -
  have "postToAll sv e msg img platforms Map.empty w = (Inr results, w')"
    using assms(3) by (auto simp: createSocialPost_def split: if_splits prod.splits sum.splits)
  then show ?thesis using postToAll_counts [OF assms(1,2)] by (fastforce simp: toldOf_def)
qed

text \<open>
  A post whose token was renewed is lost when the new tokens cannot be stored: it is
  not tried again, and the refresh token that was used up stays in the store.
\<close>

lemma unstored_tokens_lose_post:
  assumes "uploadImage sv a img w = (Inr media, w1)" and "so_tweet sv a msg media w1 = (Inl err, w2)"
    and "unauthorized err" and "so_refresh sv r w2 = (Inr (a', r'), w3)"
    and "se_clientId e \<noteq> []" and "se_clientSecret e \<noteq> []" and "se_tokensSecretId e \<noteq> []"
    and "so_updateSecret sv (se_tokensSecretId e) \<lparr>tk_accessToken = a', tk_refreshToken = Some (if r' = [] then r else r')\<rparr> w3 = (Inl err', w4)"
  shows "postTweet sv e a msg img (Some r) w = (Inr (postFailed [] refreshFailed), w4)"
  using assms by (simp add: act_defs tweetOnce_def refreshTwitterToken_def persistTwitterTokens_def Let_def)

text \<open>The same answer hides any failure of the second attempt, a lost connection as well.\<close>

lemma second_failure_hidden:
  assumes "tweetOnce sv a msg img w = (Inl err, w1)" and "unauthorized err"
    and "refreshTwitterToken sv e r w1 = (Inr t, w2)" and "tweetOnce sv (tk_accessToken t) msg img w2 = (Inl err', w3)"
  shows "postTweet sv e a msg img (Some r) w = (Inr (postFailed [] refreshFailed), w3)"
  using assms by (simp add: act_defs)

section \<open>A platform named twice\<close>

text \<open>
  The world is the number of tweets; the second tweet is refused, as a duplicate
  would be.
\<close>

definition oneTweet :: "nat social" where
  "oneTweet =
    \<lparr>so_getSecret = \<lambda>_. returnW None, so_updateSecret = \<lambda>_ _. returnW (), so_refresh = \<lambda>_. throwW (plainError []),
     so_download = \<lambda>_. throwW (plainError []), so_upload = \<lambda>_ _ _. throwW (plainError []),
     so_tweet = \<lambda>_ _ _ n. if n = 0 then (Inr ''17'', Suc n) else (Inl (plainError ''duplicate''), n),
     so_discord = \<lambda>_ _ _. returnW 204\<rparr>"

definition exampleSettings :: social_env where
  "exampleSettings =
    \<lparr>se_clientId = ''c'', se_clientSecret = ''s'', se_accessToken = ''a'', se_refreshToken = [],
     se_tokensSecretId = [], se_discordWebhook = []\<rparr>"

lemma oneTweet_counts: "countsTweets oneTweet id"
  by (auto simp: countsTweets_def oneTweet_def adds_def returnW_def throwW_def)

lemma twice_named_answers_failure:
  "(case createSocialPost oneTweet exampleSettings ''m'' [] [''x'', ''X''] 0 of
      (Inr results, n) \<Rightarrow> n = 1 \<and> results ''x'' = Some (postFailed ''duplicate'' [])
    | _ \<Rightarrow> False)"
  by code_simp

theorem answer_tells_tweets_witness:
  "(case createSocialPost oneTweet exampleSettings ''m'' [] [''x'', ''Discord''] 0 of
      (Inr results, n) \<Rightarrow> n = 1 \<and> toldOf results = 1 | _ \<Rightarrow> False)"
proof -
  obtain results n where r: "createSocialPost oneTweet exampleSettings ''m'' [] [''x'', ''Discord''] 0 = (Inr results, n)"
      and t: "toldOf results = 1"
  proof -
    have "case createSocialPost oneTweet exampleSettings ''m'' [] [''x'', ''Discord''] 0 of
        (Inr results, n) \<Rightarrow> toldOf results = 1 | _ \<Rightarrow> False" by code_simp
    then show thesis using that by (auto split: prod.splits sum.splits)
  qed
  have "id n = id 0 + toldOf results"
    by (rule answer_tells_tweets [OF oneTweet_counts _ r]) code_simp
  with r t show ?thesis by simp
qed

section \<open>The first tokens\<close>

text \<open>
  The dialog of \<open>scripts/get-twitter-token.ts\<close>: \<open>oa_link\<close> gives the address to visit
  with the verifier and the state, \<open>oa_login\<close> the tokens for a code, \<open>oa_ask\<close> what the
  operator types.
\<close>

record 'w oauth =
  oa_link :: "string \<Rightarrow> ('w, string \<times> string \<times> string) act"
  oa_login :: "string \<Rightarrow> string \<Rightarrow> string \<Rightarrow> ('w, string \<times> string) act"
  oa_ask :: "string \<Rightarrow> ('w, string) act"

definition generateTwitterAuthUrl :: "'w oauth \<Rightarrow> social_env \<Rightarrow> string \<Rightarrow> ('w, string \<times> string \<times> string) act" where
  "generateTwitterAuthUrl oa e redirect =
    (if se_clientId e = [] \<or> se_clientSecret e = []
     then throwW (plainError ''Twitter Client ID and Client Secret must be configured'')
     else oa_link oa redirect)"

definition exchangeTwitterCodeForToken ::
  "'w social \<Rightarrow> 'w oauth \<Rightarrow> social_env \<Rightarrow> string \<Rightarrow> string \<Rightarrow> string \<Rightarrow> ('w, tokens) act" where
  "exchangeTwitterCodeForToken sv oa e redirect code verifier =
    (if se_clientId e = [] \<or> se_clientSecret e = []
     then throwW (plainError ''Twitter Client ID and Client Secret must be configured'')
     else bindW (oa_login oa code verifier redirect) (\<lambda>(a, r).
       let t = \<lparr>tk_accessToken = a, tk_refreshToken = present r\<rparr>
       in bindW (persistTwitterTokens sv e t) (\<lambda>_. returnW t)))"

text \<open>The dialog ends with the tokens on the screen, or with exit code 1.\<close>

definition getTwitterTokenInteractive ::
  "'w social \<Rightarrow> 'w oauth \<Rightarrow> social_env \<Rightarrow> string \<Rightarrow> 'w \<Rightarrow> tokens option \<times> 'w" where
  "getTwitterTokenInteractive sv oa e redirect w =
    (case bindW (generateTwitterAuthUrl oa e redirect) (\<lambda>(url, verifier, state).
          bindW (oa_ask oa url) (\<lambda>code.
            if code = [] then returnW None
            else bindW (exchangeTwitterCodeForToken sv oa e redirect code verifier) (\<lambda>t. returnW (Some t)))) w of
       (Inl err, w') \<Rightarrow> (None, w')
     | (Inr t, w') \<Rightarrow> (t, w'))"

text \<open>
  Shown tokens were stored where a store is configured.  When storing fails, the code
  is used up and the tokens are neither stored nor shown.
\<close>

lemma shown_tokens_stored:
  assumes "getTwitterTokenInteractive sv oa e redirect w = (Some t, w')" and "se_tokensSecretId e \<noteq> []"
  shows "\<exists>v. so_updateSecret sv (se_tokensSecretId e) t v = (Inr (), w')"
  using assms
  by (auto simp: getTwitterTokenInteractive_def exchangeTwitterCodeForToken_def persistTwitterTokens_def act_defs Let_def
      split: prod.splits sum.splits if_splits)

lemma unstored_first_tokens_lost:
  assumes "se_clientId e \<noteq> []" and "se_clientSecret e \<noteq> []" and "se_tokensSecretId e \<noteq> []"
    and "oa_link oa redirect w = (Inr (url, verifier, state), w1)" and "oa_ask oa url w1 = (Inr code, w2)" and "code \<noteq> []"
    and "oa_login oa code verifier redirect w2 = (Inr (a, r), w3)"
    and "so_updateSecret sv (se_tokensSecretId e) \<lparr>tk_accessToken = a, tk_refreshToken = present r\<rparr> w3 = (Inl x, w4)"
  shows "getTwitterTokenInteractive sv oa e redirect w = (None, w4)"
  using assms
  by (simp add: getTwitterTokenInteractive_def generateTwitterAuthUrl_def exchangeTwitterCodeForToken_def
      persistTwitterTokens_def act_defs Let_def)

end
