(* ===== verification/Proposal_Lists.thy ===== *)
theory Proposal_Lists
  imports Market_Lists Proposals
begin

text \<open>
  The lists of proposals, rounds, reward points and collateral tokens: the
  \<open>getList\<close> methods of \<open>proposal.model.ts\<close>, \<open>proposal-round.model.ts\<close>,
  \<open>reward-points.model.ts\<close> and \<open>collateral-token.model.ts\<close>.  Parameters beside those
  of \<open>Market_Lists\<close>: the text of \<open>JSON_OBJECT\<close> for a vote, and
  \<open>group_concat_max_len\<close>, at which the server cuts what \<open>GROUP_CONCAT\<close> gives.
\<close>

section \<open>Proposals\<close>

record proposal_query =
  pq_filters :: query_filters
  pq_search :: "string option"
  pq_roundId :: "nat option"
  pq_proposalId :: "nat option"
  pq_tag :: "string option"

type_synonym joined_proposal = "proposal \<times> proposal_vote option \<times> user"

definition joinProposals :: "db \<Rightarrow> joined_proposal list" where
  "joinProposals d =
    [(p, pv, u).
       p \<leftarrow> rows (proposals d),
       pv \<leftarrow> leftJoin (filter (\<lambda>v. pv_proposal_id v = rowId p) (rows (proposal_votes d))),
       u \<leftarrow> filter (\<lambda>u. rowId u = pr_user_id p) (rows (users d))]"

text \<open>A comparison with NULL does not hold.\<close>

definition likeNullable :: "(string \<Rightarrow> string \<Rightarrow> bool) \<Rightarrow> string option \<Rightarrow> string \<Rightarrow> bool" where
  "likeNullable like col s = (case col of None \<Rightarrow> False | Some t \<Rightarrow> like t s)"

definition whereProposal :: "(string \<Rightarrow> string \<Rightarrow> bool) \<Rightarrow> proposal_query \<Rightarrow> proposal \<Rightarrow> bool" where
  "whereProposal like q p \<longleftrightarrow> status p \<noteq> DELETED
     \<and> (case pq_search q of None \<Rightarrow> True | Some s \<Rightarrow> like (pr_question p) s \<or> likeNullable like (pr_tags p) s)
     \<and> idFilter (pq_roundId q) (pr_round_id p)
     \<and> idFilter (pq_proposalId q) (rowId p)
     \<and> (case pq_tag q of None \<Rightarrow> True | Some s \<Rightarrow> likeNullable like (pr_tags p) s)"

text \<open>The row of a group, before the code reads its texts.\<close>

record proposal_row =
  pl_proposal :: proposal
  pl_totalVotes :: int
  pl_totalComments :: nat
  pl_username :: "string option"
  pl_userWallet :: string
  pl_votes :: "proposal_vote list"

definition voteNumber :: "proposal_vote option \<Rightarrow> int" where
  "voteNumber pv = (case pv of None \<Rightarrow> 0 | Some v \<Rightarrow> proposalVoteTypeNo (pv_voteType v))"

definition commentCount :: "nat \<Rightarrow> db \<Rightarrow> nat" where
  "commentCount i d =
     length (filter (\<lambda>r. cm_entity_id r = i \<and> cm_entityType r = CE_PROPOSAL) (rows (comments d)))"

definition selectProposal :: "db \<Rightarrow> joined_proposal list \<Rightarrow> proposal_row" where
  "selectProposal d g = (case hd g of (p, _, u) \<Rightarrow>
     \<lparr>pl_proposal = p,
      pl_totalVotes = (\<Sum>(_, pv, _) \<leftarrow> g. voteNumber pv),
      pl_totalComments = commentCount (rowId p) d,
      pl_username = us_username u,
      pl_userWallet = us_walletAddress u,
      pl_votes = sort_key rowId (remdups (List.map_filter (\<lambda>(_, pv, _). pv) g))\<rparr>)"

text \<open>
  The votes of a row are parsed from the text the server gives, which is cut at
  \<open>maxLen\<close>: the objects before the cut when it falls behind one, no JSON otherwise.
\<close>

definition votesText :: "(proposal_vote \<Rightarrow> string) \<Rightarrow> proposal_vote list \<Rightarrow> string" where
  "votesText render vs = joinWith '','' (map render vs)"

definition parseVotesText :: "(proposal_vote \<Rightarrow> string) \<Rightarrow> nat \<Rightarrow> proposal_vote list \<Rightarrow> (exn, proposal_vote list) res" where
  "parseVotesText render maxLen vs =
    (case find (\<lambda>n. votesText render (take n vs) = take maxLen (votesText render vs)) (rev [0..<Suc (length vs)]) of
        None \<Rightarrow> Inl (JsError ''SyntaxError'')
      | Some n \<Rightarrow> Inr (take n vs))"

record proposal_item =
  pi_row :: proposal_row
  pi_votes :: "proposal_vote list"
  pi_tags :: "string list"
  pi_outcomes :: "string list"

definition proposalItem :: "(proposal_vote \<Rightarrow> string) \<Rightarrow> nat \<Rightarrow> proposal_row \<Rightarrow> (exn, proposal_item) res" where
  "proposalItem render maxLen r =
    bindR (parseVotesText render maxLen (pl_votes r)) (\<lambda>vs.
      let tags = (case pr_tags (pl_proposal r) of None \<Rightarrow> [] | Some s \<Rightarrow> if s = [] then [] else splitArray s)
      in case pr_outcomes (pl_proposal r) of
           None \<Rightarrow> Inl (JsError ''TypeError'')
         | Some s \<Rightarrow> Inr \<lparr>pi_row = r, pi_votes = vs, pi_tags = tags, pi_outcomes = splitArray s\<rparr>)"

fun mapR :: "('a \<Rightarrow> ('e, 'b) res) \<Rightarrow> 'a list \<Rightarrow> ('e, 'b list) res" where
  "mapR f [] = Inr []"
| "mapR f (x # xs) = bindR (f x) (\<lambda>y. bindR (mapR f xs) (\<lambda>ys. Inr (y # ys)))"

definition foundProposals :: "(string \<Rightarrow> string \<Rightarrow> bool) \<Rightarrow> proposal_query \<Rightarrow> db \<Rightarrow> proposal_row list" where
  "foundProposals like q d = map (selectProposal d)
     (groupRows (\<lambda>j. rowId (fst j)) (filter (\<lambda>j. whereProposal like q (fst j)) (joinProposals d)))"

definition getProposals ::
  "(string \<Rightarrow> string \<Rightarrow> bool) \<Rightarrow> (proposal_row list \<Rightarrow> proposal_row list) \<Rightarrow> (proposal_vote \<Rightarrow> string) \<Rightarrow> nat
    \<Rightarrow> proposal_query \<Rightarrow> db \<Rightarrow> (exn, proposal_item list \<times> nat) res" where
  "getProposals like orderBy render maxLen q d =
    (let found = foundProposals like q d
     in bindR (mapR (proposalItem render maxLen) (pageOf (pq_filters q) (orderBy found))) (\<lambda>items.
          Inr (items, length found)))"

section \<open>Rounds\<close>

record round_item =
  ri_round :: proposal_round
  ri_winner :: "proposal option"
  ri_winnerUser :: "user option"

text \<open>Without a winner the object \<open>winner\<close> is there, with every field null.\<close>

definition joinRounds :: "nat option \<Rightarrow> db \<Rightarrow> round_item list" where
  "joinRounds wanted d =
    [\<lparr>ri_round = rd, ri_winner = p, ri_winnerUser = u\<rparr>.
       rd \<leftarrow> rows (proposal_rounds d),
       p \<leftarrow> leftJoin (filter (\<lambda>p. rd_winner_id rd = Some (rowId p)) (rows (proposals d))),
       u \<leftarrow> leftJoin (filter (\<lambda>u. map_option pr_user_id p = Some (rowId u)) (rows (users d))),
       status rd \<noteq> DELETED \<and> rd_roundStatus rd \<noteq> ROUND_INITIALIZED \<and> idFilter wanted (rowId rd)]"

definition getProposalRounds ::
  "(round_item list \<Rightarrow> round_item list) \<Rightarrow> query_filters \<Rightarrow> nat option \<Rightarrow> db \<Rightarrow> round_item list \<times> nat" where
  "getProposalRounds orderBy f wanted d =
    (let found = map hd (groupRows (\<lambda>i. rowId (ri_round i)) (joinRounds wanted d))
     in (pageOf f (orderBy found), length found))"

section \<open>Reward points and collateral tokens\<close>

definition liveRows :: "'r row_scheme tbl \<Rightarrow> 'r row_scheme list" where
  "liveRows t = filter (\<lambda>r. status r \<noteq> DELETED) (rows t)"

definition getRewardPoints ::
  "(reward_points list \<Rightarrow> reward_points list) \<Rightarrow> query_filters \<Rightarrow> db \<Rightarrow> reward_points list \<times> nat" where
  "getRewardPoints orderBy f d =
    (let order = (if qf_orderStr f = None then sort_key rp_value else orderBy);
         found = map hd (groupRows rowId (liveRows (reward_pointss d)))
     in (pageOf f (order found), length found))"

definition getCollateralTokens ::
  "(collateral_token list \<Rightarrow> collateral_token list) \<Rightarrow> query_filters \<Rightarrow> db \<Rightarrow> collateral_token list \<times> nat" where
  "getCollateralTokens orderBy f d =
    (let found = map hd (groupRows rowId (liveRows (collateral_tokens d)))
     in (pageOf f (orderBy found), length found))"

section \<open>Rows by id\<close>

lemma filter_byId:
  assumes "tblInv t"
  shows "filter (\<lambda>r. rowId r = i) (rows t) = (case byId i t of None \<Rightarrow> [] | Some r \<Rightarrow> [r])"
proof -
  have "filter (\<lambda>r. rowId r = i) xs = (case find (\<lambda>r. rowId r = i) xs of None \<Rightarrow> [] | Some r \<Rightarrow> [r])"
    if "distinct (map rowId xs)" for xs :: "'a row_scheme list"
    using that by (induction xs) (auto simp: filter_empty_conv split: option.split dest!: find_SomeD intro: rev_image_eqI)
  then show ?thesis using assms by (simp add: tblInv_def byId_def)
qed

section \<open>What a list of proposals promises\<close>

definition proposalRow :: "db \<Rightarrow> proposal \<Rightarrow> user \<Rightarrow> proposal_row" where
  "proposalRow d p u =
     \<lparr>pl_proposal = p, pl_totalVotes = totalVotes (rowId p) d, pl_totalComments = commentCount (rowId p) d,
      pl_username = us_username u, pl_userWallet = us_walletAddress u,
      pl_votes = sort_key rowId (filter (\<lambda>v. pv_proposal_id v = rowId p) (rows (proposal_votes d)))\<rparr>"

definition proposalRows :: "(string \<Rightarrow> string \<Rightarrow> bool) \<Rightarrow> proposal_query \<Rightarrow> db \<Rightarrow> proposal_row list" where
  "proposalRows like q d =
     [proposalRow d p u. p \<leftarrow> rows (proposals d), whereProposal like q p,
        u \<leftarrow> (case byId (pr_user_id p) (users d) of None \<Rightarrow> [] | Some u \<Rightarrow> [u])]"

text \<open>
  One row per proposal whose author is there, in the order of the table, with its
  author, its votes by id and the sum by which the winner of a round is chosen.
\<close>

theorem proposals_listed:
  assumes "tblInv (proposals d)" and "tblInv (users d)" and "tblInv (proposal_votes d)"
  shows "foundProposals like q d = proposalRows like q d"
proof -
  let ?votes = "\<lambda>p. filter (\<lambda>v. pv_proposal_id v = rowId p) (rows (proposal_votes d))"
  let ?f = "\<lambda>p. if whereProposal like q p
     then [(p, pv, u). pv \<leftarrow> leftJoin (?votes p), u \<leftarrow> (case byId (pr_user_id p) (users d) of None \<Rightarrow> [] | Some u \<Rightarrow> [u])] else []"
  have joined: "filter (\<lambda>j. whereProposal like q (fst j)) (joinProposals d) = concat (map ?f (rows (proposals d)))"
  proof -
    have "filter (\<lambda>j. whereProposal like q (fst j)) (concat (map (\<lambda>p. concat (map (\<lambda>pv. map (\<lambda>u. (p, pv, u)) (us p)) (vs p))) ps))
        = concat (map (\<lambda>p. if whereProposal like q p then concat (map (\<lambda>pv. map (\<lambda>u. (p, pv, u)) (us p)) (vs p)) else []) ps)"
      for ps :: "proposal list" and us :: "proposal \<Rightarrow> user list" and vs :: "proposal \<Rightarrow> proposal_vote option list"
      by (induction ps) (auto simp: filter_concat comp_def filter_map)
    then show ?thesis unfolding joinProposals_def filter_byId [OF assms(2)] .
  qed
  have groups: "groupRows (\<lambda>j. rowId (fst j)) (concat (map ?f (rows (proposals d)))) = filter (\<lambda>g. g \<noteq> []) (map ?f (rows (proposals d)))"
    by (rule groupRows_keyed [where k = rowId]) (use assms(1) in \<open>auto simp: tblInv_def split: if_splits option.splits\<close>)
  have votes: "distinct (?votes p)" for p
    using assms(3) by (auto simp: tblInv_def distinct_map)
  have row: "selectProposal d (map (\<lambda>pv. (p, pv, u)) (leftJoin (?votes p))) = proposalRow d p u" for p u
  proof -
    let ?g = "map (\<lambda>pv. (p, pv, u)) (leftJoin (?votes p))"
    have h: "hd ?g = (p, hd (leftJoin (?votes p)), u)" by (simp add: hd_map)
    have mf: "List.map_filter (\<lambda>(_, pv, _). pv) (map (\<lambda>pv. (p, pv, u)) (leftJoin vs)) = vs" for vs :: "proposal_vote list"
      by (cases "vs = []") (simp_all add: leftJoin_def List.map_filter_def comp_def)
    have sm: "(\<Sum>(_, pv, _) \<leftarrow> map (\<lambda>pv. (p, pv, u)) (leftJoin vs). voteNumber pv)
        = (\<Sum>v \<leftarrow> vs. proposalVoteTypeNo (pv_voteType v))" for vs
      by (cases "vs = []") (simp_all add: leftJoin_def voteNumber_def comp_def)
    show ?thesis
      unfolding selectProposal_def h mf sm proposalRow_def totalVotes_def prod.case remdups_id_iff_distinct [THEN iffD2, OF votes] ..
  qed
  have "map (selectProposal d) (filter (\<lambda>g. g \<noteq> []) (map ?f ps)) =
      [proposalRow d p u. p \<leftarrow> ps, whereProposal like q p, u \<leftarrow> (case byId (pr_user_id p) (users d) of None \<Rightarrow> [] | Some u \<Rightarrow> [u])]" for ps
    by (induction ps) (auto simp: row comp_def split: option.split)
  then show ?thesis by (simp add: foundProposals_def joined groups proposalRows_def)
qed

text \<open>The number a proposal is shown with is the number the end of its round compares.\<close>

corollary shown_votes_decide:
  assumes "tblInv (proposals d)" and "tblInv (users d)" and "tblInv (proposal_votes d)"
    and "getProposals like orderBy render maxLen q d = Inr (items, n)"
    and "\<And>xs. set (orderBy xs) \<subseteq> set xs" and "i \<in> set items"
  shows "pl_totalVotes (pi_row i) = totalVotes (rowId (pl_proposal (pi_row i))) d"
    and "pl_proposal (pi_row i) \<in> set (rows (proposals d))" and "status (pl_proposal (pi_row i)) \<noteq> DELETED"
proof -
  have mapR_rows: "mapR (proposalItem render maxLen) rs = Inr items' \<Longrightarrow> map pi_row items' = rs" for rs items'
  proof (induction rs arbitrary: items')
    case (Cons r rs)
    then show ?case by (auto simp: res_simps proposalItem_def Let_def split: option.splits)
  qed simp
  let ?page = "pageOf (pq_filters q) (orderBy (proposalRows like q d))"
  have "mapR (proposalItem render maxLen) ?page = Inr items"
    using assms(4) proposals_listed [OF assms(1-3)] by (auto simp: getProposals_def Let_def res_simps)
  then have page: "map pi_row items = ?page" by (rule mapR_rows)
  have "pi_row i \<in> set (map pi_row items)" using assms(6) by simp
  then have "pi_row i \<in> set ?page" unfolding page .
  then have "pi_row i \<in> set (orderBy (proposalRows like q d))" by (rule subsetD [OF set_pageOf])
  then have "pi_row i \<in> set (proposalRows like q d)" by (rule subsetD [OF assms(5)])
  then obtain p u where "pi_row i = proposalRow d p u" "p \<in> set (rows (proposals d))" "whereProposal like q p"
    by (auto simp: proposalRows_def split: option.splits)
  then show "pl_totalVotes (pi_row i) = totalVotes (rowId (pl_proposal (pi_row i))) d"
    and "pl_proposal (pi_row i) \<in> set (rows (proposals d))" and "status (pl_proposal (pi_row i)) \<noteq> DELETED"
    by (simp_all add: proposalRow_def whereProposal_def)
qed

section \<open>Votes in a text of limited length\<close>

text \<open>Votes whose text fits arrive whole.\<close>

lemma short_votes:
  assumes "length (votesText render vs) \<le> maxLen"
  shows "parseVotesText render maxLen vs = Inr vs"
  using assms by (simp add: parseVotesText_def)

text \<open>A text that is cut gives fewer votes, or the whole page is an error.\<close>

lemma cut_votes:
  assumes "maxLen < length (votesText render vs)" and "parseVotesText render maxLen vs = Inr vs'"
  shows "\<exists>n < length vs. vs' = take n vs \<and> length (votesText render vs') = maxLen"
proof -
  obtain n where n: "n \<in> set (rev [0..<Suc (length vs)])" "votesText render (take n vs) = take maxLen (votesText render vs)"
      "vs' = take n vs"
    using assms(2) find_SomeD by (fastforce simp: parseVotesText_def simp del: upt_Suc split: option.splits)
  moreover have "n \<noteq> length vs" using n(2) assms(1) by (metis length_take min.strict_order_iff not_less_iff_gr_or_eq order.refl take_all min.commute)
  ultimately show ?thesis using assms(1) by (auto intro!: exI [of _ n])
qed

lemma many_votes_break_page:
  assumes "r \<in> set (pageOf (pq_filters q) (orderBy (foundProposals like q d)))"
    and "parseVotesText render maxLen (pl_votes r) = Inl e"
  shows "\<exists>e. getProposals like orderBy render maxLen q d = Inl e"
proof -
  have "\<exists>e. mapR f rs = Inl e" if "r \<in> set rs" "f r = Inl e" for f :: "proposal_row \<Rightarrow> (exn, proposal_item) res" and rs e
    using that
  proof (induction rs)
    case (Cons x xs)
    then show ?case by (cases "f x") auto
  qed simp
  moreover have "proposalItem render maxLen r = Inl e" using assms(2) by (simp add: proposalItem_def)
  ultimately show ?thesis using assms(1) by (fastforce simp: getProposals_def Let_def)
qed

section \<open>Rounds with their winners\<close>

definition roundItem :: "db \<Rightarrow> proposal_round \<Rightarrow> round_item" where
  "roundItem d rd = (let winner = Option.bind (rd_winner_id rd) (\<lambda>i. byId i (proposals d)) in
     \<lparr>ri_round = rd, ri_winner = winner,
      ri_winnerUser = Option.bind winner (\<lambda>p. byId (pr_user_id p) (users d))\<rparr>)"

lemma leftJoin_byId:
  assumes "tblInv t"
  shows "leftJoin (filter (\<lambda>r. w = Some (rowId r)) (rows t)) = [Option.bind w (\<lambda>i. byId i t)]"
proof (cases w)
  case (Some i)
  have "filter (\<lambda>r. w = Some (rowId r)) (rows t) = filter (\<lambda>r. rowId r = i) (rows t)"
    unfolding Some by (rule filter_cong) auto
  then show ?thesis using Some by (auto simp: filter_byId [OF assms] leftJoin_def split: option.split)
qed simp

text \<open>Every round that has started is listed once, with the proposal it was won by.\<close>

theorem rounds_listed:
  assumes "tblInv (proposal_rounds d)" and "tblInv (proposals d)" and "tblInv (users d)"
  shows "getProposalRounds orderBy f wanted d =
    (let found = map (roundItem d) (filter (\<lambda>rd. status rd \<noteq> DELETED \<and> rd_roundStatus rd \<noteq> ROUND_INITIALIZED
           \<and> idFilter wanted (rowId rd)) (rows (proposal_rounds d)))
     in (pageOf f (orderBy found), length found))"
proof -
  let ?shown = "\<lambda>rd. status rd \<noteq> DELETED \<and> rd_roundStatus rd \<noteq> ROUND_INITIALIZED \<and> idFilter wanted (rowId rd)"
  let ?f = "\<lambda>rd. if ?shown rd then [roundItem d rd] else []"
  have author: "leftJoin (filter (\<lambda>u. map_option pr_user_id p = Some (rowId u)) (rows (users d)))
      = [Option.bind p (\<lambda>p. byId (pr_user_id p) (users d))]" for p
    using leftJoin_byId [OF assms(3), of "map_option pr_user_id p"] by (cases p) simp_all
  have joined: "joinRounds wanted d = concat (map ?f (rows (proposal_rounds d)))"
    unfolding joinRounds_def leftJoin_byId [OF assms(2)] author
    by (intro arg_cong [of _ _ concat] map_cong) (simp_all add: roundItem_def Let_def)
  have "groupRows (\<lambda>i. rowId (ri_round i)) (concat (map ?f (rows (proposal_rounds d))))
      = filter (\<lambda>g. g \<noteq> []) (map ?f (rows (proposal_rounds d)))"
    by (rule groupRows_keyed [where k = rowId])
      (use assms(1) in \<open>auto simp: tblInv_def roundItem_def Let_def split: if_splits\<close>)
  moreover have "map hd (filter (\<lambda>g. g \<noteq> []) (map ?f xs)) = map (roundItem d) (filter ?shown xs)" for xs
    by (induction xs) auto
  ultimately show ?thesis by (simp add: getProposalRounds_def joined Let_def)
qed

section \<open>Short tables\<close>

lemma groups_of_ids: "tblInv t \<Longrightarrow> map hd (groupRows rowId (liveRows t)) = liveRows t"
proof -
  assume inv: "tblInv t"
  have "distinct (map rowId (liveRows t))" using inv by (simp add: tblInv_def liveRows_def distinct_map_filter)
  then have "groupRows rowId (concat (map (\<lambda>r. [r]) (liveRows t))) = filter (\<lambda>g. g \<noteq> []) (map (\<lambda>r. [r]) (liveRows t))"
    by (rule groupRows_keyed) simp
  then show ?thesis by (simp add: comp_def filter_map)
qed

text \<open>Without an order in the request the reward table is read from the smallest value.\<close>

lemma reward_points_ordered:
  assumes "tblInv (reward_pointss d)" and "qf_orderStr f = None"
  shows "sorted (map rp_value (fst (getRewardPoints orderBy f d)))"
    and "snd (getRewardPoints orderBy f d) = length (liveRows (reward_pointss d))"
proof -
  have "sorted (map rp_value (sort_key rp_value (liveRows (reward_pointss d))))" by simp
  then have "sorted (pageOf f (map rp_value (sort_key rp_value (liveRows (reward_pointss d)))))"
    unfolding pageOf_def by (intro sorted_wrt_take sorted_wrt_drop)
  then show "sorted (map rp_value (fst (getRewardPoints orderBy f d)))"
    using assms by (simp add: getRewardPoints_def groups_of_ids map_pageOf Let_def)
  show "snd (getRewardPoints orderBy f d) = length (liveRows (reward_pointss d))"
    using assms(1) by (simp add: getRewardPoints_def groups_of_ids Let_def)
qed

lemma collateral_tokens_listed:
  "tblInv (collateral_tokens d) \<Longrightarrow> getCollateralTokens orderBy f d =
     (pageOf f (orderBy (liveRows (collateral_tokens d))), length (liveRows (collateral_tokens d)))"
  by (simp add: getCollateralTokens_def groups_of_ids Let_def)

end
