(* ===== verification/Migrator.thy ===== *)
theory Migrator
  imports Effects Settings Connection_Pool
begin

text \<open>
  Upgrading and resetting the database: \<open>lib/database/migrations.ts\<close>,
  \<open>lib/database/sql-migrator.ts\<close> and the scripts that call it.  The migration
  library, which runs the numbered scripts and keeps their table, is a parameter
  with a state of its own.
\<close>

section \<open>Handles\<close>

record pool_config =
  pc_database :: setting
  pc_host :: setting
  pc_port :: setting
  pc_user :: setting
  pc_password :: setting

record migration_handle =
  mh_pool :: pool_config
  mh_ssl :: "(string \<times> string option \<times> string option) option"
  mh_table :: string
  mh_dir :: string
  mh_silent :: bool

text \<open>\<open>ml_up\<close> and \<open>ml_down\<close> take the number of scripts to run, if the caller gives one.\<close>

record 'w migration_lib =
  ml_initialize :: "migration_handle \<Rightarrow> (exn, 'w, unit) action"
  ml_up :: "migration_handle \<Rightarrow> int option \<Rightarrow> (exn, 'w, unit) action"
  ml_down :: "migration_handle \<Rightarrow> int option \<Rightarrow> (exn, 'w, unit) action"
  ml_reset :: "migration_handle \<Rightarrow> (exn, 'w, unit) action"
  ml_destroy :: "migration_handle \<Rightarrow> (exn, 'w, unit) action"

text \<open>The two variables of the module, and the database.\<close>

record 'w migrator =
  mg_db :: "migration_handle option"
  mg_seed :: "migration_handle option"
  mg_world :: 'w

text \<open>What \<open>env\<close> and the file system give to an operation.\<close>

record migration_env =
  me_settings :: settings
  me_file :: "string \<Rightarrow> (exn, string) res"

definition onWorld :: "(exn, 'w, 'a) action \<Rightarrow> (exn, 'w migrator, 'a) action" where
  "onWorld = focusW mg_world (\<lambda>w s. s\<lparr>mg_world := w\<rparr>)"

text \<open>A call of a method on the handle of a variable; on \<open>null\<close> it is a \<open>TypeError\<close>.\<close>

definition callOn ::
  "('w migrator \<Rightarrow> migration_handle option) \<Rightarrow> (migration_handle \<Rightarrow> (exn, 'w, unit) action)
    \<Rightarrow> (exn, 'w migrator, unit) action" where
  "callOn which call = (\<lambda>s. case which s of
     None \<Rightarrow> (Inl (JsError ''TypeError''), s) | Some h \<Rightarrow> onWorld (call h) s)"

definition readIf :: "migration_env \<Rightarrow> setting \<Rightarrow> (exn, string option) res" where
  "readIf e v = (if truthy v then bindR (me_file e (jsText v)) (\<lambda>t. Inr (Some t)) else Inr None)"

definition sslFiles :: "migration_env \<Rightarrow> (exn, (string \<times> string option \<times> string option) option) res" where
  "sslFiles e =
    (let s = me_settings e in
     if truthy (s ''MYSQL_SSL_CA_FILE'')
     then bindR (me_file e (jsText (s ''MYSQL_SSL_CA_FILE''))) (\<lambda>ca.
          bindR (readIf e (s ''MYSQL_SSL_KEY_FILE'')) (\<lambda>key.
          bindR (readIf e (s ''MYSQL_SSL_CERT_FILE'')) (\<lambda>cert. Inr (Some (ca, key, cert)))))
     else Inr None)"

definition isTesting :: "migration_env \<Rightarrow> bool" where
  "isTesting e \<longleftrightarrow> me_settings e ''APP_ENV'' = Text ''test''"

definition handleFor ::
  "migration_env \<Rightarrow> pool_config \<Rightarrow> (string \<times> string option \<times> string option) option \<Rightarrow> string \<Rightarrow> string
    \<Rightarrow> migration_handle" where
  "handleFor e c ssl table dir =
    \<lparr>mh_pool = c, mh_ssl = ssl, mh_table = table, mh_dir = dir, mh_silent = isTesting e\<rparr>"

definition setHandles ::
  "migration_env \<Rightarrow> pool_config \<Rightarrow> (string \<times> string option \<times> string option) option \<Rightarrow> 'w migrator \<Rightarrow> 'w migrator" where
  "setHandles e c ssl s = s\<lparr>
     mg_db := Some (handleFor e c ssl ''migrations'' ''./src/migration-scripts/migrations''),
     mg_seed := Some (handleFor e c ssl ''seeds'' ''./src/migration-scripts/seeds'')\<rparr>"

definition initMigrations ::
  "'w migration_lib \<Rightarrow> migration_env \<Rightarrow> pool_config \<Rightarrow> (exn, 'w migrator, unit) action" where
  "initMigrations lib e c = bindW (liftW (sslFiles e)) (\<lambda>ssl.
     if isTesting e \<and> \<not> isTestDatabase (jsText (pc_database c))
     then throwW (JsError (''!!! '' @ jsText (pc_database c) @ '' NOT TEST DATABASE? !!!''))
     else bindW (\<lambda>s. (Inr (), setHandles e c ssl s)) (\<lambda>_.
          bindW (callOn mg_db (ml_initialize lib)) (\<lambda>_. callOn mg_seed (ml_initialize lib))))"

text \<open>\<open>if (!handle) await initMigrations(...)\<close>.\<close>

definition initUnless ::
  "('w migrator \<Rightarrow> bool) \<Rightarrow> 'w migration_lib \<Rightarrow> migration_env \<Rightarrow> pool_config \<Rightarrow> (exn, 'w migrator, unit) action" where
  "initUnless have_it lib e c = stateW (\<lambda>s. if have_it s then returnW () else initMigrations lib e c)"

section \<open>The operations of the module\<close>

definition upgradeDatabase where
  "upgradeDatabase lib e c steps =
    bindW (initUnless (\<lambda>s. mg_db s \<noteq> None) lib e c) (\<lambda>_. callOn mg_db (\<lambda>h. ml_up lib h steps))"

definition setupDatabase where
  "setupDatabase lib e c =
    bindW (initUnless (\<lambda>s. mg_db s \<noteq> None) lib e c) (\<lambda>_. callOn mg_db (\<lambda>h. ml_up lib h None))"

definition downgradeDatabase where
  "downgradeDatabase lib e c steps =
    bindW (initUnless (\<lambda>s. mg_db s \<noteq> None) lib e c) (\<lambda>_. callOn mg_db (\<lambda>h. ml_down lib h steps))"

definition rebuildDatabase where
  "rebuildDatabase lib e c =
    bindW (initUnless (\<lambda>s. mg_db s \<noteq> None) lib e c) (\<lambda>_. callOn mg_db (ml_reset lib))"

definition clearDatabase where
  "clearDatabase lib e c = rebuildDatabase lib e c"

definition destroyMigrations where
  "destroyMigrations lib = callOn mg_db (ml_destroy lib)"

definition dropDatabase where
  "dropDatabase lib e c =
    bindW (initUnless (\<lambda>s. mg_db s \<noteq> None \<and> mg_seed s \<noteq> None) lib e c) (\<lambda>_.
    bindW (callOn mg_seed (\<lambda>h. ml_down lib h (Some (- 1)))) (\<lambda>_.
    bindW (callOn mg_db (\<lambda>h. ml_down lib h (Some (- 1)))) (\<lambda>_.
    callOn mg_db (ml_destroy lib))))"

definition seedDatabase where
  "seedDatabase lib e c steps =
    bindW (initUnless (\<lambda>s. mg_seed s \<noteq> None) lib e c) (\<lambda>_. callOn mg_seed (\<lambda>h. ml_up lib h steps))"

definition unseedDatabase where
  "unseedDatabase lib e c steps =
    bindW (initUnless (\<lambda>s. mg_seed s \<noteq> None) lib e c) (\<lambda>_. callOn mg_seed (\<lambda>h. ml_down lib h steps))"

datatype migration_op =
  Setup | Upgrade "int option" | Downgrade "int option" | Clear | Rebuild | DropDb
  | Seed "int option" | Unseed "int option" | Destroy

fun runOp :: "'w migration_lib \<Rightarrow> migration_env \<Rightarrow> pool_config \<Rightarrow> migration_op \<Rightarrow> (exn, 'w migrator, unit) action" where
  "runOp lib e c Setup = setupDatabase lib e c"
| "runOp lib e c (Upgrade n) = upgradeDatabase lib e c n"
| "runOp lib e c (Downgrade n) = downgradeDatabase lib e c n"
| "runOp lib e c Clear = clearDatabase lib e c"
| "runOp lib e c Rebuild = rebuildDatabase lib e c"
| "runOp lib e c DropDb = dropDatabase lib e c"
| "runOp lib e c (Seed n) = seedDatabase lib e c n"
| "runOp lib e c (Unseed n) = unseedDatabase lib e c n"
| "runOp lib e c Destroy = destroyMigrations lib"

lemmas op_defs = setupDatabase_def upgradeDatabase_def downgradeDatabase_def clearDatabase_def
  rebuildDatabase_def dropDatabase_def seedDatabase_def unseedDatabase_def destroyMigrations_def

section \<open>The migrator and its questions\<close>

text \<open>
  The answer to the question, if one is asked, as the number of steps; without one
  the caller leaves.  \<open>resolve(true)\<close> after \<open>resolve(false)\<close> has no effect.
\<close>

definition nonZero :: "int option \<Rightarrow> int option" where
  "nonZero n = (if n = Some 0 then None else n)"

definition askUp :: "string \<Rightarrow> int option" where
  "askUp answer = (if toLowerCase answer = ''y'' then Some 0 else nonZero (parseIntAny answer))"

definition askDown :: "string \<Rightarrow> int option" where
  "askDown answer = nonZero (parseInt answer)"

definition orAll :: "int \<Rightarrow> int" where
  "orAll n = (if n = 0 then - 1 else n)"

definition withAnswer ::
  "(string \<Rightarrow> int option) \<Rightarrow> string option \<Rightarrow> int \<Rightarrow> (int \<Rightarrow> (exn, 's, unit) action) \<Rightarrow> (exn, 's, bool) action" where
  "withAnswer ask dialog steps run = (case dialog of
      None \<Rightarrow> bindW (run steps) (\<lambda>_. returnW True)
    | Some a \<Rightarrow> (case ask a of None \<Rightarrow> returnW False | Some n \<Rightarrow> bindW (run n) (\<lambda>_. returnW True)))"

definition upgrade where
  "upgrade lib e c dialog steps = withAnswer askUp dialog steps (\<lambda>n. upgradeDatabase lib e c (Some n))"

definition downgrade where
  "downgrade lib e c dialog steps = withAnswer askDown dialog steps (\<lambda>n. downgradeDatabase lib e c (Some (orAll n)))"

definition seed where
  "seed lib e c dialog steps = withAnswer askUp dialog steps (\<lambda>n. seedDatabase lib e c (Some n))"

definition unseed where
  "unseed lib e c dialog steps = withAnswer askDown dialog steps (\<lambda>n. unseedDatabase lib e c (Some (orAll n)))"

definition rebuild where
  "rebuild lib e c dialog =
    withAnswer (\<lambda>a. if toLowerCase a = ''yes'' then Some 0 else None) dialog 0 (\<lambda>_.
      bindW (rebuildDatabase lib e c) (\<lambda>_. seedDatabase lib e c None))"

text \<open>The scripts: the settings they connect with, and \<open>--F\<close> that skips the question.\<close>

definition mainConfig :: "settings \<Rightarrow> pool_config" where
  "mainConfig s = \<lparr>pc_database = s ''MYSQL_DATABASE'', pc_host = s ''MYSQL_HOST'', pc_port = s ''MYSQL_PORT'',
     pc_user = s ''MYSQL_USER'', pc_password = s ''MYSQL_PASSWORD''\<rparr>"

definition testConfig :: "settings \<Rightarrow> pool_config" where
  "testConfig s = \<lparr>pc_database = s ''MYSQL_DATABASE_TEST'', pc_host = s ''MYSQL_HOST_TEST'', pc_port = s ''MYSQL_PORT_TEST'',
     pc_user = s ''MYSQL_USER_TEST'', pc_password = s ''MYSQL_PASSWORD_TEST''\<rparr>"

definition dialogOf :: "string list \<Rightarrow> string \<Rightarrow> string option" where
  "dialogOf args answer = (if ''--F'' \<in> set args then None else Some answer)"

definition upgradeDb where
  "upgradeDb lib e args answer = upgrade lib e (mainConfig (me_settings e)) (dialogOf args answer) 0"

definition downgradeDb where
  "downgradeDb lib e args answer = downgrade lib e (mainConfig (me_settings e)) (dialogOf args answer) (- 1)"

definition seedDb where
  "seedDb lib e args answer = seed lib e (mainConfig (me_settings e)) (dialogOf args answer) 0"

definition unseedDb where
  "unseedDb lib e args answer = unseed lib e (mainConfig (me_settings e)) (dialogOf args answer) (- 1)"

definition rebuildDb where
  "rebuildDb lib e args answer = rebuild lib e (mainConfig (me_settings e)) (dialogOf args answer)"

definition rebuildTestDb where
  "rebuildTestDb lib e = rebuild lib e (testConfig (me_settings e)) None"

section \<open>Calls on handles\<close>

lemma callOn_handles [simp]:
  "mg_db (snd (callOn which call s)) = mg_db s" "mg_seed (snd (callOn which call s)) = mg_seed s"
  by (simp_all add: callOn_def onWorld_def focusW_def split: option.split prod.split)

lemma initUnless_have: "have_it s \<Longrightarrow> initUnless have_it lib e c s = (Inr (), s)"
  by (simp add: initUnless_def stateW_def returnW_def)

lemma initUnless_missing: "\<not> have_it s \<Longrightarrow> initUnless have_it lib e c s = initMigrations lib e c s"
  by (simp add: initUnless_def stateW_def)

lemma bindW_keeps_handles:
  assumes "\<And>x s. mg_db (snd (f x s)) = mg_db s \<and> mg_seed (snd (f x s)) = mg_seed s"
  shows "mg_db (snd (bindW m f s)) = mg_db (snd (m s))" "mg_seed (snd (bindW m f s)) = mg_seed (snd (m s))"
  using assms by (auto simp: bindW_def split: prod.split sum.split)

text \<open>Every operation: perhaps the set-up, then calls on the two handles only.\<close>

definition opRest :: "'w migration_lib \<Rightarrow> migration_op \<Rightarrow> (exn, 'w migrator, unit) action" where
  "opRest lib op = (case op of
      Setup \<Rightarrow> callOn mg_db (\<lambda>h. ml_up lib h None)
    | Upgrade n \<Rightarrow> callOn mg_db (\<lambda>h. ml_up lib h n)
    | Downgrade n \<Rightarrow> callOn mg_db (\<lambda>h. ml_down lib h n)
    | Clear \<Rightarrow> callOn mg_db (ml_reset lib)
    | Rebuild \<Rightarrow> callOn mg_db (ml_reset lib)
    | DropDb \<Rightarrow> bindW (callOn mg_seed (\<lambda>h. ml_down lib h (Some (- 1)))) (\<lambda>_.
                bindW (callOn mg_db (\<lambda>h. ml_down lib h (Some (- 1)))) (\<lambda>_. callOn mg_db (ml_destroy lib)))
    | Seed n \<Rightarrow> callOn mg_seed (\<lambda>h. ml_up lib h n)
    | Unseed n \<Rightarrow> callOn mg_seed (\<lambda>h. ml_down lib h n)
    | Destroy \<Rightarrow> callOn mg_db (ml_destroy lib))"

fun opHas :: "migration_op \<Rightarrow> 'w migrator \<Rightarrow> bool" where
  "opHas (Seed n) s = (mg_seed s \<noteq> None)"
| "opHas (Unseed n) s = (mg_seed s \<noteq> None)"
| "opHas DropDb s = (mg_db s \<noteq> None \<and> mg_seed s \<noteq> None)"
| "opHas Destroy s = True"
| "opHas _ s = (mg_db s \<noteq> None)"

lemma runOp_parts: "runOp lib e c op s = bindW (initUnless (opHas op) lib e c) (\<lambda>_. opRest lib op) s"
  by (cases op) (simp_all add: op_defs opRest_def bindW_def initUnless_def stateW_def returnW_def)

lemma opRest_handles:
  "mg_db (snd (opRest lib op s)) = mg_db s" "mg_seed (snd (opRest lib op s)) = mg_seed s"
  by (cases op; simp add: opRest_def bindW_keeps_handles)+

section \<open>The two handles\<close>

text \<open>Both handles are there or neither, on one pool, each with its own table.\<close>

definition handlesPaired :: "'w migrator \<Rightarrow> bool" where
  "handlesPaired s \<longleftrightarrow> (case (mg_db s, mg_seed s) of
      (None, None) \<Rightarrow> True
    | (Some h, Some k) \<Rightarrow> mh_pool h = mh_pool k \<and> mh_table h = ''migrations'' \<and> mh_table k = ''seeds''
    | _ \<Rightarrow> False)"

lemma initMigrations_eq:
  "initMigrations lib e c s = (case sslFiles e of
      Inl x \<Rightarrow> (Inl x, s)
    | Inr ssl \<Rightarrow>
        if isTesting e \<and> \<not> isTestDatabase (jsText (pc_database c))
        then (Inl (JsError (''!!! '' @ jsText (pc_database c) @ '' NOT TEST DATABASE? !!!'')), s)
        else bindW (callOn mg_db (ml_initialize lib)) (\<lambda>_. callOn mg_seed (ml_initialize lib)) (setHandles e c ssl s))"
  by (auto simp: initMigrations_def liftW_def bindW_def throwW_def split: sum.split)

lemma setHandles_paired: "handlesPaired (setHandles e c ssl s)"
  by (simp add: setHandles_def handlesPaired_def handleFor_def)

lemma paired_cong:
  "mg_db s = mg_db t \<Longrightarrow> mg_seed s = mg_seed t \<Longrightarrow> handlesPaired s = handlesPaired t"
  by (simp add: handlesPaired_def)

lemma two_calls_paired:
  "handlesPaired t \<Longrightarrow> handlesPaired (snd (bindW (callOn mg_db i) (\<lambda>_. callOn mg_seed j) t))"
  by (subst paired_cong [of _ t]) (simp_all add: bindW_keeps_handles)

lemma initMigrations_handles:
  "handlesPaired s \<Longrightarrow> handlesPaired (snd (initMigrations lib e c s))"
  by (auto simp: initMigrations_eq two_calls_paired setHandles_paired split: sum.split)

lemma handles_stay_paired:
  assumes "handlesPaired s"
  shows "handlesPaired (snd (runOp lib e c op s))"
proof -
  have "handlesPaired (snd (initUnless (opHas op) lib e c s))"
    using assms initMigrations_handles [OF assms]
    by (cases "opHas op s") (simp_all add: initUnless_have initUnless_missing)
  then show ?thesis
    by (subst paired_cong [of _ "snd (initUnless (opHas op) lib e c s)"])
      (simp_all add: runOp_parts bindW_keeps_handles opRest_handles)
qed

text \<open>
  Once a database was migrated the arguments of later calls are ignored: whatever
  database they name, the first one is changed.
\<close>

lemma first_database_stays:
  assumes "handlesPaired s" and "mg_db s = Some h"
  shows "runOp lib e c op s = runOp lib e' c' op s" and "mg_db (snd (runOp lib e c op s)) = Some h"
proof -
  obtain k where "mg_seed s = Some k"
    using assms by (auto simp: handlesPaired_def split: option.splits)
  with assms(2) have have_it: "opHas op s" by (cases op) auto
  have run: "runOp lib e c op s = opRest lib op s" for e c
    unfolding runOp_parts by (rule bindW_step) (simp add: initUnless_have have_it)
  then show "runOp lib e c op s = runOp lib e' c' op s" by simp
  show "mg_db (snd (runOp lib e c op s)) = Some h" by (simp add: run opRest_handles assms(2))
qed

text \<open>Under test a database whose name does not say so is not touched.\<close>

lemma wrong_database_untouched:
  assumes "mg_db s = None" and "mg_seed s = None" and "op \<noteq> Destroy"
    and "isTesting e" and "\<not> isTestDatabase (jsText (pc_database c))"
  shows "\<exists>x. runOp lib e c op s = (Inl x, s)"
proof -
  have "\<not> opHas op s" using assms(1-3) by (cases op) auto
  moreover have "\<exists>x. initMigrations lib e c s = (Inl x, s)"
    using assms(4,5) by (cases "sslFiles e") (simp_all add: initMigrations_eq)
  ultimately obtain x where "initUnless (opHas op) lib e c s = (Inl x, s)"
    by (auto simp: initUnless_missing)
  then show ?thesis by (auto simp: runOp_parts bindW_Inl)
qed

text \<open>
  The handles are kept when their set-up fails, so the next call runs scripts on a
  library that was never initialised.
\<close>

lemma failed_set_up_is_kept:
  fixes e :: migration_env and c :: pool_config and s :: "'w migrator"
  assumes "mg_db s = None" and "sslFiles e = Inr ssl" and "\<not> isTesting e"
    and "\<And>h w. ml_initialize lib h w = (Inl x, w)"
  defines "h \<equiv> handleFor e c ssl ''migrations'' ''./src/migration-scripts/migrations''"
  shows "fst (upgradeDatabase lib e c n s) = Inl x"
    and "fst (upgradeDatabase lib e' c' n (snd (upgradeDatabase lib e c n s))) = fst (ml_up lib h n (mg_world s))"
proof -
  have 1: "upgradeDatabase lib e c n s = (Inl x, setHandles e c ssl s)"
    using assms(1-4)
    by (simp add: upgradeDatabase_def initUnless_def stateW_def initMigrations_eq bindW_def
        callOn_def onWorld_def focusW_def setHandles_def)
  then show "fst (upgradeDatabase lib e c n s) = Inl x" by simp
  show "fst (upgradeDatabase lib e' c' n (snd (upgradeDatabase lib e c n s))) = fst (ml_up lib h n (mg_world s))"
    unfolding 1 by (simp add: setHandles_def h_def upgradeDatabase_def initUnless_def stateW_def returnW_def bindW_def
        callOn_def onWorld_def focusW_def split: prod.split)
qed

text \<open>Dropping destroys the connection but keeps its handle for later calls.\<close>

lemma dropped_handle_is_kept:
  assumes "handlesPaired s" and "mg_db s = Some h"
  shows "mg_db (snd (dropDatabase lib e c s)) = Some h"
  using first_database_stays(2) [OF assms, of lib e c DropDb] by simp

section \<open>Answers\<close>

text \<open>A number other than zero is taken as the number of steps, a negative one too.\<close>

lemma toLowerCase_y: "toLowerCase a = ''y'' \<Longrightarrow> parseIntAny a = None"
proof -
  assume "toLowerCase a = ''y''"
  then obtain ch where a: "a = [ch]" and ch: "lowerChar ch = CHR ''y''" by (auto simp: toLowerCase_def)
  have "ch = CHR ''y'' \<or> ch = CHR ''Y''"
  proof (cases "65 \<le> (of_char ch :: nat) \<and> (of_char ch :: nat) \<le> 90")
    case True
    then have "char_of (of_char ch + 32 :: nat) = CHR ''y''" using ch by (simp add: lowerChar_def Let_def)
    then have "(of_char (char_of (of_char ch + 32 :: nat) :: char) :: nat) = of_char CHR ''y''" by simp
    then have "(of_char ch :: nat) = of_char CHR ''Y''" using True by (simp add: of_char_of)
    then show ?thesis by (simp only: of_char_eq_iff) simp
  next
    case False
    then show ?thesis using ch by (auto simp: lowerChar_def Let_def)
  qed
  then have "a = ''y'' \<or> a = ''Y''" using a by auto
  moreover have "parseIntAny ''y'' = None" "parseIntAny ''Y'' = None" by code_simp+
  ultimately show ?thesis by auto
qed

lemma askUp_number: "askUp (jsInt n) = (if n = 0 then None else Some n)"
proof -
  have "toLowerCase (jsInt n) \<noteq> ''y''" using toLowerCase_y [of "jsInt n"] by auto
  then show ?thesis by (simp add: askUp_def nonZero_def)
qed

lemma askDown_number: "askDown (jsInt n) = (if n = 0 then None else Some n)"
  by (simp add: askDown_def nonZero_def)

lemma upgrade_leaves:
  assumes "askUp a = None"
  shows "upgrade lib e c (Some a) n s = (Inr False, s)" and "seed lib e c (Some a) n s = (Inr False, s)"
  using assms by (simp_all add: upgrade_def seed_def withAnswer_def returnW_def)

lemma upgrade_asked:
  assumes "n \<noteq> 0"
  shows "upgrade lib e c (Some (jsInt n)) m = upgrade lib e c None n"
    and "downgrade lib e c (Some (jsInt n)) m = downgrade lib e c None n"
  using assms by (simp_all add: upgrade_def downgrade_def withAnswer_def askUp_number askDown_number)

text \<open>Zero steps back, given by a caller without a question, removes every table.\<close>

lemma zero_steps_down_is_all: "downgrade lib e c None 0 = downgrade lib e c None (- 1)"
  by (simp add: downgrade_def withAnswer_def orAll_def)

text \<open>A rebuild seeds what it has reset, and seeds nothing when the reset failed.\<close>

lemma rebuild_seeds_after_reset:
  assumes "handlesPaired s" and "mg_db s = Some h" and "mg_seed s = Some k"
  shows "rebuild lib e c None s = (case ml_reset lib h (mg_world s) of
      (Inl x, w) \<Rightarrow> (Inl x, s\<lparr>mg_world := w\<rparr>)
    | (Inr _, w) \<Rightarrow> (case ml_up lib k None w of
         (Inl x, v) \<Rightarrow> (Inl x, s\<lparr>mg_world := v\<rparr>)
       | (Inr _, v) \<Rightarrow> (Inr True, s\<lparr>mg_world := v\<rparr>)))"
  using assms(2,3)
  by (simp add: rebuild_def withAnswer_def rebuildDatabase_def seedDatabase_def initUnless_def stateW_def returnW_def
      bindW_def callOn_def onWorld_def focusW_def split: prod.split sum.split)

lemma refused_rebuild:
  "toLowerCase a \<noteq> ''yes'' \<Longrightarrow> rebuild lib e c (Some a) s = (Inr False, s)"
  by (simp add: rebuild_def withAnswer_def returnW_def)

text \<open>The script for the test database asks nothing, and checks the name only under test.\<close>

lemma test_rebuild_resets:
  fixes e :: migration_env and s :: "'w migrator"
  assumes "mg_db s = None" and "\<not> isTesting e" and "sslFiles e = Inr ssl"
    and "\<And>h w. ml_initialize lib h w = (Inr (), w)"
  defines "h \<equiv> handleFor e (testConfig (me_settings e)) ssl ''migrations'' ''./src/migration-scripts/migrations''"
  assumes "ml_reset lib h (mg_world s) = (Inl x, w)"
  shows "rebuildTestDb lib e s = (Inl x, (setHandles e (testConfig (me_settings e)) ssl s)\<lparr>mg_world := w\<rparr>)"
  using assms
  by (simp add: rebuildTestDb_def rebuild_def withAnswer_def rebuildDatabase_def initUnless_def stateW_def
      initMigrations_eq setHandles_def bindW_def callOn_def onWorld_def focusW_def)

end
