(* ===== verification/Mailer.thy ===== *)
theory Mailer
  imports Effects Settings User_Service
begin

text \<open>
  Mail: \<open>lib/mailing\<close> and the verification mail of the user service.  The transport,
  the file system and the template engine are parameters; a compiled template is
  the text it was compiled from.  Names of templates are names of files; those that
  every JavaScript object has as a member are not considered.
\<close>

section \<open>Messages and the state of the mailer\<close>

record mail_message =
  mm_from :: string
  mm_to :: string
  mm_subject :: "string option"
  mm_html :: string
  mm_attachments :: "string list"
  mm_bcc :: "string option"

record transport =
  tr_host :: setting
  tr_port :: setting
  tr_secure :: bool
  tr_user :: setting
  tr_pass :: setting

type_synonym template_values = "string \<rightharpoonup> string"

record email_data =
  ed_templateName :: string
  ed_mailFrom :: "string option"
  ed_senderName :: string
  ed_mailAddresses :: "string list"
  ed_subject :: "string option"
  ed_templateData :: "template_values option"
  ed_attachments :: "string list"
  ed_bccEmail :: "string option"

text \<open>
  \<open>ma_render\<close> takes a template, the registered partials and the values;
  \<open>ma_sendMail\<close> gives the number of accepted addresses, or the message of its error.
\<close>

record 'w mail_lib =
  ma_readFile :: "string \<Rightarrow> (exn, 'w, string) action"
  ma_render :: "string \<Rightarrow> (string \<rightharpoonup> string) \<Rightarrow> template_values \<Rightarrow> (exn, string) res"
  ma_sendMail :: "transport \<Rightarrow> mail_message \<Rightarrow> (string, 'w, nat option) action"
  ma_verify :: "transport \<Rightarrow> (exn, 'w, unit) action"
  ma_fetchSecrets :: "settings \<Rightarrow> string \<Rightarrow> (exn, secret_fields option) res"
  ma_dirname :: string

record 'w mailer =
  mr_env :: env_state
  mr_templates :: "string \<rightharpoonup> string"
  mr_partials :: "string \<rightharpoonup> string"
  mr_world :: 'w

abbreviation mailWorld :: "('e, 'w, 'a) action \<Rightarrow> ('e, 'w mailer, 'a) action" where
  "mailWorld \<equiv> focusW mr_world (\<lambda>w s. s\<lparr>mr_world := w\<rparr>)"

definition envSecrets :: "'w mail_lib \<Rightarrow> (exn, 'w mailer, settings) action" where
  "envSecrets lib = (\<lambda>s. case getEnvSecrets (ma_fetchSecrets lib) (mr_env s) of (e, es) \<Rightarrow> (Inr e, s\<lparr>mr_env := es\<rparr>))"

definition envNow :: "('w mailer \<Rightarrow> 'x) \<Rightarrow> (exn, 'w mailer, 'x) action" where
  "envNow f = (\<lambda>s. (Inr (f s), s))"

definition isTest :: "settings \<Rightarrow> bool" where
  "isTest e \<longleftrightarrow> e ''APP_ENV'' = Text ''test''"

text \<open>\<open>port == 465\<close>, where a text is compared as a number.\<close>

definition securePort :: "setting \<Rightarrow> bool" where
  "securePort v \<longleftrightarrow> v = Num 465 \<or> v = Text ''465''"

definition transportOptions :: "settings \<Rightarrow> transport" where
  "transportOptions e =
    \<lparr>tr_host = e ''SMTP_HOST'', tr_port = e ''SMTP_PORT'', tr_secure = securePort (e ''SMTP_PORT''),
     tr_user = e ''SMTP_USERNAME'', tr_pass = e ''SMTP_PASSWORD''\<rparr>"

section \<open>Sending\<close>

definition SMTPsend :: "'w mail_lib \<Rightarrow> mail_message \<Rightarrow> (exn, 'w mailer, bool) action" where
  "SMTPsend lib mail = bindW (envSecrets lib) (\<lambda>e.
     if isTest e then returnW True
     else bindW (catchW (mailWorld (ma_sendMail lib (transportOptions e) mail))
                   (\<lambda>_. throwW (CodeException 500 ERROR_SENDING_EMAIL)))
            (\<lambda>accepted. returnW (case accepted of None \<Rightarrow> False | Some n \<Rightarrow> 0 < n)))"

definition SMTPverify :: "'w mail_lib \<Rightarrow> (exn, 'w mailer, bool) action" where
  "SMTPverify lib = bindW (envSecrets lib) (\<lambda>e.
     bindW (mailWorld (ma_verify lib (transportOptions e))) (\<lambda>_. returnW True))"

section \<open>Templates\<close>

definition templateDir :: "'w mail_lib \<Rightarrow> settings \<Rightarrow> string" where
  "templateDir lib e = (if truthy (e ''MAIL_TEMPLATE_PATH'') then jsText (e ''MAIL_TEMPLATE_PATH'')
                        else ma_dirname lib @ ''/templates'')"

definition getTemplate :: "'w mail_lib \<Rightarrow> string \<Rightarrow> (exn, 'w mailer, string option) action" where
  "getTemplate lib name = (\<lambda>s. case mr_templates s name of
      Some t \<Rightarrow> (Inr (Some t), s)
    | None \<Rightarrow>
        (case ma_readFile lib (templateDir lib (es_env (mr_env s)) @ ''/'' @ name @ ''.html'') (mr_world s) of
           (Inl x, w) \<Rightarrow> (Inr None, s\<lparr>mr_world := w\<rparr>)
         | (Inr html, w) \<Rightarrow> (Inr (Some html), s\<lparr>mr_templates := (mr_templates s)(name \<mapsto> html), mr_world := w\<rparr>)))"

text \<open>The values of the one known template, with the text of the code line by line.\<close>

definition textLines :: "string list \<Rightarrow> string" where
  "textLines ls = joinWith [CHR 0x0A] ls"

definition verificationText :: string where
  "verificationText = textLines
    [[],
     ''      <p>'',
     ''        We just need to verify your email address to complete your account setup. Click the button below to verify your email address.'',
     ''      </p>'',
     ''      '']"

definition verificationText2 :: string where
  \<open>verificationText2 = textLines
    [[],
     ''      <p>'',
     ''        If you need additional assistance, or you received this email in error, please contact us at <a href="mailto:info@ignitemarket.xyz">info@ignitemarket.xyz</a>.'',
     ''        <br/><br/><br/>'',
     ''        Cheers,<br/>'',
     ''        The Ignite Market team'',
     ''      </p>'',
     ''      '']\<close>

definition generateTemplateData :: "string \<Rightarrow> template_values option \<Rightarrow> (exn, template_values option) res" where
  "generateTemplateData key d = (case d of
      None \<Rightarrow> Inl (JsError ''TypeError'')
    | Some v \<Rightarrow> Inr (if key \<noteq> ''email-verification'' then None
        else Some ([''subject'' \<mapsto> ''Verify your email address'', ''title'' \<mapsto> ''Greetings from Ignite Market!'',
                    ''text'' \<mapsto> verificationText, ''actionText'' \<mapsto> ''Verify your email'',
                    ''text2'' \<mapsto> verificationText2] (''actionUrl'' := v ''actionUrl''))))"

definition spread :: "template_values \<Rightarrow> template_values option \<Rightarrow> template_values" where
  "spread m v = (case v of None \<Rightarrow> m | Some f \<Rightarrow> m ++ f)"

definition appValues :: "settings \<Rightarrow> template_values" where
  "appValues e = [''APP_URL'' \<mapsto> jsText (e ''APP_URL'')]"

section \<open>Mails from templates\<close>

text \<open>Under test only addresses of the company are kept.\<close>

definition keptAddresses :: "settings \<Rightarrow> string list \<Rightarrow> string list" where
  "keptAddresses e as = (if isTest e then filter (\<lambda>a. includesText a ''@kalmia.si'') as else as)"

definition senderOf :: "settings \<Rightarrow> email_data \<Rightarrow> string" where
  "senderOf e d = (if ed_senderName d = [] then jsText (e ''SMTP_NAME_FROM'') else ed_senderName d)"

definition deliver :: "'w mail_lib \<Rightarrow> settings \<Rightarrow> mail_message \<Rightarrow> (exn, 'w mailer, bool) action" where
  "deliver lib e mail = (if isTest e \<and> mm_to mail = [] then returnW True else SMTPsend lib mail)"

definition SMTPsendTemplate :: "'w mail_lib \<Rightarrow> email_data \<Rightarrow> (exn, 'w mailer, bool) action" where
  "SMTPsendTemplate lib d = bindW (getTemplate lib (ed_templateName d)) (\<lambda>t. case t of
      None \<Rightarrow> throwW (CodeException 404 TEMPLATE_NOT_FOUND)
    | Some template \<Rightarrow>
        bindW (envNow (\<lambda>s. es_env (mr_env s))) (\<lambda>e.
        bindW (envNow mr_partials) (\<lambda>ps.
        bindW (liftW (ma_render lib template ps (spread (appValues e) (ed_templateData d)))) (\<lambda>html.
        deliver lib e
          \<lparr>mm_from = senderOf e d @ ''>'', mm_to = joinWith '';'' (keptAddresses e (ed_mailAddresses d)),
           mm_subject = ed_subject d, mm_html = html, mm_attachments = ed_attachments d, mm_bcc = ed_bccEmail d\<rparr>))))"

text \<open>\<open>registerPartial(name, template({}))\<close>; a template that was not found is no function.\<close>

definition registerPartial :: "'w mail_lib \<Rightarrow> string \<Rightarrow> string option \<Rightarrow> (exn, 'w mailer, unit) action" where
  "registerPartial lib name t = (case t of
      None \<Rightarrow> throwW (JsError ''TypeError'')
    | Some template \<Rightarrow>
        bindW (envNow mr_partials) (\<lambda>ps.
        bindW (liftW (ma_render lib template ps Map.empty)) (\<lambda>html s.
          (Inr (), s\<lparr>mr_partials := (mr_partials s)(name \<mapsto> html)\<rparr>))))"

definition defaultMail :: "settings \<Rightarrow> email_data \<Rightarrow> template_values \<Rightarrow> string \<Rightarrow> mail_message" where
  "defaultMail e d v html =
    \<lparr>mm_from = senderOf e d @ '' <'' @ jsText (e ''SMTP_EMAIL_FROM'') @ ''>'',
     mm_to = joinWith '';'' (keptAddresses e (ed_mailAddresses d)), mm_subject = v ''subject'',
     mm_html = html, mm_attachments = ed_attachments d, mm_bcc = ed_bccEmail d\<rparr>"

definition defaultValues :: "settings \<Rightarrow> email_data \<Rightarrow> (exn, template_values) res" where
  "defaultValues e d = bindR (generateTemplateData (ed_templateName d) (ed_templateData d))
     (\<lambda>g. Inr (spread (spread (appValues e) g) (ed_templateData d)))"

definition SMTPsendDefaultTemplate :: "'w mail_lib \<Rightarrow> email_data \<Rightarrow> (exn, 'w mailer, bool) action" where
  "SMTPsendDefaultTemplate lib d =
    bindW (getTemplate lib ''head'') (\<lambda>header.
    bindW (getTemplate lib ''footer'') (\<lambda>footer.
    bindW (getTemplate lib ''body'') (\<lambda>body.
    bindW (registerPartial lib ''header'' header) (\<lambda>_.
    bindW (registerPartial lib ''footer'' footer) (\<lambda>_.
    if header = None \<or> footer = None \<or> body = None then throwW (CodeException 404 TEMPLATE_NOT_FOUND)
    else
      bindW (envNow (\<lambda>s. es_env (mr_env s))) (\<lambda>e.
      bindW (liftW (defaultValues e d)) (\<lambda>v.
      bindW (envNow mr_partials) (\<lambda>ps.
      bindW (liftW (ma_render lib (the body) ps v)) (\<lambda>html. deliver lib e (defaultMail e d v html))))))))))"

text \<open>
  The verification mail as the user service sends it; the answer of the mailer is
  not looked at.
\<close>

definition verificationData :: "string \<Rightarrow> string \<Rightarrow> email_data" where
  "verificationData email url =
    \<lparr>ed_templateName = ''email-verification'', ed_mailFrom = None, ed_senderName = [], ed_mailAddresses = [email],
     ed_subject = Some ''Email verification'', ed_templateData = Some [''actionUrl'' \<mapsto> url],
     ed_attachments = [], ed_bccEmail = None\<rparr>"

definition verificationMail :: "'w mail_lib \<Rightarrow> string \<Rightarrow> string \<Rightarrow> (exn, 'w mailer, unit) action" where
  "verificationMail lib email url =
    bindW (SMTPsendDefaultTemplate lib (verificationData email url)) (\<lambda>_. returnW ())"


section \<open>The transport\<close>

lemma envSecrets_ready:
  "es_ready (mr_env s) \<Longrightarrow> envSecrets lib s = (Inr (es_env (mr_env s)), s)"
  by (simp add: envSecrets_def getEnvSecrets_def Let_def)

text \<open>Under test no mail leaves the process.\<close>

lemma test_sends_nothing:
  assumes "es_ready (mr_env s)" and "isTest (es_env (mr_env s))"
  shows "SMTPsend lib mail s = (Inr True, s)"
  using assms by (simp add: SMTPsend_def bindW_def envSecrets_ready returnW_def)

lemma deliver_under_test:
  assumes "es_ready (mr_env s)" and "isTest (es_env (mr_env s))"
  shows "deliver lib e mail s = (Inr True, s)"
  using test_sends_nothing [OF assms] by (simp add: deliver_def returnW_def)

lemma send_answers:
  assumes "es_ready (mr_env s)" and "\<not> isTest (es_env (mr_env s))"
    and "ma_sendMail lib (transportOptions (es_env (mr_env s))) mail (mr_world s) = (r, w)"
  shows "SMTPsend lib mail s =
    ((case r of Inl m \<Rightarrow> Inl (CodeException 500 ERROR_SENDING_EMAIL)
              | Inr None \<Rightarrow> Inr False | Inr (Some n) \<Rightarrow> Inr (0 < n)), s\<lparr>mr_world := w\<rparr>)"
  using assms
  by (auto simp: SMTPsend_def bindW_def envSecrets_ready catchW_def focusW_def throwW_def returnW_def
      split: sum.split option.split)

section \<open>Templates\<close>

text \<open>A template is read once; a failed read is tried again at the next mail.\<close>

lemma template_read_once:
  assumes "getTemplate lib name s = (Inr (Some t), s')"
  shows "getTemplate lib' name s' = (Inr (Some t), s')"
  using assms by (auto simp: getTemplate_def split: option.splits prod.splits sum.splits)

lemma failed_read_not_cached:
  assumes "getTemplate lib name s = (Inr None, s')"
  shows "mr_templates s' = mr_templates s" and "mr_templates s name = None"
  using assms by (auto simp: getTemplate_def split: option.splits prod.splits sum.splits)

lemma getTemplate_total: "\<exists>t s'. getTemplate lib name s = (Inr t, s')"
  by (auto simp: getTemplate_def split: option.splits prod.splits sum.splits)

lemma getTemplate_cached: "mr_templates s name = Some t \<Longrightarrow> getTemplate lib name s = (Inr (Some t), s)"
  by (simp add: getTemplate_def)

lemma getTemplate_keeps:
  "getTemplate lib name s = (r, s') \<Longrightarrow> mr_env s' = mr_env s \<and> mr_partials s' = mr_partials s"
  by (auto simp: getTemplate_def split: option.splits prod.splits sum.splits)

text \<open>
  A missing header or footer is called as a function before the check that answers
  \<open>TEMPLATE_NOT_FOUND\<close>: the caller gets a \<open>TypeError\<close>, an error of the server.
\<close>

lemma missing_header_is_type_error:
  assumes "\<And>s. fst (getTemplate lib ''head'' s) = Inr None"
  shows "fst (SMTPsendDefaultTemplate lib d s) = Inl (JsError ''TypeError'')"
proof -
  obtain s1 where 1: "getTemplate lib ''head'' s = (Inr None, s1)" using assms [of s] by (metis prod.collapse)
  obtain f s2 where 2: "getTemplate lib ''footer'' s1 = (Inr f, s2)" using getTemplate_total by metis
  obtain b s3 where 3: "getTemplate lib ''body'' s2 = (Inr b, s3)" using getTemplate_total by metis
  show ?thesis
    by (simp add: SMTPsendDefaultTemplate_def bindW_def 1 2 3 registerPartial_def throwW_def)
qed

section \<open>The default mail\<close>

definition templatesCached :: "string \<Rightarrow> string \<Rightarrow> string \<Rightarrow> 'w mailer \<Rightarrow> bool" where
  "templatesCached h f b s \<longleftrightarrow>
     mr_templates s ''head'' = Some h \<and> mr_templates s ''footer'' = Some f \<and> mr_templates s ''body'' = Some b"

lemma registerPartial_ok:
  assumes "ma_render lib t (mr_partials s) Map.empty = Inr html"
  shows "registerPartial lib name (Some t) s = (Inr (), s\<lparr>mr_partials := (mr_partials s)(name \<mapsto> html)\<rparr>)"
  using assms by (simp add: registerPartial_def bindW_def envNow_def liftW_def)

text \<open>With the templates at hand a mail is its values, its text and the delivery.\<close>

lemma default_mail:
  assumes "templatesCached h f b s"
    and "ma_render lib h (mr_partials s) Map.empty = Inr hh"
    and "ma_render lib f ((mr_partials s)(''header'' \<mapsto> hh)) Map.empty = Inr ff"
  defines "ps \<equiv> (mr_partials s)(''header'' \<mapsto> hh, ''footer'' \<mapsto> ff)"
  assumes "defaultValues (es_env (mr_env s)) d = Inr v"
    and "ma_render lib b ps v = Inr html"
  shows "SMTPsendDefaultTemplate lib d s =
    deliver lib (es_env (mr_env s)) (defaultMail (es_env (mr_env s)) d v html) (s\<lparr>mr_partials := ps\<rparr>)"
proof -
  let ?s1 = "s\<lparr>mr_partials := (mr_partials s)(''header'' \<mapsto> hh)\<rparr>"
  have t: "getTemplate lib ''head'' s = (Inr (Some h), s)" "getTemplate lib ''footer'' s = (Inr (Some f), s)"
    "getTemplate lib ''body'' s = (Inr (Some b), s)"
    using assms(1) by (simp_all add: templatesCached_def getTemplate_cached)
  have p1: "registerPartial lib ''header'' (Some h) s = (Inr (), ?s1)" by (rule registerPartial_ok) fact
  have p2: "registerPartial lib ''footer'' (Some f) ?s1 = (Inr (), s\<lparr>mr_partials := ps\<rparr>)"
    using registerPartial_ok [of lib f ?s1 ff "''footer''"] assms(3) by (simp add: ps_def)
  show ?thesis
    by (simp add: SMTPsendDefaultTemplate_def bindW_def t p1 p2 envNow_def liftW_def assms(5,6))
qed

text \<open>The subject is the template's; the one the caller gives is never used.\<close>

lemma verification_values:
  "defaultValues e (verificationData email url) = Inr v \<Longrightarrow>
     v ''subject'' = Some ''Verify your email address'' \<and> v ''actionUrl'' = Some url"
  by (auto simp: defaultValues_def verificationData_def generateTemplateData_def spread_def appValues_def)

lemma subject_is_the_templates:
  assumes "defaultValues e (verificationData email url) = Inr v"
  shows "mm_subject (defaultMail e (verificationData email url) v html) = Some ''Verify your email address''"
    and "mm_to (defaultMail e (verificationData email url) v html) = (if isTest e \<and> \<not> includesText email ''@kalmia.si'' then [] else email)"
  using verification_values [OF assms]
  by (simp_all add: defaultMail_def verificationData_def keptAddresses_def)

lemma defaultValues_verification: "\<exists>v. defaultValues e (verificationData email url) = Inr v"
  by (simp add: defaultValues_def verificationData_def generateTemplateData_def)

text \<open>
  A mail no server accepted is a successful answer: the verification counts as sent.
\<close>

lemma unaccepted_mail_is_sent:
  assumes "templatesCached h f b s"
    and "\<And>t ps v. \<exists>x. ma_render lib t ps v = Inr x"
    and "es_ready (mr_env s)" and "\<not> isTest (es_env (mr_env s))"
    and "\<And>t m w. ma_sendMail lib t m w = (Inr (Some 0), w)"
  shows "fst (SMTPsendDefaultTemplate lib (verificationData email url) s) = Inr False"
    and "fst (verificationMail lib email url s) = Inr ()"
proof -
  obtain v where v: "defaultValues (es_env (mr_env s)) (verificationData email url) = Inr v"
    using defaultValues_verification by blast
  obtain hh where hh: "ma_render lib h (mr_partials s) Map.empty = Inr hh" using assms(2) by blast
  obtain ff where ff: "ma_render lib f ((mr_partials s)(''header'' \<mapsto> hh)) Map.empty = Inr ff" using assms(2) by blast
  obtain html where html: "ma_render lib b ((mr_partials s)(''header'' \<mapsto> hh, ''footer'' \<mapsto> ff)) v = Inr html"
    using assms(2) by blast
  have "SMTPsendDefaultTemplate lib (verificationData email url) s = (Inr False, s\<lparr>mr_partials :=
      (mr_partials s)(''header'' \<mapsto> hh, ''footer'' \<mapsto> ff)\<rparr>)"
    unfolding default_mail [OF assms(1) hh ff v html]
    using assms(3-5) by (simp add: deliver_def send_answers [OF _ _ assms(5)])
  then show "fst (SMTPsendDefaultTemplate lib (verificationData email url) s) = Inr False"
    and "fst (verificationMail lib email url s) = Inr ()"
    by (simp_all add: verificationMail_def bindW_def returnW_def)
qed

text \<open>
  The sender is read before the secrets are awaited: the first mail of a process may
  carry the default sender while its transport has the account of the secrets.
\<close>

lemma first_mail_has_default_sender:
  assumes "templatesCached h f b s"
    and "\<And>t ps v. \<exists>x. ma_render lib t ps v = Inr x"
    and "\<not> isTest (es_env (mr_env s))"
  obtains m s' where "SMTPsendDefaultTemplate lib (verificationData email url) s = SMTPsend lib m s'"
    and "mm_from m = jsText (es_env (mr_env s) ''SMTP_NAME_FROM'') @ '' <'' @ jsText (es_env (mr_env s) ''SMTP_EMAIL_FROM'') @ ''>''"
    and "mr_env s' = mr_env s"
proof -
  obtain v where v: "defaultValues (es_env (mr_env s)) (verificationData email url) = Inr v"
    using defaultValues_verification by blast
  obtain hh where hh: "ma_render lib h (mr_partials s) Map.empty = Inr hh" using assms(2) by blast
  obtain ff where ff: "ma_render lib f ((mr_partials s)(''header'' \<mapsto> hh)) Map.empty = Inr ff" using assms(2) by blast
  obtain html where html: "ma_render lib b ((mr_partials s)(''header'' \<mapsto> hh, ''footer'' \<mapsto> ff)) v = Inr html"
    using assms(2) by blast
  show thesis
  proof (rule that)
    show "SMTPsendDefaultTemplate lib (verificationData email url) s =
        SMTPsend lib (defaultMail (es_env (mr_env s)) (verificationData email url) v html)
          (s\<lparr>mr_partials := (mr_partials s)(''header'' \<mapsto> hh, ''footer'' \<mapsto> ff)\<rparr>)"
      unfolding default_mail [OF assms(1) hh ff v html] using assms(3) by (simp add: deliver_def)
  qed (simp_all add: defaultMail_def senderOf_def verificationData_def)
qed

text \<open>
  The user service stores the address although no server accepted the mail: the
  account waits for a mail that will not come.
\<close>

lemma address_stored_without_mail:
  assumes "templatesCached h f b s"
    and "\<And>t ps v. \<exists>x. ma_render lib t ps v = Inr x"
    and "es_ready (mr_env s)" and "\<not> isTest (es_env (mr_env s))"
    and "\<And>t m w. ma_sendMail lib t m w = (Inr (Some 0), w)" and "email \<noteq> []"
  shows "sendEmailVerification sign (\<lambda>a url. fst (verificationMail lib a url s)) app me email = Inr ()"
  using unaccepted_mail_is_sent(2) [OF assms(1-5)] assms(6) by (simp add: sendEmailVerification_def)

end
