(* ===== verification/Response_Cache.thy ===== *)
theory Response_Cache
  imports Effects Js_String Types_Config
begin

text \<open>
  Answers kept in Redis: \<open>lib/cache.ts\<close>, \<open>interceptors/cache.interceptor.ts\<close> and the
  options of \<open>decorators/cache.decorator.ts\<close>.  The server is a parameter with a state;
  the connections of the process are counted, as each \<open>connect\<close> makes a client of
  its own.  JSON is a parameter.
\<close>

section \<open>The client\<close>

record 'w redis =
  rd_connect :: "(exn, 'w, unit) action"
  rd_quit :: "(exn, 'w, unit) action"
  rd_get :: "string \<Rightarrow> (exn, 'w, string option) action"
  rd_set :: "string \<Rightarrow> string \<Rightarrow> int \<Rightarrow> (exn, 'w, unit) action"
  rd_del :: "string list \<Rightarrow> (exn, 'w, unit) action"
  rd_keys :: "string \<Rightarrow> (exn, 'w, string list) action"
  rd_flushAll :: "(exn, 'w, unit) action"

record 'v json =
  jn_parse :: "string \<Rightarrow> 'v option"
  jn_stringify :: "'v \<Rightarrow> string"
  jn_truthy :: "'v \<Rightarrow> bool"

text \<open>\<open>cs_client\<close> says that the cache object has a client, \<open>cs_open\<close> counts open connections.\<close>

record 'w cache_state =
  cs_client :: bool
  cs_open :: nat
  cs_world :: 'w

abbreviation onRedis :: "('e, 'w, 'a) action \<Rightarrow> ('e, 'w cache_state, 'a) action" where
  "onRedis \<equiv> focusW cs_world (\<lambda>w s. s\<lparr>cs_world := w\<rparr>)"

definition newCache :: "(exn, 'w cache_state, unit) action" where
  "newCache = (\<lambda>s. (Inr (), s\<lparr>cs_client := False\<rparr>))"

definition redisConnect :: "'w redis \<Rightarrow> (exn, 'w cache_state, unit) action" where
  "redisConnect rd = (\<lambda>s. case onRedis (rd_connect rd) (s\<lparr>cs_client := True\<rparr>) of
     (Inl e, s') \<Rightarrow> (Inl e, s') | (Inr u, s') \<Rightarrow> (Inr u, s'\<lparr>cs_open := Suc (cs_open s')\<rparr>))"

definition disconnect :: "'w redis \<Rightarrow> (exn, 'w cache_state, unit) action" where
  "disconnect rd = (\<lambda>s. if cs_client s
     then (case onRedis (rd_quit rd) s of
             (Inl e, s') \<Rightarrow> (Inr (), s') | (Inr u, s') \<Rightarrow> (Inr u, s'\<lparr>cs_open := cs_open s' - 1\<rparr>))
     else (Inr (), s))"

definition getKey :: "'v json \<Rightarrow> 'w redis \<Rightarrow> string \<Rightarrow> (exn, 'w cache_state, 'v option) action" where
  "getKey jn rd key = bindW (onRedis (rd_get rd key)) (\<lambda>d. case d of
      None \<Rightarrow> returnW None
    | Some t \<Rightarrow> if t = [] then returnW None
               else (case jn_parse jn t of None \<Rightarrow> throwW (JsError ''SyntaxError'') | Some v \<Rightarrow> returnW (Some v)))"

definition setKey :: "'v json \<Rightarrow> 'w redis \<Rightarrow> string \<Rightarrow> 'v \<Rightarrow> int \<Rightarrow> (exn, 'w cache_state, unit) action" where
  "setKey jn rd key v expire = onRedis (rd_set rd key (jn_stringify jn v) expire)"

definition removeKey :: "'w redis \<Rightarrow> string \<Rightarrow> (exn, 'w cache_state, unit) action" where
  "removeKey rd key = onRedis (rd_del rd [key])"

definition removeMatch :: "'w redis \<Rightarrow> string \<Rightarrow> (exn, 'w cache_state, unit) action" where
  "removeMatch rd pat = bindW (onRedis (rd_keys rd pat))
     (\<lambda>ks. if ks = [] then returnW () else onRedis (rd_del rd ks))"

definition flush :: "'w redis \<Rightarrow> (exn, 'w cache_state, unit) action" where
  "flush rd = onRedis (rd_flushAll rd)"

section \<open>Keys\<close>

type_synonym object = "(string \<times> string) list"

definition flatObject :: "object option \<Rightarrow> string \<Rightarrow> string" where
  "flatObject obj joinChar = (case obj of
      None \<Rightarrow> []
    | Some fs \<Rightarrow> joinWith joinChar (map (\<lambda>(k, v). k @ '':'' @ v) fs))"

text \<open>A user id of zero counts as none.\<close>

definition generateCacheKey ::
  "string \<Rightarrow> string \<Rightarrow> object option \<Rightarrow> object option \<Rightarrow> nat option \<Rightarrow> string" where
  "generateCacheKey pre path query params user_id =
    pre @ ''#'' @ path @ ''@'' @ (case user_id of None \<Rightarrow> [] | Some u \<Rightarrow> if u = 0 then [] else ''user_id:'' @ decimal u)
      @ ''|'' @ flatObject params ''/'' @ ''|'' @ flatObject query ''/''"

record match_options =
  mo_path :: "string option"
  mo_params :: "object option"
  mo_user_uuid :: "string option"
  mo_project_uuid :: "string option"

definition keyPattern :: "string \<Rightarrow> match_options \<Rightarrow> string" where
  "keyPattern pre m =
    pre @ ''#'' @ (case mo_path m of None \<Rightarrow> ''*@'' | Some p \<Rightarrow> if p = [] then ''*@'' else p @ '':'')
      @ (case mo_user_uuid m of None \<Rightarrow> [] | Some u \<Rightarrow> if u = [] then [] else ''user_uuid:'' @ u)
      @ ''*'' @ (case mo_project_uuid m of None \<Rightarrow> [] | Some p \<Rightarrow> if p = [] then [] else ''project_uuid:'' @ p)
      @ ''*'' @ flatObject (mo_params m) ''*'' @ ''*''"

section \<open>Cached results\<close>

text \<open>\<open>try { m } catch { log }\<close>, where nothing is needed of the result.\<close>

definition logged :: "(exn, 's, unit) action \<Rightarrow> (exn, 's, unit) action" where
  "logged m = catchW m (\<lambda>_. returnW ())"

text \<open>The lookup both users of the cache begin with: a value that counts as true, or nothing.\<close>

definition lookup :: "'v json \<Rightarrow> 'w redis \<Rightarrow> string \<Rightarrow> (exn, 'w cache_state, 'v option) action" where
  "lookup jn rd key =
    catchW
      (bindW (redisConnect rd) (\<lambda>_.
       bindW (getKey jn rd key) (\<lambda>r. case r of
           None \<Rightarrow> returnW None
         | Some v \<Rightarrow> if jn_truthy jn v then bindW (disconnect rd) (\<lambda>_. returnW (Some v)) else returnW None)))
      (\<lambda>_. returnW None)"

definition runCachedFunction ::
  "bool \<Rightarrow> 'v json \<Rightarrow> 'w redis \<Rightarrow> string \<Rightarrow> (exn, 'w cache_state, 'v) action \<Rightarrow> int
    \<Rightarrow> (exn, 'w cache_state, 'v) action" where
  "runCachedFunction hasUrl jn rd key act expire =
    (if \<not> hasUrl then act
     else bindW newCache (\<lambda>_.
          bindW (lookup jn rd key) (\<lambda>hit. case hit of
            Some v \<Rightarrow> returnW v
          | None \<Rightarrow>
              bindW act (\<lambda>v.
              bindW (logged (bindW (setKey jn rd key v expire) (\<lambda>_. disconnect rd))) (\<lambda>_. returnW v)))))"

definition invalidateCacheMatch ::
  "bool \<Rightarrow> 'w redis \<Rightarrow> string \<Rightarrow> match_options \<Rightarrow> bool \<Rightarrow> (exn, 'w cache_state, unit) action" where
  "invalidateCacheMatch hasUrl rd pre m shared =
    (if \<not> hasUrl then returnW ()
     else logged
       (if shared then removeMatch rd (keyPattern pre m)
        else bindW newCache (\<lambda>_. bindW (redisConnect rd) (\<lambda>_.
             bindW (removeMatch rd (keyPattern pre m)) (\<lambda>_. disconnect rd)))))"

fun eachW :: "('x \<Rightarrow> ('e, 's, unit) action) \<Rightarrow> 'x list \<Rightarrow> ('e, 's, unit) action" where
  "eachW f [] = returnW ()"
| "eachW f (x # xs) = bindW (f x) (\<lambda>_. eachW f xs)"

definition userOptions :: "string option \<Rightarrow> string option \<Rightarrow> match_options" where
  "userOptions user project = \<lparr>mo_path = None, mo_params = None, mo_user_uuid = user, mo_project_uuid = project\<rparr>"

definition invalidateCachePrefixes ::
  "bool \<Rightarrow> 'w redis \<Rightarrow> string list \<Rightarrow> string option \<Rightarrow> string option \<Rightarrow> (exn, 'w cache_state, unit) action" where
  "invalidateCachePrefixes hasUrl rd prefixes user project =
    (if \<not> hasUrl then returnW ()
     else bindW newCache (\<lambda>_. bindW (redisConnect rd) (\<lambda>_.
          bindW (eachW (\<lambda>p. invalidateCacheMatch hasUrl rd p (userOptions user project) True) prefixes)
            (\<lambda>_. disconnect rd))))"

definition invalidateCacheKey :: "bool \<Rightarrow> 'w redis \<Rightarrow> string \<Rightarrow> (exn, 'w cache_state, unit) action" where
  "invalidateCacheKey hasUrl rd key =
    (if \<not> hasUrl then returnW ()
     else logged (bindW newCache (\<lambda>_. bindW (redisConnect rd) (\<lambda>_.
                  bindW (removeKey rd key) (\<lambda>_. disconnect rd)))))"

definition flushCache :: "bool \<Rightarrow> 'w redis \<Rightarrow> (exn, 'w cache_state, unit) action" where
  "flushCache hasUrl rd =
    (if \<not> hasUrl then returnW ()
     else logged (bindW newCache (\<lambda>_. bindW (redisConnect rd) (\<lambda>_. bindW (flush rd) (\<lambda>_. disconnect rd)))))"

section \<open>The interceptor\<close>

record cache_options =
  co_enabled :: bool
  co_byUser :: bool
  co_byProject :: bool
  co_keyPrefix :: string
  co_ttl :: int

definition defaultOptions :: "int \<Rightarrow> cache_options" where
  "defaultOptions ttl = \<lparr>co_enabled = True, co_byUser = False, co_byProject = False, co_keyPrefix = [], co_ttl = ttl\<rparr>"

record cached_request =
  cr_method :: string
  cr_path :: string
  cr_query :: "object option"
  cr_params :: "object option"
  cr_user :: "nat option"

text \<open>The answer is stored after it was sent, on a second connection of the same object.\<close>

definition runCachedInterception ::
  "bool \<Rightarrow> 'v json \<Rightarrow> ('v \<Rightarrow> bool) \<Rightarrow> 'w redis \<Rightarrow> string \<Rightarrow> (exn, 'w cache_state, 'v) action \<Rightarrow> int
    \<Rightarrow> (exn, 'w cache_state, 'v) action" where
  "runCachedInterception hasUrl jn isFile rd key act expire =
    (if \<not> hasUrl then act
     else bindW newCache (\<lambda>_.
          bindW (lookup jn rd key) (\<lambda>hit. case hit of
            Some v \<Rightarrow> returnW v
          | None \<Rightarrow>
              bindW act (\<lambda>v.
              bindW (if isFile v then returnW ()
                     else logged (bindW (redisConnect rd) (\<lambda>_.
                            bindW (setKey jn rd key v expire) (\<lambda>_. disconnect rd)))) (\<lambda>_. returnW v)))))"

definition intercept ::
  "bool \<Rightarrow> bool \<Rightarrow> 'v json \<Rightarrow> ('v \<Rightarrow> bool) \<Rightarrow> 'w redis \<Rightarrow> cache_options option \<Rightarrow> cached_request
    \<Rightarrow> (exn, 'w cache_state, 'v) action \<Rightarrow> (exn, 'w cache_state, 'v) action" where
  "intercept testing hasUrl jn isFile rd opts rq act = (case opts of
      None \<Rightarrow> act
    | Some co \<Rightarrow>
        if \<not> co_enabled co \<or> cr_method rq \<noteq> ''GET'' \<or> testing then act
        else runCachedInterception hasUrl jn isFile rd
               (generateCacheKey (co_keyPrefix co) (cr_path rq) (cr_query rq) (cr_params rq)
                 (if co_byUser co then cr_user rq else None))
               act (co_ttl co))"

section \<open>Hits, misses and connections\<close>

lemma lookup_hit:
  assumes "rd_connect rd (cs_world s) = (Inr (), w1)" and "rd_get rd key w1 = (Inr (Some t), w2)"
    and "t \<noteq> []" and "jn_parse jn t = Some v" and "jn_truthy jn v" and "rd_quit rd w2 = (Inr (), w3)"
  shows "lookup jn rd key s = (Inr (Some v), s\<lparr>cs_client := True, cs_world := w3\<rparr>)"
  using assms
  by (simp add: lookup_def redisConnect_def focusW_def getKey_def disconnect_def act_defs)

lemma lookup_miss:
  assumes "rd_connect rd (cs_world s) = (Inr (), w1)" and "rd_get rd key w1 = (Inr d, w2)"
    and "\<And>t v. d = Some t \<Longrightarrow> t \<noteq> [] \<Longrightarrow> jn_parse jn t = Some v \<Longrightarrow> \<not> jn_truthy jn v"
  shows "lookup jn rd key s =
    (Inr None, s\<lparr>cs_client := True, cs_open := Suc (cs_open s), cs_world := w2\<rparr>)"
  using assms
  by (auto simp: lookup_def redisConnect_def focusW_def getKey_def act_defs split: option.split if_split)

text \<open>A stored value is given back without running the action, on a connection that is closed again.\<close>

lemma cached_value_served:
  assumes "rd_connect rd (cs_world s) = (Inr (), w1)" and "rd_get rd key w1 = (Inr (Some t), w2)"
    and "t \<noteq> []" and "jn_parse jn t = Some v" and "jn_truthy jn v" and "rd_quit rd w2 = (Inr (), w3)"
  shows "runCachedFunction True jn rd key act ttl s = (Inr v, s\<lparr>cs_client := True, cs_world := w3\<rparr>)"
    and "runCachedInterception True jn isFile rd key act ttl s = (Inr v, s\<lparr>cs_client := True, cs_world := w3\<rparr>)"
proof -
  have "lookup jn rd key (s\<lparr>cs_client := False\<rparr>) = (Inr (Some v), s\<lparr>cs_client := True, cs_world := w3\<rparr>)"
    using lookup_hit [of rd "s\<lparr>cs_client := False\<rparr>" w1 key t w2 jn v w3] assms by simp
  then show "runCachedFunction True jn rd key act ttl s = (Inr v, s\<lparr>cs_client := True, cs_world := w3\<rparr>)"
    and "runCachedInterception True jn isFile rd key act ttl s = (Inr v, s\<lparr>cs_client := True, cs_world := w3\<rparr>)"
    by (simp_all add: runCachedFunction_def runCachedInterception_def newCache_def act_defs)
qed

text \<open>
  A miss answers with the action's value and stores it.  The function gives its
  connection back; the interceptor has made a second one by then and loses the first.
\<close>

lemma miss_stores_and_leaks:
  assumes "rd_connect rd (cs_world s) = (Inr (), w1)" and "rd_get rd key w1 = (Inr None, w2)"
    and "\<And>s. act s = (Inr v, s)"
  shows "\<lbrakk>rd_set rd key (jn_stringify jn v) ttl w2 = (Inr (), w3); rd_quit rd w3 = (Inr (), w4)\<rbrakk> \<Longrightarrow>
      runCachedFunction True jn rd key act ttl s = (Inr v, s\<lparr>cs_client := True, cs_world := w4\<rparr>)"
    and "\<lbrakk>\<not> isFile v; rd_connect rd w2 = (Inr (), u1); rd_set rd key (jn_stringify jn v) ttl u1 = (Inr (), u2);
          rd_quit rd u2 = (Inr (), u3)\<rbrakk> \<Longrightarrow>
      runCachedInterception True jn isFile rd key act ttl s =
        (Inr v, s\<lparr>cs_client := True, cs_open := Suc (cs_open s), cs_world := u3\<rparr>)"
proof -
  have miss: "lookup jn rd key (s\<lparr>cs_client := False\<rparr>) =
      (Inr None, s\<lparr>cs_client := True, cs_open := Suc (cs_open s), cs_world := w2\<rparr>)"
    using lookup_miss [of rd "s\<lparr>cs_client := False\<rparr>" w1 key None w2] assms(1,2) by simp
  show "\<lbrakk>rd_set rd key (jn_stringify jn v) ttl w2 = (Inr (), w3); rd_quit rd w3 = (Inr (), w4)\<rbrakk> \<Longrightarrow>
      runCachedFunction True jn rd key act ttl s = (Inr v, s\<lparr>cs_client := True, cs_world := w4\<rparr>)"
    using miss assms(3)
    by (simp add: runCachedFunction_def newCache_def setKey_def focusW_def disconnect_def logged_def act_defs)
  show "\<lbrakk>\<not> isFile v; rd_connect rd w2 = (Inr (), u1); rd_set rd key (jn_stringify jn v) ttl u1 = (Inr (), u2);
          rd_quit rd u2 = (Inr (), u3)\<rbrakk> \<Longrightarrow>
      runCachedInterception True jn isFile rd key act ttl s =
        (Inr v, s\<lparr>cs_client := True, cs_open := Suc (cs_open s), cs_world := u3\<rparr>)"
    using miss assms(3)
    by (simp add: runCachedInterception_def newCache_def setKey_def focusW_def disconnect_def logged_def
        redisConnect_def act_defs)
qed

text \<open>An empty list is true, but zero, the empty text and \<open>false\<close> are looked up in vain every time.\<close>

lemma false_value_runs_again:
  assumes "rd_connect rd (cs_world s) = (Inr (), w1)" and "rd_get rd key w1 = (Inr (Some t), w2)"
    and "jn_parse jn t = Some v" and "\<not> jn_truthy jn v" and "\<And>s. act s = (Inl x, s)"
  shows "fst (runCachedFunction True jn rd key act ttl s) = Inl x"
proof -
  have "lookup jn rd key (s\<lparr>cs_client := False\<rparr>) =
      (Inr None, s\<lparr>cs_client := True, cs_open := Suc (cs_open s), cs_world := w2\<rparr>)"
    using assms(1-4) by (subst lookup_miss [of rd "s\<lparr>cs_client := False\<rparr>" w1 key "Some t" w2 jn]) simp_all
  then show ?thesis using assms(5) by (simp add: runCachedFunction_def newCache_def act_defs)
qed

lemma logged_total: "\<exists>s'. logged m s = (Inr (), s')"
  by (cases "m s"; cases "fst (m s)") (simp_all add: logged_def act_defs)

text \<open>A server that is down costs the cache, not the answer.\<close>

lemma answer_without_server:
  assumes "\<And>w. rd_connect rd w = (Inl e, w)" and "\<And>s. fst (act s) = Inr v"
  shows "fst (runCachedFunction True jn rd key act ttl s) = Inr v"
    and "fst (runCachedInterception True jn isFile rd key act ttl s) = Inr v"
proof -
  have miss: "lookup jn rd key (s\<lparr>cs_client := False\<rparr>) = (Inr None, s\<lparr>cs_client := True\<rparr>)"
    using assms(1) by (simp add: lookup_def redisConnect_def focusW_def act_defs)
  obtain s1 where act: "act (s\<lparr>cs_client := True\<rparr>) = (Inr v, s1)"
    using assms(2) [of "s\<lparr>cs_client := True\<rparr>"] by (metis prod.collapse)
  show "fst (runCachedFunction True jn rd key act ttl s) = Inr v"
    using logged_total [of "bindW (setKey jn rd key v ttl) (\<lambda>_. disconnect rd)" s1]
    by (auto simp: runCachedFunction_def newCache_def bindW_def returnW_def miss act)
  show "fst (runCachedInterception True jn isFile rd key act ttl s) = Inr v"
    using logged_total [of "bindW (redisConnect rd) (\<lambda>_. bindW (setKey jn rd key v ttl) (\<lambda>_. disconnect rd))" s1]
    by (auto simp: runCachedInterception_def newCache_def bindW_def returnW_def miss act)
qed

section \<open>What a key tells apart\<close>

text \<open>Two users never share a personal key of the same request.\<close>

lemma users_do_not_share:
  assumes "u \<noteq> v"
  shows "generateCacheKey pre path query params (Some u) \<noteq> generateCacheKey pre path query params (Some v)"
  using assms by (cases "u = 0"; cases "v = 0") (simp_all add: generateCacheKey_def)

text \<open>Names and values are joined as they are: a value can stand for two fields.\<close>

lemma requests_can_share:
  "generateCacheKey pre path (Some [(''a'', ''1/b:2'')]) params user =
   generateCacheKey pre path (Some [(''a'', ''1''), (''b'', ''2'')]) params user"
  by (simp add: generateCacheKey_def flatObject_def)

text \<open>Without the two separators the text determines the fields.\<close>

definition plainField :: "string \<times> string \<Rightarrow> bool" where
  "plainField f \<longleftrightarrow> CHR '':'' \<notin> set (fst f) \<and> CHR ''/'' \<notin> set (fst f) \<and> CHR ''/'' \<notin> set (snd f)"

lemma split_first:
  assumes "c \<notin> set a" and "c \<notin> set b" and "a @ c # x = b @ c # y"
  shows "a = b \<and> x = y"
  using assms by (induction a arbitrary: b) (auto simp: Cons_eq_append_conv)

lemma field_inj: "plainField f \<Longrightarrow> plainField g \<Longrightarrow> fst f @ '':'' @ snd f = fst g @ '':'' @ snd g \<Longrightarrow> f = g"
  using split_first [of "CHR '':''" "fst f" "fst g" "snd f" "snd g"]
  by (simp add: plainField_def prod_eq_iff)

lemma joinWith_rest: "joinWith sep (x # xs) = x @ (if xs = [] then [] else sep @ joinWith sep xs)"
  by (cases xs) auto

lemma joinWith_Nil_iff: "list_all (\<lambda>t. t \<noteq> []) xs \<Longrightarrow> joinWith sep xs = [] \<longleftrightarrow> xs = []"
  by (cases xs) (auto simp: joinWith_rest)

lemma joinWith_slash_step:
  assumes "CHR ''/'' \<notin> set x" and "CHR ''/'' \<notin> set y"
    and "joinWith ''/'' (x # xs) = joinWith ''/'' (y # ys)"
  shows "x = y \<and> (xs = [] \<longleftrightarrow> ys = []) \<and> joinWith ''/'' xs = joinWith ''/'' ys"
proof (cases "xs = [] \<or> ys = []")
  case True
  have no: "x \<noteq> y @ CHR ''/'' # t" "x @ CHR ''/'' # t \<noteq> y" for t using assms(1,2) by auto
  show ?thesis
    using True assms(3) no by (cases "xs = []"; cases "ys = []") (simp_all add: joinWith_rest)
next
  case False
  then have "x @ CHR ''/'' # joinWith ''/'' xs = y @ CHR ''/'' # joinWith ''/'' ys"
    using assms(3) by (simp add: joinWith_rest)
  then show ?thesis using split_first [OF assms(1,2)] False by simp
qed

lemma joinWith_slash_inj:
  assumes "list_all (\<lambda>t. CHR ''/'' \<notin> set t \<and> t \<noteq> []) xs" and "list_all (\<lambda>t. CHR ''/'' \<notin> set t \<and> t \<noteq> []) ys"
    and "joinWith ''/'' xs = joinWith ''/'' ys"
  shows "xs = ys"
  using assms
proof (induction xs arbitrary: ys)
  case Nil
  then have "list_all (\<lambda>t. t \<noteq> []) ys" "joinWith ''/'' ys = []" by (auto simp: list_all_iff)
  then show ?case using joinWith_Nil_iff by metis
next
  case (Cons x xs)
  show ?case
  proof (cases ys)
    case Nil
    then show ?thesis using Cons.prems(1,3) by (simp add: joinWith_rest)
  next
    case ys: (Cons y zs)
    have "x = y \<and> (xs = [] \<longleftrightarrow> zs = []) \<and> joinWith ''/'' xs = joinWith ''/'' zs"
      by (rule joinWith_slash_step) (use Cons.prems ys in simp_all)
    then show ?thesis using Cons.IH [of zs] Cons.prems(1,2) ys by simp
  qed
qed

lemma flatObject_inj:
  assumes "list_all plainField xs" and "list_all plainField ys"
    and "flatObject (Some xs) ''/'' = flatObject (Some ys) ''/''"
  shows "xs = ys"
proof -
  let ?f = "\<lambda>(k, v). k @ '':'' @ v"
  have ok: "list_all (\<lambda>t. CHR ''/'' \<notin> set t \<and> t \<noteq> []) (map ?f zs)" if "list_all plainField zs" for zs
    using that by (auto simp: list_all_iff plainField_def)
  have "map ?f xs = map ?f ys"
    using joinWith_slash_inj [OF ok [OF assms(1)] ok [OF assms(2)]] assms(3) by (simp add: flatObject_def)
  moreover have "f = g" if "f \<in> set xs" "g \<in> set ys" "?f f = ?f g" for f g
    using that assms(1,2) field_inj [of f g] by (auto simp: list_all_iff split: prod.splits)
  ultimately show ?thesis by (intro list.inj_map_strong [of xs ys ?f ?f]) auto
qed

section \<open>Removing the keys of a user\<close>

text \<open>
  Redis matches a pattern literally but for its special characters: a piece of the
  pattern without them is part of every key it finds.
\<close>

definition plainPiece :: "string \<Rightarrow> bool" where
  "plainPiece t \<longleftrightarrow> set t \<inter> set ''*?[]^-'' = {} \<and> CHR 0x5C \<notin> set t"

definition occursIn :: "string \<Rightarrow> string \<Rightarrow> bool" where
  "occursIn t k \<longleftrightarrow> (\<exists>a b. k = a @ t @ b)"

definition matchesLiterally :: "'w redis \<Rightarrow> bool" where
  "matchesLiterally rd \<longleftrightarrow> (\<forall>pat w ks w' t. rd_keys rd pat w = (Inr ks, w') \<longrightarrow> plainPiece t \<longrightarrow> occursIn t pat
     \<longrightarrow> list_all (occursIn t) ks)"

lemma one_mark:
  assumes "x @ CHR ''_'' # c # y = a @ CHR ''_'' # d # b" and "CHR ''_'' \<notin> set a" and "CHR ''_'' \<notin> set (d # b)"
  shows "c = d"
proof -
  have "CHR ''_'' \<notin> set x"
  proof
    assume "CHR ''_'' \<in> set x"
    then obtain p q where "x = p @ CHR ''_'' # q" by (meson split_list)
    then have "count_list (x @ CHR ''_'' # c # y) (CHR ''_'') \<ge> 2" by simp
    moreover have "count_list (a @ CHR ''_'' # d # b) (CHR ''_'') = 1"
      using assms(2,3) by (auto simp: count_list_0_iff)
    ultimately show False using assms(1) by simp
  qed
  then show ?thesis using split_first [OF _ assms(2) assms(1)] by simp
qed

text \<open>
  Keys are written with \<open>user_id\<close> and searched with \<open>user_uuid\<close>: the personal
  answers of a user stay in the cache when they should be removed.
\<close>

lemma personal_keys_survive:
  assumes "matchesLiterally rd" and "u \<noteq> []" and "plainPiece u"
    and "rd_keys rd (keyPattern pre (userOptions (Some u) project)) w = (Inr ks, w')"
    and "CHR ''_'' \<notin> set (pre' @ path @ flatObject params ''/'' @ flatObject query ''/'')"
  shows "generateCacheKey pre' path query params (Some n) \<notin> set ks"
proof
  let ?k = "generateCacheKey pre' path query params (Some n)"
  assume "?k \<in> set ks"
  have "plainPiece (''user_uuid:'' @ u)" using assms(3) by (simp add: plainPiece_def)
  moreover have "occursIn (''user_uuid:'' @ u) (keyPattern pre (userOptions (Some u) project))"
  proof -
    have "keyPattern pre (userOptions (Some u) project) = (pre @ ''#*@'') @ (''user_uuid:'' @ u) @
        (''*'' @ (case project of None \<Rightarrow> [] | Some p \<Rightarrow> if p = [] then [] else ''project_uuid:'' @ p) @ ''**'')"
      using assms(2) by (simp add: keyPattern_def userOptions_def flatObject_def)
    then show ?thesis unfolding occursIn_def by blast
  qed
  ultimately have "list_all (occursIn (''user_uuid:'' @ u)) ks"
    using assms(1,4) unfolding matchesLiterally_def by blast
  with \<open>?k \<in> set ks\<close> obtain a b where k: "?k = a @ (''user_uuid:'' @ u) @ b"
    by (auto simp: list_all_iff occursIn_def)
  have digits: "CHR ''_'' \<notin> set (decimal n)" using decimal_digits [of "CHR ''_''" n] by auto
  show False
  proof (cases "n = 0")
    case True
    then have "CHR ''_'' \<notin> set ?k" using assms(5) by (simp add: generateCacheKey_def)
    then show False unfolding k by simp
  next
    case False
    then have "(a @ ''user'') @ CHR ''_'' # CHR ''u'' # (''uid:'' @ u @ b) =
        (pre' @ ''#'' @ path @ ''@user'') @ CHR ''_'' # CHR ''i'' # (''d:'' @ decimal n @ ''|'' @ flatObject params ''/'' @ ''|'' @ flatObject query ''/'')"
      using k by (simp add: generateCacheKey_def)
    from one_mark [OF this] show False using assms(5) digits by simp
  qed
qed

end
