(* ===== verification/Storage.thy ===== *)
theory Storage
  imports Effects Settings Support
begin

text \<open>
  Files in a bucket: \<open>lib/aws/aws-s3.ts\<close>, the upload links of
  \<open>modules/file/file.service.ts\<close>, and the message queue's single trigger
  (\<open>lib/aws/aws-sqs.ts\<close>).  The bucket's server is a parameter with a state; a deletion
  answers without an error also for objects it could not delete.
\<close>

section \<open>The client\<close>

record 'w bucket_server =
  bk_head :: "string \<Rightarrow> string \<Rightarrow> (exn, 'w, unit) action"
  bk_put :: "string \<Rightarrow> string \<Rightarrow> string \<Rightarrow> string \<Rightarrow> (exn, 'w, unit) action"
  bk_get :: "string \<Rightarrow> string \<Rightarrow> (exn, 'w, string) action"
  bk_list :: "string \<Rightarrow> string \<Rightarrow> string option \<Rightarrow> (exn, 'w, string list) action"
  bk_delete :: "string \<Rightarrow> string \<Rightarrow> (exn, 'w, unit) action"
  bk_deleteMany :: "string \<Rightarrow> string list \<Rightarrow> (exn, 'w, unit) action"
  bk_sign :: "string \<Rightarrow> string \<Rightarrow> (exn, string) res"

text \<open>Keys of the environment are used wherever both are set; the secret store takes them on a developer's machine only.\<close>

definition s3Client :: "settings \<Rightarrow> secrets_client" where
  "s3Client e =
    \<lparr>sc_credentials =
       (if truthy (e ''AWS_KEY'') \<and> truthy (e ''AWS_SECRET'')
        then Some (jsText (e ''AWS_KEY''), jsText (e ''AWS_SECRET'')) else None),
     sc_region = jsText (e ''AWS_REGION'')\<rparr>"

lemma s3_credentials:
  "sc_credentials (createClient e) \<noteq> None \<Longrightarrow> s3Client e = createClient e"
  by (simp add: s3Client_def createClient_def split: if_splits)

definition objectExists :: "'w bucket_server \<Rightarrow> string \<Rightarrow> string \<Rightarrow> (exn, 'w, bool) action" where
  "objectExists bk bucket source =
    catchW (bindW (bk_head bk bucket source) (\<lambda>_. returnW True)) (\<lambda>_. returnW False)"

definition upload where
  "upload bk bucket source body contentType = bk_put bk bucket source body contentType"

definition readObject :: "'w bucket_server \<Rightarrow> string \<Rightarrow> string \<Rightarrow> (exn, 'w, string) action" where
  "readObject bk bucket source = bk_get bk bucket source"

definition listFiles where
  "listFiles bk bucket pre startAfter = bk_list bk bucket pre startAfter"

definition removeObject where
  "removeObject bk bucket source = bk_delete bk bucket source"

definition generateSignedUploadURL :: "'w bucket_server \<Rightarrow> string \<Rightarrow> string \<Rightarrow> (exn, string) res" where
  "generateSignedUploadURL bk bucket key = bk_sign bk bucket key"

text \<open>\<open>do { ... } while (counter < keys.length)\<close>: the body runs at least once.\<close>

function removeFrom ::
  "'w bucket_server \<Rightarrow> string \<Rightarrow> string list \<Rightarrow> nat \<Rightarrow> 'w \<Rightarrow> (exn, bool) res \<times> 'w" where
  "removeFrom bk bucket keys counter w =
    (case bk_deleteMany bk bucket (take 1000 (drop counter keys)) w of
       (Inl x, w') \<Rightarrow> (Inl x, w')
     | (Inr _, w') \<Rightarrow> if counter + 1000 < length keys then removeFrom bk bucket keys (counter + 1000) w'
                      else (Inr True, w'))"
  by pat_completeness auto
termination by (relation "measure (\<lambda>(bk, bucket, keys, counter, w). length keys - counter)") auto

declare removeFrom.simps [simp del]

definition removeFiles :: "'w bucket_server \<Rightarrow> string \<Rightarrow> string list \<Rightarrow> (exn, 'w, bool) action" where
  "removeFiles bk bucket keys = removeFrom bk bucket keys 0"

partial_function (option) removeDirectory ::
  "'w bucket_server \<Rightarrow> string \<Rightarrow> string \<Rightarrow> 'w \<Rightarrow> ((exn, bool) res \<times> 'w) option" where
  "removeDirectory bk bucket directory w =
    (case bk_list bk bucket directory None w of
       (Inl x, w1) \<Rightarrow> Some (Inl x, w1)
     | (Inr ks, w1) \<Rightarrow>
         if ks = [] then Some (Inr True, w1)
         else (case bk_deleteMany bk bucket ks w1 of
                 (Inl x, w2) \<Rightarrow> Some (Inl x, w2)
               | (Inr _, w2) \<Rightarrow> removeDirectory bk bucket directory w2))"

section \<open>Links for uploads\<close>

definition generateUploadUrl :: "'w bucket_server \<Rightarrow> settings \<Rightarrow> string option \<Rightarrow> (exn, string) res" where
  "generateUploadUrl bk e fileName = (case fileName of
      None \<Rightarrow> Inl (ValidatorCodeException 422 FILE_NAME_NOT_PRESENT)
    | Some f \<Rightarrow> if f = [] then Inl (ValidatorCodeException 422 FILE_NAME_NOT_PRESENT)
               else generateSignedUploadURL bk (jsText (e ''IMAGE_BUCKET'')) (''upload/'' @ f))"

section \<open>One message to the queue\<close>

definition isLocal :: "settings \<Rightarrow> bool" where
  "isLocal e \<longleftrightarrow> e ''APP_ENV'' = Text ''test'' \<or> e ''APP_ENV'' = Text ''local''"

definition triggerWorkerSimpleQueue ::
  "(setting \<Rightarrow> string \<Rightarrow> 'm \<Rightarrow> int option \<Rightarrow> (exn, 'w, 'r) action) \<Rightarrow> settings \<Rightarrow> string \<Rightarrow> 'm \<Rightarrow> int option
    \<Rightarrow> (exn, 'w, 'r option) action" where
  "triggerWorkerSimpleQueue send e workerName d delay =
    (if isLocal e then returnW None
     else bindW (send (e ''AWS_WORKER_SQS_URL'') workerName d delay) (\<lambda>r. returnW (Some r)))"

section \<open>Removing files\<close>

text \<open>A server that writes down what it is asked to delete, to state what is sent.\<close>

fun batchesFrom :: "string list \<Rightarrow> nat \<Rightarrow> nat \<Rightarrow> string list list" where
  "batchesFrom keys counter 0 = []"
| "batchesFrom keys counter (Suc n) = take 1000 (drop counter keys) # batchesFrom keys (counter + 1000) n"

definition batchCount :: "nat \<Rightarrow> nat" where
  "batchCount n = (if n = 0 then 1 else (n + 999) div 1000)"

fun deleteAll :: "'w bucket_server \<Rightarrow> string \<Rightarrow> string list list \<Rightarrow> (exn, 'w, bool) action" where
  "deleteAll bk bucket [] = returnW True"
| "deleteAll bk bucket (b # bs) = bindW (bk_deleteMany bk bucket b) (\<lambda>_. deleteAll bk bucket bs)"

lemma batchCount_step: "1000 < n \<Longrightarrow> batchCount n = Suc (batchCount (n - 1000))"
proof -
  assume n: "1000 < n"
  then have "n + 999 = (n - 1000 + 999) + 1000" by simp
  then have "(n + 999) div 1000 = Suc ((n - 1000 + 999) div 1000)" by (metis div_add_self2 Suc_eq_plus1 numeral_neq_zero)
  then show ?thesis using n by (simp add: batchCount_def)
qed

lemma batchCount_one: "n \<le> 1000 \<Longrightarrow> batchCount n = 1"
proof -
  assume "n \<le> 1000"
  then have "n = 0 \<or> (1000 \<le> n + 999 \<and> n + 999 < 2000)" by auto
  then show ?thesis by (auto simp: batchCount_def div_nat_eqI)
qed

lemma removeFrom_batches:
  "removeFrom bk bucket keys counter =
     deleteAll bk bucket (batchesFrom keys counter (batchCount (length keys - counter)))"
proof (rule ext)
  fix w
  show "removeFrom bk bucket keys counter w =
      deleteAll bk bucket (batchesFrom keys counter (batchCount (length keys - counter))) w"
  proof (induction bk bucket keys counter w rule: removeFrom.induct)
    case (1 bk bucket keys counter w)
    show ?case
    proof (cases "counter + 1000 < length keys")
      case True
      then have "batchCount (length keys - counter) = Suc (batchCount (length keys - (counter + 1000)))"
        using batchCount_step [of "length keys - counter"] by simp
      then show ?thesis using 1 True
        by (subst removeFrom.simps) (auto simp: bindW_def split: prod.split sum.split)
    next
      case False
      then have "batchCount (length keys - counter) = 1" by (intro batchCount_one) simp
      then show ?thesis using False
        by (subst removeFrom.simps) (auto simp: act_defs split: prod.split sum.split)
    qed
  qed
qed

lemma batches_cover:
  "concat (batchesFrom keys counter n) = take (1000 * n) (drop counter keys)"
proof (induction n arbitrary: counter)
  case (Suc n)
  have "take 1000 (drop counter keys) @ take (1000 * n) (drop 1000 (drop counter keys))
      = take (1000 + 1000 * n) (drop counter keys)"
    by (rule take_add [symmetric])
  then show ?case using Suc by (simp add: add.commute)
qed simp

text \<open>
  Every key is sent once, in order, in requests of at most a thousand; an empty list
  still sends one request, with nothing in it.
\<close>

lemma removeFiles_sends_all:
  obtains bs where "removeFiles bk bucket keys = deleteAll bk bucket bs" and "concat bs = keys"
    and "list_all (\<lambda>b. length b \<le> 1000) bs" and "keys = [] \<longrightarrow> bs = [[]]"
proof
  let ?bs = "batchesFrom keys 0 (batchCount (length keys))"
  show "removeFiles bk bucket keys = deleteAll bk bucket ?bs"
    by (simp add: removeFiles_def removeFrom_batches)
  have "length keys \<le> 1000 * batchCount (length keys)" by (auto simp: batchCount_def)
  then show "concat ?bs = keys" by (simp add: batches_cover)
  have "list_all (\<lambda>b. length b \<le> 1000) (batchesFrom keys c n)" for c n by (induction n arbitrary: c) auto
  then show "list_all (\<lambda>b. length b \<le> 1000) ?bs" .
  show "keys = [] \<longrightarrow> ?bs = [[]]" by (simp add: batchCount_def)
qed

section \<open>Removing a directory\<close>

text \<open>While every deletion removes something of what is listed, the loop ends on an empty listing.\<close>

lemma removeDirectory_ends:
  fixes left :: "'w \<Rightarrow> nat"
  assumes "\<And>w. \<exists>ks. bk_list bk bucket directory None w = (Inr ks, w)"
    and "\<And>w ks. bk_list bk bucket directory None w = (Inr ks, w) \<Longrightarrow> ks \<noteq> [] \<Longrightarrow>
           \<exists>w'. bk_deleteMany bk bucket ks w = (Inr (), w') \<and> left w' < left w"
  shows "\<exists>w'. removeDirectory bk bucket directory w = Some (Inr True, w')
           \<and> bk_list bk bucket directory None w' = (Inr [], w')"
proof (induction "left w" arbitrary: w rule: less_induct)
  case less
  obtain ks where ks: "bk_list bk bucket directory None w = (Inr ks, w)" using assms(1) by blast
  show ?case
  proof (cases "ks = []")
    case True
    then show ?thesis using ks by (subst removeDirectory.simps) simp
  next
    case False
    then obtain w1 where w1: "bk_deleteMany bk bucket ks w = (Inr (), w1)" "left w1 < left w"
      using assms(2) [OF ks] by blast
    have "removeDirectory bk bucket directory w = removeDirectory bk bucket directory w1"
      using ks False w1(1) by (subst removeDirectory.simps) simp
    then show ?thesis using less [OF w1(2)] by simp
  qed
qed

lemma removeDirectory_listed:
  assumes "removeDirectory bk bucket directory w = Some r"
    and "\<And>w. bk_list bk bucket directory None w = (Inr ks, w)"
    and "\<And>w. \<exists>w'. bk_deleteMany bk bucket ks w = (Inr (), w')"
  shows "ks = []"
proof -
  define P where "P = (\<lambda>(b :: 'a bucket_server) (k :: string) (d :: string) (w :: 'a) (r :: (exn, bool) res \<times> 'a).
    b = bk \<longrightarrow> k = bucket \<longrightarrow> d = directory \<longrightarrow> ks = [])"
  have "P bk bucket directory w r"
  proof (rule removeDirectory.raw_induct [of P, OF _ assms(1)])
    fix loop :: "'a bucket_server \<Rightarrow> string \<Rightarrow> string \<Rightarrow> 'a \<Rightarrow> ((exn, bool) res \<times> 'a) option"
      and b k d w r
    assume IH: "\<And>b k d w r. loop b k d w = Some r \<Longrightarrow> P b k d w r"
      and body: "(case bk_list b k d None w of
            (Inl x, w1) \<Rightarrow> Some (Inl x, w1)
          | (Inr ks, w1) \<Rightarrow> if ks = [] then Some (Inr True, w1)
              else (case bk_deleteMany b k ks w1 of
                      (Inl x, w2) \<Rightarrow> Some (Inl x, w2) | (Inr _, w2) \<Rightarrow> loop b k d w2)) = Some r"
    show "P b k d w r"
      unfolding P_def
    proof (intro impI)
      assume eq: "b = bk" "k = bucket" "d = directory"
      obtain w' where "bk_deleteMany bk bucket ks w = (Inr (), w')" using assms(3) by blast
      then have "ks = [] \<or> loop bk bucket directory w' = Some r"
        using body assms(2) [of w] eq by (auto split: if_splits)
      then show "ks = []" using IH [of bk bucket directory w' r] by (auto simp: P_def)
    qed
  qed
  then show ?thesis by (simp add: P_def)
qed

text \<open>An object that is never deleted keeps the loop going for ever.\<close>

lemma removeDirectory_loops:
  assumes "\<And>w. bk_list bk bucket directory None w = (Inr ks, w)" and "ks \<noteq> []"
    and "\<And>w. \<exists>w'. bk_deleteMany bk bucket ks w = (Inr (), w')"
  shows "removeDirectory bk bucket directory w = None"
  using removeDirectory_listed [OF _ assms(1,3)] assms(2)
  by (cases "removeDirectory bk bucket directory w") auto

section \<open>Errors that are hidden\<close>

text \<open>A missing object and a server that refuses to say are told apart by nobody.\<close>

lemma exists_hides_errors:
  "bk_head bk bucket source w = (Inl x, w') \<Longrightarrow> objectExists bk bucket source w = (Inr False, w')"
  by (simp add: objectExists_def act_defs)

lemma local_triggers_nothing: "isLocal e \<Longrightarrow> triggerWorkerSimpleQueue send e n d delay w = (Inr None, w)"
  by (simp add: triggerWorkerSimpleQueue_def returnW_def)

end
