(* ===== verification/Spec2Isabelle.thy ===== *)
theory Spec2Isabelle
  imports Witnesses Witnesses_Services Witnesses_Proxy Witnesses_Lists Witnesses_Api Request_Models Token_Keys Social_Posts Proposal_Lists Connection_Pool Migrator Mailer Response_Cache Support Storage
begin

text \<open>
  A model of the Ignite prediction market API (\<open>src/src\<close>, TypeScript) and the
  theorems that say what its parts promise.

  The program.  An HTTP service (\<open>modules/\<close>) keeps prediction markets, users,
  comments, proposals and rewards in a MySQL database.  Workers (\<open>workers/\<close>, started
  by the framework of \<open>lib/worker/\<close>) and one indexer process per open market
  (\<open>indexer/\<close>) read the events of the market contracts block by block into the same
  database, ask Flare's data connector to attest the data sources of automatic
  markets, and finish markets through the oracle contract (\<open>lib/blockchain.ts\<close>,
  \<open>lib/flare/\<close>).  A proxy (\<open>proxy/\<close>) gives the attestation providers access to
  paid interfaces with keys that a worker deals out.  All parts meet in the rows of
  the database: a market's \<open>setStatus\<close> says who may touch it next, and
  \<open>lastProcessedBlock\<close> of a contract or a market says which block is read next.

  The model.  A handler is a function from the database to a result and the next
  database.  A throw is a value of a sum type (\<open>Prelude\<close>), a transaction is a
  function on a copy of the database that is committed or dropped (\<open>withTx\<close>,
  \<open>withTxA\<close> in \<open>Sql_Model\<close>), and \<open>openTx\<close> counts the connections that were taken
  from the pool and not given back.  What is not under \<open>src\<close> is an argument: the
  contracts and their events (\<open>vote_chain\<close>, \<open>claim_chain\<close>, \<open>factory_chain\<close>,
  \<open>market_chain\<close>, \<open>index_chain\<close>, \<open>market_factory\<close>), the attestation services
  (\<open>flare\<close>), the oracle (\<open>question_oracle\<close>, with a state of its own), moderation,
  message queue, mail, bucket, Redis, the language model, the platforms of social
  media and the cryptographic functions.  Nothing is assumed of them beyond the
  premises a theorem writes out.

  The theories, in the order of the code's layers.

  Ground.
  \<^item> \<open>Prelude\<close>: results, loops with awaits, lists of rows.  \<open>Effects\<close>: operations that
    throw and change a state at the same time.  \<open>Js_String\<close>, \<open>Js_Number\<close>: the strings
    and the numbers of JavaScript, the latter as rationals rounded to binary64.
  \<^item> \<open>Types_Config\<close>: \<open>config/types.ts\<close>, exceptions and the exception filter.
    \<open>Settings\<close>: \<open>config/env.ts\<close> and the secrets that replace its values.
  \<^item> \<open>Support\<close>: \<open>lib/utils.ts\<close>, the loggers and the life of a process.

  Persistence.
  \<^item> \<open>Sql_Model\<close>: \<open>lib/base-models\<close> and the transactions of \<open>lib/database/mysql.ts\<close>.
    The locale \<open>row_store\<close> states the laws of a model's table, \<open>tx_handler\<close> those of a
    request that runs in one transaction.  \<open>Sql_Params\<close>: named parameters.
    \<open>Connection_Pool\<close>: the pool behind a handle.  \<open>Sql_Utils\<close>, \<open>Sql_Joins\<close>: paging
    filters, outer joins and groups.  \<open>Migrator\<close>: migrations, seeds and their scripts.
  \<^item> \<open>Schema\<close>: one record per model class; the database is a record of tables.

  Services.
  \<^item> \<open>Market_Model\<close>, \<open>Prediction_Service\<close>: the prediction set module.  \<open>Market_Lists\<close>,
    \<open>Position_Lists\<close>: its lists.  \<open>Templates\<close>, \<open>Template_Data\<close>: markets from templates.
    \<open>Social_Posts\<close>: posts about a market.
  \<^item> \<open>Users\<close>, \<open>User_Service\<close>, \<open>Mailer\<close>: accounts, logins and the mails they send.
    \<open>Rewards\<close>: reward points; the locale \<open>points_ledger\<close> is what the other parts rely on
    when they award points.  \<open>Comments\<close>, \<open>Proposals\<close>, \<open>Proposal_Lists\<close>, \<open>Stats\<close>,
    \<open>Content_Services\<close>, \<open>Storage\<close>: the other modules.
  \<^item> \<open>Api_Routes\<close>: the routes of all controllers, the middlewares, the guards and the
    way of a request to its handler.  \<open>Request_Models\<close>: what the validation guard
    accepts.  \<open>Token_Keys\<close>: login tokens from their signature to the session.
    \<open>Response_Cache\<close>: answers kept in Redis.

  Workers and processes.
  \<^item> \<open>Jobs\<close>, \<open>Worker_Executor\<close>: the framework, its jobs and the queue.
  \<^item> \<open>Chain_Window\<close>, \<open>Chain_Parsers\<close>, \<open>Indexer\<close>: what reads contract events; the locale
    \<open>block_parser\<close> states the contract of a run (a window of confirmed blocks is
    processed whole and the cursor moves to its end, or nothing changes) and proves
    once that no block is lost or read twice.  \<open>Indexer_Planner\<close>: the processes of the
    open markets, as a step relation.
  \<^item> \<open>Blockchain\<close>: the worker that creates markets on chain.  \<open>Flare\<close>, \<open>Finalizers\<close>:
    attestations and the two workers that resolve markets; the locale \<open>market_sweep\<close>
    is the frame the two share.  \<open>Market_Workers\<close>: chances, prices and the health check.
  \<^item> \<open>Local_Cache\<close>, \<open>Proxy_Lock\<close>, \<open>Api_Proxy\<close>, \<open>Api_Keys\<close>: the proxy, its two caches and
    its keys.

  The whole.
  \<^item> \<open>Lifecycle\<close>: the life of a market as an abstract relation on its status and its
    winner, and the proof that every operation of every part refines it; the locale
    \<open>effect\<close> carries a relation on databases through loops and transactions.
    \<open>System\<close>: all operations as one step relation; what holds over any interleaving.
  \<^item> \<open>Examples\<close> and the theories \<open>Witnesses\<close>, \<open>Witnesses_Services\<close>, \<open>Witnesses_Lists\<close>,
    \<open>Witnesses_Proxy\<close>, \<open>Witnesses_Api\<close>: a small database and chains, and one closed
    instance of every property that has hypotheses.

  What the lemmas show.
  \<^item> For every service operation that changes state: what it writes on success, and
    that a failure changes nothing that is committed.
  \<^item> For the readers of the chain: over any sequence of runs and any behaviour of the
    chain the blocks behind the cursor were processed exactly once.
  \<^item> For resolution: a market is finalized only on verified proofs or by its admin's
    choice, and on the oracle's answer.
  \<^item> For the whole: every step of the system is a step of the abstract life of every
    market; over any interleaving the tables keep their keys and a finalized market
    keeps a winner.
  \<^item> For the lists: each is one list cut into pages, with each row once and a total
    that counts it.
  \<^item> For requests: what changes the database went through the guards of its route, and
    markets are changed on behalf of a live administrator only.
  \<^item> For the proxy: its memory refines a list in the order of use; at most one instance
    fetches a key at a time; waiting ends.
  \<^item> For the clients of services (mail, bucket, Redis, social media, migrations): what a
    failure of the service does to the answer and to the state that is kept.
  Many theorems record what the code does where that is not what it means to do (a
  queue failure that leaves a market PENDING, a forced voting that undoes a
  finalization, a claim that blocks its parser, two parsers for a market, a handle
  that stays with the first database, cache keys that no invalidation finds): they
  are listed as findings.

  Bounds and loops.  Token amounts, block numbers and dates are unbounded integers, as
  in the DECIMAL and BIGINT columns; the indexer's prices and the chances, which the
  code computes in JavaScript numbers, are rounded to 53 bits without overflow to
  infinity.  No definition uses fuel.  Loops over lists are structural; waiting for
  another instance (\<open>waitLoop\<close>) and sending files to deletion (\<open>removeFrom\<close>) have
  termination proofs; a loop that may not end (\<open>splitArray\<close>, \<open>runWithWorkers\<close>,
  \<open>removeDirectory\<close>) is an optional value, with lemmas for when it returns and when it
  does not.  The endless loop of a market's process is modelled by its single turn and
  any sequence of turns.

  Not modelled: the interfaces of the contracts (\<open>lib/abis.ts\<close>, \<open>lib/flare/abis.ts\<close>),
  which are data for a library; the data definition scripts of \<open>migration-scripts\<close>; the
  scripts of \<open>scripts/dev\<close>, which call modelled operations with fixed data; the shape of
  successful answers and the texts sent to Slack, to the console and to the language model; the
  validators that are regular expressions over URLs and mail addresses, which are
  parameters where a model uses them; and the isolation level of the database
  (operations of a transaction run undisturbed; a race is stated as the order of two
  operations' steps).
\<close>

end
